(* ===== verification/Harness_Prelude.thy ===== *)
theory Harness_Prelude
  imports Main "HOL-Library.Char_ord" "HOL-Library.List_Lexorder"
begin

text \<open>
  The vocabulary every component theory shares: exceptions as values, the sequencing of fallible
  steps, the Python string predicates the sources use, association lists kept in key order (the
  model of a Python dict), and the generic lemmas that carry the component proofs.

  A Python \<^verbatim>\<open>str\<close> is a \<^typ>\<open>string\<close>: one \<^typ>\<open>char\<close> per code point, so the
  modelled text is the Latin-1 range of Unicode and \<^const>\<open>length\<close> is Python's \<^verbatim>\<open>len\<close>.
\<close>

section \<open>Exceptions as values\<close>

text \<open>One constructor per exception class the modelled code raises; the argument is the message.\<close>

datatype py_error =
    ValueError string
  | TypeError string
  | KeyError string
  | AssertionError string
  | IntegrityError string
  | RuntimeError string
  | OverflowError string
  | LeaseError string
  | IdempotencyConflictError string
  | WorkerError string
  | StaleAttemptError string
  | TaskOutcomeAuthorityError string
  | TaskOutcomeConflictError string
  | ControlTaskOutcomeError string
  | VerificationBindingError string
  | ProtocolError string
  | ToolError string
  | ProviderError string
  | DeadlineExceeded string
  | CandidateError string
  | RunStoreError string
  | KnowledgeIndexError string
  | KnowledgeIndexConflict string
  | KnowledgeGraphError string

type_synonym 'a result = "py_error + 'a"

named_theorems result_simps \<open>inversion rules for fallible steps that succeed\<close>
named_theorems wire_simps \<open>decoding rules of the wire contracts\<close>

definition bindE :: "'e + 'a \<Rightarrow> ('a \<Rightarrow> 'e + 'b) \<Rightarrow> 'e + 'b" where
  "bindE m f = (case m of Inl e \<Rightarrow> Inl e | Inr x \<Rightarrow> f x)"

lemma bindE_Inl [simp]: "bindE (Inl e) f = Inl e"
  by (simp add: bindE_def)

lemma bindE_Inr [simp]: "bindE (Inr x) f = f x"
  by (simp add: bindE_def)

lemma bindE_eq_Inr [result_simps]: "bindE m f = Inr y \<longleftrightarrow> (\<exists>x. m = Inr x \<and> f x = Inr y)"
  by (cases m) auto

lemma bindE_cong [fundef_cong]:
  "m = m' \<Longrightarrow> (\<And>x. m' = Inr x \<Longrightarrow> f x = g x) \<Longrightarrow> bindE m f = bindE m' g"
  by (cases m') auto

lemma if_Inl_eq_Inr [result_simps]: "(if b then Inl e else m) = Inr y \<longleftrightarrow> \<not> b \<and> m = Inr y"
  by simp

lemma if_Inr_Inl_eq_Inr [result_simps]: "(if b then m else Inl e) = Inr y \<longleftrightarrow> b \<and> m = Inr y"
  by simp

text \<open>\<open>tuple(f(x) for x in xs)\<close>: left to right, stopping at the first exception.\<close>

fun mapE :: "('a \<Rightarrow> 'e + 'b) \<Rightarrow> 'a list \<Rightarrow> 'e + 'b list" where
  "mapE f [] = Inr []"
| "mapE f (x # xs) = bindE (f x) (\<lambda>y. bindE (mapE f xs) (\<lambda>ys. Inr (y # ys)))"

lemma mapE_cong [fundef_cong]:
  "xs = ys \<Longrightarrow> (\<And>x. x \<in> set ys \<Longrightarrow> f x = g x) \<Longrightarrow> mapE f xs = mapE g ys"
  by (induction ys arbitrary: xs) auto

lemma mapE_Inr_map: "(\<And>x. x \<in> set xs \<Longrightarrow> f (g x) = Inr (h x)) \<Longrightarrow> mapE f (map g xs) = Inr (map h xs)"
  by (induction xs) auto

lemma mapE_Inr_id: "(\<And>x. x \<in> set xs \<Longrightarrow> f (g x) = Inr x) \<Longrightarrow> mapE f (map g xs) = Inr xs"
  using mapE_Inr_map [of xs f g "\<lambda>x. x"] by simp

lemma mapE_eq_Inr: "mapE f xs = Inr ys \<longleftrightarrow> list_all2 (\<lambda>x y. f x = Inr y) xs ys"
  by (induction xs arbitrary: ys) (auto simp: bindE_eq_Inr list_all2_Cons1)

lemma mapE_list_all: "mapE f xs = Inr ys \<Longrightarrow> (\<And>x y. x \<in> set xs \<Longrightarrow> f x = Inr y \<Longrightarrow> Q y) \<Longrightarrow> list_all Q ys"
proof (induction xs arbitrary: ys)
  case (Cons x xs)
  then obtain z zs where ys: "ys = z # zs" and z: "f x = Inr z" and zs: "mapE f xs = Inr zs"
    by (auto simp: bindE_eq_Inr)
  have "list_all Q zs" using zs by (rule Cons.IH) (meson Cons.prems(2) list.set_intros(2))
  moreover have "Q z" using Cons.prems(2) z by (meson list.set_intros(1))
  ultimately show ?case using ys by simp
qed simp

text \<open>The loop \<open>for x in xs: check(x)\<close>, where the check returns nothing or raises.\<close>

fun checkE :: "('a \<Rightarrow> 'e + unit) \<Rightarrow> 'a list \<Rightarrow> 'e + unit" where
  "checkE f [] = Inr ()"
| "checkE f (x # xs) = bindE (f x) (\<lambda>_. checkE f xs)"

lemma checkE_eq_Inr [simp]: "checkE f xs = Inr u \<longleftrightarrow> (\<forall>x\<in>set xs. f x = Inr ())"
  by (induction xs) (auto simp: bindE_eq_Inr)

section \<open>Python strings\<close>

text \<open>\<open>str.isspace\<close> on the Latin-1 code points.\<close>

definition py_isspace :: "char \<Rightarrow> bool" where
  "py_isspace c = (let n = (of_char c :: nat) in
     (9 \<le> n \<and> n \<le> 13) \<or> (28 \<le> n \<and> n \<le> 32) \<or> n = 133 \<or> n = 160)"

definition py_ord :: "char \<Rightarrow> nat" where
  "py_ord c = of_char c"

definition py_strip :: "string \<Rightarrow> string" where
  "py_strip s = rev (dropWhile py_isspace (rev (dropWhile py_isspace s)))"

definition is_digit :: "char \<Rightarrow> bool" where
  "is_digit c \<longleftrightarrow> 48 \<le> py_ord c \<and> py_ord c \<le> 57"

definition is_lower_hex :: "char \<Rightarrow> bool" where
  "is_lower_hex c \<longleftrightarrow> is_digit c \<or> (97 \<le> py_ord c \<and> py_ord c \<le> 102)"

definition is_ascii_alnum :: "char \<Rightarrow> bool" where
  "is_ascii_alnum c \<longleftrightarrow> is_digit c \<or> (65 \<le> py_ord c \<and> py_ord c \<le> 90) \<or> (97 \<le> py_ord c \<and> py_ord c \<le> 122)"

text \<open>The regular expression \<^verbatim>\<open>sha256:[0-9a-f]{64}\<close>, matched in full.\<close>

definition is_sha256 :: "string \<Rightarrow> bool" where
  "is_sha256 s \<longleftrightarrow> take 7 s = ''sha256:'' \<and> length s = 71 \<and> list_all is_lower_hex (drop 7 s)"

text \<open>The regular expression \<^verbatim>\<open>[A-Za-z0-9][A-Za-z0-9._-]{0,n}\<close>, matched in full.\<close>

definition is_safe_id :: "nat \<Rightarrow> string \<Rightarrow> bool" where
  "is_safe_id n s = (case s of [] \<Rightarrow> False
     | c # cs \<Rightarrow> is_ascii_alnum c \<and> length cs \<le> n \<and>
         list_all (\<lambda>d. is_ascii_alnum d \<or> d \<in> set ''._-'') cs)"

lemma dropWhile_id: "list_all (\<lambda>x. \<not> P x) xs \<Longrightarrow> dropWhile P xs = xs"
  by (cases xs) auto

lemma py_strip_id: "list_all (\<lambda>c. \<not> py_isspace c) s \<Longrightarrow> py_strip s = s"
  by (simp add: py_strip_def dropWhile_id list_all_rev)

lemma dropWhile_idem [simp]: "dropWhile P (dropWhile P xs) = dropWhile P xs"
  by (induction xs) auto

lemma dropWhile_snoc: "\<not> P y \<Longrightarrow> dropWhile P (xs @ [y]) = dropWhile P xs @ [y]"
  by (induction xs) auto

lemma dropWhile_rev_dropWhile_hd:
  "dropWhile P (rev (dropWhile P (rev (dropWhile P xs)))) = rev (dropWhile P (rev (dropWhile P xs)))"
proof (cases "dropWhile P xs")
  case Nil
  then show ?thesis by (simp only: rev.simps dropWhile.simps)
next
  case (Cons y ys)
  then have "\<not> P y" by (metis hd_dropWhile list.distinct(1) list.sel(1))
  then show ?thesis by (simp add: Cons dropWhile_snoc)
qed

lemma py_strip_idem [simp]: "py_strip (py_strip s) = py_strip s"
  by (simp add: py_strip_def dropWhile_rev_dropWhile_hd)

section \<open>Decimal numerals\<close>

text \<open>\<open>str(n)\<close> of a non-negative integer, and the padded \<^verbatim>\<open>{n:04d}\<close>.\<close>

definition digit_char :: "nat \<Rightarrow> char" where
  "digit_char d = (if d < 10 then char_of (48 + d) else char_of (87 + d))"

fun show_nat :: "nat \<Rightarrow> string" where
  "show_nat n = (if n < 10 then [digit_char n] else show_nat (n div 10) @ [digit_char (n mod 10)])"

declare show_nat.simps [simp del]

definition show_int :: "int \<Rightarrow> string" where
  "show_int i = (if i < 0 then CHR ''-'' # show_nat (nat (- i)) else show_nat (nat i))"

definition pad4 :: "string \<Rightarrow> string" where
  "pad4 s = replicate (4 - length s) (CHR ''0'') @ s"

text \<open>Reading the digits back: \<open>int(s)\<close> on a run of decimal digits.\<close>

definition digit_val :: "char \<Rightarrow> nat" where
  "digit_val c = py_ord c - 48"

definition read_nat :: "string \<Rightarrow> nat" where
  "read_nat s = foldl (\<lambda>n c. 10 * n + digit_val c) 0 s"

lemma py_ord_char_of [simp]: "n < 256 \<Longrightarrow> py_ord (char_of n) = n"
  by (simp add: py_ord_def)

lemma digit_char_small: "d < 10 \<Longrightarrow> is_digit (digit_char d) \<and> digit_val (digit_char d) = d"
  by (simp add: digit_char_def is_digit_def digit_val_def)

lemma show_nat_digits: "list_all is_digit (show_nat n)"
proof (induction n rule: show_nat.induct)
  case (1 n)
  then show ?case
    by (subst show_nat.simps) (auto simp: digit_char_small)
qed

lemma show_nat_nonempty [simp]: "show_nat n \<noteq> []"
  by (subst show_nat.simps) simp

lemma read_nat_snoc: "read_nat (s @ [c]) = 10 * read_nat s + digit_val c"
  by (simp add: read_nat_def)

lemma read_show_nat [simp]: "read_nat (show_nat n) = n"
proof (induction n rule: show_nat.induct)
  case (1 n)
  then show ?case
    by (subst show_nat.simps) (auto simp: read_nat_snoc digit_char_small read_nat_def)
qed

lemma read_nat_zeros: "read_nat (replicate n (CHR ''0'') @ s) = read_nat s"
proof -
  have "foldl (\<lambda>n c. 10 * n + digit_val c) 0 (replicate n (CHR ''0'')) = (0::nat)"
    by (induction n) (auto simp: digit_val_def py_ord_def)
  then show ?thesis by (simp add: read_nat_def)
qed

lemma show_nat_length: "n < 10 ^ k \<Longrightarrow> 0 < k \<Longrightarrow> length (show_nat n) \<le> k"
proof (induction n arbitrary: k rule: show_nat.induct)
  case (1 n)
  show ?case
  proof (cases "n < 10")
    case False
    then have "k \<noteq> 1" using 1(2) by auto
    with 1(3) obtain m where k: "k = Suc m" "0 < m" by (cases k) auto
    have "n div 10 < 10 ^ m" using 1(2) k by (simp add: less_mult_imp_div_less mult.commute)
    from 1(1) [OF False this k(2)] False k show ?thesis by (subst show_nat.simps) simp
  qed (use 1 in \<open>subst show_nat.simps, simp\<close>)
qed

lemma pad4_digits: "list_all is_digit (pad4 (show_nat n))"
proof -
  have "is_digit (CHR ''0'')" by code_simp
  then show ?thesis using show_nat_digits [of n] by (auto simp: pad4_def list_all_iff)
qed

lemma read_pad4 [simp]: "read_nat (pad4 (show_nat n)) = n"
  by (simp add: pad4_def read_nat_zeros)
lemma show_nat_inj: "show_nat m = show_nat n \<longleftrightarrow> m = n"
  by (metis read_show_nat)

text \<open>No leading zero, which is what the JSON number grammar asks for.\<close>

lemma show_nat_leading: "show_nat n = c # cs \<Longrightarrow> c = CHR ''0'' \<Longrightarrow> n = 0 \<and> cs = []"
proof (induction n arbitrary: c cs rule: show_nat.induct)
  case (1 n)
  show ?case
  proof (cases "n < 10")
    case True
    with "1.prems" have c: "digit_char n = CHR ''0''" and cs: "cs = []"
      by (auto simp: show_nat.simps [of n])
    from c True have "n = digit_val (CHR ''0'')"
      by (metis digit_char_small)
    with cs show ?thesis by (simp add: digit_val_def py_ord_def)
  next
    case False
    with "1.prems"(1) have "show_nat (n div 10) @ [digit_char (n mod 10)] = c # cs"
      by (simp add: show_nat.simps [of n])
    then obtain cs' where "show_nat (n div 10) = c # cs'"
      by (metis append_eq_Cons_conv show_nat_nonempty)
    from "1.IH" [OF False this "1.prems"(2)] have "n div 10 = 0" by blast
    with False show ?thesis by presburger
  qed
qed

section \<open>Text of a string and POSIX paths\<close>

text \<open>\<open>repr(s)\<close> of a string, used in error messages.\<close>

definition hex_pair :: "nat \<Rightarrow> string" where
  "hex_pair n = [digit_char (n div 16), digit_char (n mod 16)]"

definition repr_char :: "char \<Rightarrow> char \<Rightarrow> string" where
  "repr_char quote c =
     (if c = quote \<or> c = CHR 0x5C then [CHR 0x5C, c]
      else if c = CHR 0x0A then [CHR 0x5C, CHR ''n'']
      else if c = CHR 0x0D then [CHR 0x5C, CHR ''r'']
      else if c = CHR 0x09 then [CHR 0x5C, CHR ''t'']
      else if py_ord c < 32 \<or> (127 \<le> py_ord c \<and> py_ord c \<le> 160) \<or> py_ord c = 173
      then CHR 0x5C # CHR ''x'' # hex_pair (py_ord c)
      else [c])"

definition py_repr :: "string \<Rightarrow> string" where
  "py_repr s = (let quote = (if CHR 0x27 \<in> set s \<and> CHR 0x22 \<notin> set s then CHR 0x22 else CHR 0x27)
     in quote # concat (map (repr_char quote) s) @ [quote])"

text \<open>
  \<open>PurePosixPath(path)\<close>: the root (one slash, or exactly two), and the components with empty and
  dot components dropped; \<open>as_posix\<close> is the root with the components joined by slashes.
\<close>

fun split_slash :: "string \<Rightarrow> string list" where
  "split_slash [] = [[]]"
| "split_slash (c # s) = (if c = CHR ''/'' then [] # split_slash s
     else case split_slash s of p # ps \<Rightarrow> (c # p) # ps | [] \<Rightarrow> [[c]])"

definition posix_root :: "string \<Rightarrow> string" where
  "posix_root path = (if take 2 path = ''//'' \<and> take 3 path \<noteq> ''///'' then ''//''
     else if take 1 path = ''/'' then ''/'' else [])"

definition posix_parts :: "string \<Rightarrow> string list" where
  "posix_parts path = filter (\<lambda>p. p \<noteq> [] \<and> p \<noteq> ''.'') (split_slash path)"

fun join_with :: "string \<Rightarrow> string list \<Rightarrow> string" where
  "join_with sep [] = []"
| "join_with sep [s] = s"
| "join_with sep (s # ss) = s @ sep @ join_with sep ss"

definition as_posix :: "string \<Rightarrow> string" where
  "as_posix path = (let text = posix_root path @ join_with ''/'' (posix_parts path) in if text = [] then ''.'' else text)"

text \<open>The test the contracts apply to a relative path: not absolute, in normal form, no parent component.\<close>

definition safe_relative :: "string \<Rightarrow> bool" where
  "safe_relative path \<longleftrightarrow> \<not> (CHR 0x5C \<in> set path \<or> posix_root path \<noteq> [] \<or> as_posix path \<noteq> path
     \<or> (\<exists>p\<in>set (posix_parts path). p \<in> {[], ''.'', ''..''}))"

section \<open>Dictionaries\<close>

text \<open>
  A Python dict is its list of items in increasing key order. Insertion order is never observed by
  the modelled code (lookup, key-set comparison, equality, serialisation with sorted keys), so this
  canonical list makes equality of models the equality of the dicts. \<open>dict_set\<close> is
  \<open>d[k] = v\<close> and \<open>py_dict\<close> is the dict display or the loop that fills a dict.
\<close>

fun dict_set :: "'k::linorder \<Rightarrow> 'v \<Rightarrow> ('k \<times> 'v) list \<Rightarrow> ('k \<times> 'v) list" where
  "dict_set k v [] = [(k, v)]"
| "dict_set k v ((k', v') # d) =
     (if k < k' then (k, v) # (k', v') # d
      else if k = k' then (k, v) # d
      else (k', v') # dict_set k v d)"

definition py_dict :: "('k::linorder \<times> 'v) list \<Rightarrow> ('k \<times> 'v) list" where
  "py_dict kvs = fold (\<lambda>(k, v). dict_set k v) kvs []"

definition dict_ok :: "('k::linorder \<times> 'v) list \<Rightarrow> bool" where
  "dict_ok d \<longleftrightarrow> sorted_wrt (<) (map fst d)"

lemma keys_dict_set [simp]: "fst ` set (dict_set k v d) = insert k (fst ` set d)"
  by (induction k v d rule: dict_set.induct) auto

lemma set_dict_set_subset: "set (dict_set k v d) \<subseteq> insert (k, v) (set d)"
  by (induction k v d rule: dict_set.induct) auto

lemma map_of_dict_set: "map_of (dict_set k v d) = (map_of d)(k \<mapsto> v)"
  if "dict_ok d"
  using that
proof (induction d)
  case (Cons p d)
  obtain k' v' where p: "p = (k', v')" by (cases p)
  from Cons.prems p have d: "dict_ok d" and above: "\<forall>x\<in>fst ` set d. k' < x"
    by (auto simp: dict_ok_def)
  then have "k < k' \<Longrightarrow> map_of d k = None"
    by (metis map_of_eq_None_iff order.asym)
  with Cons.IH [OF d] p show ?case by (auto simp: fun_eq_iff)
qed simp

lemma dict_ok_dict_set: "dict_ok d \<Longrightarrow> dict_ok (dict_set k v d)"
proof (induction d)
  case (Cons p d)
  obtain k' v' where p: "p = (k', v')" by (cases p)
  with Cons have "dict_ok (dict_set k v d)" by (simp add: dict_ok_def)
  moreover have "\<forall>x\<in>fst ` set (dict_set k v d). k' < x" if "k' < k"
    using Cons.prems p that by (auto simp: dict_ok_def)
  ultimately show ?case using Cons.prems p
    by (auto simp: dict_ok_def not_less le_less)
qed (simp add: dict_ok_def)

lemma dict_ok_Nil [simp]: "dict_ok []"
  by (simp add: dict_ok_def)

lemma dict_ok_distinct: "dict_ok d \<Longrightarrow> distinct (map fst d)"
  by (simp add: dict_ok_def strict_sorted_iff)

lemma dict_fold:
  assumes "dict_ok d"
  shows "dict_ok (fold (\<lambda>(k, v). dict_set k v) kvs d)"
    and "fst ` set (fold (\<lambda>(k, v). dict_set k v) kvs d) = fst ` set d \<union> fst ` set kvs"
    and "map_of (fold (\<lambda>(k, v). dict_set k v) kvs d) = map_of d ++ map_of (rev kvs)"
  using assms
proof (induction kvs arbitrary: d)
  case (Cons p kvs)
  {
    case 1
    with Cons show ?case by (auto simp: dict_ok_dict_set split: prod.splits)
  next
    case 2
    with Cons show ?case by (auto simp: dict_ok_dict_set split: prod.splits)
  next
    case 3
    with Cons show ?case
      by (auto simp: dict_ok_dict_set map_of_dict_set map_add_def fun_eq_iff
          split: prod.splits option.splits)
  }
qed auto

lemma map_of_rev_distinct: "distinct (map fst kvs) \<Longrightarrow> map_of (rev kvs) = map_of kvs"
  by (rule map_of_inject_set [THEN iffD2]) (auto simp: rev_map [symmetric])

lemma dict_ok_py_dict [simp]: "dict_ok (py_dict kvs)"
  by (simp add: py_dict_def dict_fold)

lemma keys_py_dict [simp]: "fst ` set (py_dict kvs) = fst ` set kvs"
  by (simp add: py_dict_def dict_fold)

lemma map_of_py_dict: "map_of (py_dict kvs) = map_of (rev kvs)"
  by (simp add: py_dict_def dict_fold)

lemma map_of_py_dict_distinct [wire_simps]: "distinct (map fst kvs) \<Longrightarrow> map_of (py_dict kvs) = map_of kvs"
  by (simp add: map_of_py_dict map_of_rev_distinct)

lemma set_py_dict_subset: "set (py_dict kvs) \<subseteq> set kvs"
proof -
  have "set (fold (\<lambda>(k, v). dict_set k v) kvs d) \<subseteq> set kvs \<union> set d" for d
  proof (induction kvs arbitrary: d)
    case (Cons p kvs)
    have "set (fold (\<lambda>(k, v). dict_set k v) kvs (dict_set (fst p) (snd p) d))
        \<subseteq> set kvs \<union> set (dict_set (fst p) (snd p) d)"
      by (rule Cons.IH)
    also have "\<dots> \<subseteq> set (p # kvs) \<union> set d"
      using set_dict_set_subset [of "fst p" "snd p" d] by auto
    finally show ?case by (simp add: case_prod_unfold)
  qed simp
  from this [of "[]"] show ?thesis by (simp add: py_dict_def)
qed

lemma dict_set_above:
  "\<forall>x\<in>fst ` set d. x < k \<Longrightarrow> dict_set k v d = d @ [(k, v)]"
  by (induction d) auto

lemma py_dict_ordered: "dict_ok kvs \<Longrightarrow> py_dict kvs = kvs"
proof (induction kvs rule: rev_induct)
  case (snoc p kvs)
  then have "dict_ok kvs" and "\<forall>x\<in>fst ` set kvs. x < fst p"
    by (auto simp: dict_ok_def sorted_wrt_append)
  with snoc.IH show ?case
    by (cases p) (simp add: py_dict_def dict_set_above)
qed (simp add: py_dict_def)

section \<open>Lists\<close>

lemma list_all_mono: "list_all P xs \<Longrightarrow> (\<And>x. x \<in> set xs \<Longrightarrow> P x \<Longrightarrow> Q x) \<Longrightarrow> list_all Q xs"
  by (simp add: list_all_iff)

end
