(* ===== verification/Sha256.thy ===== *)
theory Sha256
  imports Harness_Prelude "HOL-Library.Word"
begin

text \<open>
  \<^verbatim>\<open>hashlib.sha256(data).hexdigest()\<close> of the Python standard library (FIPS 180-4), the content
  digest of every contract, as an executable function from bytes (a \<^typ>\<open>string\<close>) to 64 lower-case
  hexadecimal digits. The 32-bit words are \<^typ>\<open>32 word\<close>, whose addition wraps as the standard asks.
\<close>

unbundle bit_operations_syntax

definition sha_k :: "32 word list" where
  "sha_k =
    [1116352408, 1899447441, 3049323471, 3921009573, 961987163, 1508970993, 2453635748, 2870763221,
     3624381080, 310598401, 607225278, 1426881987, 1925078388, 2162078206, 2614888103, 3248222580,
     3835390401, 4022224774, 264347078, 604807628, 770255983, 1249150122, 1555081692, 1996064986,
     2554220882, 2821834349, 2952996808, 3210313671, 3336571891, 3584528711, 113926993, 338241895,
     666307205, 773529912, 1294757372, 1396182291, 1695183700, 1986661051, 2177026350, 2456956037,
     2730485921, 2820302411, 3259730800, 3345764771, 3516065817, 3600352804, 4094571909, 275423344,
     430227734, 506948616, 659060556, 883997877, 958139571, 1322822218, 1537002063, 1747873779,
     1955562222, 2024104815, 2227730452, 2361852424, 2428436474, 2756734187, 3204031479, 3329325298]"

definition sha_init :: "32 word list" where
  "sha_init =
    [1779033703, 3144134277, 1013904242, 2773480762, 1359893119, 2600822924, 528734635, 1541459225]"

definition ror32 :: "nat \<Rightarrow> 32 word \<Rightarrow> 32 word" where
  "ror32 n x = drop_bit n x OR push_bit (32 - n) x"

definition small_sigma0 :: "32 word \<Rightarrow> 32 word" where
  "small_sigma0 x = ror32 7 x XOR ror32 18 x XOR drop_bit 3 x"

definition small_sigma1 :: "32 word \<Rightarrow> 32 word" where
  "small_sigma1 x = ror32 17 x XOR ror32 19 x XOR drop_bit 10 x"

definition big_sigma0 :: "32 word \<Rightarrow> 32 word" where
  "big_sigma0 x = ror32 2 x XOR ror32 13 x XOR ror32 22 x"

definition big_sigma1 :: "32 word \<Rightarrow> 32 word" where
  "big_sigma1 x = ror32 6 x XOR ror32 11 x XOR ror32 25 x"

text \<open>The message schedule: sixteen words of the block, extended to sixty-four.\<close>

primrec sha_schedule :: "nat \<Rightarrow> 32 word list \<Rightarrow> 32 word list" where
  "sha_schedule 0 w = w"
| "sha_schedule (Suc n) w = (let t = length w in
     sha_schedule n (w @ [small_sigma1 (w ! (t - 2)) + w ! (t - 7) + small_sigma0 (w ! (t - 15)) + w ! (t - 16)]))"

fun sha_round :: "32 word \<times> 32 word \<Rightarrow> 32 word list \<Rightarrow> 32 word list" where
  "sha_round (k, w) [a, b, c, d, e, f, g, h] =
     (let t1 = h + big_sigma1 e + ((e AND f) XOR (NOT e AND g)) + k + w;
          t2 = big_sigma0 a + ((a AND b) XOR (a AND c) XOR (b AND c))
      in [t1 + t2, a, b, c, d + t1, e, f, g])"
| "sha_round _ s = s"

definition word_of_bytes :: "nat list \<Rightarrow> 32 word" where
  "word_of_bytes bs = foldl (\<lambda>w b. push_bit 8 w OR of_nat b) 0 bs"

fun chunk_bytes :: "nat \<Rightarrow> nat list \<Rightarrow> nat list list" where
  "chunk_bytes n xs = (if n = 0 \<or> xs = [] then [] else take n xs # chunk_bytes n (drop n xs))"

declare chunk_bytes.simps [simp del]

definition sha_block :: "nat list \<Rightarrow> 32 word list \<Rightarrow> 32 word list" where
  "sha_block block s =
     map2 (+) s (fold sha_round (zip sha_k (sha_schedule 48 (map word_of_bytes (chunk_bytes 4 block)))) s)"

definition sha_pad :: "nat list \<Rightarrow> nat list" where
  "sha_pad bs = bs @ [128] @ replicate (nat ((55 - int (length bs)) mod 64)) 0 @
     map (\<lambda>i. nat (8 * int (length bs) div 256 ^ (7 - i) mod 256)) [0..<8]"

definition sha256_words :: "nat list \<Rightarrow> 32 word list" where
  "sha256_words bs = fold sha_block (chunk_bytes 64 (sha_pad bs)) sha_init"

definition hex8 :: "32 word \<Rightarrow> string" where
  "hex8 w = map (\<lambda>i. digit_char (unat (drop_bit (4 * (7 - i)) w AND 15))) [0..<8]"

definition sha256_hexdigest :: "string \<Rightarrow> string" where
  "sha256_hexdigest s = concat (map hex8 (sha256_words (map py_ord s)))"

lemma length_sha_round: "length s = 8 \<Longrightarrow> length (sha_round kw s) = 8"
  by (cases "(kw, s)" rule: sha_round.cases) (auto simp: Let_def)

lemma length_sha_rounds: "length s = 8 \<Longrightarrow> length (fold sha_round kws s) = 8"
  by (induction kws arbitrary: s) (auto simp: length_sha_round)

lemma length_sha_blocks: "length s = 8 \<Longrightarrow> length (fold sha_block blocks s) = 8"
  by (induction blocks arbitrary: s) (auto simp: sha_block_def length_sha_rounds)

lemma digit_char_hex: "d < 16 \<Longrightarrow> is_lower_hex (digit_char d)"
  by (auto simp: digit_char_def is_lower_hex_def is_digit_def)

lemma unat_nibble: "unat (x AND (15 :: 32 word)) < 16"
proof -
  have "x AND 15 = take_bit 4 x" by (simp add: take_bit_eq_mask mask_eq_exp_minus_1)
  then show ?thesis using take_bit_nat_less_exp [of 4 "unat x"] by (simp only: unsigned_take_bit_eq) simp
qed

lemma hex8_format: "length (hex8 w) = 8 \<and> list_all is_lower_hex (hex8 w)"
  by (auto simp: hex8_def list_all_iff unat_nibble intro!: digit_char_hex)

lemma length_concat_const: "(\<forall>x\<in>set xs. length x = n) \<Longrightarrow> length (concat xs) = length xs * n"
  by (induction xs) auto

lemma sha256_hexdigest_format:
  "length (sha256_hexdigest s) = 64" "list_all is_lower_hex (sha256_hexdigest s)"
proof -
  have "length (sha256_words bs) = 8" for bs
    by (simp add: sha256_words_def length_sha_blocks sha_init_def)
  then show "length (sha256_hexdigest s) = 64"
    by (simp add: sha256_hexdigest_def hex8_format length_concat_const [of _ 8])
  show "list_all is_lower_hex (sha256_hexdigest s)"
    using hex8_format by (auto simp: sha256_hexdigest_def list_all_iff)
qed

end
