(* ===== verification/Py_Float.thy ===== *)
theory Py_Float
  imports Harness_Prelude Complex_Main "HOL-Library.Log_Nat"
begin

text \<open>
  The Python \<^verbatim>\<open>float\<close>: IEEE 754 binary64 with round-to-nearest-even, the shortest round-tripping
  \<^verbatim>\<open>repr\<close> and the conversion of a decimal lexeme. A finite value is its exact rational (the two
  zeros coincide). Lease clocks and command timeouts are values of this type, so a sum of two of
  them is rounded as the interpreter rounds it.
\<close>

datatype pyfloat = Finite rat | PosInf | NegInf | NaN

definition pow2 :: "int \<Rightarrow> rat" where
  "pow2 e = (if 0 \<le> e then 2 ^ nat e else 1 / 2 ^ nat (- e))"

definition pow10 :: "int \<Rightarrow> rat" where
  "pow10 e = (if 0 \<le> e then 10 ^ nat e else 1 / 10 ^ nat (- e))"

text \<open>The position of the leading binary (decimal) digit of a positive rational.\<close>

definition lead2 :: "rat \<Rightarrow> int" where
  "lead2 x = (let (p, q) = quotient_of x; e = int (floorlog 2 (nat p)) - int (floorlog 2 (nat q))
     in if pow2 e \<le> x then e else e - 1)"

definition lead10 :: "rat \<Rightarrow> int" where
  "lead10 x = (let (p, q) = quotient_of x; e = int (floorlog 10 (nat p)) - int (floorlog 10 (nat q))
     in if pow10 e \<le> x then e else e - 1)"

definition round_half_even :: "rat \<Rightarrow> int" where
  "round_half_even x = (let f = \<lfloor>x\<rfloor>; d = x - of_int f in
     if d < 1 / 2 then f else if 1 / 2 < d then f + 1 else if even f then f else f + 1)"

definition round64 :: "rat \<Rightarrow> pyfloat" where
  "round64 x = (if x = 0 then Finite 0 else
     (let q = max (lead2 \<bar>x\<bar> - 52) (-1074);
          y = of_int (round_half_even (\<bar>x\<bar> / pow2 q)) * pow2 q
      in if pow2 1024 \<le> y then (if 0 < x then PosInf else NegInf) else Finite (sgn x * y)))"

definition fl_isfinite :: "pyfloat \<Rightarrow> bool" where
  "fl_isfinite a = (case a of Finite _ \<Rightarrow> True | _ \<Rightarrow> False)"

fun fl_add :: "pyfloat \<Rightarrow> pyfloat \<Rightarrow> pyfloat" where
  "fl_add (Finite x) (Finite y) = round64 (x + y)"
| "fl_add NaN _ = NaN"
| "fl_add _ NaN = NaN"
| "fl_add PosInf NegInf = NaN"
| "fl_add NegInf PosInf = NaN"
| "fl_add PosInf _ = PosInf"
| "fl_add _ PosInf = PosInf"
| "fl_add NegInf _ = NegInf"
| "fl_add _ NegInf = NegInf"

fun fl_less :: "pyfloat \<Rightarrow> pyfloat \<Rightarrow> bool" where
  "fl_less NaN _ = False"
| "fl_less _ NaN = False"
| "fl_less (Finite x) (Finite y) = (x < y)"
| "fl_less NegInf b = (b \<noteq> NegInf)"
| "fl_less a PosInf = (a \<noteq> PosInf)"
| "fl_less _ _ = False"

definition fl_le :: "pyfloat \<Rightarrow> pyfloat \<Rightarrow> bool" where
  "fl_le a b \<longleftrightarrow> fl_less a b \<or> (a = b \<and> a \<noteq> NaN)"

text \<open>\<open>float(i)\<close> of an integer; the interpreter refuses one beyond the largest finite value.\<close>

definition float_of_int :: "int \<Rightarrow> pyfloat result" where
  "float_of_int i = (case round64 (of_int i) of Finite x \<Rightarrow> Inr (Finite x)
     | _ \<Rightarrow> Inl (OverflowError ''int too large to convert to float''))"

subsection \<open>The decimal text of a float\<close>

definition dec_digits :: "nat \<Rightarrow> rat \<Rightarrow> int" where
  "dec_digits n x = round_half_even (x / pow10 (lead10 x - int n + 1))"

definition dec_value :: "nat \<Rightarrow> rat \<Rightarrow> rat" where
  "dec_value n x = of_int (dec_digits n x) * pow10 (lead10 x - int n + 1)"

text \<open>The fewest significant digits, at most seventeen, whose nearest decimal reads back as \<open>x\<close>.\<close>

definition repr_len :: "rat \<Rightarrow> nat" where
  "repr_len x = (case find (\<lambda>n. round64 (dec_value n x) = Finite x) [1..<17] of Some n \<Rightarrow> n | None \<Rightarrow> 17)"

definition repr_pos :: "rat \<Rightarrow> string" where
  "repr_pos x = (let n = repr_len x;
       v = dec_value n x;
       k = lead10 v;
       ds = show_nat (nat (round_half_even (v / pow10 (k - int n + 1))));
       point = k + 1
     in if -4 < point \<and> point \<le> 16
        then (if point \<le> 0 then ''0.'' @ replicate (nat (- point)) (CHR ''0'') @ ds
              else if int (length ds) \<le> point
              then ds @ replicate (nat point - length ds) (CHR ''0'') @ ''.0''
              else take (nat point) ds @ ''.'' @ drop (nat point) ds)
        else take 1 ds @ (if 1 < length ds then ''.'' @ drop 1 ds else '''') @
             (if k < 0 then ''e-'' else ''e+'') @ (if \<bar>k\<bar> < 10 then ''0'' else '''') @ show_nat (nat \<bar>k\<bar>))"

definition repr_float :: "pyfloat \<Rightarrow> string" where
  "repr_float a = (case a of
       Finite x \<Rightarrow> if x = 0 then ''0.0'' else if x < 0 then CHR ''-'' # repr_pos (- x) else repr_pos x
     | PosInf \<Rightarrow> ''inf'' | NegInf \<Rightarrow> ''-inf'' | NaN \<Rightarrow> ''nan'')"

text \<open>\<open>float(lexeme)\<close>, from the parts of the lexeme: sign, integer digits, fraction digits, exponent.\<close>

definition float_of_lexeme :: "bool \<Rightarrow> string \<Rightarrow> string \<Rightarrow> int \<Rightarrow> pyfloat" where
  "float_of_lexeme neg ip fp ex =
     (let v = of_nat (read_nat (ip @ fp)) * pow10 (ex - int (length fp))
      in round64 (if neg then - v else v))"

lemma fl_less_irrefl [simp]: "\<not> fl_less a a"
  by (cases a) auto

lemma fl_less_not_le: "fl_le a b \<Longrightarrow> \<not> fl_less b a"
  by (cases a; cases b) (auto simp: fl_le_def)

lemma fl_le_iff_not_less: "fl_isfinite a \<Longrightarrow> fl_isfinite b \<Longrightarrow> fl_le a b \<longleftrightarrow> \<not> fl_less b a"
  by (cases a; cases b) (auto simp: fl_le_def fl_isfinite_def)

lemma fl_less_le_trans: "fl_less a b \<Longrightarrow> fl_le b c \<Longrightarrow> fl_less a c"
  by (cases a; cases b; cases c) (auto simp: fl_le_def)

end
