(* ===== verification/Wire_Codec.thy ===== *)
theory Wire_Codec
  imports Harness_Prelude Sha256 Py_Float
begin

text \<open>
  \<^verbatim>\<open>contracts/codec.py\<close>: the wire values every contract is encoded into, their canonical JSON text
  and content digest, the strict JSON reader and the strict field check of a decoded object. The
  JSON text format itself (\<^verbatim>\<open>json.dumps\<close>, \<^verbatim>\<open>json.loads\<close>) is modelled in full. The main lemma is
  the round trip \<open>loads_json_dumps\<close>: reading back a canonical text yields the value it was
  written from.
\<close>

section \<open>Wire values\<close>

text \<open>
  A raw Python value as the decoders see it: the JSON types, the tuple, and any other object
  (\<open>POpaque\<close>, among them a mapping with a key that is not a string). Dict items are kept in key order
  (\<^const>\<open>py_dict\<close>).
\<close>

datatype pyobj =
    PNone
  | PBool bool
  | PInt int
  | PFloat pyfloat
  | PStr string
  | PList "pyobj list"
  | PTuple "pyobj list"
  | PDict "(string \<times> pyobj) list"
  | POpaque

type_synonym pydict = "(string \<times> pyobj) list"

fun to_wire :: "pyobj \<Rightarrow> pyobj result" where
  "to_wire (PFloat f) = (if \<not> fl_isfinite f then Inl (TypeError ''wire floats must be finite'') else Inr (PFloat f))"
| "to_wire PNone = Inr PNone"
| "to_wire (PBool b) = Inr (PBool b)"
| "to_wire (PInt i) = Inr (PInt i)"
| "to_wire (PStr s) = Inr (PStr s)"
| "to_wire (PDict d) =
     bindE (mapE (\<lambda>kv. bindE (to_wire (snd kv)) (\<lambda>w. Inr (fst kv, w))) d) (\<lambda>encoded. Inr (PDict (py_dict encoded)))"
| "to_wire (PList xs) = bindE (mapE to_wire xs) (\<lambda>ys. Inr (PList ys))"
| "to_wire (PTuple xs) = bindE (mapE to_wire xs) (\<lambda>ys. Inr (PList ys))"
| "to_wire POpaque = Inl (TypeError ''unsupported wire value'')"

section \<open>The JSON text\<close>

fun join_sep :: "'a list \<Rightarrow> 'a list list \<Rightarrow> 'a list" where
  "join_sep sep [] = []"
| "join_sep sep [x] = x"
| "join_sep sep (x # xs) = x @ sep @ join_sep sep xs"

text \<open>The ASCII string escapes of \<^verbatim>\<open>json.dumps(ensure_ascii=True)\<close>.\<close>

definition json_escape :: "char \<Rightarrow> string" where
  "json_escape c =
     (if c = CHR 0x22 then [CHR 0x5C, CHR 0x22]
      else if c = CHR 0x5C then [CHR 0x5C, CHR 0x5C]
      else if c = CHR 0x0A then [CHR 0x5C, CHR ''n'']
      else if c = CHR 0x0D then [CHR 0x5C, CHR ''r'']
      else if c = CHR 0x09 then [CHR 0x5C, CHR ''t'']
      else if c = CHR 0x0C then [CHR 0x5C, CHR ''f'']
      else if c = CHR 0x08 then [CHR 0x5C, CHR ''b'']
      else if 32 \<le> py_ord c \<and> py_ord c \<le> 126 then [c]
      else [CHR 0x5C, CHR ''u'', CHR ''0'', CHR ''0'', digit_char (py_ord c div 16), digit_char (py_ord c mod 16)])"

definition json_string :: "string \<Rightarrow> string" where
  "json_string s = CHR 0x22 # concat (map json_escape s) @ [CHR 0x22]"

text \<open>The text of a float; the non-finite ones appear only where \<open>allow_nan\<close> is left on.\<close>

definition json_float :: "pyfloat \<Rightarrow> string" where
  "json_float f = (case f of PosInf \<Rightarrow> ''Infinity'' | NegInf \<Rightarrow> ''-Infinity'' | NaN \<Rightarrow> ''NaN'' | Finite _ \<Rightarrow> repr_float f)"

lemma json_float_finite [simp]: "fl_isfinite f \<Longrightarrow> json_float f = repr_float f"
  by (cases f) (simp_all add: json_float_def fl_isfinite_def)

fun json_dumps :: "pyobj \<Rightarrow> string" where
  "json_dumps PNone = ''null''"
| "json_dumps (PBool b) = (if b then ''true'' else ''false'')"
| "json_dumps (PInt i) = show_int i"
| "json_dumps (PFloat f) = json_float f"
| "json_dumps (PStr s) = json_string s"
| "json_dumps (PList xs) = ''['' @ join_sep '','' (map json_dumps xs) @ '']''"
| "json_dumps (PTuple xs) = ''['' @ join_sep '','' (map json_dumps xs) @ '']''"
| "json_dumps (PDict d) =
     ''{'' @ join_sep '','' (map (\<lambda>kv. json_string (fst kv) @ '':'' @ json_dumps (snd kv)) d) @ ''}''"
| "json_dumps POpaque = ''''"

definition canonical_json_bytes :: "pyobj \<Rightarrow> string result" where
  "canonical_json_bytes v = bindE (to_wire v) (\<lambda>w. Inr (json_dumps w))"

definition sha256_digest :: "pyobj \<Rightarrow> string result" where
  "sha256_digest v = bindE (canonical_json_bytes v) (\<lambda>text. Inr (''sha256:'' @ sha256_hexdigest text))"

section \<open>Reading JSON\<close>

definition is_json_ws :: "char \<Rightarrow> bool" where
  "is_json_ws c \<longleftrightarrow> c \<in> {CHR 0x20, CHR 0x09, CHR 0x0A, CHR 0x0D}"

definition skip_ws :: "string \<Rightarrow> string" where
  "skip_ws s = dropWhile is_json_ws s"

text \<open>
  The two ways the harness reads JSON: \<open>loads_strict_json\<close> under a label, with its hooks for repeated
  fields and non-finite constants, and plain \<open>json.loads\<close>, where the last of repeated fields wins and
  the constants are floats.
\<close>

datatype json_mode = Strict string | Plain

definition json_error :: "json_mode \<Rightarrow> 'a result" where
  "json_error mode = (case mode of Strict label \<Rightarrow> Inl (ValueError (label @ '' is invalid JSON''))
     | Plain \<Rightarrow> Inl (ValueError ''JSONDecodeError''))"

definition json_constant :: "json_mode \<Rightarrow> string \<Rightarrow> pyfloat \<Rightarrow> string \<Rightarrow> (pyobj \<times> string) result" where
  "json_constant mode name value rest = (case mode of
       Strict label \<Rightarrow> Inl (ValueError (label @ '' contains non-finite number: '' @ name))
     | Plain \<Rightarrow> Inr (PFloat value, rest))"

definition simple_escape :: "char \<Rightarrow> char option" where
  "simple_escape c =
     (if c = CHR 0x22 then Some (CHR 0x22) else if c = CHR 0x5C then Some (CHR 0x5C)
      else if c = CHR ''/'' then Some (CHR ''/'') else if c = CHR ''b'' then Some (CHR 0x08)
      else if c = CHR ''f'' then Some (CHR 0x0C) else if c = CHR ''n'' then Some (CHR 0x0A)
      else if c = CHR ''r'' then Some (CHR 0x0D) else if c = CHR ''t'' then Some (CHR 0x09) else None)"

definition hex_val :: "char \<Rightarrow> nat option" where
  "hex_val c = (let n = py_ord c in
     if 48 \<le> n \<and> n \<le> 57 then Some (n - 48) else if 97 \<le> n \<and> n \<le> 102 then Some (n - 87)
     else if 65 \<le> n \<and> n \<le> 70 then Some (n - 55) else None)"

text \<open>
  The text after an opening quote, up to and with the closing quote. An escaped code point beyond
  the modelled character range is refused.
\<close>

fun scan_string :: "json_mode \<Rightarrow> string \<Rightarrow> (string \<times> string) result" where
  "scan_string mode [] = json_error mode"
| "scan_string mode (c # r) =
     (if c = CHR 0x22 then Inr ([], r)
      else if c = CHR 0x5C then
        (case r of [] \<Rightarrow> json_error mode
         | d # r' \<Rightarrow>
           if d = CHR ''u'' then
             (case r' of h1 # h2 # h3 # h4 # r'' \<Rightarrow>
                (case (hex_val h1, hex_val h2, hex_val h3, hex_val h4) of
                   (Some a, Some b, Some c, Some d) \<Rightarrow>
                     if a = 0 \<and> b = 0
                     then bindE (scan_string mode r'') (\<lambda>(s, q). Inr (char_of (16 * c + d) # s, q))
                     else Inl (ValueError ''escape beyond the modelled character range'')
                 | _ \<Rightarrow> json_error mode)
              | _ \<Rightarrow> json_error mode)
           else (case simple_escape d of None \<Rightarrow> json_error mode
                 | Some x \<Rightarrow> bindE (scan_string mode r') (\<lambda>(s, q). Inr (x # s, q))))
      else if py_ord c < 32 then json_error mode
      else bindE (scan_string mode r) (\<lambda>(s, q). Inr (c # s, q)))"

text \<open>
  A number: an optional sign, the integer part without a leading zero, an optional fraction and an
  optional exponent, each taken only when it is complete. Without the last two it is an integer.
\<close>

definition scan_frac :: "string \<Rightarrow> string \<times> string" where
  "scan_frac s = (case s of c # r \<Rightarrow>
       if c = CHR ''.'' \<and> takeWhile is_digit r \<noteq> [] then (takeWhile is_digit r, dropWhile is_digit r) else ([], s)
     | [] \<Rightarrow> ([], s))"

definition scan_exp :: "string \<Rightarrow> int option \<times> string" where
  "scan_exp s = (case s of c # r \<Rightarrow>
       if c = CHR ''e'' \<or> c = CHR ''E'' then
         (case r of d # r' \<Rightarrow>
            if d = CHR ''-'' \<or> d = CHR ''+'' then
              (if takeWhile is_digit r' = [] then (None, s)
               else (Some ((if d = CHR ''-'' then -1 else 1) * int (read_nat (takeWhile is_digit r'))), dropWhile is_digit r'))
            else if takeWhile is_digit r = [] then (None, s)
            else (Some (int (read_nat (takeWhile is_digit r))), dropWhile is_digit r)
          | [] \<Rightarrow> (None, s))
       else (None, s)
     | [] \<Rightarrow> (None, s))"

definition int_part :: "string \<Rightarrow> string" where
  "int_part s = (case s of [] \<Rightarrow> [] | c # r \<Rightarrow> if c = CHR ''0'' then [c] else takeWhile is_digit s)"

definition scan_tail :: "bool \<Rightarrow> string \<Rightarrow> string \<Rightarrow> pyobj \<times> string" where
  "scan_tail neg ip r =
     (let (fp, r2) = scan_frac r; (ex, r3) = scan_exp r2
      in if fp = [] \<and> ex = None
         then (PInt (if neg then - int (read_nat ip) else int (read_nat ip)), r3)
         else (PFloat (float_of_lexeme neg ip fp (case ex of None \<Rightarrow> 0 | Some e \<Rightarrow> e)), r3))"

definition scan_unsigned :: "bool \<Rightarrow> string \<Rightarrow> (pyobj \<times> string) option" where
  "scan_unsigned neg s = (if int_part s = [] then None
     else Some (scan_tail neg (int_part s) (drop (length (int_part s)) s)))"

definition scan_number :: "string \<Rightarrow> (pyobj \<times> string) option" where
  "scan_number s = (case s of c # r \<Rightarrow> if c = CHR ''-'' then scan_unsigned True r else scan_unsigned False s
     | [] \<Rightarrow> None)"

fun strip_prefix :: "string \<Rightarrow> string \<Rightarrow> string option" where
  "strip_prefix [] s = Some s"
| "strip_prefix (p # ps) [] = None"
| "strip_prefix (p # ps) (c # s) = (if p = c then strip_prefix ps s else None)"

text \<open>\<open>object_from_pairs\<close>: the dict of the pairs; the strict hook refuses a key that occurs twice.\<close>

fun object_from_pairs :: "json_mode \<Rightarrow> pydict \<Rightarrow> pydict \<Rightarrow> pydict result" where
  "object_from_pairs mode [] acc = Inr acc"
| "object_from_pairs mode ((k, v) # kvs) acc =
     (if k \<in> fst ` set acc \<and> mode \<noteq> Plain
      then Inl (ValueError ((case mode of Strict label \<Rightarrow> label | Plain \<Rightarrow> []) @ '' contains duplicate field: '' @ k))
      else object_from_pairs mode kvs (dict_set k v acc))"

text \<open>The literals, then the number, then the non-finite constants, which \<open>reject_constant\<close> refuses.\<close>

definition scan_atom :: "json_mode \<Rightarrow> string \<Rightarrow> (pyobj \<times> string) result" where
  "scan_atom mode s =
     (case strip_prefix ''null'' s of Some r \<Rightarrow> Inr (PNone, r) | None \<Rightarrow>
     (case strip_prefix ''true'' s of Some r \<Rightarrow> Inr (PBool True, r) | None \<Rightarrow>
     (case strip_prefix ''false'' s of Some r \<Rightarrow> Inr (PBool False, r) | None \<Rightarrow>
     (case scan_number s of Some (v, r) \<Rightarrow> Inr (v, r) | None \<Rightarrow>
     (case strip_prefix ''NaN'' s of Some r \<Rightarrow> json_constant mode ''NaN'' NaN r | None \<Rightarrow>
     (case strip_prefix ''Infinity'' s of Some r \<Rightarrow> json_constant mode ''Infinity'' PosInf r | None \<Rightarrow>
     (case strip_prefix ''-Infinity'' s of Some r \<Rightarrow> json_constant mode ''-Infinity'' NegInf r
      | None \<Rightarrow> json_error mode)))))))"

text \<open>
  The recursive descent. The first argument bounds the nesting and the number of siblings;
  \<open>loads_strict_json\<close> starts it above the length of the text, and every two calls consume at least one
  character.
\<close>

fun parse_value :: "nat \<Rightarrow> json_mode \<Rightarrow> string \<Rightarrow> (pyobj \<times> string) result"
  and parse_elems :: "nat \<Rightarrow> json_mode \<Rightarrow> string \<Rightarrow> (pyobj list \<times> string) result"
  and parse_pairs :: "nat \<Rightarrow> json_mode \<Rightarrow> string \<Rightarrow> (pydict \<times> string) result" where
  "parse_value 0 mode s = Inl (RuntimeError ''parser fuel'')"
| "parse_value (Suc n) mode s = (case s of [] \<Rightarrow> json_error mode
     | c # r \<Rightarrow>
       if c = CHR 0x22 then bindE (scan_string mode r) (\<lambda>(t, q). Inr (PStr t, q))
       else if c = CHR ''['' then
         (case skip_ws r of [] \<Rightarrow> json_error mode
          | d # q \<Rightarrow> if d = CHR '']'' then Inr (PList [], q)
                   else bindE (parse_elems n mode (d # q)) (\<lambda>(xs, q'). Inr (PList xs, q')))
       else if c = CHR ''{'' then
         (case skip_ws r of [] \<Rightarrow> json_error mode
          | d # q \<Rightarrow> if d = CHR ''}'' then Inr (PDict [], q)
                   else bindE (parse_pairs n mode (d # q)) (\<lambda>(kvs, q').
                        bindE (object_from_pairs mode kvs []) (\<lambda>dict. Inr (PDict dict, q'))))
       else scan_atom mode s)"
| "parse_elems 0 mode s = Inl (RuntimeError ''parser fuel'')"
| "parse_elems (Suc n) mode s =
     bindE (parse_value n mode s) (\<lambda>(v, r). case skip_ws r of [] \<Rightarrow> json_error mode
       | d # q \<Rightarrow> if d = CHR '']'' then Inr ([v], q)
                else if d = CHR '','' then bindE (parse_elems n mode (skip_ws q)) (\<lambda>(vs, q'). Inr (v # vs, q'))
                else json_error mode)"
| "parse_pairs 0 mode s = Inl (RuntimeError ''parser fuel'')"
| "parse_pairs (Suc n) mode s = (case s of [] \<Rightarrow> json_error mode
     | c # r \<Rightarrow> if c \<noteq> CHR 0x22 then json_error mode else
       bindE (scan_string mode r) (\<lambda>(k, r1). case skip_ws r1 of [] \<Rightarrow> json_error mode
         | d # r2 \<Rightarrow> if d \<noteq> CHR '':'' then json_error mode else
           bindE (parse_value n mode (skip_ws r2)) (\<lambda>(v, r3). case skip_ws r3 of [] \<Rightarrow> json_error mode
             | e # q \<Rightarrow> if e = CHR ''}'' then Inr ([(k, v)], q)
                      else if e = CHR '','' then bindE (parse_pairs n mode (skip_ws q)) (\<lambda>(kvs, q'). Inr ((k, v) # kvs, q'))
                      else json_error mode)))"

definition json_read :: "json_mode \<Rightarrow> string \<Rightarrow> pyobj result" where
  "json_read mode content =
     bindE (parse_value (2 * length content + 2) mode (skip_ws content)) (\<lambda>(v, r).
       if skip_ws r = [] then Inr v else json_error mode)"

definition loads_strict_json :: "string \<Rightarrow> string \<Rightarrow> pyobj result" where
  "loads_strict_json content label = json_read (Strict label) content"

definition json_loads :: "string \<Rightarrow> pyobj result" where
  "json_loads content = json_read Plain content"

section \<open>Strict objects\<close>

definition py_keys :: "pydict \<Rightarrow> string list" where
  "py_keys d = map fst d"

definition strict_object :: "pyobj \<Rightarrow> string list \<Rightarrow> string list \<Rightarrow> string \<Rightarrow> (string \<Rightarrow> py_error) \<Rightarrow> pydict result" where
  "strict_object raw required optional label error_type =
     (case raw of PDict d \<Rightarrow>
        (let allowed = required @ optional;
             unknown = sort (filter (\<lambda>k. k \<notin> set allowed) (py_keys d));
             missing = sort (filter (\<lambda>k. k \<notin> set (py_keys d)) required)
         in if unknown \<noteq> [] then Inl (error_type (label @ '' contains unknown fields: '' @ join_sep '', '' unknown))
            else if missing \<noteq> [] then Inl (error_type (label @ '' is missing fields: '' @ join_sep '', '' missing))
            else Inr d)
      | _ \<Rightarrow> Inl (error_type (label @ '' must be an object'')))"

text \<open>\<open>raw[key]\<close> and \<open>raw.get(key)\<close>.\<close>

definition dict_item :: "pydict \<Rightarrow> string \<Rightarrow> pyobj result" where
  "dict_item d k = (case map_of d k of Some v \<Rightarrow> Inr v | None \<Rightarrow> Inl (KeyError k))"

definition dict_get :: "pydict \<Rightarrow> string \<Rightarrow> pyobj" where
  "dict_get d k = (case map_of d k of Some v \<Rightarrow> v | None \<Rightarrow> PNone)"

section \<open>The round trip through the text\<close>

text \<open>
  The values a canonical text stands for: ordered dicts, no tuples, and floats whose text reads back
  as themselves.
\<close>

definition num_stop :: "string \<Rightarrow> bool" where
  "num_stop r \<longleftrightarrow> r = [] \<or> \<not> (is_digit (hd r) \<or> hd r \<in> {CHR ''.'', CHR ''e'', CHR ''E''})"

definition float_ok :: "pyfloat \<Rightarrow> bool" where
  "float_ok f \<longleftrightarrow> fl_isfinite f \<and> scan_number (repr_float f) = Some (PFloat f, [])"

fun wire_ok :: "pyobj \<Rightarrow> bool" where
  "wire_ok (PFloat f) = float_ok f"
| "wire_ok (PList xs) = list_all wire_ok xs"
| "wire_ok (PDict d) = (dict_ok d \<and> list_all (\<lambda>kv. wire_ok (snd kv)) d)"
| "wire_ok (PTuple xs) = False"
| "wire_ok POpaque = False"
| "wire_ok _ = True"

lemma py_ord_less [simp]: "py_ord c < 256"
  by (simp add: py_ord_def of_char_of)

lemma char_of_py_ord [simp]: "char_of (py_ord c) = c"
  by (simp add: py_ord_def)

lemma hex_val_digit_char: "n < 16 \<Longrightarrow> hex_val (digit_char n) = Some n"
  by (auto simp: hex_val_def digit_char_def Let_def)

lemma scan_string_escape:
  "scan_string label (json_escape c @ r) = bindE (scan_string label r) (\<lambda>(s, q). Inr (c # s, q))"
proof -
  have "char_of (16 * (py_ord c div 16) + py_ord c mod 16) = c" by simp
  moreover have "py_ord c div 16 < 16"
    using py_ord_less [of c] by linarith
  ultimately show ?thesis
    by (auto simp: json_escape_def simple_escape_def hex_val_digit_char hex_val_def [of "CHR ''0''"] py_ord_def [of "CHR ''0''"])
qed

lemma scan_json_string:
  "scan_string label (concat (map json_escape s) @ CHR 0x22 # rest) = Inr (s, rest)"
  by (induction s) (simp_all add: scan_string_escape del: scan_string.simps(2), simp)

lemma takeWhile_digits:
  "list_all is_digit ds \<Longrightarrow> num_stop r \<Longrightarrow> takeWhile is_digit (ds @ r) = ds \<and> dropWhile is_digit (ds @ r) = r"
  by (induction ds) (cases r; auto simp: num_stop_def)+

lemma scan_frac_stop: "num_stop r \<Longrightarrow> scan_frac r = ([], r)"
  by (cases r) (auto simp: num_stop_def scan_frac_def)

lemma scan_exp_stop: "num_stop r \<Longrightarrow> scan_exp r = (None, r)"
  by (cases r) (auto simp: num_stop_def scan_exp_def)

lemma int_part_show_nat: "num_stop r \<Longrightarrow> int_part (show_nat n @ r) = show_nat n"
proof -
  assume r: "num_stop r"
  obtain c cs where n: "show_nat n = c # cs" by (cases "show_nat n") auto
  show ?thesis
    using takeWhile_digits [OF show_nat_digits r, of n] show_nat_leading [OF n] by (simp add: int_part_def n)
qed

lemma scan_unsigned_nat:
  "num_stop r \<Longrightarrow> scan_unsigned neg (show_nat n @ r) = Some (PInt (if neg then - int n else int n), r)"
  by (simp add: scan_unsigned_def int_part_show_nat scan_tail_def scan_frac_stop scan_exp_stop)

lemma digit_not_minus: "is_digit c \<Longrightarrow> c \<noteq> CHR ''-''"
  by (auto simp: is_digit_def py_ord_def)

lemma show_nat_hd: "show_nat n = c # cs \<Longrightarrow> is_digit c"
  using show_nat_digits [of n] by simp

lemma scan_show_int: "num_stop r \<Longrightarrow> scan_number (show_int i @ r) = Some (PInt i, r)"
proof (cases "i < 0")
  case False
  assume r: "num_stop r"
  obtain c cs where n: "show_nat (nat i) = c # cs" by (cases "show_nat (nat i)") auto
  with False r show ?thesis
    using scan_unsigned_nat [OF r, of False "nat i"] digit_not_minus [OF show_nat_hd [OF n]]
    by (simp add: scan_number_def show_int_def)
qed (simp add: scan_number_def show_int_def scan_unsigned_nat)

text \<open>A number that is read to its end is read the same before any text that cannot continue it.\<close>

lemma takeWhile_stop: "num_stop r \<Longrightarrow> takeWhile is_digit (s @ r) = takeWhile is_digit s"
  by (induction s) (cases r; auto simp: num_stop_def)+

lemma dropWhile_stop: "num_stop r \<Longrightarrow> dropWhile is_digit (s @ r) = dropWhile is_digit s @ r"
  by (induction s) (cases r; auto simp: num_stop_def)+

lemma scan_frac_append: "num_stop r \<Longrightarrow> scan_frac (s @ r) = (fst (scan_frac s), snd (scan_frac s) @ r)"
proof (cases s)
  case Nil
  assume "num_stop r"
  with Nil show ?thesis using scan_frac_stop [of r] by (simp add: scan_frac_def [of "[]"])
qed (auto simp: scan_frac_def takeWhile_stop dropWhile_stop)

lemma scan_exp_append:
  assumes "num_stop r" "snd (scan_exp s) = []"
  shows "scan_exp (s @ r) = (fst (scan_exp s), r)"
proof (cases s)
  case Nil
  with assms(1) show ?thesis using scan_exp_stop [of r] by (simp add: scan_exp_def [of "[]"])
next
  case (Cons c cs)
  with assms show ?thesis
    by (cases cs) (auto simp: scan_exp_def takeWhile_stop dropWhile_stop split: if_splits)
qed

lemma scan_tail_append:
  "num_stop r \<Longrightarrow> snd (scan_tail neg ip s) = [] \<Longrightarrow> scan_tail neg ip (s @ r) = (fst (scan_tail neg ip s), r)"
  using scan_exp_append [of r "snd (scan_frac s)"]
  by (auto simp: scan_tail_def scan_frac_append Let_def split: prod.splits if_splits)

lemma int_part_append: "num_stop r \<Longrightarrow> int_part s \<noteq> [] \<Longrightarrow> int_part (s @ r) = int_part s"
  by (cases s) (auto simp: int_part_def takeWhile_stop)

lemma length_int_part: "length (int_part s) \<le> length s"
  by (cases s) (auto simp: int_part_def length_takeWhile_le)

lemma scan_unsigned_append:
  "num_stop r \<Longrightarrow> scan_unsigned neg s = Some (v, []) \<Longrightarrow> scan_unsigned neg (s @ r) = Some (v, r)"
  using scan_tail_append [of r neg "int_part s" "drop (length (int_part s)) s"] length_int_part [of s]
  by (auto simp: scan_unsigned_def int_part_append split: if_splits)

lemma scan_number_append:
  assumes "num_stop r" "scan_number s = Some (v, [])"
  shows "scan_number (s @ r) = Some (v, r)"
proof (cases s)
  case (Cons c cs)
  with assms show ?thesis
    using scan_unsigned_append [of r False s v] scan_unsigned_append [of r True cs v]
    by (auto simp: scan_number_def split: if_splits)
qed (use assms in \<open>simp add: scan_number_def\<close>)

lemma int_part_hd: "int_part (c # r) \<noteq> [] \<Longrightarrow> is_digit c"
  by (auto simp: int_part_def is_digit_def py_ord_def split: if_splits)

lemma scan_number_hd: "scan_number s = Some p \<Longrightarrow> \<exists>c r. s = c # r \<and> (c = CHR ''-'' \<or> is_digit c)"
  by (cases s) (auto simp: scan_number_def scan_unsigned_def intro: int_part_hd split: if_splits)

lemma digit_not_ws: "c = CHR ''-'' \<or> is_digit c \<Longrightarrow> \<not> is_json_ws c \<and> c \<notin> {CHR ''n'', CHR ''t'', CHR ''f'', CHR 0x22, CHR ''['', CHR ''{'', CHR '']'', CHR ''}''}"
  by (auto simp: is_json_ws_def is_digit_def py_ord_def)

lemma strip_prefix_hd_neq: "c \<noteq> p \<Longrightarrow> strip_prefix (p # ps) (c # r) = None"
  by simp

lemma scan_atom_number:
  "scan_number s = Some (v, r) \<Longrightarrow> scan_atom label s = Inr (v, r)"
  using scan_number_hd [of s "(v, r)"] digit_not_ws by (fastforce simp: scan_atom_def)

lemma parse_value_number:
  "scan_number s = Some (v, r) \<Longrightarrow> parse_value (Suc n) label s = Inr (v, r)"
  using scan_number_hd [of s "(v, r)"] digit_not_ws scan_atom_number [of s v r label] by fastforce

lemma skip_ws_id: "\<not> is_json_ws c \<Longrightarrow> skip_ws (c # r) = c # r"
  by (simp add: skip_ws_def)

lemma not_ws [simp]: "\<not> is_json_ws (CHR 0x22)" "\<not> is_json_ws (CHR ''['')" "\<not> is_json_ws (CHR ''{'')"
  "\<not> is_json_ws (CHR '']'')" "\<not> is_json_ws (CHR ''}'')" "\<not> is_json_ws (CHR '','')" "\<not> is_json_ws (CHR '':'')"
  "\<not> is_json_ws (CHR ''n'')" "\<not> is_json_ws (CHR ''t'')" "\<not> is_json_ws (CHR ''f'')" "\<not> is_json_ws (CHR ''-'')"
  by (simp_all add: is_json_ws_def)

lemma show_int_scan: "scan_number (show_int i) = Some (PInt i, [])"
  using scan_show_int [of "[]" i] by (simp add: num_stop_def)

lemma dumps_hd:
  assumes "wire_ok v"
  shows "\<exists>c r. json_dumps v = c # r \<and> \<not> is_json_ws c \<and> c \<noteq> CHR '']'' \<and> c \<noteq> CHR ''}''"
proof (cases v)
  case (PInt i)
  then show ?thesis using scan_number_hd [OF show_int_scan [of i]] digit_not_ws by fastforce
next
  case (PFloat f)
  then show ?thesis using assms scan_number_hd [of "repr_float f"] digit_not_ws by (fastforce simp: float_ok_def)
qed (use assms in \<open>auto simp: json_string_def\<close>)

lemma num_stop_punct [simp]: "num_stop (CHR '','' # r)" "num_stop (CHR '']'' # r)" "num_stop (CHR ''}'' # r)" "num_stop []"
  by (auto simp: num_stop_def is_digit_def py_ord_def)

definition parses :: "json_mode \<Rightarrow> pyobj \<Rightarrow> bool" where
  "parses label v \<longleftrightarrow> (\<forall>n rest. 2 * length (json_dumps v) \<le> n \<longrightarrow> num_stop rest \<longrightarrow>
     parse_value n label (json_dumps v @ rest) = Inr (v, rest))"

lemma parsesD:
  "parses label v \<Longrightarrow> 2 * length (json_dumps v) \<le> n \<Longrightarrow> num_stop rest \<Longrightarrow>
     parse_value n label (json_dumps v @ rest) = Inr (v, rest)"
  by (simp add: parses_def)

lemma skip_ws_dumps: "wire_ok v \<Longrightarrow> skip_ws (json_dumps v @ r) = json_dumps v @ r"
  using dumps_hd [of v] by (auto simp: skip_ws_id)

lemma parse_elems_dumps:
  assumes "xs \<noteq> []" "\<forall>x\<in>set xs. wire_ok x \<and> parses label x"
    "2 * length (join_sep '','' (map json_dumps xs)) + 1 \<le> n"
  shows "parse_elems n label (join_sep '','' (map json_dumps xs) @ CHR '']'' # rest) = Inr (xs, rest)"
  using assms
proof (induction xs arbitrary: n)
  case (Cons x xs)
  obtain m where n: "n = Suc m" using Cons.prems(3) by (cases n) auto
  show ?case
  proof (cases xs)
    case Nil
    with Cons.prems n show ?thesis
      using parsesD [of label x m "CHR '']'' # rest"] by (simp add: skip_ws_id)
  next
    case (Cons y ys)
    let ?j = "join_sep '','' (map json_dumps xs)"
    have j: "join_sep '','' (map json_dumps (x # xs)) = json_dumps x @ CHR '','' # ?j"
      using Cons by simp
    have "wire_ok y" and "?j = json_dumps y \<or> ?j = json_dumps y @ CHR '','' # join_sep '','' (map json_dumps ys)"
      using Cons.prems Cons by (auto intro: list.exhaust [of ys])
    then have ws: "skip_ws (?j @ r) = ?j @ r" for r
      using skip_ws_dumps [of y] by auto
    have "parse_value m label (json_dumps x @ CHR '','' # ?j @ CHR '']'' # rest) = Inr (x, CHR '','' # ?j @ CHR '']'' # rest)"
      using Cons.prems(2,3) n j by (intro parsesD) auto
    moreover have "parse_elems m label (?j @ CHR '']'' # rest) = Inr (xs, rest)"
      using Cons.prems(2,3) n j Cons by (intro Cons.IH) auto
    ultimately show ?thesis using n j ws by (simp add: skip_ws_id)
  qed
qed simp

abbreviation dump_item :: "string \<times> pyobj \<Rightarrow> string" where
  "dump_item kv \<equiv> json_string (fst kv) @ '':'' @ json_dumps (snd kv)"

lemma join_sep_Cons: "xs \<noteq> [] \<Longrightarrow> join_sep sep (x # xs) = x @ sep @ join_sep sep xs"
  by (cases xs) auto

lemma join_items_hd: "d \<noteq> [] \<Longrightarrow> \<exists>r. join_sep '','' (map dump_item d) = CHR 0x22 # r"
  by (cases d; cases "tl d") (auto simp: json_string_def)

lemma parse_pairs_dumps:
  assumes "d \<noteq> []" "\<forall>kv\<in>set d. wire_ok (snd kv) \<and> parses label (snd kv)"
    "2 * length (join_sep '','' (map dump_item d)) + 1 \<le> n"
  shows "parse_pairs n label (join_sep '','' (map dump_item d) @ CHR ''}'' # rest) = Inr (d, rest)"
  using assms
proof (induction d arbitrary: n)
  case (Cons kv d)
  obtain k v where kv: "kv = (k, v)" by (cases kv)
  obtain m where n: "n = Suc m" using Cons.prems(3) by (cases n) auto
  have item: "scan_string label (concat (map json_escape k) @ CHR 0x22 # CHR '':'' # json_dumps v @ q)
      = Inr (k, CHR '':'' # json_dumps v @ q)" for q
    by (rule scan_json_string)
  have ws: "skip_ws (json_dumps v @ q) = json_dumps v @ q" for q
    using Cons.prems(2) kv by (auto intro: skip_ws_dumps)
  show ?case
  proof (cases "d = []")
    case True
    have "parse_value m label (json_dumps v @ CHR ''}'' # rest) = Inr (v, CHR ''}'' # rest)"
      using Cons.prems(2,3) kv n True by (intro parsesD) auto
    with True kv n item [of "CHR ''}'' # rest"] ws show ?thesis
      by (simp add: json_string_def skip_ws_id)
  next
    case False
    let ?j = "join_sep '','' (map dump_item d)"
    have j: "join_sep '','' (map dump_item (kv # d)) = dump_item kv @ CHR '','' # ?j"
      using False by (simp add: join_sep_Cons)
    obtain r0 where r0: "?j = CHR 0x22 # r0" using join_items_hd [OF False] by blast
    have "parse_value m label (json_dumps v @ CHR '','' # ?j @ CHR ''}'' # rest) = Inr (v, CHR '','' # ?j @ CHR ''}'' # rest)"
      using Cons.prems(2,3) kv n j by (intro parsesD) auto
    moreover have "parse_pairs m label (?j @ CHR ''}'' # rest) = Inr (d, rest)"
      using Cons.prems(2,3) kv n j False by (intro Cons.IH) auto
    moreover have "skip_ws (?j @ CHR ''}'' # rest) = ?j @ CHR ''}'' # rest"
      using r0 by (simp add: skip_ws_id)
    ultimately show ?thesis
      using kv n j item [of "CHR '','' # ?j @ CHR ''}'' # rest"] ws by (simp add: json_string_def skip_ws_id)
  qed
qed simp

lemma object_from_pairs_ordered:
  "dict_ok (acc @ d) \<Longrightarrow> object_from_pairs label d acc = Inr (acc @ d)"
proof (induction d arbitrary: acc)
  case (Cons p d)
  obtain k v where p: "p = (k, v)" by (cases p)
  from Cons.prems p have above: "\<forall>x\<in>fst ` set acc. x < k"
    by (auto simp: dict_ok_def sorted_wrt_append)
  moreover from above have "k \<notin> fst ` set acc" by auto
  ultimately show ?case
    using Cons.IH [of "acc @ [p]"] Cons.prems p by (simp add: dict_set_above)
qed simp

lemma parses_list:
  assumes "list_all wire_ok xs" "\<forall>x\<in>set xs. parses label x"
  shows "parses label (PList xs)"
  unfolding parses_def
proof (intro allI impI)
  fix n rest
  assume n: "2 * length (json_dumps (PList xs)) \<le> n" and "num_stop rest"
  obtain m where m: "n = Suc m" using n by (cases n) auto
  show "parse_value n label (json_dumps (PList xs) @ rest) = Inr (PList xs, rest)"
  proof (cases xs)
    case Nil
    then show ?thesis by (simp add: m skip_ws_id)
  next
    case (Cons x ys)
    let ?j = "join_sep '','' (map json_dumps xs)"
    have "parse_elems m label (?j @ CHR '']'' # rest) = Inr (xs, rest)"
      using assms n m Cons by (intro parse_elems_dumps) (auto simp: list_all_iff)
    moreover obtain c r where "?j = c # r" "\<not> is_json_ws c" "c \<noteq> CHR '']''"
      using dumps_hd [of x] assms(1) Cons by (cases ys) auto
    ultimately show ?thesis by (simp add: m skip_ws_id)
  qed
qed

lemma parses_dict:
  assumes "wire_ok (PDict d)" "\<forall>kv\<in>set d. parses label (snd kv)"
  shows "parses label (PDict d)"
  unfolding parses_def
proof (intro allI impI)
  fix n rest
  assume n: "2 * length (json_dumps (PDict d)) \<le> n" and "num_stop rest"
  obtain m where m: "n = Suc m" using n by (cases n) auto
  show "parse_value n label (json_dumps (PDict d) @ rest) = Inr (PDict d, rest)"
  proof (cases "d = []")
    case False
    let ?j = "join_sep '','' (map dump_item d)"
    have "parse_pairs m label (?j @ CHR ''}'' # rest) = Inr (d, rest)"
      using assms n m False by (intro parse_pairs_dumps) (auto simp: list_all_iff)
    moreover obtain r where "?j = CHR 0x22 # r" using join_items_hd [OF False] by blast
    moreover have "object_from_pairs label d [] = Inr d"
      using object_from_pairs_ordered [of "[]" d label] assms(1) by simp
    ultimately show ?thesis by (simp add: m skip_ws_id)
  qed (simp add: m skip_ws_id)
qed

lemma parsesI:
  assumes "json_dumps v \<noteq> []"
    and "\<And>m rest. num_stop rest \<Longrightarrow> parse_value (Suc m) label (json_dumps v @ rest) = Inr (v, rest)"
  shows "parses label v"
  unfolding parses_def
proof (intro allI impI)
  fix n rest
  assume "2 * length (json_dumps v) \<le> n" "num_stop rest"
  with assms show "parse_value n label (json_dumps v @ rest) = Inr (v, rest)" by (cases n) auto
qed

lemma parses_number:
  assumes "scan_number (json_dumps v) = Some (v, [])"
  shows "parses label v"
proof (rule parsesI)
  show "json_dumps v \<noteq> []" using scan_number_hd [OF assms] by auto
  show "parse_value (Suc m) label (json_dumps v @ rest) = Inr (v, rest)" if "num_stop rest" for m rest
    using scan_number_append [OF that assms] by (rule parse_value_number)
qed

lemma wire_ok_parses: "wire_ok v \<Longrightarrow> parses label v"
proof (induction v)
  case (PStr s)
  show ?case by (rule parsesI) (simp_all add: json_string_def scan_json_string)
next
  case (PInt i)
  show ?case by (rule parses_number) (simp add: show_int_scan)
next
  case (PFloat f)
  then show ?case by (intro parses_number) (simp add: float_ok_def)
next
  case (PList xs)
  then show ?case by (intro parses_list) (auto simp: list_all_iff)
next
  case (PDict d)
  then show ?case by (intro parses_dict) (force simp: list_all_iff)+
next
  case (PBool b)
  show ?case by (rule parsesI) (simp_all add: scan_atom_def)
next
  case PNone
  show ?case by (rule parsesI) (simp_all add: scan_atom_def)
qed simp_all

lemma json_read_dumps: "wire_ok v \<Longrightarrow> json_read mode (json_dumps v) = Inr v"
  using wire_ok_parses [of v mode] skip_ws_dumps [of v "[]"]
    parsesD [of mode v "2 * length (json_dumps v) + 2" "[]"]
  by (simp add: json_read_def) (simp add: skip_ws_def)

lemma loads_json_dumps: "wire_ok v \<Longrightarrow> loads_strict_json (json_dumps v) label = Inr v"
  by (simp add: loads_strict_json_def json_read_dumps)

lemma json_loads_dumps: "wire_ok v \<Longrightarrow> json_loads (json_dumps v) = Inr v"
  by (simp add: json_loads_def json_read_dumps)

lemma json_dumps_inj: "wire_ok v \<Longrightarrow> wire_ok w \<Longrightarrow> json_dumps v = json_dumps w \<longleftrightarrow> v = w"
  by (metis loads_json_dumps sum.inject(2))

lemma to_wire_id: "wire_ok v \<Longrightarrow> to_wire v = Inr v"
proof (induction v)
  case (PList xs)
  then have "mapE to_wire (map (\<lambda>x. x) xs) = Inr xs"
    by (intro mapE_Inr_id) (auto simp: list_all_iff)
  then show ?case by simp
next
  case (PDict d)
  then have "mapE (\<lambda>kv. bindE (to_wire (snd kv)) (\<lambda>w. Inr (fst kv, w))) (map (\<lambda>kv. kv) d) = Inr d"
    by (intro mapE_Inr_id) (force simp: list_all_iff)
  with PDict.prems show ?case by (simp add: py_dict_ordered)
qed (auto simp: float_ok_def)

lemma canonical_json_wire [simp]: "wire_ok v \<Longrightarrow> canonical_json_bytes v = Inr (json_dumps v)"
  by (simp add: canonical_json_bytes_def to_wire_id)

text \<open>The digest of a value that is already on the wire form.\<close>

definition wire_digest :: "pyobj \<Rightarrow> string" where
  "wire_digest v = ''sha256:'' @ sha256_hexdigest (json_dumps v)"

lemma sha256_digest_wire [simp]: "wire_ok v \<Longrightarrow> sha256_digest v = Inr (wire_digest v)"
  by (simp add: sha256_digest_def wire_digest_def)

lemma is_sha256_wire_digest [simp]: "is_sha256 (wire_digest v)"
  using sha256_hexdigest_format by (simp add: is_sha256_def wire_digest_def)

lemma wire_ok_py_dict: "list_all (\<lambda>kv. wire_ok (snd kv)) kvs \<Longrightarrow> wire_ok (PDict (py_dict kvs))"
  using set_py_dict_subset [of kvs] by (auto simp: list_all_iff)

lemma sort_eq_Nil [simp]: "sort xs = [] \<longleftrightarrow> xs = []"
  by (metis set_sort set_empty)

lemma strict_object_eq_Inr [result_simps]:
  "strict_object raw req opt label et = Inr d \<longleftrightarrow>
     raw = PDict d \<and> fst ` set d \<subseteq> set req \<union> set opt \<and> set req \<subseteq> fst ` set d"
  by (cases raw) (auto simp: strict_object_def Let_def py_keys_def filter_empty_conv image_subset_iff)

lemma strict_object_py_dict [wire_simps]:
  "fst ` set kvs \<subseteq> set req \<union> set opt \<Longrightarrow> set req \<subseteq> fst ` set kvs \<Longrightarrow>
     strict_object (PDict (py_dict kvs)) req opt label et = Inr (py_dict kvs)"
  by (simp add: strict_object_eq_Inr)

lemma dict_item_py_dict [wire_simps]:
  "distinct (map fst kvs) \<Longrightarrow> map_of kvs k = Some v \<Longrightarrow> dict_item (py_dict kvs) k = Inr v"
  by (simp add: dict_item_def map_of_py_dict_distinct)

lemma dict_get_py_dict [wire_simps]:
  "distinct (map fst kvs) \<Longrightarrow> dict_get (py_dict kvs) k = (case map_of kvs k of Some v \<Rightarrow> v | None \<Rightarrow> PNone)"
  by (simp add: dict_get_def map_of_py_dict_distinct)

lemma dict_item_ok: "k \<in> fst ` set d \<Longrightarrow> \<exists>v. dict_item d k = Inr v \<and> (k, v) \<in> set d"
  by (auto simp: dict_item_def split: option.splits dest: map_of_SomeD simp: map_of_eq_None_iff)

text \<open>The floats of a raw value read back from their text.\<close>

fun floats_ok :: "pyobj \<Rightarrow> bool" where
  "floats_ok (PFloat f) = (fl_isfinite f \<longrightarrow> float_ok f)"
| "floats_ok (PList xs) = list_all floats_ok xs"
| "floats_ok (PTuple xs) = list_all floats_ok xs"
| "floats_ok (PDict d) = list_all (\<lambda>kv. floats_ok (snd kv)) d"
| "floats_ok _ = True"

lemma wire_ok_to_wire: "to_wire v = Inr w \<Longrightarrow> floats_ok v \<Longrightarrow> wire_ok w"
proof (induction v arbitrary: w)
  case (PList xs)
  then show ?case
    by (auto simp: bindE_eq_Inr intro!: mapE_list_all) (auto simp: list_all_iff)
next
  case (PTuple xs)
  then show ?case
    by (auto simp: bindE_eq_Inr intro!: mapE_list_all) (auto simp: list_all_iff)
next
  case (PDict d)
  then obtain e where w: "w = PDict (py_dict e)"
    and e: "mapE (\<lambda>kv. bindE (to_wire (snd kv)) (\<lambda>w. Inr (fst kv, w))) d = Inr e"
    by (auto simp: bindE_eq_Inr)
  have "list_all (\<lambda>kv. wire_ok (snd kv)) e"
    using e by (rule mapE_list_all) (use PDict in \<open>force simp: bindE_eq_Inr list_all_iff\<close>)
  from wire_ok_py_dict [OF this] w show ?case by simp
qed (auto split: if_splits)

lemma dict_eqI:
  assumes "dict_ok d" and "fst ` set d \<subseteq> fst ` set kvs" and "distinct (map fst kvs)"
    and "list_all (\<lambda>(k, v). map_of d k = Some v) kvs"
  shows "d = py_dict kvs"
proof (rule map_sorted_distinct_set_unique [of fst])
  have "\<forall>(k, v)\<in>set kvs. map_of kvs k = Some v" using assms(3) by auto
  then have "map_of d k = map_of (py_dict kvs) k" for k
  proof (cases "k \<in> fst ` set kvs")
    case True
    then show ?thesis using assms by (auto simp: map_of_py_dict_distinct list_all_iff)
  next
    case False
    then have "k \<notin> fst ` set d" using assms(2) by blast
    with False show ?thesis by (metis keys_py_dict map_of_eq_None_iff)
  qed
  then have "map_of d = map_of (py_dict kvs)" by auto
  then show "set d = set (py_dict kvs)"
    using assms(1) by (metis dict_ok_distinct dict_ok_py_dict map_of_inject_set)
  show "inj_on fst (set d \<union> set (py_dict kvs))"
    using \<open>set d = set (py_dict kvs)\<close> assms(1) dict_ok_distinct by (metis Un_absorb distinct_map)
qed (use assms(1) dict_ok_py_dict [of kvs] in \<open>auto simp: dict_ok_def strict_sorted_iff\<close>)

lemma dict_item_eq_Inr [result_simps]: "dict_item d k = Inr v \<longleftrightarrow> map_of d k = Some v"
  by (simp add: dict_item_def split: option.splits)

definition wire_dict :: "pydict \<Rightarrow> bool" where
  "wire_dict d \<longleftrightarrow> wire_ok (PDict d)"

lemma wire_dict_item: "wire_dict d \<Longrightarrow> map_of d k = Some v \<Longrightarrow> wire_ok v"
  by (force simp: wire_dict_def list_all_iff dest: map_of_SomeD)

lemma wire_dict_eqI:
  assumes "wire_dict d" and "fst ` set d \<subseteq> fst ` set kvs" and "distinct (map fst kvs)"
    and "list_all (\<lambda>(k, v). map_of d k = Some v) kvs"
  shows "d = py_dict kvs"
  by (rule dict_eqI) (use assms in \<open>simp_all add: wire_dict_def\<close>)

text \<open>A successful strict decode of a wire object, and what its fields are.\<close>

lemma decode_object:
  assumes "bindE (strict_object raw req [] label et) f = Inr x" and "wire_ok raw"
  shows "\<exists>d. raw = PDict d \<and> wire_dict d \<and> fst ` set d \<subseteq> set req \<and> f d = Inr x"
  using assms by (auto simp: bindE_eq_Inr strict_object_eq_Inr wire_dict_def)

lemma mapE_decode_iff:
  assumes "\<And>raw x. wire_ok raw \<Longrightarrow> dec raw = Inr x \<longleftrightarrow> valid x \<and> raw = enc x" and "list_all wire_ok raws"
  shows "mapE dec raws = Inr xs \<longleftrightarrow> list_all valid xs \<and> raws = map enc xs"
  using assms(2)
proof (induction raws arbitrary: xs)
  case (Cons r raws)
  then have step: "mapE dec raws = Inr ys \<longleftrightarrow> list_all valid ys \<and> raws = map enc ys"
    "dec r = Inr y \<longleftrightarrow> valid y \<and> r = enc y" for y ys
    by (simp_all add: assms(1))
  show ?case by (cases xs) (auto simp: bindE_eq_Inr step)
qed auto

lemma case_list_eq_Inr:
  "(case v of PList xs \<Rightarrow> f xs | _ \<Rightarrow> Inl err) = Inr y \<longleftrightarrow> (\<exists>xs. v = PList xs \<and> f xs = Inr y)"
  by (cases v) auto

section \<open>The contract of a wire class\<close>

text \<open>
  What a serialisable dataclass of the harness promises on the values it can store: decoding inverts
  encoding. The encoding need not be a wire object in the strict sense: a float field may hold any
  number, and reading its text back is a hypothesis where it matters.
\<close>

locale wire_class =
  fixes valid :: "'a \<Rightarrow> bool"
    and to_dict :: "'a \<Rightarrow> pyobj"
    and from_dict :: "pyobj \<Rightarrow> 'a result"
  assumes round_trip: "valid x \<Longrightarrow> from_dict (to_dict x) = Inr x"
begin

lemma to_dict_inj: "valid x \<Longrightarrow> valid y \<Longrightarrow> to_dict x = to_dict y \<longleftrightarrow> x = y"
  using round_trip by (metis sum.inject(2))

lemma text_round_trip:
  "valid x \<Longrightarrow> wire_ok (to_dict x) \<Longrightarrow>
     bindE (bindE (canonical_json_bytes (to_dict x)) (\<lambda>t. loads_strict_json t label)) from_dict = Inr x"
  by (simp add: loads_json_dumps round_trip)

lemma encode_list: "list_all valid xs \<Longrightarrow> mapE from_dict (map to_dict xs) = Inr xs"
  by (rule mapE_Inr_id) (simp add: list_all_iff round_trip)

end

text \<open>The stronger promise of most classes: the decoder accepts exactly the encodings of the well-formed values.\<close>

locale wire_contract =
  fixes valid :: "'a \<Rightarrow> bool"
    and to_dict :: "'a \<Rightarrow> pyobj"
    and from_dict :: "pyobj \<Rightarrow> 'a result"
  assumes encode_wire: "wire_ok (to_dict x)"
    and from_dict_iff: "wire_ok raw \<Longrightarrow> from_dict raw = Inr x \<longleftrightarrow> valid x \<and> raw = to_dict x"
begin

lemma decode_list: "list_all wire_ok raws \<Longrightarrow> mapE from_dict raws = Inr xs \<longleftrightarrow> list_all valid xs \<and> raws = map to_dict xs"
  by (rule mapE_decode_iff [OF from_dict_iff])

end

sublocale wire_contract \<subseteq> wire_class valid to_dict from_dict
  by unfold_locales (simp_all add: encode_wire from_dict_iff)

text \<open>
  A class that also carries the digest of its own content under one of its fields: the decoder
  accepts the field only when it is that digest.
\<close>

locale digest_class = wire_class +
  fixes items :: "'a \<Rightarrow> pydict" and key :: string
  assumes to_dict_items:
      "to_dict x = PDict (py_dict (items x @ [(key, PStr (wire_digest (PDict (py_dict (items x)))))]))"
    and recorded_digest: "wire_ok (PDict d) \<Longrightarrow> from_dict (PDict d) = Inr x \<Longrightarrow>
      map_of d key = Some (PStr (wire_digest (PDict (py_dict (items x)))))"
begin

lemma payload_inj: "valid x \<Longrightarrow> valid y \<Longrightarrow> py_dict (items x) = py_dict (items y) \<longleftrightarrow> x = y"
  using to_dict_inj [of x y] by (auto simp: to_dict_items py_dict_def)

text \<open>The digest names the content: two values that share it are equal, unless SHA-256 collides on them.\<close>

lemma digest_names_content:
  assumes "valid x" and "valid y" and "wire_ok (PDict (py_dict (items x)))" and "wire_ok (PDict (py_dict (items y)))"
    and "wire_digest (PDict (py_dict (items x))) = wire_digest (PDict (py_dict (items y)))"
  shows "x = y \<or> (\<exists>s t. s \<noteq> t \<and> canonical_json_bytes (PDict (py_dict (items x))) = Inr s \<and>
     canonical_json_bytes (PDict (py_dict (items y))) = Inr t \<and> sha256_hexdigest s = sha256_hexdigest t)"
proof (cases "py_dict (items x) = py_dict (items y)")
  case True
  with assms show ?thesis by (simp add: payload_inj)
next
  case False
  then have "json_dumps (PDict (py_dict (items x))) \<noteq> json_dumps (PDict (py_dict (items y)))"
    using json_dumps_inj [OF assms(3,4)] by blast
  with assms(3-5) show ?thesis
    by (simp add: wire_digest_def del: wire_ok.simps json_dumps.simps)
qed

end

locale digest_contract = wire_contract +
  fixes items :: "'a \<Rightarrow> pydict" and key :: string
  assumes encode_items:
      "to_dict x = PDict (py_dict (items x @ [(key, PStr (wire_digest (PDict (py_dict (items x)))))]))"
    and encode_items_wire: "list_all (\<lambda>kv. wire_ok (snd kv)) (items x)"
begin

lemma payload_wire: "wire_ok (PDict (py_dict (items x)))"
  by (rule wire_ok_py_dict [OF encode_items_wire])

end

sublocale digest_contract \<subseteq> digest_class valid to_dict from_dict items key
  by unfold_locales (auto simp: encode_items from_dict_iff map_of_py_dict simp del: wire_ok.simps)

text \<open>
  C1. Round trip of the wire format: whatever value \<open>canonical_json_bytes\<close> encodes, the strict reader
  decodes the text to exactly the wire form \<open>to_wire\<close> gives that value, whatever label it is read
  under. Reading never fails on a text the harness wrote: no duplicate field, no non-finite number.
\<close>

theorem canonical_json_round_trip:
  assumes "canonical_json_bytes v = Inr text" and "floats_ok v"
  shows "loads_strict_json text label = to_wire v"
proof -
  obtain w where w: "to_wire v = Inr w" and "text = json_dumps w"
    using assms(1) by (auto simp: canonical_json_bytes_def bindE_eq_Inr)
  with wire_ok_to_wire [OF w assms(2)] show ?thesis by (simp add: loads_json_dumps)
qed

theorem canonical_json_round_trip_witness:
  "loads_strict_json (CHR ''['' # CHR ''1'' # CHR '','' # json_string ''a'' @ [CHR '']'']) ''x''
     = to_wire (PTuple [PInt 1, PStr ''a''])"
proof (rule canonical_json_round_trip)
  show "canonical_json_bytes (PTuple [PInt 1, PStr ''a'']) =
      Inr (CHR ''['' # CHR ''1'' # CHR '','' # json_string ''a'' @ [CHR '']''])"
    by code_simp
  show "floats_ok (PTuple [PInt 1, PStr ''a''])" by simp
qed

end
