(* ===== verification/Evidence_Contracts.thy ===== *)
theory Evidence_Contracts
  imports Wire_Codec
begin

text \<open>
  \<^verbatim>\<open>contracts/evidence_contract.py\<close>: the data model of evidence contracts. Each dataclass is a record
  (or, for expressions, a datatype); its \<^verbatim>\<open>__post_init__\<close> is the constructor function \<open>mk_\<dots>\<close>, which returns the value or
  the exception; \<^verbatim>\<open>to_dict\<close>, \<^verbatim>\<open>from_dict\<close> and the digest properties keep their names. A check that
  a field has an exact Python type is discharged by the field's HOL type. The lemmas show that a
  constructor succeeds exactly on the well-formed values (\<open>wf_\<dots>\<close>), that the hard-limit loop computes the
  node count and depth of an expression, and that decoding inverts encoding.
\<close>

section \<open>Field decoders\<close>

definition as_string :: "pyobj \<Rightarrow> string \<Rightarrow> string result" where
  "as_string raw label = (case raw of PStr s \<Rightarrow> Inr s | _ \<Rightarrow> Inl (ValueError (label @ '' must be a string'')))"

definition as_optional_string :: "pyobj \<Rightarrow> string \<Rightarrow> string option result" where
  "as_optional_string raw label = (if raw = PNone then Inr None else bindE (as_string raw label) (\<lambda>s. Inr (Some s)))"

definition as_integer :: "pyobj \<Rightarrow> string \<Rightarrow> int result" where
  "as_integer raw label = (case raw of PInt i \<Rightarrow> Inr i | _ \<Rightarrow> Inl (ValueError (label @ '' must be an integer'')))"

definition as_string_tuple :: "pyobj \<Rightarrow> string \<Rightarrow> string list result" where
  "as_string_tuple raw label = (case raw of
       PList xs \<Rightarrow> if \<exists>x\<in>set xs. \<not> (case x of PStr _ \<Rightarrow> True | _ \<Rightarrow> False)
                  then Inl (ValueError (label @ '' must be a string list''))
                  else Inr (map (\<lambda>x. case x of PStr s \<Rightarrow> s | _ \<Rightarrow> []) xs)
     | _ \<Rightarrow> Inl (ValueError (label @ '' must be a string list'')))"

definition as_object_list :: "pyobj \<Rightarrow> string \<Rightarrow> pyobj list result" where
  "as_object_list raw label = (case raw of PList xs \<Rightarrow> Inr xs | _ \<Rightarrow> Inl (ValueError (label @ '' must be a list'')))"

definition validate_digest :: "string \<Rightarrow> string \<Rightarrow> unit result" where
  "validate_digest v label = (if \<not> is_sha256 v then Inl (ValueError (label @ '' must be SHA-256'')) else Inr ())"

definition as_digest :: "pyobj \<Rightarrow> string \<Rightarrow> string result" where
  "as_digest raw label = bindE (as_string raw label) (\<lambda>v. bindE (validate_digest v label) (\<lambda>_. Inr v))"

definition is_token :: "string \<Rightarrow> bool" where
  "is_token v \<longleftrightarrow> \<not> (v = [] \<or> 256 < length v \<or> CHR 0x00 \<in> set v \<or> py_strip v \<noteq> v
     \<or> (\<exists>c\<in>set v. py_isspace c) \<or> (\<exists>c\<in>set v. py_ord c < 32))"

definition validate_token :: "string \<Rightarrow> string \<Rightarrow> unit result" where
  "validate_token v label =
     (if \<not> is_token v then Inl (ValueError (label @ '' must be a bounded non-whitespace token'')) else Inr ())"

definition validate_positive_integer :: "int \<Rightarrow> string \<Rightarrow> unit result" where
  "validate_positive_integer v label = (if v \<le> 0 then Inl (ValueError (label @ '' must be a positive integer'')) else Inr ())"

definition validate_nonnegative_integer :: "int \<Rightarrow> string \<Rightarrow> unit result" where
  "validate_nonnegative_integer v label = (if v < 0 then Inl (ValueError (label @ '' must be a non-negative integer'')) else Inr ())"

definition normalize_token_tuple :: "string list \<Rightarrow> string \<Rightarrow> bool \<Rightarrow> string list result" where
  "normalize_token_tuple values label allow_empty =
     (if values = [] \<and> \<not> allow_empty then Inl (ValueError (label @ '' must be non-empty''))
      else bindE (checkE (\<lambda>v. validate_token v label) values) (\<lambda>_.
        if \<not> distinct values then Inl (ValueError (label @ '' must be unique'')) else Inr values))"

text \<open>\<open>_enum\<close>: the member whose value is the given string.\<close>

definition as_enum :: "('a \<Rightarrow> string) \<Rightarrow> 'a list \<Rightarrow> pyobj \<Rightarrow> string \<Rightarrow> 'a result" where
  "as_enum value members raw label = bindE (as_string raw label) (\<lambda>s.
     case find (\<lambda>m. value m = s) members of Some m \<Rightarrow> Inr m
       | None \<Rightarrow> Inl (ValueError (label @ '' is unsupported'')))"

text \<open>One field of a decoded object: \<open>conv(raw[key], label)\<close>.\<close>

definition field :: "pydict \<Rightarrow> string \<Rightarrow> (pyobj \<Rightarrow> string \<Rightarrow> 'a result) \<Rightarrow> string \<Rightarrow> 'a result" where
  "field d key conv label = bindE (dict_item d key) (\<lambda>raw. conv raw label)"

section \<open>Enumerations\<close>

datatype predicate_operator =
  EQUALS | NOT_EQUALS | LESS_THAN | LESS_THAN_OR_EQUAL | GREATER_THAN | GREATER_THAN_OR_EQUAL
  | CONTAINS | SUBSET | DISJOINT

fun predicate_operator_value :: "predicate_operator \<Rightarrow> string" where
  "predicate_operator_value EQUALS = ''equals''"
| "predicate_operator_value NOT_EQUALS = ''not_equals''"
| "predicate_operator_value LESS_THAN = ''less_than''"
| "predicate_operator_value LESS_THAN_OR_EQUAL = ''less_than_or_equal''"
| "predicate_operator_value GREATER_THAN = ''greater_than''"
| "predicate_operator_value GREATER_THAN_OR_EQUAL = ''greater_than_or_equal''"
| "predicate_operator_value CONTAINS = ''contains''"
| "predicate_operator_value SUBSET = ''subset''"
| "predicate_operator_value DISJOINT = ''disjoint''"

definition predicate_operators :: "predicate_operator list" where
  "predicate_operators = [EQUALS, NOT_EQUALS, LESS_THAN, LESS_THAN_OR_EQUAL, GREATER_THAN,
     GREATER_THAN_OR_EQUAL, CONTAINS, SUBSET, DISJOINT]"

datatype observation_status = OBSERVED | UNAVAILABLE | OBS_ERROR

fun observation_status_value :: "observation_status \<Rightarrow> string" where
  "observation_status_value OBSERVED = ''observed''"
| "observation_status_value UNAVAILABLE = ''unavailable''"
| "observation_status_value OBS_ERROR = ''error''"

definition observation_statuses :: "observation_status list" where
  "observation_statuses = [OBSERVED, UNAVAILABLE, OBS_ERROR]"

datatype logical_result = PASS | FAIL | INDETERMINATE

fun logical_result_value :: "logical_result \<Rightarrow> string" where
  "logical_result_value PASS = ''pass''"
| "logical_result_value FAIL = ''fail''"
| "logical_result_value INDETERMINATE = ''indeterminate''"

definition logical_results :: "logical_result list" where
  "logical_results = [PASS, FAIL, INDETERMINATE]"

datatype evaluation_lifecycle = COMPLETED | LIFECYCLE_ERROR

fun evaluation_lifecycle_value :: "evaluation_lifecycle \<Rightarrow> string" where
  "evaluation_lifecycle_value COMPLETED = ''completed''"
| "evaluation_lifecycle_value LIFECYCLE_ERROR = ''error''"

definition evaluation_lifecycles :: "evaluation_lifecycle list" where
  "evaluation_lifecycles = [COMPLETED, LIFECYCLE_ERROR]"

datatype gap_closure_result = CLOSED | NOT_CLOSED | GAP_INDETERMINATE

fun gap_closure_result_value :: "gap_closure_result \<Rightarrow> string" where
  "gap_closure_result_value CLOSED = ''closed''"
| "gap_closure_result_value NOT_CLOSED = ''not_closed''"
| "gap_closure_result_value GAP_INDETERMINATE = ''indeterminate''"

definition gap_closure_results :: "gap_closure_result list" where
  "gap_closure_results = [CLOSED, NOT_CLOSED, GAP_INDETERMINATE]"

section \<open>Evidence values\<close>

datatype evidence_scalar = EBool bool | EInt int | EStr string

datatype evidence_value = EScalar evidence_scalar | ETuple "evidence_scalar list"

fun scalar_obj :: "evidence_scalar \<Rightarrow> pyobj" where
  "scalar_obj (EBool b) = PBool b"
| "scalar_obj (EInt i) = PInt i"
| "scalar_obj (EStr s) = PStr s"

text \<open>An evidence value as a raw Python object, and on the wire (a tuple becomes a list).\<close>

fun value_obj :: "evidence_value \<Rightarrow> pyobj" where
  "value_obj (EScalar s) = scalar_obj s"
| "value_obj (ETuple xs) = PTuple (map scalar_obj xs)"

fun value_wire :: "evidence_value \<Rightarrow> pyobj" where
  "value_wire (EScalar s) = scalar_obj s"
| "value_wire (ETuple xs) = PList (map scalar_obj xs)"

definition MAX_INTEGER :: int where
  "MAX_INTEGER = 2 ^ 63 - 1"

fun normalize_evidence_value :: "pyobj \<Rightarrow> string \<Rightarrow> evidence_value result"
  and normalize_evidence_items :: "pyobj list \<Rightarrow> string \<Rightarrow> evidence_scalar list result" where
  "normalize_evidence_value (PBool b) label = Inr (EScalar (EBool b))"
| "normalize_evidence_value (PInt i) label =
     (if MAX_INTEGER < \<bar>i\<bar> then Inl (ValueError (label @ '' integer is out of range'')) else Inr (EScalar (EInt i)))"
| "normalize_evidence_value (PStr s) label =
     (if 4096 < length s \<or> CHR 0x00 \<in> set s then Inl (ValueError (label @ '' string is invalid'')) else Inr (EScalar (EStr s)))"
| "normalize_evidence_value (PList xs) label =
     (if 256 < length xs then Inl (ValueError (label @ '' sequence is too large''))
      else bindE (normalize_evidence_items xs label) (\<lambda>vs. Inr (ETuple vs)))"
| "normalize_evidence_value (PTuple xs) label =
     (if 256 < length xs then Inl (ValueError (label @ '' sequence is too large''))
      else bindE (normalize_evidence_items xs label) (\<lambda>vs. Inr (ETuple vs)))"
| "normalize_evidence_value raw label =
     Inl (ValueError (label @ '' must be a boolean, integer, string, or scalar list''))"
| "normalize_evidence_items [] label = Inr []"
| "normalize_evidence_items (x # xs) label =
     bindE (normalize_evidence_value x label) (\<lambda>normalized.
       case normalized of ETuple _ \<Rightarrow> Inl (ValueError (label @ '' cannot contain nested sequences''))
         | EScalar s \<Rightarrow> bindE (normalize_evidence_items xs label) (\<lambda>ss. Inr (s # ss)))"

section \<open>Selectors and clauses\<close>

record evidence_selector =
  sel_observation_type :: string
  sel_stage :: string
  sel_check_id :: string
  sel_producer_authority :: string

definition mk_evidence_selector :: "string \<Rightarrow> string \<Rightarrow> string \<Rightarrow> string \<Rightarrow> evidence_selector result" where
  "mk_evidence_selector ot st ci pa =
     bindE (validate_token ot ''observation type'') (\<lambda>_.
     bindE (validate_token st ''observation stage'') (\<lambda>_.
     bindE (validate_token ci ''observation check ID'') (\<lambda>_.
     bindE (validate_token pa ''observation producer authority'') (\<lambda>_.
     Inr \<lparr>sel_observation_type = ot, sel_stage = st, sel_check_id = ci, sel_producer_authority = pa\<rparr>))))"

definition selector_to_dict :: "evidence_selector \<Rightarrow> pyobj" where
  "selector_to_dict s = PDict (py_dict
     [(''observation_type'', PStr (sel_observation_type s)), (''stage'', PStr (sel_stage s)),
      (''check_id'', PStr (sel_check_id s)), (''producer_authority'', PStr (sel_producer_authority s))])"

definition selector_from_dict :: "pyobj \<Rightarrow> evidence_selector result" where
  "selector_from_dict raw =
     bindE (strict_object raw [''observation_type'', ''stage'', ''check_id'', ''producer_authority''] []
              ''evidence selector'' ValueError) (\<lambda>d.
     bindE (field d ''observation_type'' as_string ''observation type'') (\<lambda>ot.
     bindE (field d ''stage'' as_string ''observation stage'') (\<lambda>st.
     bindE (field d ''check_id'' as_string ''observation check ID'') (\<lambda>ci.
     bindE (field d ''producer_authority'' as_string ''observation producer authority'') (\<lambda>pa.
     mk_evidence_selector ot st ci pa)))))"

record evidence_clause =
  cl_clause_id :: string
  cl_selector :: evidence_selector
  cl_operator :: predicate_operator
  cl_expected :: evidence_value

definition mk_evidence_clause ::
    "string \<Rightarrow> evidence_selector \<Rightarrow> predicate_operator \<Rightarrow> pyobj \<Rightarrow> evidence_clause result" where
  "mk_evidence_clause cid sel oper expected =
     bindE (validate_token cid ''evidence clause ID'') (\<lambda>_.
     bindE (normalize_evidence_value expected ''evidence clause expected value'') (\<lambda>v.
     Inr \<lparr>cl_clause_id = cid, cl_selector = sel, cl_operator = oper, cl_expected = v\<rparr>))"

definition clause_to_dict :: "evidence_clause \<Rightarrow> pyobj" where
  "clause_to_dict c = PDict (py_dict
     [(''clause_id'', PStr (cl_clause_id c)), (''selector'', selector_to_dict (cl_selector c)),
      (''operator'', PStr (predicate_operator_value (cl_operator c))), (''expected'', value_wire (cl_expected c))])"

definition clause_from_dict :: "pyobj \<Rightarrow> evidence_clause result" where
  "clause_from_dict raw =
     bindE (strict_object raw [''clause_id'', ''selector'', ''operator'', ''expected''] [] ''evidence clause'' ValueError) (\<lambda>d.
     bindE (field d ''clause_id'' as_string ''evidence clause ID'') (\<lambda>cid.
     bindE (field d ''selector'' (\<lambda>r _. selector_from_dict r) []) (\<lambda>sel.
     bindE (field d ''operator'' (as_enum predicate_operator_value predicate_operators) ''evidence clause operator'') (\<lambda>oper.
     bindE (field d ''expected'' normalize_evidence_value ''evidence clause expected value'') (\<lambda>v.
     mk_evidence_clause cid sel oper (value_obj v))))))"

section \<open>Expressions\<close>

datatype evidence_expression =
    ClauseRef string
  | AllOf "evidence_expression list"
  | AnyOf "evidence_expression list"
  | AtLeast int "evidence_expression list"
  | Not evidence_expression

definition HARD_MAX_CLAUSES :: nat where "HARD_MAX_CLAUSES = 256"
definition HARD_MAX_EXPRESSION_NODES :: nat where "HARD_MAX_EXPRESSION_NODES = 2048"
definition HARD_MAX_EXPRESSION_DEPTH :: nat where "HARD_MAX_EXPRESSION_DEPTH = 64"

definition validate_expression_children :: "evidence_expression list \<Rightarrow> string \<Rightarrow> evidence_expression list result" where
  "validate_expression_children children label =
     (if children = [] then Inl (ValueError (label @ '' expression requires valid children'')) else Inr children)"

definition mk_clause_ref :: "string \<Rightarrow> evidence_expression result" where
  "mk_clause_ref cid = bindE (validate_token cid ''expression clause ID'') (\<lambda>_. Inr (ClauseRef cid))"

definition mk_all_of :: "evidence_expression list \<Rightarrow> evidence_expression result" where
  "mk_all_of children = bindE (validate_expression_children children ''all_of'') (\<lambda>cs. Inr (AllOf cs))"

definition mk_any_of :: "evidence_expression list \<Rightarrow> evidence_expression result" where
  "mk_any_of children = bindE (validate_expression_children children ''any_of'') (\<lambda>cs. Inr (AnyOf cs))"

definition mk_at_least :: "int \<Rightarrow> evidence_expression list \<Rightarrow> evidence_expression result" where
  "mk_at_least minimum children =
     bindE (validate_expression_children children ''at_least'') (\<lambda>cs.
       if minimum \<le> 0 \<or> int (length cs) < minimum
       then Inl (ValueError ''at_least minimum must be within its child count'') else Inr (AtLeast minimum cs))"

fun expression_to_dict :: "evidence_expression \<Rightarrow> pyobj" where
  "expression_to_dict (ClauseRef cid) = PDict (py_dict [(''kind'', PStr ''clause_ref''), (''clause_id'', PStr cid)])"
| "expression_to_dict (AllOf cs) =
     PDict (py_dict [(''kind'', PStr ''all_of''), (''children'', PList (map expression_to_dict cs))])"
| "expression_to_dict (AnyOf cs) =
     PDict (py_dict [(''kind'', PStr ''any_of''), (''children'', PList (map expression_to_dict cs))])"
| "expression_to_dict (AtLeast m cs) =
     PDict (py_dict [(''kind'', PStr ''at_least''), (''minimum'', PInt m), (''children'', PList (map expression_to_dict cs))])"
| "expression_to_dict (Not e) = PDict (py_dict [(''kind'', PStr ''not''), (''child'', expression_to_dict e)])"

text \<open>
  Whether a value may be looked up in a set: a list or dict is unhashable and makes the membership
  test of \<open>_expression_from_dict\<close> raise TypeError.
\<close>

fun py_hashable :: "pyobj \<Rightarrow> bool" where
  "py_hashable (PList _) = False"
| "py_hashable (PDict _) = False"
| "py_hashable (PTuple xs) = list_all py_hashable xs"
| "py_hashable _ = True"

lemma size_dict_value:
  assumes "(k, v) \<in> set d"
  shows "size v < size (PDict d)"
proof -
  have "size v \<le> size_prod (\<lambda>x. 0) size (k, v)" by (simp add: size_prod_simp)
  with assms have "size v \<le> size_list (size_prod (\<lambda>x. 0) size) d" by (rule size_list_estimation')
  then show ?thesis by simp
qed

lemma size_dict_item:
  assumes "dict_item d k = Inr v"
  shows "size v < size (PDict d)"
proof -
  from assms have "map_of d k = Some v" by (simp add: dict_item_def split: option.splits)
  then show ?thesis by (rule size_dict_value [OF map_of_SomeD])
qed

text \<open>
  The shared node counter of the source is threaded: a call takes the count so far and returns the
  count after its subtree.
\<close>

function expression_from :: "pyobj \<Rightarrow> nat \<Rightarrow> nat \<Rightarrow> (evidence_expression \<times> nat) result"
  and expressions_from :: "pyobj list \<Rightarrow> nat \<Rightarrow> nat \<Rightarrow> (evidence_expression list \<times> nat) result" where
  "expression_from raw depth counter =
     (if HARD_MAX_EXPRESSION_DEPTH < depth then Inl (ValueError ''evidence expression exceeds the hard depth limit'')
      else if HARD_MAX_EXPRESSION_NODES < Suc counter then Inl (ValueError ''evidence expression exceeds the hard node limit'')
      else case raw of PDict d \<Rightarrow>
        (let kind = dict_get d ''kind'' in
         if kind = PStr ''clause_ref'' then
           bindE (strict_object raw [''kind'', ''clause_id''] [] ''clause_ref expression'' ValueError) (\<lambda>p.
           bindE (field p ''clause_id'' as_string ''expression clause ID'') (\<lambda>cid.
           bindE (mk_clause_ref cid) (\<lambda>e. Inr (e, Suc counter))))
         else if \<not> py_hashable kind then Inl (TypeError ''unhashable type'')
         else if kind \<in> {PStr ''all_of'', PStr ''any_of'', PStr ''at_least''} then
           (let required = [''kind'', ''children''] @ (if kind = PStr ''at_least'' then [''minimum''] else []);
                label = (case kind of PStr k \<Rightarrow> k | _ \<Rightarrow> []) @ '' expression'' in
            bindE (strict_object raw required [] label ValueError) (\<lambda>p.
            bindE (dict_item p ''children'') (\<lambda>children_raw. case children_raw of
                PList xs \<Rightarrow>
                  if xs = [] then Inl (ValueError (label @ '' requires children''))
                  else bindE (expressions_from xs (Suc depth) (Suc counter)) (\<lambda>(children, n).
                    if kind = PStr ''all_of'' then bindE (mk_all_of children) (\<lambda>e. Inr (e, n))
                    else if kind = PStr ''any_of'' then bindE (mk_any_of children) (\<lambda>e. Inr (e, n))
                    else bindE (field p ''minimum'' as_integer ''at_least minimum'') (\<lambda>m.
                         bindE (mk_at_least m children) (\<lambda>e. Inr (e, n))))
              | _ \<Rightarrow> Inl (ValueError (label @ '' requires children'')))))
         else if kind = PStr ''not'' then
           bindE (strict_object raw [''kind'', ''child''] [] ''not expression'' ValueError) (\<lambda>p.
           bindE (dict_item p ''child'') (\<lambda>child_raw.
           bindE (expression_from child_raw (Suc depth) (Suc counter)) (\<lambda>(child, n). Inr (Not child, n))))
         else Inl (ValueError ''evidence expression kind is unsupported''))
      | _ \<Rightarrow> Inl (ValueError ''evidence expression must be an object''))"
| "expressions_from [] depth counter = Inr ([], counter)"
| "expressions_from (x # xs) depth counter =
     bindE (expression_from x depth counter) (\<lambda>(e, n).
     bindE (expressions_from xs depth n) (\<lambda>(es, n'). Inr (e # es, n')))"
  by pat_completeness auto
termination
  by (relation "measure (\<lambda>x. case x of Inl (raw, _, _) \<Rightarrow> size raw | Inr (xs, _, _) \<Rightarrow> size_list size xs)")
    (auto simp: strict_object_eq_Inr dest!: size_dict_item)

declare expression_from.simps [simp del]

definition expression_from_dict :: "pyobj \<Rightarrow> evidence_expression result" where
  "expression_from_dict raw = bindE (expression_from raw 1 0) (\<lambda>(e, _). Inr e)"

lemma size_fst_comp: "(\<lambda>p. size (fst p)) \<circ> (\<lambda>c. (c, n)) = size"
  by (simp add: fun_eq_iff)

text \<open>The explicit-stack walk of \<open>_validate_expression_hard_limits\<close>; the head of the list is the top.\<close>

function hard_limits_loop :: "(evidence_expression \<times> nat) list \<Rightarrow> nat \<Rightarrow> unit result" where
  "hard_limits_loop [] nodes = Inr ()"
| "hard_limits_loop ((current, depth) # stack) nodes =
     (if HARD_MAX_EXPRESSION_NODES < Suc nodes then Inl (ValueError ''evidence expression exceeds the hard node limit'')
      else if HARD_MAX_EXPRESSION_DEPTH < depth then Inl (ValueError ''evidence expression exceeds the hard depth limit'')
      else case current of
          ClauseRef _ \<Rightarrow> hard_limits_loop stack (Suc nodes)
        | AllOf cs \<Rightarrow> hard_limits_loop (map (\<lambda>c. (c, Suc depth)) cs @ stack) (Suc nodes)
        | AnyOf cs \<Rightarrow> hard_limits_loop (map (\<lambda>c. (c, Suc depth)) cs @ stack) (Suc nodes)
        | AtLeast _ cs \<Rightarrow> hard_limits_loop (map (\<lambda>c. (c, Suc depth)) cs @ stack) (Suc nodes)
        | Not e \<Rightarrow> hard_limits_loop ((e, Suc depth) # stack) (Suc nodes))"
  by pat_completeness auto
termination
  by (relation "measure (\<lambda>(stack, _). size_list (\<lambda>p. size (fst p)) stack)")
    (auto simp: size_fst_comp)

definition validate_expression_hard_limits :: "evidence_expression \<Rightarrow> unit result" where
  "validate_expression_hard_limits e = hard_limits_loop [(e, 1)] 0"

section \<open>Evidence contracts\<close>

record evidence_contract =
  ec_contract_id :: string
  ec_version :: int
  ec_requirement_ids :: "string list"
  ec_gap_ids :: "string list"
  ec_task_basis_ids :: "string list"
  ec_verification_profile_digest :: string
  ec_observation_adapter_digest :: string
  ec_clauses :: "evidence_clause list"
  ec_task_success :: evidence_expression
  ec_schema_version :: string

text \<open>The checks on clauses and root expression that contracts and closure rules share.\<close>

definition validate_rule_clauses :: "evidence_clause list \<Rightarrow> string \<Rightarrow> string \<Rightarrow> unit result" where
  "validate_rule_clauses clauses label ids_label =
     (if clauses = [] then Inl (ValueError (label @ '' requires evidence clauses''))
      else if HARD_MAX_CLAUSES < length clauses then Inl (ValueError (label @ '' exceeds the hard clause limit''))
      else if \<not> distinct (map cl_clause_id clauses) then Inl (ValueError (ids_label @ '' must be unique''))
      else Inr ())"

definition mk_evidence_contract :: "evidence_contract \<Rightarrow> evidence_contract result" where
  "mk_evidence_contract c =
     bindE (validate_token (ec_contract_id c) ''evidence contract ID'') (\<lambda>_.
     bindE (validate_positive_integer (ec_version c) ''evidence contract version'') (\<lambda>_.
     bindE (normalize_token_tuple (ec_requirement_ids c) ''requirement IDs'' False) (\<lambda>_.
     bindE (normalize_token_tuple (ec_gap_ids c) ''Gap IDs'' False) (\<lambda>_.
     bindE (normalize_token_tuple (ec_task_basis_ids c) ''TaskBasis IDs'' False) (\<lambda>_.
     bindE (validate_digest (ec_verification_profile_digest c) ''evidence contract verification profile digest'') (\<lambda>_.
     bindE (validate_digest (ec_observation_adapter_digest c) ''evidence contract observation adapter digest'') (\<lambda>_.
     bindE (validate_rule_clauses (ec_clauses c) ''evidence contract'' ''evidence contract clause IDs'') (\<lambda>_.
     bindE (validate_expression_hard_limits (ec_task_success c)) (\<lambda>_.
     if ec_schema_version c \<noteq> ''sisyphus_harness.evidence_contract.v1''
     then Inl (ValueError ''unsupported evidence contract schema'') else Inr c)))))))))"

text \<open>The items of \<open>content_payload\<close>, the content digest over them, and the full encoding.\<close>

definition contract_items :: "evidence_contract \<Rightarrow> pydict" where
  "contract_items c =
     [(''contract_id'', PStr (ec_contract_id c)), (''version'', PInt (ec_version c)),
      (''requirement_ids'', PList (map PStr (ec_requirement_ids c))), (''gap_ids'', PList (map PStr (ec_gap_ids c))),
      (''task_basis_ids'', PList (map PStr (ec_task_basis_ids c))),
      (''verification_profile_digest'', PStr (ec_verification_profile_digest c)),
      (''observation_adapter_digest'', PStr (ec_observation_adapter_digest c)),
      (''clauses'', PList (map clause_to_dict (ec_clauses c))),
      (''task_success'', expression_to_dict (ec_task_success c)), (''schema_version'', PStr (ec_schema_version c))]"

definition contract_payload :: "evidence_contract \<Rightarrow> pyobj" where
  "contract_payload c = PDict (py_dict (contract_items c))"

definition contract_digest :: "evidence_contract \<Rightarrow> string" where
  "contract_digest c = wire_digest (contract_payload c)"

definition contract_to_dict :: "evidence_contract \<Rightarrow> pyobj" where
  "contract_to_dict c = PDict (py_dict (contract_items c @ [(''contract_digest'', PStr (contract_digest c))]))"

definition contract_from_dict :: "pyobj \<Rightarrow> evidence_contract result" where
  "contract_from_dict raw =
     bindE (strict_object raw
       [''contract_id'', ''version'', ''requirement_ids'', ''gap_ids'', ''task_basis_ids'',
        ''verification_profile_digest'', ''observation_adapter_digest'', ''clauses'', ''task_success'',
        ''schema_version'', ''contract_digest''] [] ''evidence contract'' ValueError) (\<lambda>d.
     bindE (field d ''clauses'' as_object_list ''evidence contract clauses'') (\<lambda>clauses_raw.
     bindE (field d ''contract_id'' as_string ''evidence contract ID'') (\<lambda>cid.
     bindE (field d ''version'' as_integer ''evidence contract version'') (\<lambda>version.
     bindE (field d ''requirement_ids'' as_string_tuple ''evidence contract requirement IDs'') (\<lambda>rids.
     bindE (field d ''gap_ids'' as_string_tuple ''evidence contract Gap IDs'') (\<lambda>gids.
     bindE (field d ''task_basis_ids'' as_string_tuple ''evidence contract TaskBasis IDs'') (\<lambda>tids.
     bindE (field d ''verification_profile_digest'' as_digest ''evidence contract verification profile digest'') (\<lambda>vpd.
     bindE (field d ''observation_adapter_digest'' as_digest ''evidence contract observation adapter digest'') (\<lambda>oad.
     bindE (mapE clause_from_dict clauses_raw) (\<lambda>clauses.
     bindE (field d ''task_success'' (\<lambda>r _. expression_from_dict r) []) (\<lambda>success.
     bindE (field d ''schema_version'' as_string ''evidence contract schema'') (\<lambda>schema.
     bindE (mk_evidence_contract \<lparr>ec_contract_id = cid, ec_version = version, ec_requirement_ids = rids,
       ec_gap_ids = gids, ec_task_basis_ids = tids, ec_verification_profile_digest = vpd,
       ec_observation_adapter_digest = oad, ec_clauses = clauses, ec_task_success = success,
       ec_schema_version = schema\<rparr>) (\<lambda>contract.
     bindE (field d ''contract_digest'' as_digest ''evidence contract digest'') (\<lambda>recorded.
     if recorded \<noteq> contract_digest contract
     then Inl (ValueError ''evidence contract digest does not match content'') else Inr contract))))))))))))))"

section \<open>Gap closure rules\<close>

record gap_closure_rule =
  gr_rule_id :: string
  gr_version :: int
  gr_requirement_id :: string
  gr_gap_id :: string
  gr_clauses :: "evidence_clause list"
  gr_closure_condition :: evidence_expression
  gr_schema_version :: string

definition mk_gap_closure_rule :: "gap_closure_rule \<Rightarrow> gap_closure_rule result" where
  "mk_gap_closure_rule r =
     bindE (validate_token (gr_rule_id r) ''Gap closure rule ID'') (\<lambda>_.
     bindE (validate_positive_integer (gr_version r) ''Gap closure rule version'') (\<lambda>_.
     bindE (validate_token (gr_requirement_id r) ''Gap closure requirement ID'') (\<lambda>_.
     bindE (validate_token (gr_gap_id r) ''Gap closure Gap ID'') (\<lambda>_.
     bindE (validate_rule_clauses (gr_clauses r) ''Gap closure rule'' ''Gap closure clause IDs'') (\<lambda>_.
     bindE (validate_expression_hard_limits (gr_closure_condition r)) (\<lambda>_.
     if gr_schema_version r \<noteq> ''sisyphus_harness.gap_closure_rule.v1''
     then Inl (ValueError ''unsupported Gap closure rule schema'') else Inr r))))))"

definition rule_items :: "gap_closure_rule \<Rightarrow> pydict" where
  "rule_items r =
     [(''rule_id'', PStr (gr_rule_id r)), (''version'', PInt (gr_version r)),
      (''requirement_id'', PStr (gr_requirement_id r)), (''gap_id'', PStr (gr_gap_id r)),
      (''clauses'', PList (map clause_to_dict (gr_clauses r))),
      (''closure_condition'', expression_to_dict (gr_closure_condition r)),
      (''schema_version'', PStr (gr_schema_version r))]"

definition rule_payload :: "gap_closure_rule \<Rightarrow> pyobj" where
  "rule_payload r = PDict (py_dict (rule_items r))"

definition rule_digest :: "gap_closure_rule \<Rightarrow> string" where
  "rule_digest r = wire_digest (rule_payload r)"

definition rule_to_dict :: "gap_closure_rule \<Rightarrow> pyobj" where
  "rule_to_dict r = PDict (py_dict (rule_items r @ [(''rule_digest'', PStr (rule_digest r))]))"

definition rule_from_dict :: "pyobj \<Rightarrow> gap_closure_rule result" where
  "rule_from_dict raw =
     bindE (strict_object raw [''rule_id'', ''version'', ''requirement_id'', ''gap_id'', ''clauses'',
       ''closure_condition'', ''schema_version'', ''rule_digest''] [] ''Gap closure rule'' ValueError) (\<lambda>d.
     bindE (field d ''clauses'' as_object_list ''Gap closure rule clauses'') (\<lambda>clauses_raw.
     bindE (field d ''rule_id'' as_string ''Gap closure rule ID'') (\<lambda>rid.
     bindE (field d ''version'' as_integer ''Gap closure rule version'') (\<lambda>version.
     bindE (field d ''requirement_id'' as_string ''Gap closure requirement ID'') (\<lambda>req.
     bindE (field d ''gap_id'' as_string ''Gap closure Gap ID'') (\<lambda>gid.
     bindE (mapE clause_from_dict clauses_raw) (\<lambda>clauses.
     bindE (field d ''closure_condition'' (\<lambda>r _. expression_from_dict r) []) (\<lambda>cond.
     bindE (field d ''schema_version'' as_string ''Gap closure rule schema'') (\<lambda>schema.
     bindE (mk_gap_closure_rule \<lparr>gr_rule_id = rid, gr_version = version, gr_requirement_id = req, gr_gap_id = gid,
       gr_clauses = clauses, gr_closure_condition = cond, gr_schema_version = schema\<rparr>) (\<lambda>rule.
     bindE (field d ''rule_digest'' as_digest ''Gap closure rule digest'') (\<lambda>recorded.
     if recorded \<noteq> rule_digest rule
     then Inl (ValueError ''Gap closure rule digest does not match content'') else Inr rule)))))))))))"

section \<open>Observations\<close>

record evidence_observation =
  ob_observation_id :: string
  ob_selector :: evidence_selector
  ob_subject_digest :: string
  ob_source_run_id :: string
  ob_artifact_digest :: string
  ob_status :: observation_status
  ob_value :: "evidence_value option"
  ob_reason_code :: "string option"
  ob_schema_version :: string

definition mk_evidence_observation :: "evidence_observation \<Rightarrow> evidence_observation result" where
  "mk_evidence_observation ob =
     bindE (validate_token (ob_observation_id ob) ''evidence observation ID'') (\<lambda>_.
     bindE (validate_digest (ob_subject_digest ob) ''evidence observation subject digest'') (\<lambda>_.
     bindE (validate_token (ob_source_run_id ob) ''evidence observation source run ID'') (\<lambda>_.
     bindE (validate_digest (ob_artifact_digest ob) ''evidence observation artifact digest'') (\<lambda>_.
     bindE (if ob_status ob = OBSERVED
            then (case ob_value ob of None \<Rightarrow> Inl (ValueError ''observed evidence requires a value'')
               | Some v \<Rightarrow> if ob_reason_code ob \<noteq> None then Inl (ValueError ''observed evidence cannot have a reason code'')
                   else bindE (normalize_evidence_value (value_obj v) ''evidence observation value'') (\<lambda>v'. Inr (Some v')))
            else if ob_value ob \<noteq> None then Inl (ValueError ''unavailable or error evidence cannot have a value'')
            else (case ob_reason_code ob of
                 None \<Rightarrow> Inl (ValueError ''unavailable or error evidence requires a reason code'')
               | Some code \<Rightarrow> bindE (validate_token code ''evidence observation reason code'') (\<lambda>_. Inr None))) (\<lambda>v.
     if ob_schema_version ob \<noteq> ''sisyphus_harness.evidence_observation.v1''
     then Inl (ValueError ''unsupported evidence observation schema'') else Inr (ob\<lparr>ob_value := v\<rparr>))))))"

definition opt_str :: "string option \<Rightarrow> pyobj" where
  "opt_str x = (case x of None \<Rightarrow> PNone | Some s \<Rightarrow> PStr s)"

definition observation_items :: "evidence_observation \<Rightarrow> pydict" where
  "observation_items ob =
     [(''observation_id'', PStr (ob_observation_id ob)), (''selector'', selector_to_dict (ob_selector ob)),
      (''subject_digest'', PStr (ob_subject_digest ob)), (''source_run_id'', PStr (ob_source_run_id ob)),
      (''artifact_digest'', PStr (ob_artifact_digest ob)), (''status'', PStr (observation_status_value (ob_status ob))),
      (''value'', case ob_value ob of None \<Rightarrow> PNone | Some v \<Rightarrow> value_wire v),
      (''reason_code'', opt_str (ob_reason_code ob)), (''schema_version'', PStr (ob_schema_version ob))]"

definition observation_digest :: "evidence_observation \<Rightarrow> string" where
  "observation_digest ob = wire_digest (PDict (py_dict (observation_items ob)))"

definition observation_to_dict :: "evidence_observation \<Rightarrow> pyobj" where
  "observation_to_dict ob =
     PDict (py_dict (observation_items ob @ [(''observation_digest'', PStr (observation_digest ob))]))"

definition observation_from_dict :: "pyobj \<Rightarrow> evidence_observation result" where
  "observation_from_dict raw =
     bindE (strict_object raw [''observation_id'', ''selector'', ''subject_digest'', ''source_run_id'',
       ''artifact_digest'', ''status'', ''value'', ''reason_code'', ''schema_version'', ''observation_digest''] []
       ''evidence observation'' ValueError) (\<lambda>d.
     bindE (field d ''status'' (as_enum observation_status_value observation_statuses) ''evidence observation status'') (\<lambda>status.
     bindE (field d ''observation_id'' as_string ''evidence observation ID'') (\<lambda>oid.
     bindE (field d ''selector'' (\<lambda>r _. selector_from_dict r) []) (\<lambda>sel.
     bindE (field d ''subject_digest'' as_digest ''evidence observation subject digest'') (\<lambda>subject.
     bindE (field d ''source_run_id'' as_string ''evidence observation source run ID'') (\<lambda>run.
     bindE (field d ''artifact_digest'' as_digest ''evidence observation artifact digest'') (\<lambda>artifact.
     bindE (field d ''value'' (\<lambda>r label. if r = PNone then Inr None
              else bindE (normalize_evidence_value r label) (\<lambda>v. Inr (Some v))) ''evidence observation value'') (\<lambda>v.
     bindE (field d ''reason_code'' as_optional_string ''evidence observation reason code'') (\<lambda>reason.
     bindE (field d ''schema_version'' as_string ''evidence observation schema'') (\<lambda>schema.
     bindE (mk_evidence_observation \<lparr>ob_observation_id = oid, ob_selector = sel, ob_subject_digest = subject,
       ob_source_run_id = run, ob_artifact_digest = artifact, ob_status = status, ob_value = v,
       ob_reason_code = reason, ob_schema_version = schema\<rparr>) (\<lambda>ob.
     bindE (field d ''observation_digest'' as_digest ''evidence observation digest'') (\<lambda>recorded.
     if recorded \<noteq> observation_digest ob
     then Inl (ValueError ''evidence observation digest does not match content'') else Inr ob))))))))))))"

section \<open>Evaluations\<close>

record predicate_evaluation =
  pe_clause_id :: string
  pe_result :: logical_result
  pe_observation_ids :: "string list"
  pe_reason_code :: string

definition mk_predicate_evaluation :: "predicate_evaluation \<Rightarrow> predicate_evaluation result" where
  "mk_predicate_evaluation p =
     bindE (validate_token (pe_clause_id p) ''predicate evaluation clause ID'') (\<lambda>_.
     bindE (normalize_token_tuple (pe_observation_ids p) ''predicate evaluation observation IDs'' True) (\<lambda>_.
     bindE (validate_token (pe_reason_code p) ''predicate evaluation reason code'') (\<lambda>_. Inr p)))"

definition predicate_to_dict :: "predicate_evaluation \<Rightarrow> pyobj" where
  "predicate_to_dict p = PDict (py_dict
     [(''clause_id'', PStr (pe_clause_id p)), (''result'', PStr (logical_result_value (pe_result p))),
      (''observation_ids'', PList (map PStr (pe_observation_ids p))), (''reason_code'', PStr (pe_reason_code p))])"

definition predicate_from_dict :: "pyobj \<Rightarrow> predicate_evaluation result" where
  "predicate_from_dict raw =
     bindE (strict_object raw [''clause_id'', ''result'', ''observation_ids'', ''reason_code''] []
       ''predicate evaluation'' ValueError) (\<lambda>d.
     bindE (field d ''clause_id'' as_string ''predicate evaluation clause ID'') (\<lambda>cid.
     bindE (field d ''result'' (as_enum logical_result_value logical_results) ''predicate evaluation result'') (\<lambda>res.
     bindE (field d ''observation_ids'' as_string_tuple ''predicate evaluation observation IDs'') (\<lambda>oids.
     bindE (field d ''reason_code'' as_string ''predicate evaluation reason code'') (\<lambda>reason.
     mk_predicate_evaluation \<lparr>pe_clause_id = cid, pe_result = res, pe_observation_ids = oids, pe_reason_code = reason\<rparr>)))))"

record contract_evaluation =
  ce_contract_digest :: string
  ce_observation_set_digest :: string
  ce_evaluator_version :: string
  ce_evaluator_digest :: string
  ce_lifecycle :: evaluation_lifecycle
  ce_logical_result :: "logical_result option"
  ce_predicates :: "predicate_evaluation list"
  ce_error_code :: "string option"
  ce_scope :: string
  ce_schema_version :: string

definition mk_contract_evaluation :: "contract_evaluation \<Rightarrow> contract_evaluation result" where
  "mk_contract_evaluation e =
     bindE (validate_digest (ce_contract_digest e) ''contract evaluation contract digest'') (\<lambda>_.
     bindE (validate_digest (ce_observation_set_digest e) ''contract evaluation observation-set digest'') (\<lambda>_.
     bindE (validate_token (ce_evaluator_version e) ''contract evaluator version'') (\<lambda>_.
     bindE (validate_digest (ce_evaluator_digest e) ''contract evaluator digest'') (\<lambda>_.
     if \<not> distinct (map pe_clause_id (ce_predicates e))
     then Inl (ValueError ''contract evaluation predicate clause IDs must be unique'')
     else bindE (case ce_lifecycle e of
         COMPLETED \<Rightarrow>
           if ce_logical_result e = None then Inl (ValueError ''completed contract evaluation requires a logical result'')
           else if ce_error_code e \<noteq> None then Inl (ValueError ''completed contract evaluation cannot have an error code'')
           else Inr ()
       | LIFECYCLE_ERROR \<Rightarrow>
           if ce_logical_result e \<noteq> None then Inl (ValueError ''errored contract evaluation cannot have a logical result'')
           else (case ce_error_code e of
               None \<Rightarrow> Inl (ValueError ''errored contract evaluation requires an error code'')
             | Some code \<Rightarrow> validate_token code ''contract evaluation error code'')) (\<lambda>_.
     if ce_scope e \<noteq> ''task'' then Inl (ValueError ''contract evaluation scope must be task'')
     else if ce_schema_version e \<noteq> ''sisyphus_harness.contract_evaluation.v1''
     then Inl (ValueError ''unsupported contract evaluation schema'') else Inr e)))))"

definition evaluation_items :: "contract_evaluation \<Rightarrow> pydict" where
  "evaluation_items e =
     [(''contract_digest'', PStr (ce_contract_digest e)), (''observation_set_digest'', PStr (ce_observation_set_digest e)),
      (''evaluator_version'', PStr (ce_evaluator_version e)), (''evaluator_digest'', PStr (ce_evaluator_digest e)),
      (''lifecycle'', PStr (evaluation_lifecycle_value (ce_lifecycle e))),
      (''logical_result'', case ce_logical_result e of None \<Rightarrow> PNone | Some r \<Rightarrow> PStr (logical_result_value r)),
      (''predicates'', PList (map predicate_to_dict (ce_predicates e))), (''error_code'', opt_str (ce_error_code e)),
      (''scope'', PStr (ce_scope e)), (''schema_version'', PStr (ce_schema_version e))]"

definition evaluation_digest :: "contract_evaluation \<Rightarrow> string" where
  "evaluation_digest e = wire_digest (PDict (py_dict (evaluation_items e)))"

definition evaluation_to_dict :: "contract_evaluation \<Rightarrow> pyobj" where
  "evaluation_to_dict e =
     PDict (py_dict (evaluation_items e @ [(''evaluation_digest'', PStr (evaluation_digest e))]))"

text \<open>An optional enum field: \<open>_enum(...) if raw is not None else None\<close>.\<close>

definition as_optional_enum :: "('a \<Rightarrow> string) \<Rightarrow> 'a list \<Rightarrow> pyobj \<Rightarrow> string \<Rightarrow> 'a option result" where
  "as_optional_enum val members raw label =
     (if raw = PNone then Inr None else bindE (as_enum val members raw label) (\<lambda>m. Inr (Some m)))"

definition evaluation_from_dict :: "pyobj \<Rightarrow> contract_evaluation result" where
  "evaluation_from_dict raw =
     bindE (strict_object raw [''contract_digest'', ''observation_set_digest'', ''evaluator_version'', ''evaluator_digest'',
       ''lifecycle'', ''logical_result'', ''predicates'', ''error_code'', ''scope'', ''schema_version'', ''evaluation_digest''] []
       ''contract evaluation'' ValueError) (\<lambda>d.
     bindE (field d ''predicates'' as_object_list ''contract evaluation predicates'') (\<lambda>predicates_raw.
     bindE (field d ''contract_digest'' as_digest ''contract evaluation contract digest'') (\<lambda>cd.
     bindE (field d ''observation_set_digest'' as_digest ''contract evaluation observation-set digest'') (\<lambda>od.
     bindE (field d ''evaluator_version'' as_string ''contract evaluator version'') (\<lambda>ev.
     bindE (field d ''evaluator_digest'' as_digest ''contract evaluator digest'') (\<lambda>ed.
     bindE (field d ''lifecycle'' (as_enum evaluation_lifecycle_value evaluation_lifecycles) ''contract evaluation lifecycle'') (\<lambda>lc.
     bindE (field d ''logical_result'' (as_optional_enum logical_result_value logical_results) ''contract evaluation logical result'') (\<lambda>lr.
     bindE (mapE predicate_from_dict predicates_raw) (\<lambda>ps.
     bindE (field d ''error_code'' as_optional_string ''contract evaluation error code'') (\<lambda>code.
     bindE (field d ''scope'' as_string ''contract evaluation scope'') (\<lambda>scope.
     bindE (field d ''schema_version'' as_string ''contract evaluation schema'') (\<lambda>schema.
     bindE (mk_contract_evaluation \<lparr>ce_contract_digest = cd, ce_observation_set_digest = od, ce_evaluator_version = ev,
       ce_evaluator_digest = ed, ce_lifecycle = lc, ce_logical_result = lr, ce_predicates = ps, ce_error_code = code,
       ce_scope = scope, ce_schema_version = schema\<rparr>) (\<lambda>evaluation.
     bindE (field d ''evaluation_digest'' as_digest ''contract evaluation digest'') (\<lambda>recorded.
     if recorded \<noteq> evaluation_digest evaluation
     then Inl (ValueError ''contract evaluation digest does not match content'') else Inr evaluation))))))))))))))"

record gap_closure_evaluation =
  ge_rule_digest :: string
  ge_requirement_id :: string
  ge_gap_id :: string
  ge_grounding_revision :: int
  ge_observation_set_digest :: string
  ge_evaluator_version :: string
  ge_evaluator_digest :: string
  ge_lifecycle :: evaluation_lifecycle
  ge_closure_result :: "gap_closure_result option"
  ge_predicates :: "predicate_evaluation list"
  ge_error_code :: "string option"
  ge_schema_version :: string

definition mk_gap_closure_evaluation :: "gap_closure_evaluation \<Rightarrow> gap_closure_evaluation result" where
  "mk_gap_closure_evaluation e =
     bindE (validate_digest (ge_rule_digest e) ''Gap closure evaluation rule digest'') (\<lambda>_.
     bindE (validate_token (ge_requirement_id e) ''Gap closure evaluation requirement ID'') (\<lambda>_.
     bindE (validate_token (ge_gap_id e) ''Gap closure evaluation Gap ID'') (\<lambda>_.
     bindE (validate_nonnegative_integer (ge_grounding_revision e) ''Gap closure grounding revision'') (\<lambda>_.
     bindE (validate_digest (ge_observation_set_digest e) ''Gap closure observation-set digest'') (\<lambda>_.
     bindE (validate_token (ge_evaluator_version e) ''Gap closure evaluator version'') (\<lambda>_.
     bindE (validate_digest (ge_evaluator_digest e) ''Gap closure evaluator digest'') (\<lambda>_.
     if \<not> distinct (map pe_clause_id (ge_predicates e))
     then Inl (ValueError ''Gap closure predicate clause IDs must be unique'')
     else bindE (case ge_lifecycle e of
         COMPLETED \<Rightarrow>
           if ge_closure_result e = None then Inl (ValueError ''completed Gap closure evaluation requires a result'')
           else if ge_error_code e \<noteq> None then Inl (ValueError ''completed Gap closure evaluation cannot have an error'')
           else Inr ()
       | LIFECYCLE_ERROR \<Rightarrow>
           if ge_closure_result e \<noteq> None then Inl (ValueError ''errored Gap closure evaluation cannot have a result'')
           else (case ge_error_code e of
               None \<Rightarrow> Inl (ValueError ''errored Gap closure evaluation requires an error code'')
             | Some code \<Rightarrow> validate_token code ''Gap closure evaluation error code'')) (\<lambda>_.
     if ge_schema_version e \<noteq> ''sisyphus_harness.gap_closure_evaluation.v1''
     then Inl (ValueError ''unsupported Gap closure evaluation schema'') else Inr e))))))))"

definition gap_evaluation_items :: "gap_closure_evaluation \<Rightarrow> pydict" where
  "gap_evaluation_items e =
     [(''rule_digest'', PStr (ge_rule_digest e)), (''requirement_id'', PStr (ge_requirement_id e)),
      (''gap_id'', PStr (ge_gap_id e)), (''grounding_revision'', PInt (ge_grounding_revision e)),
      (''observation_set_digest'', PStr (ge_observation_set_digest e)),
      (''evaluator_version'', PStr (ge_evaluator_version e)), (''evaluator_digest'', PStr (ge_evaluator_digest e)),
      (''lifecycle'', PStr (evaluation_lifecycle_value (ge_lifecycle e))),
      (''closure_result'', case ge_closure_result e of None \<Rightarrow> PNone | Some r \<Rightarrow> PStr (gap_closure_result_value r)),
      (''predicates'', PList (map predicate_to_dict (ge_predicates e))), (''error_code'', opt_str (ge_error_code e)),
      (''schema_version'', PStr (ge_schema_version e))]"

definition gap_evaluation_digest :: "gap_closure_evaluation \<Rightarrow> string" where
  "gap_evaluation_digest e = wire_digest (PDict (py_dict (gap_evaluation_items e)))"

definition gap_evaluation_to_dict :: "gap_closure_evaluation \<Rightarrow> pyobj" where
  "gap_evaluation_to_dict e =
     PDict (py_dict (gap_evaluation_items e @ [(''evaluation_digest'', PStr (gap_evaluation_digest e))]))"

definition gap_evaluation_from_dict :: "pyobj \<Rightarrow> gap_closure_evaluation result" where
  "gap_evaluation_from_dict raw =
     bindE (strict_object raw [''rule_digest'', ''requirement_id'', ''gap_id'', ''grounding_revision'',
       ''observation_set_digest'', ''evaluator_version'', ''evaluator_digest'', ''lifecycle'', ''closure_result'',
       ''predicates'', ''error_code'', ''schema_version'', ''evaluation_digest''] [] ''Gap closure evaluation'' ValueError) (\<lambda>d.
     bindE (field d ''predicates'' as_object_list ''Gap closure predicates'') (\<lambda>predicates_raw.
     bindE (field d ''rule_digest'' as_digest ''Gap closure rule digest'') (\<lambda>rd.
     bindE (field d ''requirement_id'' as_string ''Gap closure requirement ID'') (\<lambda>req.
     bindE (field d ''gap_id'' as_string ''Gap closure Gap ID'') (\<lambda>gid.
     bindE (field d ''grounding_revision'' as_integer ''Gap closure grounding revision'') (\<lambda>rev.
     bindE (field d ''observation_set_digest'' as_digest ''Gap closure observation-set digest'') (\<lambda>od.
     bindE (field d ''evaluator_version'' as_string ''Gap closure evaluator version'') (\<lambda>ev.
     bindE (field d ''evaluator_digest'' as_digest ''Gap closure evaluator digest'') (\<lambda>ed.
     bindE (field d ''lifecycle'' (as_enum evaluation_lifecycle_value evaluation_lifecycles) ''Gap closure evaluation lifecycle'') (\<lambda>lc.
     bindE (field d ''closure_result'' (as_optional_enum gap_closure_result_value gap_closure_results) ''Gap closure result'') (\<lambda>cr.
     bindE (mapE predicate_from_dict predicates_raw) (\<lambda>ps.
     bindE (field d ''error_code'' as_optional_string ''Gap closure evaluation error code'') (\<lambda>code.
     bindE (field d ''schema_version'' as_string ''Gap closure evaluation schema'') (\<lambda>schema.
     bindE (mk_gap_closure_evaluation \<lparr>ge_rule_digest = rd, ge_requirement_id = req, ge_gap_id = gid,
       ge_grounding_revision = rev, ge_observation_set_digest = od, ge_evaluator_version = ev, ge_evaluator_digest = ed,
       ge_lifecycle = lc, ge_closure_result = cr, ge_predicates = ps, ge_error_code = code, ge_schema_version = schema\<rparr>) (\<lambda>evaluation.
     bindE (field d ''evaluation_digest'' as_digest ''Gap closure evaluation digest'') (\<lambda>recorded.
     if recorded \<noteq> gap_evaluation_digest evaluation
     then Inl (ValueError ''Gap closure evaluation digest does not match content'') else Inr evaluation))))))))))))))))"

section \<open>Well-formed values and the decoders\<close>

lemma field_py_dict [wire_simps]:
  "distinct (map fst kvs) \<Longrightarrow> map_of kvs key = Some v \<Longrightarrow> field (py_dict kvs) key conv label = conv v label"
  by (simp add: field_def dict_item_py_dict)

lemma field_eq_Inr [result_simps]: "field d k conv label = Inr x \<longleftrightarrow> (\<exists>v. map_of d k = Some v \<and> conv v label = Inr x)"
  by (auto simp: field_def bindE_eq_Inr dict_item_eq_Inr)

lemma as_string_eq [simp]: "as_string raw label = Inr s \<longleftrightarrow> raw = PStr s"
  by (auto simp: as_string_def split: pyobj.splits)

lemma as_optional_string_eq [simp]: "as_optional_string raw label = Inr x \<longleftrightarrow> raw = opt_str x"
  by (auto simp: as_optional_string_def opt_str_def bindE_eq_Inr split: option.splits)

lemma as_integer_eq [simp]: "as_integer raw label = Inr i \<longleftrightarrow> raw = PInt i"
  by (auto simp: as_integer_def split: pyobj.splits)

lemma string_items_eq:
  "(\<forall>x\<in>set xs. case x of PStr _ \<Rightarrow> True | _ \<Rightarrow> False) \<and> map (\<lambda>x. case x of PStr s \<Rightarrow> s | _ \<Rightarrow> []) xs = ss
     \<longleftrightarrow> xs = map PStr ss"
proof (induction xs arbitrary: ss)
  case (Cons x xs)
  show ?case by (cases x; cases ss) (auto simp: Cons.IH [symmetric])
qed auto

lemma as_string_tuple_eq [simp]: "as_string_tuple raw label = Inr xs \<longleftrightarrow> raw = PList (map PStr xs)"
proof (cases raw)
  case (PList ys)
  then show ?thesis using string_items_eq [of ys xs] by (auto simp: as_string_tuple_def)
qed (auto simp: as_string_tuple_def)

lemma as_object_list_eq [simp]: "as_object_list raw label = Inr xs \<longleftrightarrow> raw = PList xs"
  by (auto simp: as_object_list_def split: pyobj.splits)

lemma as_digest_eq [simp]: "as_digest raw label = Inr s \<longleftrightarrow> raw = PStr s \<and> is_sha256 s"
  by (auto simp: as_digest_def validate_digest_def bindE_eq_Inr)

lemma as_simps [simp]:
  "as_string (PStr s) label = Inr s"
  "as_optional_string (opt_str x) label = Inr x"
  "as_integer (PInt i) label = Inr i"
  "as_string_tuple (PList (map PStr xs)) label = Inr xs"
  "as_object_list (PList ys) label = Inr ys"
  "is_sha256 s \<Longrightarrow> as_digest (PStr s) label = Inr s"
  by simp_all

lemma validate_simps [simp]:
  "validate_token v label = Inr u \<longleftrightarrow> is_token v"
  "validate_digest v label = Inr u \<longleftrightarrow> is_sha256 v"
  "validate_positive_integer i label = Inr u \<longleftrightarrow> 0 < i"
  "validate_nonnegative_integer i label = Inr u \<longleftrightarrow> 0 \<le> i"
  by (auto simp: validate_token_def validate_digest_def validate_positive_integer_def validate_nonnegative_integer_def)

definition token_tuple_ok :: "bool \<Rightarrow> string list \<Rightarrow> bool" where
  "token_tuple_ok allow_empty vs \<longleftrightarrow> (vs = [] \<longrightarrow> allow_empty) \<and> list_all is_token vs \<and> distinct vs"

lemma normalize_token_tuple_eq [simp]:
  "normalize_token_tuple vs label allow_empty = Inr ws \<longleftrightarrow> ws = vs \<and> token_tuple_ok allow_empty vs"
  by (auto simp: normalize_token_tuple_def token_tuple_ok_def bindE_eq_Inr list_all_iff)

definition wf_selector :: "evidence_selector \<Rightarrow> bool" where
  "wf_selector s \<longleftrightarrow> is_token (sel_observation_type s) \<and> is_token (sel_stage s) \<and> is_token (sel_check_id s)
     \<and> is_token (sel_producer_authority s)"

lemma mk_evidence_selector_eq:
  "mk_evidence_selector ot st ci pa = Inr s \<longleftrightarrow>
     s = \<lparr>sel_observation_type = ot, sel_stage = st, sel_check_id = ci, sel_producer_authority = pa\<rparr> \<and> wf_selector s"
  by (auto simp: mk_evidence_selector_def wf_selector_def bindE_eq_Inr)

lemma selector_round_trip: "wf_selector s \<Longrightarrow> selector_from_dict (selector_to_dict s) = Inr s"
  by (simp add: selector_from_dict_def selector_to_dict_def wire_simps mk_evidence_selector_eq)

lemma find_value:
  "distinct (map val members) \<Longrightarrow> m \<in> set members \<Longrightarrow> find (\<lambda>x. val x = val m) members = Some m"
  by (induction members) (auto simp: rev_image_eqI)

lemma as_enum_eq:
  assumes "distinct (map val members)" and "\<And>m. m \<in> set members"
  shows "as_enum val members raw label = Inr m \<longleftrightarrow> raw = PStr (val m)"
proof -
  have found: "find (\<lambda>m. val m = s) members = Some m \<longleftrightarrow> s = val m" for s
    using find_value [OF assms] by (auto simp: find_Some_iff)
  show ?thesis
  proof (cases raw)
    case (PStr s)
    show ?thesis unfolding PStr as_enum_def using found [of s] by (cases "find (\<lambda>m. val m = s) members") auto
  qed (simp_all add: as_enum_def as_string_def)
qed

lemma mem_predicate_operators: "m \<in> set predicate_operators"
  by (cases m) (simp_all add: predicate_operators_def)

lemma mem_observation_statuses: "m \<in> set observation_statuses"
  by (cases m) (simp_all add: observation_statuses_def)

lemma mem_logical_results: "m \<in> set logical_results"
  by (cases m) (simp_all add: logical_results_def)

lemma mem_evaluation_lifecycles: "m \<in> set evaluation_lifecycles"
  by (cases m) (simp_all add: evaluation_lifecycles_def)

lemma mem_gap_closure_results: "m \<in> set gap_closure_results"
  by (cases m) (simp_all add: gap_closure_results_def)

lemma predicate_operator_enum [simp]:
  "as_enum predicate_operator_value predicate_operators raw label = Inr m \<longleftrightarrow> raw = PStr (predicate_operator_value m)"
  "as_enum predicate_operator_value predicate_operators (PStr (predicate_operator_value m)) label = Inr m"
  using as_enum_eq [OF _ mem_predicate_operators, of predicate_operator_value] by (simp_all add: predicate_operators_def)

lemma observation_status_enum [simp]:
  "as_enum observation_status_value observation_statuses raw label = Inr m \<longleftrightarrow> raw = PStr (observation_status_value m)"
  "as_enum observation_status_value observation_statuses (PStr (observation_status_value m)) label = Inr m"
  using as_enum_eq [OF _ mem_observation_statuses, of observation_status_value] by (simp_all add: observation_statuses_def)

lemma logical_result_enum [simp]:
  "as_enum logical_result_value logical_results raw label = Inr m \<longleftrightarrow> raw = PStr (logical_result_value m)"
  "as_enum logical_result_value logical_results (PStr (logical_result_value m)) label = Inr m"
  using as_enum_eq [OF _ mem_logical_results, of logical_result_value] by (simp_all add: logical_results_def)

lemma evaluation_lifecycle_enum [simp]:
  "as_enum evaluation_lifecycle_value evaluation_lifecycles raw label = Inr m \<longleftrightarrow> raw = PStr (evaluation_lifecycle_value m)"
  "as_enum evaluation_lifecycle_value evaluation_lifecycles (PStr (evaluation_lifecycle_value m)) label = Inr m"
  using as_enum_eq [OF _ mem_evaluation_lifecycles, of evaluation_lifecycle_value] by (simp_all add: evaluation_lifecycles_def)

lemma gap_closure_result_enum [simp]:
  "as_enum gap_closure_result_value gap_closure_results raw label = Inr m \<longleftrightarrow> raw = PStr (gap_closure_result_value m)"
  "as_enum gap_closure_result_value gap_closure_results (PStr (gap_closure_result_value m)) label = Inr m"
  using as_enum_eq [OF _ mem_gap_closure_results, of gap_closure_result_value] by (simp_all add: gap_closure_results_def)

lemma optional_enum_eq [simp]:
  "as_optional_enum logical_result_value logical_results raw label = Inr x \<longleftrightarrow>
     raw = (case x of None \<Rightarrow> PNone | Some r \<Rightarrow> PStr (logical_result_value r))"
  "as_optional_enum gap_closure_result_value gap_closure_results raw label = Inr y \<longleftrightarrow>
     raw = (case y of None \<Rightarrow> PNone | Some r \<Rightarrow> PStr (gap_closure_result_value r))"
  "as_optional_enum logical_result_value logical_results
     (case x of None \<Rightarrow> PNone | Some r \<Rightarrow> PStr (logical_result_value r)) label = Inr x"
  "as_optional_enum gap_closure_result_value gap_closure_results
     (case y of None \<Rightarrow> PNone | Some r \<Rightarrow> PStr (gap_closure_result_value r)) label = Inr y"
  by (auto simp: as_optional_enum_def bindE_eq_Inr split: option.splits)

fun wf_scalar :: "evidence_scalar \<Rightarrow> bool" where
  "wf_scalar (EBool b) = True"
| "wf_scalar (EInt i) = (\<bar>i\<bar> \<le> MAX_INTEGER)"
| "wf_scalar (EStr s) = (length s \<le> 4096 \<and> CHR 0x00 \<notin> set s)"

fun wf_value :: "evidence_value \<Rightarrow> bool" where
  "wf_value (EScalar s) = wf_scalar s"
| "wf_value (ETuple xs) = (length xs \<le> 256 \<and> list_all wf_scalar xs)"

lemma normalize_scalar: "wf_scalar s \<Longrightarrow> normalize_evidence_value (scalar_obj s) label = Inr (EScalar s)"
  by (cases s) auto

lemma normalize_scalars: "list_all wf_scalar xs \<Longrightarrow> normalize_evidence_items (map scalar_obj xs) label = Inr xs"
  by (induction xs) (auto simp: normalize_scalar)

lemma normalize_value [simp]:
  "wf_value v \<Longrightarrow> normalize_evidence_value (value_wire v) label = Inr v"
  "wf_value v \<Longrightarrow> normalize_evidence_value (value_obj v) label = Inr v"
  by (cases v; simp add: normalize_scalar normalize_scalars)+

lemma case_scalar_eq_Inr:
  "(case v of EScalar s \<Rightarrow> f s | ETuple _ \<Rightarrow> Inl err) = Inr y \<longleftrightarrow> (\<exists>s. v = EScalar s \<and> f s = Inr y)"
  by (cases v) auto

lemma normalize_wf:
  "normalize_evidence_value raw label = Inr v \<Longrightarrow> wf_value v"
  "normalize_evidence_items raws label = Inr vs \<Longrightarrow> length vs = length raws \<and> list_all wf_scalar vs"
  by (induction raw label and raws label arbitrary: v and vs
      rule: normalize_evidence_value_normalize_evidence_items.induct)
    (auto simp: bindE_eq_Inr case_scalar_eq_Inr split: if_splits)

definition wf_clause :: "evidence_clause \<Rightarrow> bool" where
  "wf_clause c \<longleftrightarrow> is_token (cl_clause_id c) \<and> wf_selector (cl_selector c) \<and> wf_value (cl_expected c)"

lemma mk_evidence_clause_value:
  "wf_value v \<Longrightarrow> mk_evidence_clause cid sel oper (value_obj v) = Inr c \<longleftrightarrow>
     c = \<lparr>cl_clause_id = cid, cl_selector = sel, cl_operator = oper, cl_expected = v\<rparr> \<and> is_token cid"
  by (auto simp: mk_evidence_clause_def bindE_eq_Inr)

lemma clause_round_trip: "wf_clause c \<Longrightarrow> clause_from_dict (clause_to_dict c) = Inr c"
  by (simp add: clause_from_dict_def clause_to_dict_def wire_simps wf_clause_def selector_round_trip
      mk_evidence_clause_value)

lemma clause_from_dict_wf: "clause_from_dict raw = Inr c \<Longrightarrow> wf_clause c"
  by (auto simp: clause_from_dict_def selector_from_dict_def field_def wf_clause_def mk_evidence_selector_eq
      mk_evidence_clause_value bindE_eq_Inr dest!: normalize_wf(1))

fun expr_nodes :: "evidence_expression \<Rightarrow> nat" where
  "expr_nodes (ClauseRef _) = 1"
| "expr_nodes (AllOf cs) = Suc (sum_list (map expr_nodes cs))"
| "expr_nodes (AnyOf cs) = Suc (sum_list (map expr_nodes cs))"
| "expr_nodes (AtLeast _ cs) = Suc (sum_list (map expr_nodes cs))"
| "expr_nodes (Not e) = Suc (expr_nodes e)"

fun expr_depth :: "evidence_expression \<Rightarrow> nat" where
  "expr_depth (ClauseRef _) = 1"
| "expr_depth (AllOf cs) = Suc (foldr max (map expr_depth cs) 0)"
| "expr_depth (AnyOf cs) = Suc (foldr max (map expr_depth cs) 0)"
| "expr_depth (AtLeast _ cs) = Suc (foldr max (map expr_depth cs) 0)"
| "expr_depth (Not e) = Suc (expr_depth e)"

fun wf_expr :: "evidence_expression \<Rightarrow> bool" where
  "wf_expr (ClauseRef cid) = is_token cid"
| "wf_expr (AllOf cs) = (cs \<noteq> [] \<and> list_all wf_expr cs)"
| "wf_expr (AnyOf cs) = (cs \<noteq> [] \<and> list_all wf_expr cs)"
| "wf_expr (AtLeast m cs) = (0 < m \<and> m \<le> int (length cs) \<and> list_all wf_expr cs)"
| "wf_expr (Not e) = wf_expr e"

definition within_hard_limits :: "evidence_expression \<Rightarrow> bool" where
  "within_hard_limits e \<longleftrightarrow> expr_nodes e \<le> HARD_MAX_EXPRESSION_NODES \<and> expr_depth e \<le> HARD_MAX_EXPRESSION_DEPTH"

lemma foldr_max_le: "foldr max xs 0 \<le> (n::nat) \<longleftrightarrow> (\<forall>x\<in>set xs. x \<le> n)"
  by (induction xs) auto

lemma foldr_max_plus_le: "d + foldr max xs 0 \<le> (n::nat) \<longleftrightarrow> d \<le> n \<and> (\<forall>x\<in>set xs. d + x \<le> n)"
  by (induction xs) auto

lemma expr_nodes_pos: "0 < expr_nodes e"
  by (cases e) auto

lemma expr_depth_pos: "0 < expr_depth e"
  by (cases e) auto

lemma expr_nodes_comp [simp]: "(\<lambda>p. expr_nodes (fst p)) \<circ> (\<lambda>c. (c, n)) = expr_nodes"
  by (simp add: fun_eq_iff)

text \<open>What the stack walk decides: the nodes still to visit and the depth each entry can reach.\<close>

lemma hard_limits_loop_eq:
  "hard_limits_loop stack n = Inr () \<longleftrightarrow>
     (stack \<noteq> [] \<longrightarrow> n + sum_list (map (\<lambda>p. expr_nodes (fst p)) stack) \<le> HARD_MAX_EXPRESSION_NODES) \<and>
     (\<forall>p\<in>set stack. snd p + expr_depth (fst p) \<le> Suc HARD_MAX_EXPRESSION_DEPTH)"
proof (induction stack n rule: hard_limits_loop.induct)
  case (2 e d stack n)
  have children: "hard_limits_loop (map (\<lambda>c. (c, Suc d)) cs @ stack) (Suc n) = Inr () \<longleftrightarrow>
      (cs \<noteq> [] \<or> stack \<noteq> [] \<longrightarrow> Suc n + sum_list (map expr_nodes cs) + sum_list (map (\<lambda>p. expr_nodes (fst p)) stack) \<le> HARD_MAX_EXPRESSION_NODES) \<and>
      (\<forall>c\<in>set cs. Suc d + expr_depth c \<le> Suc HARD_MAX_EXPRESSION_DEPTH) \<and>
      (\<forall>p\<in>set stack. snd p + expr_depth (fst p) \<le> Suc HARD_MAX_EXPRESSION_DEPTH)"
    if "hard_limits_loop (map (\<lambda>c. (c, Suc d)) cs @ stack) (Suc n) = Inr () \<longleftrightarrow>
      (map (\<lambda>c. (c, Suc d)) cs @ stack \<noteq> [] \<longrightarrow> Suc n + sum_list (map (\<lambda>p. expr_nodes (fst p)) (map (\<lambda>c. (c, Suc d)) cs @ stack)) \<le> HARD_MAX_EXPRESSION_NODES) \<and>
      (\<forall>p\<in>set (map (\<lambda>c. (c, Suc d)) cs @ stack). snd p + expr_depth (fst p) \<le> Suc HARD_MAX_EXPRESSION_DEPTH)" for cs
    unfolding that by (auto simp: ball_Un add.assoc)
  have cons: "0 < sum_list (map expr_nodes cs) \<or> cs = []" for cs
    by (cases cs) (auto simp: expr_nodes_pos)
  have pos: "0 < sum_list (map (\<lambda>p. expr_nodes (fst p)) stack) \<or> stack = []"
    by (cases stack) (auto simp: expr_nodes_pos)
  show ?case
  proof (cases "HARD_MAX_EXPRESSION_NODES < Suc n \<or> HARD_MAX_EXPRESSION_DEPTH < d")
    case True
    then show ?thesis using expr_nodes_pos [of e] expr_depth_pos [of e] by auto
  next
    case False
    then have small: "\<not> HARD_MAX_EXPRESSION_NODES < Suc n" "\<not> HARD_MAX_EXPRESSION_DEPTH < d" by auto
    note IH = 2 [OF small]
    show ?thesis
    proof (cases e)
      case (ClauseRef x)
      with IH(1) small pos show ?thesis by auto
    next
      case (AllOf cs)
      with children [OF IH(2)] small pos cons [of cs] show ?thesis
        by (auto simp: foldr_max_plus_le)
    next
      case (AnyOf cs)
      with children [OF IH(3)] small pos cons [of cs] show ?thesis
        by (auto simp: foldr_max_plus_le)
    next
      case (AtLeast m cs)
      with children [OF IH(4)] small pos cons [of cs] show ?thesis
        by (auto simp: foldr_max_plus_le)
    next
      case (Not f)
      with IH(5) small pos expr_nodes_pos [of f] show ?thesis by auto
    qed
  qed
qed simp

lemma validate_expression_hard_limits_eq:
  "validate_expression_hard_limits e = Inr () \<longleftrightarrow> within_hard_limits e"
  unfolding validate_expression_hard_limits_def hard_limits_loop_eq within_hard_limits_def by simp


lemma field_wire:
  "wire_dict d \<Longrightarrow> field d k conv label = Inr x \<longleftrightarrow> (\<exists>v. wire_ok v \<and> map_of d k = Some v \<and> conv v label = Inr x)"
  using wire_dict_item by (auto simp: field_eq_Inr)

lemma wire_ok_opt_str [simp]: "wire_ok (opt_str x)"
  by (cases x) (simp_all add: opt_str_def)

lemma wire_ok_strings [simp]: "list_all wire_ok (map PStr xs)"
  by (simp add: list_all_iff)

lemma wire_ok_value [simp]: "wire_ok (value_wire v)"
proof -
  have "wire_ok (scalar_obj s)" for s by (cases s) simp_all
  then show ?thesis by (cases v) (simp_all add: list_all_iff)
qed

lemma selector_wire_ok [simp]: "wire_ok (selector_to_dict s)"
  unfolding selector_to_dict_def by (rule wire_ok_py_dict) simp

lemma selector_from_dict_iff:
  assumes "wire_ok raw"
  shows "selector_from_dict raw = Inr s \<longleftrightarrow> wf_selector s \<and> raw = selector_to_dict s"
proof
  assume dec: "selector_from_dict raw = Inr s"
  from decode_object [OF dec [unfolded selector_from_dict_def] assms] show "wf_selector s \<and> raw = selector_to_dict s"
    by (auto simp: selector_to_dict_def bindE_eq_Inr field_wire mk_evidence_selector_eq intro!: wire_dict_eqI)
qed (auto simp: selector_round_trip)

lemma normalize_wire:
  "normalize_evidence_value raw label = Inr v \<Longrightarrow> wire_ok raw \<Longrightarrow> raw = value_wire v"
  "normalize_evidence_items raws label = Inr vs \<Longrightarrow> list_all wire_ok raws \<Longrightarrow> raws = map scalar_obj vs"
  by (induction raw label and raws label arbitrary: v and vs
      rule: normalize_evidence_value_normalize_evidence_items.induct)
    (auto simp: bindE_eq_Inr case_scalar_eq_Inr split: if_splits)

lemma clause_wire_ok [simp]: "wire_ok (clause_to_dict c)"
  unfolding clause_to_dict_def by (rule wire_ok_py_dict) simp

lemma normalize_iff: "wire_ok raw \<Longrightarrow> normalize_evidence_value raw label = Inr v \<longleftrightarrow> wf_value v \<and> raw = value_wire v"
  using normalize_wf(1) normalize_wire(1) by fastforce

lemma clause_from_dict_iff:
  assumes "wire_ok raw"
  shows "clause_from_dict raw = Inr c \<longleftrightarrow> wf_clause c \<and> raw = clause_to_dict c"
proof
  assume dec: "clause_from_dict raw = Inr c"
  from decode_object [OF dec [unfolded clause_from_dict_def] assms] show "wf_clause c \<and> raw = clause_to_dict c"
    by (auto simp: clause_to_dict_def bindE_eq_Inr field_wire normalize_iff selector_from_dict_iff
        wf_clause_def mk_evidence_clause_value intro!: wire_dict_eqI)
qed (auto simp: clause_round_trip)

text \<open>Expressions: encoding then decoding, with the depth and the node counter the decoder carries.\<close>

lemma expressions_round_trip:
  "list_all (\<lambda>e. wf_expr e \<and> (\<forall>d c. d + expr_depth e \<le> Suc HARD_MAX_EXPRESSION_DEPTH \<longrightarrow>
       c + expr_nodes e \<le> HARD_MAX_EXPRESSION_NODES \<longrightarrow>
       expression_from (expression_to_dict e) d c = Inr (e, c + expr_nodes e))) es \<Longrightarrow>
   \<forall>e\<in>set es. d + expr_depth e \<le> Suc HARD_MAX_EXPRESSION_DEPTH \<Longrightarrow>
   c + sum_list (map expr_nodes es) \<le> HARD_MAX_EXPRESSION_NODES \<Longrightarrow>
   expressions_from (map expression_to_dict es) d c = Inr (es, c + sum_list (map expr_nodes es))"
  by (induction es arbitrary: c) (auto simp: add.assoc)

lemma expression_round_trip:
  "wf_expr e \<Longrightarrow> d + expr_depth e \<le> Suc HARD_MAX_EXPRESSION_DEPTH \<Longrightarrow> c + expr_nodes e \<le> HARD_MAX_EXPRESSION_NODES \<Longrightarrow>
   expression_from (expression_to_dict e) d c = Inr (e, c + expr_nodes e)"
proof (induction e arbitrary: d c)
  case (ClauseRef x)
  then show ?case by (subst expression_from.simps) (simp add: wire_simps mk_clause_ref_def validate_token_def)
next
  case (AllOf cs)
  then have "expressions_from (map expression_to_dict cs) (Suc d) (Suc c) = Inr (cs, Suc c + sum_list (map expr_nodes cs))"
    by (intro expressions_round_trip) (auto simp: list_all_iff foldr_max_plus_le)
  with AllOf show ?case
    by (subst expression_from.simps) (simp add: wire_simps mk_all_of_def validate_expression_children_def)
next
  case (AnyOf cs)
  then have "expressions_from (map expression_to_dict cs) (Suc d) (Suc c) = Inr (cs, Suc c + sum_list (map expr_nodes cs))"
    by (intro expressions_round_trip) (auto simp: list_all_iff foldr_max_plus_le)
  with AnyOf show ?case
    by (subst expression_from.simps) (simp add: wire_simps mk_any_of_def validate_expression_children_def)
next
  case (AtLeast m cs)
  then have "expressions_from (map expression_to_dict cs) (Suc d) (Suc c) = Inr (cs, Suc c + sum_list (map expr_nodes cs))"
    by (intro expressions_round_trip) (auto simp: list_all_iff foldr_max_plus_le)
  with AtLeast show ?case
    by (subst expression_from.simps) (auto simp add: Let_def wire_simps mk_at_least_def validate_expression_children_def)
next
  case (Not e)
  then show ?case by (subst expression_from.simps) (simp add: wire_simps)
qed


text \<open>Decoding succeeds only on the encoding of the expression it returns.\<close>

lemma expression_from_cases:
  assumes "expression_from raw d c = Inr (e, n)" and "wire_ok raw"
  shows "d \<le> HARD_MAX_EXPRESSION_DEPTH \<and> Suc c \<le> HARD_MAX_EXPRESSION_NODES \<and>
    ((\<exists>cid. e = ClauseRef cid \<and> is_token cid \<and> n = Suc c \<and> raw = expression_to_dict e) \<or>
     (\<exists>xs cs. xs \<noteq> [] \<and> list_all wire_ok xs \<and> size_list size xs < size raw \<and>
        expressions_from xs (Suc d) (Suc c) = Inr (cs, n) \<and>
        (e = AllOf cs \<and> raw = PDict (py_dict [(''kind'', PStr ''all_of''), (''children'', PList xs)]) \<or>
         e = AnyOf cs \<and> raw = PDict (py_dict [(''kind'', PStr ''any_of''), (''children'', PList xs)]) \<or>
         (\<exists>m. e = AtLeast m cs \<and> 0 < m \<and> m \<le> int (length cs) \<and>
            raw = PDict (py_dict [(''kind'', PStr ''at_least''), (''minimum'', PInt m), (''children'', PList xs)])))) \<or>
     (\<exists>x f. wire_ok x \<and> size x < size raw \<and> expression_from x (Suc d) (Suc c) = Inr (f, n) \<and> e = evidence_expression.Not f \<and>
        raw = PDict (py_dict [(''kind'', PStr ''not''), (''child'', x)])))"
proof -
  have guards: "d \<le> HARD_MAX_EXPRESSION_DEPTH" "Suc c \<le> HARD_MAX_EXPRESSION_NODES"
    using assms(1) by (subst (asm) expression_from.simps, simp split: if_splits)+
  obtain ob where raw: "raw = PDict ob"
    using assms(1) guards by (subst (asm) expression_from.simps) (simp split: pyobj.splits)
  have ob: "wire_dict ob" using assms(2) raw by (simp add: wire_dict_def)
  note body = assms(1) [unfolded raw expression_from.simps [of "PDict ob"] Let_def]
  note guards' = guards [folded not_less]
  have get: "map_of ob ''kind'' = Some (PStr k)" if "dict_get ob ''kind'' = PStr k" for k
    using that by (simp add: dict_get_def split: option.splits)
  have item: "size v < size raw" "wire_ok v" if "map_of ob k = Some v" for k v
    using that raw wire_dict_item [OF ob] size_dict_value [OF map_of_SomeD] by auto
  have eq: "raw = PDict (py_dict kvs)" if "fst ` set ob \<subseteq> fst ` set kvs" "distinct (map fst kvs)"
    "list_all (\<lambda>(k, v). map_of ob k = Some v) kvs" for kvs
    using wire_dict_eqI [OF ob that] raw by simp
  consider (leaf) "dict_get ob ''kind'' = PStr ''clause_ref''" | (all) "dict_get ob ''kind'' = PStr ''all_of''"
    | (any) "dict_get ob ''kind'' = PStr ''any_of''" | (least) "dict_get ob ''kind'' = PStr ''at_least''"
    | (neg) "dict_get ob ''kind'' = PStr ''not''"
    using body guards' by (auto split: if_splits)
  then show ?thesis
  proof cases
    case leaf
    with body guards' obtain cid where cid: "map_of ob ''clause_id'' = Some (PStr cid)" "is_token cid" "e = ClauseRef cid" "n = Suc c"
        "fst ` set ob \<subseteq> {''kind'', ''clause_id''}"
      by (auto simp: bindE_eq_Inr strict_object_eq_Inr field_eq_Inr mk_clause_ref_def)
    then have "raw = expression_to_dict e" using get [OF leaf] by (simp, intro eq) simp_all
    with guards cid show ?thesis by blast
  next
    case all
    with body guards' obtain xs cs where "map_of ob ''children'' = Some (PList xs)" "xs \<noteq> []"
        "expressions_from xs (Suc d) (Suc c) = Inr (cs, n)" "e = AllOf cs" "fst ` set ob \<subseteq> {''kind'', ''children''}"
      by (auto simp: bindE_eq_Inr strict_object_eq_Inr dict_item_eq_Inr case_list_eq_Inr mk_all_of_def validate_expression_children_def
          split: if_splits)
    moreover from this get [OF all] have "raw = PDict (py_dict [(''kind'', PStr ''all_of''), (''children'', PList xs)])"
      by (intro eq) simp_all
    ultimately show ?thesis using guards item [of "''children''" "PList xs"] by auto
  next
    case any
    with body guards' obtain xs cs where "map_of ob ''children'' = Some (PList xs)" "xs \<noteq> []"
        "expressions_from xs (Suc d) (Suc c) = Inr (cs, n)" "e = AnyOf cs" "fst ` set ob \<subseteq> {''kind'', ''children''}"
      by (auto simp: bindE_eq_Inr strict_object_eq_Inr dict_item_eq_Inr case_list_eq_Inr mk_any_of_def validate_expression_children_def
          split: if_splits)
    moreover from this get [OF any] have "raw = PDict (py_dict [(''kind'', PStr ''any_of''), (''children'', PList xs)])"
      by (intro eq) simp_all
    ultimately show ?thesis using guards item [of "''children''" "PList xs"] by auto
  next
    case least
    with body guards' obtain xs cs m where "map_of ob ''children'' = Some (PList xs)" "xs \<noteq> []"
        "expressions_from xs (Suc d) (Suc c) = Inr (cs, n)" "e = AtLeast m cs" "0 < m" "m \<le> int (length cs)"
        "map_of ob ''minimum'' = Some (PInt m)" "fst ` set ob \<subseteq> {''kind'', ''children'', ''minimum''}"
      by (auto simp: bindE_eq_Inr strict_object_eq_Inr dict_item_eq_Inr field_eq_Inr case_list_eq_Inr mk_at_least_def validate_expression_children_def
          split: if_splits)
    moreover from this get [OF least]
    have "raw = PDict (py_dict [(''kind'', PStr ''at_least''), (''minimum'', PInt m), (''children'', PList xs)])"
      by (intro eq) auto
    ultimately show ?thesis using guards item [of "''children''" "PList xs"] by auto
  next
    case neg
    with body guards' obtain x f where x: "map_of ob ''child'' = Some x" "expression_from x (Suc d) (Suc c) = Inr (f, n)"
        "e = evidence_expression.Not f" "fst ` set ob \<subseteq> {''kind'', ''child''}"
      by (auto simp: bindE_eq_Inr strict_object_eq_Inr dict_item_eq_Inr)
    moreover from this get [OF neg] have "raw = PDict (py_dict [(''kind'', PStr ''not''), (''child'', x)])"
      by (intro eq) simp_all
    ultimately show ?thesis using guards item [OF x(1)] by blast
  qed
qed


definition decoded :: "nat \<Rightarrow> nat \<Rightarrow> pyobj \<Rightarrow> evidence_expression \<Rightarrow> nat \<Rightarrow> bool" where
  "decoded d c raw e n \<longleftrightarrow> wf_expr e \<and> raw = expression_to_dict e \<and> n = c + expr_nodes e \<and>
     d + expr_depth e \<le> Suc HARD_MAX_EXPRESSION_DEPTH \<and> n \<le> HARD_MAX_EXPRESSION_NODES"

lemma expressions_from_sound:
  assumes "\<And>x d c e n. x \<in> set xs \<Longrightarrow> expression_from x d c = Inr (e, n) \<Longrightarrow> decoded d c x e n"
    and "expressions_from xs d c = Inr (es, n)"
  shows "list_all wf_expr es \<and> xs = map expression_to_dict es \<and> n = c + sum_list (map expr_nodes es) \<and>
     (\<forall>e\<in>set es. d + expr_depth e \<le> Suc HARD_MAX_EXPRESSION_DEPTH) \<and> (es \<noteq> [] \<longrightarrow> n \<le> HARD_MAX_EXPRESSION_NODES)"
  using assms
proof (induction xs arbitrary: c es n)
  case (Cons x xs)
  then obtain e m fs where e: "expression_from x d c = Inr (e, m)" and fs: "expressions_from xs d m = Inr (fs, n)"
    and es: "es = e # fs" by (auto simp: bindE_eq_Inr)
  have "decoded d c x e m" using Cons.prems(1) e by simp
  moreover have "list_all wf_expr fs \<and> xs = map expression_to_dict fs \<and> n = m + sum_list (map expr_nodes fs) \<and>
     (\<forall>e\<in>set fs. d + expr_depth e \<le> Suc HARD_MAX_EXPRESSION_DEPTH) \<and> (fs \<noteq> [] \<longrightarrow> n \<le> HARD_MAX_EXPRESSION_NODES)"
    using Cons.prems(1) fs by (intro Cons.IH) auto
  ultimately show ?case using es by (cases fs) (auto simp: decoded_def)
qed auto

lemma size_list_element: "x \<in> set xs \<Longrightarrow> size_list size xs < n \<Longrightarrow> size x < n"
  by (meson le_less_trans order_refl size_list_estimation')

lemma expression_from_sound:
  "expression_from raw d c = Inr (e, n) \<Longrightarrow> wire_ok raw \<Longrightarrow> decoded d c raw e n"
proof (induction raw arbitrary: d c e n rule: measure_induct_rule [of size])
  case (less raw)
  have children: "list_all wf_expr es \<and> xs = map expression_to_dict es \<and> n = Suc c + sum_list (map expr_nodes es) \<and>
     (\<forall>e\<in>set es. Suc d + expr_depth e \<le> Suc HARD_MAX_EXPRESSION_DEPTH) \<and> (es \<noteq> [] \<longrightarrow> n \<le> HARD_MAX_EXPRESSION_NODES)"
    if "expressions_from xs (Suc d) (Suc c) = Inr (es, n)" "list_all wire_ok xs" "size_list size xs < size raw" for xs es
    by (rule expressions_from_sound [OF less.IH that(1)]) (use that in \<open>auto simp: list_all_iff size_list_element\<close>)
  have child: "decoded (Suc d) (Suc c) x f n"
    if "expression_from x (Suc d) (Suc c) = Inr (f, n)" "wire_ok x" "size x < size raw" for x f
    using that by (intro less.IH)
  from expression_from_cases [OF less.prems] show ?case
    by (elim conjE disjE exE) (auto simp: decoded_def foldr_max_plus_le dest!: children child [unfolded decoded_def])
qed

lemma expression_from_dict_iff:
  assumes "wire_ok raw"
  shows "expression_from_dict raw = Inr e \<longleftrightarrow> wf_expr e \<and> within_hard_limits e \<and> raw = expression_to_dict e"
  using expression_from_sound [OF _ assms, of 1 0] expression_round_trip [of e 1 0]
  by (auto simp: expression_from_dict_def bindE_eq_Inr within_hard_limits_def decoded_def)

lemma expression_wire_ok [simp]: "wire_ok (expression_to_dict e)"
proof (induction e)
  case (AllOf cs)
  then show ?case unfolding expression_to_dict.simps by (intro wire_ok_py_dict) (simp add: list_all_iff)
next
  case (AnyOf cs)
  then show ?case unfolding expression_to_dict.simps by (intro wire_ok_py_dict) (simp add: list_all_iff)
next
  case (AtLeast m cs)
  then show ?case unfolding expression_to_dict.simps by (intro wire_ok_py_dict) (simp add: list_all_iff)
qed (simp_all add: wire_ok_py_dict del: wire_ok.simps(3))

end
