(* ===== verification/Evidence_Wire.thy ===== *)
theory Evidence_Wire
  imports Evidence_Contracts
begin

text \<open>
  The wire codecs of the evidence classes (\<^verbatim>\<open>contracts/evidence_contract.py\<close>). For each class
  the well-formedness its \<^verbatim>\<open>__post_init__\<close> enforces, the proof that the decoder accepts exactly the
  encodings of the well-formed values, and the interpretation of the locales \<open>wire_contract\<close> and
  \<open>digest_contract\<close> that states it.
\<close>

section \<open>Well-formed values\<close>

definition clauses_ok :: "evidence_clause list \<Rightarrow> bool" where
  "clauses_ok cs \<longleftrightarrow> cs \<noteq> [] \<and> length cs \<le> HARD_MAX_CLAUSES \<and> distinct (map cl_clause_id cs)"

lemma validate_rule_clauses_eq [simp]: "validate_rule_clauses cs label ids_label = Inr u \<longleftrightarrow> clauses_ok cs"
  by (auto simp: validate_rule_clauses_def clauses_ok_def)

lemma validate_hard_limits_eq [simp]: "validate_expression_hard_limits e = Inr u \<longleftrightarrow> within_hard_limits e"
  by (cases u) (simp add: validate_expression_hard_limits_eq)

definition wf_contract :: "evidence_contract \<Rightarrow> bool" where
  "wf_contract c \<longleftrightarrow> is_token (ec_contract_id c) \<and> 0 < ec_version c \<and> token_tuple_ok False (ec_requirement_ids c)
     \<and> token_tuple_ok False (ec_gap_ids c) \<and> token_tuple_ok False (ec_task_basis_ids c)
     \<and> is_sha256 (ec_verification_profile_digest c) \<and> is_sha256 (ec_observation_adapter_digest c)
     \<and> list_all wf_clause (ec_clauses c) \<and> clauses_ok (ec_clauses c)
     \<and> wf_expr (ec_task_success c) \<and> within_hard_limits (ec_task_success c)
     \<and> ec_schema_version c = ''sisyphus_harness.evidence_contract.v1''"

definition wf_rule :: "gap_closure_rule \<Rightarrow> bool" where
  "wf_rule r \<longleftrightarrow> is_token (gr_rule_id r) \<and> 0 < gr_version r \<and> is_token (gr_requirement_id r) \<and> is_token (gr_gap_id r)
     \<and> list_all wf_clause (gr_clauses r) \<and> clauses_ok (gr_clauses r)
     \<and> wf_expr (gr_closure_condition r) \<and> within_hard_limits (gr_closure_condition r)
     \<and> gr_schema_version r = ''sisyphus_harness.gap_closure_rule.v1''"

definition wf_observation :: "evidence_observation \<Rightarrow> bool" where
  "wf_observation ob \<longleftrightarrow> is_token (ob_observation_id ob) \<and> wf_selector (ob_selector ob) \<and> is_sha256 (ob_subject_digest ob)
     \<and> is_token (ob_source_run_id ob) \<and> is_sha256 (ob_artifact_digest ob)
     \<and> (if ob_status ob = OBSERVED then (case ob_value ob of None \<Rightarrow> False | Some v \<Rightarrow> wf_value v) \<and> ob_reason_code ob = None
        else ob_value ob = None \<and> (case ob_reason_code ob of None \<Rightarrow> False | Some r \<Rightarrow> is_token r))
     \<and> ob_schema_version ob = ''sisyphus_harness.evidence_observation.v1''"

definition wf_predicate :: "predicate_evaluation \<Rightarrow> bool" where
  "wf_predicate p \<longleftrightarrow> is_token (pe_clause_id p) \<and> token_tuple_ok True (pe_observation_ids p) \<and> is_token (pe_reason_code p)"

text \<open>A completed evaluation has a result and no error code; an errored one the other way round.\<close>

definition lifecycle_ok :: "evaluation_lifecycle \<Rightarrow> 'a option \<Rightarrow> string option \<Rightarrow> bool" where
  "lifecycle_ok lc result code = (case lc of COMPLETED \<Rightarrow> result \<noteq> None \<and> code = None
     | LIFECYCLE_ERROR \<Rightarrow> result = None \<and> (case code of None \<Rightarrow> False | Some x \<Rightarrow> is_token x))"

definition wf_evaluation :: "contract_evaluation \<Rightarrow> bool" where
  "wf_evaluation e \<longleftrightarrow> is_sha256 (ce_contract_digest e) \<and> is_sha256 (ce_observation_set_digest e)
     \<and> is_token (ce_evaluator_version e) \<and> is_sha256 (ce_evaluator_digest e)
     \<and> list_all wf_predicate (ce_predicates e) \<and> distinct (map pe_clause_id (ce_predicates e))
     \<and> lifecycle_ok (ce_lifecycle e) (ce_logical_result e) (ce_error_code e)
     \<and> ce_scope e = ''task'' \<and> ce_schema_version e = ''sisyphus_harness.contract_evaluation.v1''"

definition wf_gap_evaluation :: "gap_closure_evaluation \<Rightarrow> bool" where
  "wf_gap_evaluation e \<longleftrightarrow> is_sha256 (ge_rule_digest e) \<and> is_token (ge_requirement_id e) \<and> is_token (ge_gap_id e)
     \<and> 0 \<le> ge_grounding_revision e \<and> is_sha256 (ge_observation_set_digest e)
     \<and> is_token (ge_evaluator_version e) \<and> is_sha256 (ge_evaluator_digest e)
     \<and> list_all wf_predicate (ge_predicates e) \<and> distinct (map pe_clause_id (ge_predicates e))
     \<and> lifecycle_ok (ge_lifecycle e) (ge_closure_result e) (ge_error_code e)
     \<and> ge_schema_version e = ''sisyphus_harness.gap_closure_evaluation.v1''"

text \<open>A constructor returns its argument exactly when the checks it makes hold.\<close>

lemma mk_evidence_contract_eq:
  "list_all wf_clause (ec_clauses c) \<Longrightarrow> wf_expr (ec_task_success c) \<Longrightarrow> mk_evidence_contract c = Inr c' \<longleftrightarrow> c' = c \<and> wf_contract c"
  by (auto simp: mk_evidence_contract_def wf_contract_def bindE_eq_Inr)

lemma mk_gap_closure_rule_eq:
  "list_all wf_clause (gr_clauses r) \<Longrightarrow> wf_expr (gr_closure_condition r) \<Longrightarrow> mk_gap_closure_rule r = Inr r' \<longleftrightarrow> r' = r \<and> wf_rule r"
  by (auto simp: mk_gap_closure_rule_def wf_rule_def bindE_eq_Inr)

lemma mk_evidence_observation_eq:
  assumes "wf_selector (ob_selector ob)" and "pred_option wf_value (ob_value ob)"
  shows "mk_evidence_observation ob = Inr ob' \<longleftrightarrow> ob' = ob \<and> wf_observation ob"
  using assms
  by (cases "ob_value ob"; cases "ob_reason_code ob"; cases "ob_status ob")
    (auto simp: mk_evidence_observation_def wf_observation_def bindE_eq_Inr)

lemma mk_predicate_evaluation_eq: "mk_predicate_evaluation p = Inr p' \<longleftrightarrow> p' = p \<and> wf_predicate p"
  by (auto simp: mk_predicate_evaluation_def wf_predicate_def bindE_eq_Inr)

lemma mk_contract_evaluation_eq:
  "list_all wf_predicate (ce_predicates e) \<Longrightarrow> mk_contract_evaluation e = Inr e' \<longleftrightarrow> e' = e \<and> wf_evaluation e"
  by (cases "ce_lifecycle e"; cases "ce_logical_result e"; cases "ce_error_code e")
    (auto simp: mk_contract_evaluation_def wf_evaluation_def lifecycle_ok_def bindE_eq_Inr)

lemma mk_gap_closure_evaluation_eq:
  "list_all wf_predicate (ge_predicates e) \<Longrightarrow> mk_gap_closure_evaluation e = Inr e' \<longleftrightarrow> e' = e \<and> wf_gap_evaluation e"
  by (cases "ge_lifecycle e"; cases "ge_closure_result e"; cases "ge_error_code e")
    (auto simp: mk_gap_closure_evaluation_def wf_gap_evaluation_def lifecycle_ok_def bindE_eq_Inr)

lemma mk_wf:
  "wf_contract c \<Longrightarrow> mk_evidence_contract c = Inr c"
  "wf_rule r \<Longrightarrow> mk_gap_closure_rule r = Inr r"
  "wf_observation ob \<Longrightarrow> mk_evidence_observation ob = Inr ob"
  "wf_predicate p \<Longrightarrow> mk_predicate_evaluation p = Inr p"
  "wf_evaluation ev \<Longrightarrow> mk_contract_evaluation ev = Inr ev"
  "wf_gap_evaluation g \<Longrightarrow> mk_gap_closure_evaluation g = Inr g"
  by (simp_all add: mk_evidence_contract_eq mk_gap_closure_rule_eq mk_predicate_evaluation_eq mk_contract_evaluation_eq
      mk_gap_closure_evaluation_eq wf_contract_def wf_rule_def wf_evaluation_def wf_gap_evaluation_def)
    (subst mk_evidence_observation_eq, auto simp: wf_observation_def split: if_splits option.splits)

section \<open>The decoders\<close>

interpretation sel: wire_contract wf_selector selector_to_dict selector_from_dict
  by unfold_locales (simp_all add: selector_from_dict_iff)

interpretation cl: wire_contract wf_clause clause_to_dict clause_from_dict
  by unfold_locales (simp_all add: clause_from_dict_iff)

interpretation ex: wire_contract "\<lambda>e. wf_expr e \<and> within_hard_limits e" expression_to_dict expression_from_dict
  by unfold_locales (auto simp add: expression_from_dict_iff)

lemma predicate_wire_ok [simp]: "wire_ok (predicate_to_dict p)"
  unfolding predicate_to_dict_def by (rule wire_ok_py_dict) simp

lemma predicate_from_dict_iff:
  assumes "wire_ok raw"
  shows "predicate_from_dict raw = Inr p \<longleftrightarrow> wf_predicate p \<and> raw = predicate_to_dict p"
proof
  assume dec: "predicate_from_dict raw = Inr p"
  from decode_object [OF dec [unfolded predicate_from_dict_def] assms] show "wf_predicate p \<and> raw = predicate_to_dict p"
    by (auto simp: predicate_to_dict_def bindE_eq_Inr field_wire mk_predicate_evaluation_eq intro!: wire_dict_eqI)
qed (cases p, simp add: predicate_from_dict_def predicate_to_dict_def wire_simps mk_wf)

interpretation pe: wire_contract wf_predicate predicate_to_dict predicate_from_dict
  by unfold_locales (simp_all add: predicate_from_dict_iff)

lemma contract_items_wire: "list_all (\<lambda>kv. wire_ok (snd kv)) (contract_items c)"
  by (simp add: contract_items_def list_all_iff)

lemma contract_to_dict_wire: "wire_ok (contract_to_dict c)"
  unfolding contract_to_dict_def by (rule wire_ok_py_dict) (simp add: contract_items_wire)

lemma contract_digest_sha256 [simp]: "is_sha256 (contract_digest c)"
  by (simp add: contract_digest_def)

lemma contract_round_trip: "wf_contract c \<Longrightarrow> contract_from_dict (contract_to_dict c) = Inr c"
  by (frule mk_wf(1), cases c)
    (simp add: contract_from_dict_def contract_to_dict_def contract_items_def wire_simps cl.encode_list ex.round_trip
      wf_contract_def)

lemma contract_from_dict_iff:
  assumes "wire_ok raw"
  shows "contract_from_dict raw = Inr c \<longleftrightarrow> wf_contract c \<and> raw = contract_to_dict c"
proof
  assume dec: "contract_from_dict raw = Inr c"
  from decode_object [OF dec [unfolded contract_from_dict_def] assms] show "wf_contract c \<and> raw = contract_to_dict c"
    by (auto simp: contract_to_dict_def contract_items_def result_simps field_wire cl.decode_list ex.from_dict_iff
        mk_evidence_contract_eq simp del: field_eq_Inr intro!: wire_dict_eqI)
qed (auto simp: contract_round_trip)


interpretation ec: digest_contract wf_contract contract_to_dict contract_from_dict contract_items "''contract_digest''"
  by unfold_locales (simp_all add: contract_from_dict_iff contract_to_dict_wire contract_items_wire,
      simp_all add: contract_to_dict_def contract_digest_def contract_payload_def contract_items_def)

lemma rule_items_wire: "list_all (\<lambda>kv. wire_ok (snd kv)) (rule_items x)"
  by (simp add: rule_items_def list_all_iff split: option.splits)

lemma rule_to_dict_wire: "wire_ok (rule_to_dict x)"
  unfolding rule_to_dict_def by (rule wire_ok_py_dict) (simp add: rule_items_wire)

lemma rule_digest_sha256 [simp]: "is_sha256 (rule_digest x)"
  by (simp add: rule_digest_def)

lemma rule_round_trip: "wf_rule x \<Longrightarrow> rule_from_dict (rule_to_dict x) = Inr x"
  by (frule mk_wf(2), cases x)
    (simp add: rule_from_dict_def rule_to_dict_def rule_items_def wire_simps cl.encode_list ex.round_trip wf_rule_def)

lemma rule_from_dict_iff:
  assumes "wire_ok raw"
  shows "rule_from_dict raw = Inr x \<longleftrightarrow> wf_rule x \<and> raw = rule_to_dict x"
proof
  assume dec: "rule_from_dict raw = Inr x"
  from decode_object [OF dec [unfolded rule_from_dict_def] assms] show "wf_rule x \<and> raw = rule_to_dict x"
    by (auto simp: rule_to_dict_def rule_items_def result_simps field_wire cl.decode_list ex.from_dict_iff
        mk_gap_closure_rule_eq simp del: field_eq_Inr intro!: wire_dict_eqI)
qed (auto simp: rule_round_trip)

interpretation gr: digest_contract wf_rule rule_to_dict rule_from_dict rule_items "''rule_digest''"
  by unfold_locales (simp_all add: rule_from_dict_iff rule_to_dict_wire rule_items_wire,
      simp_all add: rule_to_dict_def rule_digest_def rule_payload_def rule_items_def)

lemma observation_items_wire: "list_all (\<lambda>kv. wire_ok (snd kv)) (observation_items x)"
  by (simp add: observation_items_def list_all_iff split: option.splits)

lemma observation_to_dict_wire: "wire_ok (observation_to_dict x)"
  unfolding observation_to_dict_def by (rule wire_ok_py_dict) (simp add: observation_items_wire)

lemma observation_digest_sha256 [simp]: "is_sha256 (observation_digest x)"
  by (simp add: observation_digest_def)

lemma value_wire_not_None [simp]: "value_wire v \<noteq> PNone" "PNone \<noteq> value_wire v"
proof -
  have "scalar_obj s \<noteq> PNone" for s by (cases s) simp_all
  then show "value_wire v \<noteq> PNone" by (cases v) simp_all
  then show "PNone \<noteq> value_wire v" by simp
qed

lemma optional_value_iff:
  "wire_ok raw \<Longrightarrow> (if raw = PNone then Inr None else bindE (normalize_evidence_value raw label) (\<lambda>w. Inr (Some w))) = Inr v \<longleftrightarrow>
     pred_option wf_value v \<and> raw = (case v of None \<Rightarrow> PNone | Some w \<Rightarrow> value_wire w)"
  by (cases v) (auto simp: value_wire_not_None normalize_iff bindE_eq_Inr)

lemma observation_round_trip:
  assumes "wf_observation x"
  shows "observation_from_dict (observation_to_dict x) = Inr x"
proof -
  have val: "pred_option wf_value (ob_value x)"
    using assms by (auto simp: wf_observation_def split: if_splits option.splits)
  have parts: "wf_selector (ob_selector x)" "is_sha256 (ob_subject_digest x)" "is_sha256 (ob_artifact_digest x)"
    using assms by (simp_all add: wf_observation_def)
  show ?thesis
    by (cases "ob_value x"; insert mk_wf(3) [OF assms] parts val; cases x)
      (simp_all add: observation_from_dict_def observation_to_dict_def observation_items_def wire_simps sel.round_trip)
qed

lemma observation_from_dict_iff:
  assumes "wire_ok raw"
  shows "observation_from_dict raw = Inr x \<longleftrightarrow> wf_observation x \<and> raw = observation_to_dict x"
proof
  assume dec: "observation_from_dict raw = Inr x"
  from decode_object [OF dec [unfolded observation_from_dict_def] assms] show "wf_observation x \<and> raw = observation_to_dict x"
    by (auto simp: observation_to_dict_def observation_items_def result_simps field_wire sel.from_dict_iff optional_value_iff
        mk_evidence_observation_eq simp del: field_eq_Inr intro!: wire_dict_eqI)
qed (auto simp: observation_round_trip)

interpretation obs: digest_contract wf_observation observation_to_dict observation_from_dict observation_items "''observation_digest''"
  by unfold_locales (simp_all add: observation_from_dict_iff observation_to_dict_wire observation_items_wire,
      simp_all add: observation_to_dict_def observation_digest_def  observation_items_def)

lemma evaluation_items_wire: "list_all (\<lambda>kv. wire_ok (snd kv)) (evaluation_items x)"
  by (simp add: evaluation_items_def list_all_iff split: option.splits)

lemma evaluation_to_dict_wire: "wire_ok (evaluation_to_dict x)"
  unfolding evaluation_to_dict_def by (rule wire_ok_py_dict) (simp add: evaluation_items_wire)

lemma evaluation_digest_sha256 [simp]: "is_sha256 (evaluation_digest x)"
  by (simp add: evaluation_digest_def)

lemma evaluation_round_trip: "wf_evaluation x \<Longrightarrow> evaluation_from_dict (evaluation_to_dict x) = Inr x"
  by (frule mk_wf(5), cases x)
    (simp add: evaluation_from_dict_def evaluation_to_dict_def evaluation_items_def wire_simps pe.encode_list wf_evaluation_def)

lemma evaluation_from_dict_iff:
  assumes "wire_ok raw"
  shows "evaluation_from_dict raw = Inr x \<longleftrightarrow> wf_evaluation x \<and> raw = evaluation_to_dict x"
proof
  assume dec: "evaluation_from_dict raw = Inr x"
  from decode_object [OF dec [unfolded evaluation_from_dict_def] assms] show "wf_evaluation x \<and> raw = evaluation_to_dict x"
    by (auto simp: evaluation_to_dict_def evaluation_items_def result_simps field_wire pe.decode_list
        mk_contract_evaluation_eq simp del: field_eq_Inr intro!: wire_dict_eqI)
qed (auto simp: evaluation_round_trip)

interpretation ce: digest_contract wf_evaluation evaluation_to_dict evaluation_from_dict evaluation_items "''evaluation_digest''"
  by unfold_locales (simp_all add: evaluation_from_dict_iff evaluation_to_dict_wire evaluation_items_wire,
      simp_all add: evaluation_to_dict_def evaluation_digest_def  evaluation_items_def)

lemma gap_evaluation_items_wire: "list_all (\<lambda>kv. wire_ok (snd kv)) (gap_evaluation_items x)"
  by (simp add: gap_evaluation_items_def list_all_iff split: option.splits)

lemma gap_evaluation_to_dict_wire: "wire_ok (gap_evaluation_to_dict x)"
  unfolding gap_evaluation_to_dict_def by (rule wire_ok_py_dict) (simp add: gap_evaluation_items_wire)

lemma gap_evaluation_digest_sha256 [simp]: "is_sha256 (gap_evaluation_digest x)"
  by (simp add: gap_evaluation_digest_def)

lemma gap_evaluation_round_trip: "wf_gap_evaluation x \<Longrightarrow> gap_evaluation_from_dict (gap_evaluation_to_dict x) = Inr x"
  by (frule mk_wf(6), cases x)
    (simp add: gap_evaluation_from_dict_def gap_evaluation_to_dict_def gap_evaluation_items_def wire_simps pe.encode_list wf_gap_evaluation_def)

lemma gap_evaluation_from_dict_iff:
  assumes "wire_ok raw"
  shows "gap_evaluation_from_dict raw = Inr x \<longleftrightarrow> wf_gap_evaluation x \<and> raw = gap_evaluation_to_dict x"
proof
  assume dec: "gap_evaluation_from_dict raw = Inr x"
  from decode_object [OF dec [unfolded gap_evaluation_from_dict_def] assms] show "wf_gap_evaluation x \<and> raw = gap_evaluation_to_dict x"
    by (auto simp: gap_evaluation_to_dict_def gap_evaluation_items_def result_simps field_wire pe.decode_list
        mk_gap_closure_evaluation_eq simp del: field_eq_Inr intro!: wire_dict_eqI)
qed (auto simp: gap_evaluation_round_trip)

interpretation ge: digest_contract wf_gap_evaluation gap_evaluation_to_dict gap_evaluation_from_dict gap_evaluation_items "''evaluation_digest''"
  by unfold_locales (simp_all add: gap_evaluation_from_dict_iff gap_evaluation_to_dict_wire gap_evaluation_items_wire,
      simp_all add: gap_evaluation_to_dict_def gap_evaluation_digest_def  gap_evaluation_items_def)


section \<open>Properties\<close>

text \<open>A small contract: one clause on the exit code of a check, which must pass.\<close>

definition sample_contract :: evidence_contract where
  "sample_contract = \<lparr>ec_contract_id = ''c1'', ec_version = 1, ec_requirement_ids = [''r1''], ec_gap_ids = [''g1''],
     ec_task_basis_ids = [''t1''], ec_verification_profile_digest = ''sha256:'' @ replicate 64 (CHR ''a''),
     ec_observation_adapter_digest = ''sha256:'' @ replicate 64 (CHR ''0''),
     ec_clauses = [\<lparr>cl_clause_id = ''exit'', cl_selector = \<lparr>sel_observation_type = ''exit_code'', sel_stage = ''test'',
       sel_check_id = ''unit'', sel_producer_authority = ''harness''\<rparr>, cl_operator = EQUALS, cl_expected = EScalar (EInt 0)\<rparr>],
     ec_task_success = AllOf [ClauseRef ''exit''], ec_schema_version = ''sisyphus_harness.evidence_contract.v1''\<rparr>"

lemma sample_contract_wf: "wf_contract sample_contract"
  by code_simp

text \<open>
  C2. \<open>EvidenceContract.from_dict\<close> is exact on wire objects: it returns a contract if and only if
  the object is, field for field and digest included, the encoding of that contract and the contract
  satisfies every check of its constructor. So a payload with an extra, missing or altered field, a
  stale digest, an oversized expression or a duplicated clause ID is rejected, and the decoder loses
  nothing.
\<close>

theorem contract_decode_exact:
  assumes "wire_ok raw"
  shows "contract_from_dict raw = Inr c \<longleftrightarrow> wf_contract c \<and> raw = contract_to_dict c"
  by (rule ec.from_dict_iff [OF assms])

theorem contract_decode_exact_witness:
  "wire_ok (contract_to_dict sample_contract) \<and> contract_from_dict (contract_to_dict sample_contract) = Inr sample_contract"
  using contract_decode_exact [OF contract_to_dict_wire, of sample_contract sample_contract]
  by (simp add: sample_contract_wf contract_to_dict_wire)

text \<open>
  C3. The explicit-stack walk \<open>_validate_expression_hard_limits\<close> accepts an expression exactly when it has at
  most 2048 nodes and is at most 64 levels deep, whatever its shape: the order in which the stack is
  popped and the early exits do not matter.
\<close>

theorem hard_limits_exact:
  "validate_expression_hard_limits e = Inr () \<longleftrightarrow> expr_nodes e \<le> 2048 \<and> expr_depth e \<le> 64"
  by (simp add: within_hard_limits_def HARD_MAX_EXPRESSION_NODES_def HARD_MAX_EXPRESSION_DEPTH_def)

text \<open>
  A contract survives storage: writing it as canonical JSON text, reading the text with the strict
  reader and decoding the result gives the contract back.
\<close>

theorem contract_text_round_trip:
  assumes "wf_contract c"
  shows "bindE (bindE (canonical_json_bytes (contract_to_dict c)) (\<lambda>text. loads_strict_json text label)) contract_from_dict = Inr c"
  by (rule ec.text_round_trip [OF assms contract_to_dict_wire])

theorem contract_text_round_trip_witness:
  "bindE (bindE (canonical_json_bytes (contract_to_dict sample_contract)) (\<lambda>text. loads_strict_json text ''contract''))
     contract_from_dict = Inr sample_contract"
  by (rule contract_text_round_trip) (rule sample_contract_wf)

text \<open>
  A contract digest names its content: two well-formed contracts with the same digest are equal,
  unless their canonical texts are a SHA-256 collision.
\<close>

theorem contract_digest_names_content:
  assumes "wf_contract c" and "wf_contract c'" and "contract_digest c = contract_digest c'"
  shows "c = c' \<or> (\<exists>s t. s \<noteq> t \<and> canonical_json_bytes (contract_payload c) = Inr s \<and>
     canonical_json_bytes (contract_payload c') = Inr t \<and> sha256_hexdigest s = sha256_hexdigest t)"
  using ec.digest_names_content [OF assms(1,2) ec.payload_wire ec.payload_wire] assms(3)
  by (simp add: contract_digest_def contract_payload_def)

theorem contract_digest_names_content_witness:
  "sample_contract = sample_contract \<or> (\<exists>s t. s \<noteq> t \<and> canonical_json_bytes (contract_payload sample_contract) = Inr s \<and>
     canonical_json_bytes (contract_payload sample_contract) = Inr t \<and> sha256_hexdigest s = sha256_hexdigest t)"
  by (rule contract_digest_names_content [OF sample_contract_wf sample_contract_wf refl])

end
