(* ===== verification/Run_Contracts.thy ===== *)
theory Run_Contracts
  imports Evidence_Wire
begin

text \<open>
  The contracts of one coding run: \<^verbatim>\<open>contracts/artifacts.py\<close>, \<^verbatim>\<open>contracts/workspace.py\<close>,
  \<^verbatim>\<open>contracts/agent.py\<close>, \<^verbatim>\<open>contracts/control/attempts.py\<close> and \<^verbatim>\<open>contracts/control/legacy.py\<close>, with
  the field checks of \<^verbatim>\<open>contracts/control/_validation.py\<close>. Each dataclass is a record with its constructor
  \<open>mk_\<dots>\<close>, encoder and decoder; the lemmas show what a decoder returns and which values survive the
  trip through the wire.
\<close>

section \<open>Field checks\<close>

definition req_string :: "pyobj \<Rightarrow> string \<Rightarrow> string result" where
  "req_string raw label = (case raw of
       PStr s \<Rightarrow> if s = [] \<or> CHR 0x00 \<in> set s then Inl (ValueError (label @ '' must be a non-empty string'')) else Inr s
     | _ \<Rightarrow> Inl (ValueError (label @ '' must be a non-empty string'')))"

definition positive_integer :: "pyobj \<Rightarrow> string \<Rightarrow> int result" where
  "positive_integer raw label = (case raw of
       PInt i \<Rightarrow> if i \<le> 0 then Inl (ValueError (label @ '' must be a positive integer'')) else Inr i
     | _ \<Rightarrow> Inl (ValueError (label @ '' must be a positive integer'')))"

definition req_digest :: "pyobj \<Rightarrow> string \<Rightarrow> string result" where
  "req_digest raw label = bindE (req_string raw label) (\<lambda>v.
     if \<not> is_sha256 v then Inl (ValueError (label @ '' must be SHA-256'')) else Inr v)"

definition attempt_name :: "string \<Rightarrow> int \<Rightarrow> string" where
  "attempt_name job_id attempt = job_id @ ''/attempt-'' @ pad4 (show_int attempt)"

definition validate_attempt_identity :: "string \<Rightarrow> int \<Rightarrow> string \<Rightarrow> unit result" where
  "validate_attempt_identity job_id attempt attempt_id =
     bindE (req_string (PStr job_id) ''job ID'') (\<lambda>_.
     bindE (positive_integer (PInt attempt) ''attempt'') (\<lambda>_.
     bindE (req_string (PStr attempt_id) ''attempt ID'') (\<lambda>_.
     if attempt_id \<noteq> attempt_name job_id attempt then Inl (ValueError ''attempt ID is inconsistent'') else Inr ())))"

text \<open>Type tests of a raw value, with the message of the caller.\<close>

definition expect_int :: "pyobj \<Rightarrow> string \<Rightarrow> int result" where
  "expect_int raw msg = (case raw of PInt i \<Rightarrow> Inr i | _ \<Rightarrow> Inl (ValueError msg))"

definition expect_bool :: "pyobj \<Rightarrow> string \<Rightarrow> bool result" where
  "expect_bool raw msg = (case raw of PBool b \<Rightarrow> Inr b | _ \<Rightarrow> Inl (ValueError msg))"

definition expect_list :: "pyobj \<Rightarrow> string \<Rightarrow> pyobj list result" where
  "expect_list raw msg = (case raw of PList xs \<Rightarrow> Inr xs | _ \<Rightarrow> Inl (ValueError msg))"

definition is_str :: "pyobj \<Rightarrow> bool" where
  "is_str raw = (case raw of PStr _ \<Rightarrow> True | _ \<Rightarrow> False)"

definition str_val :: "pyobj \<Rightarrow> string" where
  "str_val raw = (case raw of PStr s \<Rightarrow> s | _ \<Rightarrow> [])"

definition expect_strings :: "pyobj \<Rightarrow> string \<Rightarrow> string list result" where
  "expect_strings raw msg = bindE (expect_list raw msg) (\<lambda>xs.
     if \<exists>x\<in>set xs. \<not> is_str x then Inl (ValueError msg) else Inr (map str_val xs))"

definition expect_string :: "pyobj \<Rightarrow> string \<Rightarrow> string result" where
  "expect_string raw msg = (case raw of PStr s \<Rightarrow> Inr s | _ \<Rightarrow> Inl (ValueError msg))"

definition expect_optional_string :: "pyobj \<Rightarrow> string \<Rightarrow> string option result" where
  "expect_optional_string raw msg = (if raw = PNone then Inr None else bindE (expect_string raw msg) (\<lambda>s. Inr (Some s)))"

text \<open>The idiom that collects several fields and tests them together; the result reads the fields.\<close>

definition string_fields :: "pydict \<Rightarrow> string list \<Rightarrow> (string \<Rightarrow> bool) \<Rightarrow> string \<Rightarrow> (string \<Rightarrow> string) result" where
  "string_fields d keys ok msg = bindE (mapE (dict_item d) keys) (\<lambda>vs.
     if \<exists>v\<in>set vs. \<not> (is_str v \<and> ok (str_val v)) then Inl (ValueError msg) else Inr (\<lambda>k. str_val (dict_get d k)))"

section \<open>Artifact references\<close>

record artifact_ref =
  af_artifact_id :: string
  af_sha256 :: string
  af_size_bytes :: int
  af_media_type :: string
  af_schema_version :: string

definition validate_artifact_id :: "string \<Rightarrow> unit result" where
  "validate_artifact_id v =
     (if v = [] \<or> 512 < length v \<or> CHR 0x00 \<in> set v \<or> \<not> safe_relative v
      then Inl (ValueError ''artifact ID must be a safe relative path'') else Inr ())"

definition mk_artifact_ref :: "artifact_ref \<Rightarrow> artifact_ref result" where
  "mk_artifact_ref a =
     (if af_schema_version a \<noteq> ''sisyphus_harness.artifact_ref.v1'' then Inl (ValueError ''unsupported artifact reference schema'')
      else bindE (validate_artifact_id (af_artifact_id a)) (\<lambda>_.
        if \<not> is_sha256 (af_sha256 a) then Inl (ValueError ''artifact digest must be SHA-256'')
        else if af_size_bytes a < 0 then Inl (ValueError ''artifact size must be a non-negative integer'')
        else if af_media_type a = [] \<or> py_strip (af_media_type a) \<noteq> af_media_type a
          \<or> (\<exists>c\<in>set (af_media_type a). py_isspace c) \<or> CHR ''/'' \<notin> set (af_media_type a)
        then Inl (ValueError ''artifact media type is invalid'') else Inr a))"

definition artifact_to_dict :: "artifact_ref \<Rightarrow> pyobj" where
  "artifact_to_dict a = PDict (py_dict
     [(''artifact_id'', PStr (af_artifact_id a)), (''sha256'', PStr (af_sha256 a)), (''size_bytes'', PInt (af_size_bytes a)),
      (''media_type'', PStr (af_media_type a)), (''schema_version'', PStr (af_schema_version a))])"

definition artifact_from_dict :: "pyobj \<Rightarrow> artifact_ref result" where
  "artifact_from_dict raw =
     bindE (strict_object raw [''artifact_id'', ''sha256'', ''size_bytes'', ''media_type'', ''schema_version''] []
       ''artifact reference'' ValueError) (\<lambda>d.
     bindE (string_fields d [''artifact_id'', ''sha256'', ''media_type'', ''schema_version''] (\<lambda>_. True)
       ''artifact reference string fields are invalid'') (\<lambda>str.
     bindE (field d ''size_bytes'' expect_int ''artifact reference size must be an integer'') (\<lambda>size_bytes.
     mk_artifact_ref \<lparr>af_artifact_id = str ''artifact_id'', af_sha256 = str ''sha256'', af_size_bytes = size_bytes,
       af_media_type = str ''media_type'', af_schema_version = str ''schema_version''\<rparr>)))"

section \<open>Workspace bundles\<close>

record workspace_bundle_ref =
  wb_bundle_id :: string
  wb_archive_sha256 :: string
  wb_size_bytes :: int
  wb_source_commit_sha :: string
  wb_source_state_hash :: string
  wb_tree_hash :: string
  wb_changed_paths :: "string list"
  wb_entry_count :: int
  wb_schema_version :: string

definition validate_relative_paths :: "string list \<Rightarrow> string list result" where
  "validate_relative_paths paths = mapE (\<lambda>path.
     if path = [] \<or> CHR 0x00 \<in> set path \<or> \<not> safe_relative path
     then Inl (ValueError (''workspace bundle path is unsafe: '' @ py_repr path)) else Inr path) paths"

definition is_full_sha :: "string \<Rightarrow> bool" where
  "is_full_sha s \<longleftrightarrow> (length s = 40 \<or> length s = 64) \<and> list_all is_lower_hex s"

definition mk_workspace_bundle_ref :: "workspace_bundle_ref \<Rightarrow> workspace_bundle_ref result" where
  "mk_workspace_bundle_ref w =
     (if wb_schema_version w \<noteq> ''sisyphus_harness.workspace_bundle_ref.v1''
      then Inl (ValueError ''unsupported workspace bundle reference schema'')
      else if \<not> is_sha256 (wb_archive_sha256 w) then Inl (ValueError ''workspace bundle archive digest must be SHA-256'')
      else if wb_bundle_id w \<noteq> ''workspace:'' @ wb_archive_sha256 w
      then Inl (ValueError ''workspace bundle ID must match its archive digest'')
      else if wb_size_bytes w \<le> 0 then Inl (ValueError ''workspace bundle size must be positive'')
      else if wb_entry_count w < 0 then Inl (ValueError ''workspace bundle entry count must be non-negative'')
      else if \<not> is_full_sha (wb_source_commit_sha w)
      then Inl (ValueError ''workspace bundle source commit must be a full SHA'')
      else if \<not> is_sha256 (wb_source_state_hash w)
      then Inl (ValueError ''workspace bundle source state digest must be SHA-256'')
      else if \<not> is_sha256 (wb_tree_hash w) then Inl (ValueError ''workspace bundle tree digest must be SHA-256'')
      else bindE (validate_relative_paths (wb_changed_paths w)) (\<lambda>paths.
        let normalized = sort paths in
        if \<not> distinct normalized then Inl (ValueError ''workspace bundle changed paths must be unique'')
        else Inr (w\<lparr>wb_changed_paths := normalized\<rparr>)))"

definition bundle_to_dict :: "workspace_bundle_ref \<Rightarrow> pyobj" where
  "bundle_to_dict w = PDict (py_dict
     [(''bundle_id'', PStr (wb_bundle_id w)), (''archive_sha256'', PStr (wb_archive_sha256 w)),
      (''size_bytes'', PInt (wb_size_bytes w)), (''source_commit_sha'', PStr (wb_source_commit_sha w)),
      (''source_state_hash'', PStr (wb_source_state_hash w)), (''tree_hash'', PStr (wb_tree_hash w)),
      (''changed_paths'', PList (map PStr (wb_changed_paths w))), (''entry_count'', PInt (wb_entry_count w)),
      (''schema_version'', PStr (wb_schema_version w))])"

definition bundle_from_dict :: "pyobj \<Rightarrow> workspace_bundle_ref result" where
  "bundle_from_dict raw =
     bindE (strict_object raw [''schema_version'', ''bundle_id'', ''archive_sha256'', ''size_bytes'', ''source_commit_sha'',
       ''source_state_hash'', ''tree_hash'', ''changed_paths'', ''entry_count''] [] ''workspace bundle reference'' ValueError) (\<lambda>d.
     bindE (string_fields d [''schema_version'', ''bundle_id'', ''archive_sha256'', ''source_commit_sha'',
       ''source_state_hash'', ''tree_hash''] (\<lambda>_. True) ''workspace bundle reference string fields are invalid'') (\<lambda>str.
     bindE (field d ''changed_paths'' expect_strings ''workspace bundle changed paths must be a string list'') (\<lambda>changed_paths.
     bindE (field d ''size_bytes'' expect_int ''workspace bundle numeric fields must be integers'') (\<lambda>size_bytes.
     bindE (field d ''entry_count'' expect_int ''workspace bundle numeric fields must be integers'') (\<lambda>entry_count.
     mk_workspace_bundle_ref \<lparr>wb_bundle_id = str ''bundle_id'', wb_archive_sha256 = str ''archive_sha256'',
       wb_size_bytes = size_bytes, wb_source_commit_sha = str ''source_commit_sha'',
       wb_source_state_hash = str ''source_state_hash'', wb_tree_hash = str ''tree_hash'',
       wb_changed_paths = changed_paths, wb_entry_count = entry_count, wb_schema_version = str ''schema_version''\<rparr>)))))"

section \<open>Agent tasks and results\<close>

record agent_task =
  at_instruction :: string
  at_acceptance_criteria :: "string list"

definition mk_agent_task :: "agent_task \<Rightarrow> agent_task result" where
  "mk_agent_task t =
     (let instruction = py_strip (at_instruction t);
          criteria = map py_strip (at_acceptance_criteria t)
      in if instruction = [] then Inl (ValueError ''agent task instruction must be non-empty'')
         else if criteria = [] \<or> [] \<in> set criteria then Inl (ValueError ''agent task requires acceptance criteria'')
         else if \<not> distinct criteria then Inl (ValueError ''agent task acceptance criteria must be unique'')
         else Inr \<lparr>at_instruction = instruction, at_acceptance_criteria = criteria\<rparr>)"

definition task_to_dict :: "agent_task \<Rightarrow> pyobj" where
  "task_to_dict t = PDict (py_dict
     [(''instruction'', PStr (at_instruction t)), (''acceptance_criteria'', PList (map PStr (at_acceptance_criteria t)))])"

definition task_from_dict :: "pyobj \<Rightarrow> agent_task result" where
  "task_from_dict raw =
     bindE (strict_object raw [''instruction'', ''acceptance_criteria''] [] ''agent task'' ValueError) (\<lambda>d.
     bindE (field d ''instruction'' expect_string ''agent task instruction must be a string'') (\<lambda>instruction.
     bindE (field d ''acceptance_criteria'' expect_strings ''agent task acceptance criteria must be a string list'') (\<lambda>criteria.
     mk_agent_task \<lparr>at_instruction = instruction, at_acceptance_criteria = criteria\<rparr>)))"

record agent_result =
  ar_run_id :: string
  ar_success :: bool
  ar_reason :: string
  ar_steps :: int
  ar_compactions :: int
  ar_verifications :: int
  ar_workspace_state_before :: string
  ar_workspace_state_after :: string
  ar_changed_paths :: "string list"
  ar_artifact_path :: string
  ar_verification_artifacts :: "artifact_ref list"
  ar_summary :: "string option"
  ar_schema_version :: string

definition AGENT_RUN_V1 :: string where "AGENT_RUN_V1 = ''sisyphus_harness.agent_run.v1''"
definition AGENT_RUN_V2 :: string where "AGENT_RUN_V2 = ''sisyphus_harness.agent_run.v2''"

definition mk_agent_result :: "agent_result \<Rightarrow> agent_result result" where
  "mk_agent_result r =
     (if ar_schema_version r \<notin> {AGENT_RUN_V1, AGENT_RUN_V2} then Inl (ValueError ''unsupported agent result schema'')
      else if ar_run_id r = [] \<or> ar_reason r = [] \<or> ar_artifact_path r = []
      then Inl (ValueError ''agent result identity fields must be non-empty'')
      else bindE (checkE (\<lambda>(label, v). if v < 0 then Inl (ValueError (''agent result '' @ label @ '' must be non-negative'')) else Inr ())
        [(''steps'', ar_steps r), (''compactions'', ar_compactions r), (''verifications'', ar_verifications r)]) (\<lambda>_.
        if ar_schema_version r = AGENT_RUN_V1 \<and> ar_verification_artifacts r \<noteq> []
        then Inl (ValueError ''v1 agent results cannot contain verification artifacts'') else Inr r))"

text \<open>\<open>WireModel.to_dict\<close> emits every field, whatever the schema version.\<close>

definition agent_result_to_dict :: "agent_result \<Rightarrow> pyobj" where
  "agent_result_to_dict r = PDict (py_dict
     [(''run_id'', PStr (ar_run_id r)), (''success'', PBool (ar_success r)), (''reason'', PStr (ar_reason r)),
      (''steps'', PInt (ar_steps r)), (''compactions'', PInt (ar_compactions r)), (''verifications'', PInt (ar_verifications r)),
      (''workspace_state_before'', PStr (ar_workspace_state_before r)),
      (''workspace_state_after'', PStr (ar_workspace_state_after r)),
      (''changed_paths'', PList (map PStr (ar_changed_paths r))), (''artifact_path'', PStr (ar_artifact_path r)),
      (''verification_artifacts'', PList (map artifact_to_dict (ar_verification_artifacts r))),
      (''summary'', opt_str (ar_summary r)), (''schema_version'', PStr (ar_schema_version r))])"

definition agent_result_common :: "string list" where
  "agent_result_common = [''run_id'', ''success'', ''reason'', ''steps'', ''compactions'', ''verifications'',
     ''workspace_state_before'', ''workspace_state_after'', ''changed_paths'', ''artifact_path'', ''summary'', ''schema_version'']"

definition agent_result_from_dict :: "pyobj \<Rightarrow> agent_result result" where
  "agent_result_from_dict raw = (case raw of
       PDict d0 \<Rightarrow>
         (let schema = dict_get d0 ''schema_version'' in
          if schema \<noteq> PStr AGENT_RUN_V1 \<and> schema \<noteq> PStr AGENT_RUN_V2 then Inl (ValueError ''unsupported agent result schema'')
          else
            let required = agent_result_common @ (if schema = PStr AGENT_RUN_V2 then [''verification_artifacts''] else []) in
            bindE (strict_object raw required [] ''agent result'' ValueError) (\<lambda>d.
            bindE (string_fields d [''run_id'', ''reason'', ''workspace_state_before'', ''workspace_state_after'',
              ''artifact_path'', ''schema_version''] (\<lambda>s. s \<noteq> []) ''agent result string fields are invalid'') (\<lambda>str.
            bindE (field d ''success'' expect_bool ''agent result success must be a boolean'') (\<lambda>success.
            bindE (field d ''steps'' expect_int ''agent result steps must be an integer'') (\<lambda>steps.
            bindE (field d ''compactions'' expect_int ''agent result compactions must be an integer'') (\<lambda>compactions.
            bindE (field d ''verifications'' expect_int ''agent result verifications must be an integer'') (\<lambda>verifications.
            bindE (field d ''changed_paths'' expect_strings ''agent result changed_paths must be a string list'') (\<lambda>changed_paths.
            bindE (expect_list (case map_of d ''verification_artifacts'' of Some v \<Rightarrow> v | None \<Rightarrow> PList [])
              ''agent result verification_artifacts must be a list'') (\<lambda>artifacts_raw.
            bindE (field d ''summary'' expect_optional_string ''agent result summary must be a string or null'') (\<lambda>summary.
            bindE (mapE artifact_from_dict artifacts_raw) (\<lambda>artifacts.
            mk_agent_result \<lparr>ar_run_id = str ''run_id'', ar_success = success, ar_reason = str ''reason'', ar_steps = steps,
              ar_compactions = compactions, ar_verifications = verifications,
              ar_workspace_state_before = str ''workspace_state_before'', ar_workspace_state_after = str ''workspace_state_after'',
              ar_changed_paths = changed_paths, ar_artifact_path = str ''artifact_path'',
              ar_verification_artifacts = artifacts, ar_summary = summary, ar_schema_version = str ''schema_version''\<rparr>)))))))))))
     | _ \<Rightarrow> Inl (ValueError ''agent result must be an object''))"

section \<open>Finished attempts\<close>

record attempt_finished =
  fa_job_id :: string
  fa_attempt :: int
  fa_attempt_id :: string
  fa_source_bundle :: workspace_bundle_ref
  fa_output_bundle :: workspace_bundle_ref
  fa_agent_result :: agent_result
  fa_schema_version :: string

definition mk_attempt_finished :: "attempt_finished \<Rightarrow> attempt_finished result" where
  "mk_attempt_finished a =
     bindE (validate_attempt_identity (fa_job_id a) (fa_attempt a) (fa_attempt_id a)) (\<lambda>_.
     if fa_schema_version a \<noteq> ''sisyphus_harness.attempt_finished.v1''
     then Inl (ValueError ''unsupported attempt-finished schema'') else Inr a)"

definition attempt_items :: "attempt_finished \<Rightarrow> pydict" where
  "attempt_items a =
     [(''job_id'', PStr (fa_job_id a)), (''attempt'', PInt (fa_attempt a)), (''attempt_id'', PStr (fa_attempt_id a)),
      (''source_bundle'', bundle_to_dict (fa_source_bundle a)), (''output_bundle'', bundle_to_dict (fa_output_bundle a)),
      (''agent_result'', agent_result_to_dict (fa_agent_result a)), (''schema_version'', PStr (fa_schema_version a))]"

definition attempt_digest :: "attempt_finished \<Rightarrow> string" where
  "attempt_digest a = wire_digest (PDict (py_dict (attempt_items a)))"

definition attempt_to_dict :: "attempt_finished \<Rightarrow> pyobj" where
  "attempt_to_dict a = PDict (py_dict (attempt_items a @ [(''attempt_digest'', PStr (attempt_digest a))]))"

definition attempt_from_dict :: "pyobj \<Rightarrow> attempt_finished result" where
  "attempt_from_dict raw =
     bindE (strict_object raw [''job_id'', ''attempt'', ''attempt_id'', ''source_bundle'', ''output_bundle'', ''agent_result'',
       ''schema_version'', ''attempt_digest''] [] ''attempt-finished result'' ValueError) (\<lambda>d.
     bindE (field d ''job_id'' req_string ''attempt job ID'') (\<lambda>job_id.
     bindE (field d ''attempt'' positive_integer ''attempt number'') (\<lambda>attempt.
     bindE (field d ''attempt_id'' req_string ''attempt ID'') (\<lambda>attempt_id.
     bindE (field d ''source_bundle'' (\<lambda>r _. bundle_from_dict r) []) (\<lambda>source.
     bindE (field d ''output_bundle'' (\<lambda>r _. bundle_from_dict r) []) (\<lambda>output.
     bindE (field d ''agent_result'' (\<lambda>r _. agent_result_from_dict r) []) (\<lambda>agent.
     bindE (field d ''schema_version'' req_string ''attempt schema'') (\<lambda>schema.
     bindE (mk_attempt_finished \<lparr>fa_job_id = job_id, fa_attempt = attempt, fa_attempt_id = attempt_id, fa_source_bundle = source,
       fa_output_bundle = output, fa_agent_result = agent, fa_schema_version = schema\<rparr>) (\<lambda>result.
     bindE (field d ''attempt_digest'' req_digest ''attempt digest'') (\<lambda>recorded.
     if recorded \<noteq> attempt_digest result then Inl (ValueError ''attempt digest does not match content'') else Inr result))))))))))"

section \<open>Legacy worker results\<close>

record coding_job_result =
  cj_job_id :: string
  cj_attempt :: int
  cj_attempt_id :: string
  cj_success :: bool
  cj_source_bundle :: workspace_bundle_ref
  cj_output_bundle :: workspace_bundle_ref
  cj_agent_result :: agent_result
  cj_schema_version :: string

definition mk_coding_job_result :: "coding_job_result \<Rightarrow> coding_job_result result" where
  "mk_coding_job_result c =
     (if cj_job_id c = [] \<or> cj_attempt_id c = [] then Inl (ValueError ''coding job result identity must be non-empty'')
      else if cj_attempt c \<le> 0 then Inl (ValueError ''coding job result attempt must be positive'')
      else if cj_attempt_id c \<noteq> attempt_name (cj_job_id c) (cj_attempt c)
      then Inl (ValueError ''coding job result attempt ID is inconsistent'')
      else if cj_success c \<noteq> ar_success (cj_agent_result c) then Inl (ValueError ''coding job result success is inconsistent'')
      else if cj_schema_version c \<noteq> ''sisyphus_harness.coding_job_result.v1''
      then Inl (ValueError ''unsupported coding job result schema'') else Inr c)"

definition coding_job_result_to_dict :: "coding_job_result \<Rightarrow> pyobj" where
  "coding_job_result_to_dict c = PDict (py_dict
     [(''job_id'', PStr (cj_job_id c)), (''attempt'', PInt (cj_attempt c)), (''attempt_id'', PStr (cj_attempt_id c)),
      (''success'', PBool (cj_success c)), (''source_bundle'', bundle_to_dict (cj_source_bundle c)),
      (''output_bundle'', bundle_to_dict (cj_output_bundle c)), (''agent_result'', agent_result_to_dict (cj_agent_result c)),
      (''schema_version'', PStr (cj_schema_version c))])"

definition coding_job_result_from_dict :: "pyobj \<Rightarrow> coding_job_result result" where
  "coding_job_result_from_dict raw =
     bindE (strict_object raw [''job_id'', ''attempt'', ''attempt_id'', ''success'', ''source_bundle'', ''output_bundle'',
       ''agent_result'', ''schema_version''] [] ''coding job result'' ValueError) (\<lambda>d.
     bindE (string_fields d [''job_id'', ''attempt_id'', ''schema_version''] (\<lambda>s. s \<noteq> [])
       ''coding job result string fields are invalid'') (\<lambda>str.
     bindE (field d ''attempt'' expect_int ''coding job result attempt must be an integer'') (\<lambda>attempt.
     bindE (field d ''success'' expect_bool ''coding job result success must be a boolean'') (\<lambda>success.
     bindE (field d ''source_bundle'' (\<lambda>r _. bundle_from_dict r) []) (\<lambda>source.
     bindE (field d ''output_bundle'' (\<lambda>r _. bundle_from_dict r) []) (\<lambda>output.
     bindE (field d ''agent_result'' (\<lambda>r _. agent_result_from_dict r) []) (\<lambda>agent.
     mk_coding_job_result \<lparr>cj_job_id = str ''job_id'', cj_attempt = attempt, cj_attempt_id = str ''attempt_id'',
       cj_success = success, cj_source_bundle = source, cj_output_bundle = output, cj_agent_result = agent,
       cj_schema_version = str ''schema_version''\<rparr>)))))))"

section \<open>Inversion of the field checks\<close>

definition text_ok :: "string \<Rightarrow> bool" where
  "text_ok s \<longleftrightarrow> s \<noteq> [] \<and> CHR 0x00 \<notin> set s"

lemma req_string_eq [simp]: "req_string raw label = Inr s \<longleftrightarrow> raw = PStr s \<and> text_ok s"
  by (cases raw) (auto simp: req_string_def text_ok_def)

lemma positive_integer_eq [simp]: "positive_integer raw label = Inr i \<longleftrightarrow> raw = PInt i \<and> 0 < i"
  by (cases raw) (auto simp: positive_integer_def)

lemma req_digest_eq [simp]: "req_digest raw label = Inr s \<longleftrightarrow> raw = PStr s \<and> text_ok s \<and> is_sha256 s"
  by (auto simp: req_digest_def bindE_eq_Inr)

lemma expect_eq [simp]:
  "expect_int raw msg = Inr i \<longleftrightarrow> raw = PInt i"
  "expect_bool raw msg = Inr b \<longleftrightarrow> raw = PBool b"
  "expect_list raw msg = Inr xs \<longleftrightarrow> raw = PList xs"
  "expect_string raw msg = Inr s \<longleftrightarrow> raw = PStr s"
  by (cases raw; auto simp: expect_int_def expect_bool_def expect_list_def expect_string_def)+

lemma expect_optional_string_eq [simp]: "expect_optional_string raw msg = Inr x \<longleftrightarrow> raw = opt_str x"
  by (cases x) (auto simp: expect_optional_string_def opt_str_def bindE_eq_Inr)

lemma str_items_eq: "(\<forall>x\<in>set xs. is_str x) \<and> map str_val xs = ss \<longleftrightarrow> xs = map PStr ss"
proof (induction xs arbitrary: ss)
  case (Cons x xs)
  show ?case by (cases x; cases ss) (auto simp: is_str_def str_val_def Cons.IH [symmetric])
qed auto

lemma expect_strings_eq [simp]: "expect_strings raw msg = Inr ss \<longleftrightarrow> raw = PList (map PStr ss)"
proof -
  have "expect_strings raw msg = Inr ss \<longleftrightarrow> (\<exists>xs. raw = PList xs \<and> (\<forall>x\<in>set xs. is_str x) \<and> map str_val xs = ss)"
    by (auto simp: expect_strings_def bindE_eq_Inr)
  then show ?thesis by (simp add: str_items_eq)
qed

lemma field_check_simps [simp]:
  "text_ok s \<Longrightarrow> req_string (PStr s) label = Inr s"
  "0 < i \<Longrightarrow> positive_integer (PInt i) label = Inr i"
  "text_ok s \<Longrightarrow> is_sha256 s \<Longrightarrow> req_digest (PStr s) label = Inr s"
  "expect_int (PInt i) label = Inr i" "expect_bool (PBool b) label = Inr b" "expect_list (PList xs) label = Inr xs"
  "expect_string (PStr s) label = Inr s" "expect_optional_string (opt_str x) label = Inr x"
  "expect_strings (PList (map PStr ss)) label = Inr ss"
  by simp_all

lemma text_ok_sha256 [simp]: "is_sha256 s \<Longrightarrow> text_ok s"
proof -
  assume "is_sha256 s"
  then have "take 7 s = ''sha256:''" and hex: "list_all is_lower_hex (drop 7 s)" by (auto simp: is_sha256_def)
  moreover have "\<not> is_lower_hex (CHR 0x00)" by code_simp
  ultimately have "CHR 0x00 \<notin> set (take 7 s)" "CHR 0x00 \<notin> set (drop 7 s)" by (auto simp: list_all_iff)
  then have "CHR 0x00 \<notin> set s" by (metis Un_iff append_take_drop_id set_append)
  then show "text_ok s" using \<open>take 7 s = ''sha256:''\<close> by (auto simp: text_ok_def)
qed

lemma case_str_iff: "(case x of Some (PStr s) \<Rightarrow> ok s | _ \<Rightarrow> False) \<longleftrightarrow> (\<exists>s. x = Some (PStr s) \<and> ok s)"
  by (cases x; cases "the x") auto

lemma str_items_iff: "(\<exists>v. x = Some v \<and> is_str v \<and> ok (str_val v)) \<longleftrightarrow> (\<exists>s. x = Some (PStr s) \<and> ok s)"
  by (cases x; cases "the x") (auto simp: is_str_def str_val_def)

lemma mapE_items_iff:
  "(\<exists>vs. mapE (dict_item d) keys = Inr vs \<and> (\<forall>v\<in>set vs. P v)) \<longleftrightarrow> (\<forall>k\<in>set keys. \<exists>v. map_of d k = Some v \<and> P v)"
  by (induction keys) (auto simp: bindE_eq_Inr dict_item_eq_Inr)

lemma string_fields_eq:
  "string_fields d keys ok msg = Inr f \<longleftrightarrow>
     (\<forall>k\<in>set keys. \<exists>s. map_of d k = Some (PStr s) \<and> ok s) \<and> f = (\<lambda>k. str_val (dict_get d k))"
  using mapE_items_iff [of d keys "\<lambda>v. is_str v \<and> ok (str_val v)"]
  by (auto simp: string_fields_def bindE_eq_Inr str_items_iff)

lemma string_fields_py_dict [wire_simps]:
  assumes "distinct (map fst kvs)" and "list_all (\<lambda>k. case map_of kvs k of Some (PStr s) \<Rightarrow> ok s | _ \<Rightarrow> False) keys"
  shows "string_fields (py_dict kvs) keys ok msg = Inr (\<lambda>k. str_val (dict_get (py_dict kvs) k))"
  using assms by (simp add: string_fields_eq map_of_py_dict_distinct list_all_iff case_str_iff)

lemma str_val_PStr [simp]: "str_val (PStr s) = s"
  by (simp add: str_val_def)

lemma dict_get_Some: "map_of d k = Some v \<Longrightarrow> dict_get d k = v"
  by (simp add: dict_get_def)


section \<open>Well-formed values\<close>

definition wf_artifact :: "artifact_ref \<Rightarrow> bool" where
  "wf_artifact a \<longleftrightarrow> af_schema_version a = ''sisyphus_harness.artifact_ref.v1'' \<and> af_artifact_id a \<noteq> [] \<and> length (af_artifact_id a) \<le> 512
     \<and> CHR 0x00 \<notin> set (af_artifact_id a) \<and> safe_relative (af_artifact_id a) \<and> is_sha256 (af_sha256 a) \<and> 0 \<le> af_size_bytes a
     \<and> py_strip (af_media_type a) = af_media_type a \<and> (\<forall>c\<in>set (af_media_type a). \<not> py_isspace c) \<and> CHR ''/'' \<in> set (af_media_type a)"

definition wf_path :: "string \<Rightarrow> bool" where
  "wf_path path \<longleftrightarrow> path \<noteq> [] \<and> CHR 0x00 \<notin> set path \<and> safe_relative path"

definition wf_bundle :: "workspace_bundle_ref \<Rightarrow> bool" where
  "wf_bundle w \<longleftrightarrow> wb_schema_version w = ''sisyphus_harness.workspace_bundle_ref.v1'' \<and> is_sha256 (wb_archive_sha256 w)
     \<and> wb_bundle_id w = ''workspace:'' @ wb_archive_sha256 w \<and> 0 < wb_size_bytes w \<and> 0 \<le> wb_entry_count w
     \<and> is_full_sha (wb_source_commit_sha w) \<and> is_sha256 (wb_source_state_hash w) \<and> is_sha256 (wb_tree_hash w)
     \<and> list_all wf_path (wb_changed_paths w) \<and> sorted (wb_changed_paths w) \<and> distinct (wb_changed_paths w)"

definition wf_task :: "agent_task \<Rightarrow> bool" where
  "wf_task t \<longleftrightarrow> at_instruction t \<noteq> [] \<and> py_strip (at_instruction t) = at_instruction t \<and> at_acceptance_criteria t \<noteq> []
     \<and> list_all (\<lambda>c. c \<noteq> [] \<and> py_strip c = c) (at_acceptance_criteria t) \<and> distinct (at_acceptance_criteria t)"

definition wf_agent_result :: "agent_result \<Rightarrow> bool" where
  "wf_agent_result r \<longleftrightarrow> ar_schema_version r \<in> {AGENT_RUN_V1, AGENT_RUN_V2} \<and> ar_run_id r \<noteq> [] \<and> ar_reason r \<noteq> []
     \<and> ar_artifact_path r \<noteq> [] \<and> 0 \<le> ar_steps r \<and> 0 \<le> ar_compactions r \<and> 0 \<le> ar_verifications r
     \<and> list_all wf_artifact (ar_verification_artifacts r) \<and> (ar_schema_version r = AGENT_RUN_V1 \<longrightarrow> ar_verification_artifacts r = [])"

text \<open>The agent results that can be stored: the current schema, with both workspace states recorded.\<close>

definition storable_agent_result :: "agent_result \<Rightarrow> bool" where
  "storable_agent_result r \<longleftrightarrow> wf_agent_result r \<and> ar_schema_version r = AGENT_RUN_V2
     \<and> ar_workspace_state_before r \<noteq> [] \<and> ar_workspace_state_after r \<noteq> []"

definition wf_attempt :: "attempt_finished \<Rightarrow> bool" where
  "wf_attempt a \<longleftrightarrow> text_ok (fa_job_id a) \<and> 0 < fa_attempt a \<and> fa_attempt_id a = attempt_name (fa_job_id a) (fa_attempt a)
     \<and> wf_bundle (fa_source_bundle a) \<and> wf_bundle (fa_output_bundle a) \<and> wf_agent_result (fa_agent_result a)
     \<and> fa_schema_version a = ''sisyphus_harness.attempt_finished.v1''"

definition storable_attempt :: "attempt_finished \<Rightarrow> bool" where
  "storable_attempt a \<longleftrightarrow> wf_attempt a \<and> storable_agent_result (fa_agent_result a)"

lemma mk_artifact_ref_eq: "mk_artifact_ref a = Inr a' \<longleftrightarrow> a' = a \<and> wf_artifact a"
  by (auto simp: mk_artifact_ref_def validate_artifact_id_def wf_artifact_def bindE_eq_Inr)

lemma validate_relative_paths_eq: "validate_relative_paths ps = Inr qs \<longleftrightarrow> qs = ps \<and> list_all wf_path ps"
  by (induction ps arbitrary: qs) (auto simp: validate_relative_paths_def bindE_eq_Inr wf_path_def)

lemma list_all_sort [simp]: "list_all P (sort xs) \<longleftrightarrow> list_all P xs"
  by (simp add: list_all_iff)

lemma mk_workspace_bundle_ref_eq:
  "mk_workspace_bundle_ref w = Inr w' \<longleftrightarrow> w' = w\<lparr>wb_changed_paths := sort (wb_changed_paths w)\<rparr> \<and> wf_bundle w'"
  (is "_ \<longleftrightarrow> w' = ?n \<and> _")
proof -
  have "mk_workspace_bundle_ref w = Inr w' \<longleftrightarrow> wf_bundle ?n \<and> w' = ?n"
    unfolding mk_workspace_bundle_ref_def wf_bundle_def
    by (simp add: Let_def result_simps validate_relative_paths_eq not_less not_le conj_assoc eq_commute [of _ w'])
  then show ?thesis by auto
qed

lemma mk_workspace_bundle_ref_wf: "wf_bundle w \<Longrightarrow> mk_workspace_bundle_ref w = Inr w"
  by (simp add: mk_workspace_bundle_ref_eq wf_bundle_def sorted_sort_id)

lemma mk_agent_task_wf: "wf_task t \<Longrightarrow> mk_agent_task t = Inr t"
proof -
  assume "wf_task t"
  moreover from this have "map py_strip (at_acceptance_criteria t) = at_acceptance_criteria t"
    by (auto simp: wf_task_def list_all_iff intro: map_idI)
  ultimately show ?thesis by (auto simp: mk_agent_task_def wf_task_def Let_def list_all_iff)
qed

lemma mk_agent_task_sound: "mk_agent_task t = Inr t' \<Longrightarrow> wf_task t'"
  by (auto simp: mk_agent_task_def wf_task_def Let_def list_all_iff split: if_splits)

lemma mk_agent_result_eq:
  "list_all wf_artifact (ar_verification_artifacts r) \<Longrightarrow> mk_agent_result r = Inr r' \<longleftrightarrow> r' = r \<and> wf_agent_result r"
  by (auto simp: mk_agent_result_def wf_agent_result_def bindE_eq_Inr)

lemma validate_attempt_identity_eq:
  "validate_attempt_identity j n i = Inr u \<longleftrightarrow> text_ok j \<and> 0 < n \<and> text_ok i \<and> i = attempt_name j n"
  by (auto simp: validate_attempt_identity_def bindE_eq_Inr)

lemma text_ok_attempt_name: "text_ok j \<Longrightarrow> text_ok (attempt_name j n)"
proof -
  assume "text_ok j"
  have zero: "\<not> is_digit (CHR 0x00)" by code_simp
  have "CHR 0x00 \<notin> set (show_nat m)" for m
    using show_nat_digits [of m] zero by (auto simp: list_all_iff)
  then have "CHR 0x00 \<notin> set (pad4 (show_int n))"
    by (auto simp: pad4_def show_int_def)
  with \<open>text_ok j\<close> show ?thesis by (auto simp: text_ok_def attempt_name_def)
qed

lemma mk_attempt_finished_eq:
  "wf_bundle (fa_source_bundle a) \<Longrightarrow> wf_bundle (fa_output_bundle a) \<Longrightarrow> wf_agent_result (fa_agent_result a) \<Longrightarrow>
   mk_attempt_finished a = Inr a' \<longleftrightarrow> a' = a \<and> wf_attempt a"
  using text_ok_attempt_name
  by (auto simp: mk_attempt_finished_def wf_attempt_def bindE_eq_Inr validate_attempt_identity_eq)

section \<open>The decoders\<close>

lemma artifact_wire_ok [simp]: "wire_ok (artifact_to_dict a)"
  unfolding artifact_to_dict_def by (rule wire_ok_py_dict) simp

lemma artifact_from_dict_iff:
  assumes "wire_ok raw"
  shows "artifact_from_dict raw = Inr a \<longleftrightarrow> wf_artifact a \<and> raw = artifact_to_dict a"
proof
  assume dec: "artifact_from_dict raw = Inr a"
  from decode_object [OF dec [unfolded artifact_from_dict_def] assms] show "wf_artifact a \<and> raw = artifact_to_dict a"
    by (auto simp: artifact_to_dict_def bindE_eq_Inr field_wire string_fields_eq mk_artifact_ref_eq dict_get_Some
        intro!: wire_dict_eqI)
qed (cases a, simp add: artifact_from_dict_def artifact_to_dict_def wire_simps mk_artifact_ref_eq)

interpretation af: wire_contract wf_artifact artifact_to_dict artifact_from_dict
  by unfold_locales (simp_all add: artifact_from_dict_iff)

lemma bundle_round_trip: "wf_bundle w \<Longrightarrow> bundle_from_dict (bundle_to_dict w) = Inr w"
  by (cases w) (simp add: bundle_from_dict_def bundle_to_dict_def wire_simps mk_workspace_bundle_ref_wf)

interpretation wb: wire_class wf_bundle bundle_to_dict bundle_from_dict
  by unfold_locales (rule bundle_round_trip)

lemma bundle_from_dict_wf: "bundle_from_dict raw = Inr w \<Longrightarrow> wf_bundle w"
  by (auto simp: bundle_from_dict_def bindE_eq_Inr mk_workspace_bundle_ref_eq)

lemma bundle_wire_ok [simp]: "wire_ok (bundle_to_dict w)"
  unfolding bundle_to_dict_def by (rule wire_ok_py_dict) simp

lemma task_round_trip: "wf_task t \<Longrightarrow> task_from_dict (task_to_dict t) = Inr t"
  by (cases t) (simp add: task_from_dict_def task_to_dict_def wire_simps mk_agent_task_wf)

interpretation task: wire_class wf_task task_to_dict task_from_dict
  by unfold_locales (rule task_round_trip)

lemma task_from_dict_wf: "task_from_dict raw = Inr t \<Longrightarrow> wf_task t"
  by (auto simp: task_from_dict_def bindE_eq_Inr mk_agent_task_sound)


lemma agent_result_wire_ok [simp]: "wire_ok (agent_result_to_dict r)"
  unfolding agent_result_to_dict_def by (rule wire_ok_py_dict) (simp add: list_all_iff)

lemma schema_v1_v2 [simp]: "AGENT_RUN_V1 \<noteq> AGENT_RUN_V2" "AGENT_RUN_V2 \<noteq> AGENT_RUN_V1" "AGENT_RUN_V1 \<noteq> []" "AGENT_RUN_V2 \<noteq> []"
  by (simp_all add: AGENT_RUN_V1_def AGENT_RUN_V2_def)

lemma agent_result_round_trip: "storable_agent_result r \<Longrightarrow> agent_result_from_dict (agent_result_to_dict r) = Inr r"
proof -
  assume r: "storable_agent_result r"
  then have mk: "mk_agent_result r = Inr r"
    by (subst mk_agent_result_eq) (auto simp: storable_agent_result_def wf_agent_result_def)
  have arts: "mapE artifact_from_dict (map artifact_to_dict (ar_verification_artifacts r)) = Inr (ar_verification_artifacts r)"
    using r by (intro af.encode_list) (simp add: storable_agent_result_def wf_agent_result_def)
  from r mk arts show ?thesis
    by (cases r) (simp add: agent_result_from_dict_def agent_result_to_dict_def agent_result_common_def Let_def wire_simps
        storable_agent_result_def wf_agent_result_def)
qed

interpretation ar: wire_class storable_agent_result agent_result_to_dict agent_result_from_dict
  by unfold_locales (rule agent_result_round_trip)

text \<open>One surplus field makes a strict object fail by name.\<close>

lemma distinct_single: "distinct xs \<Longrightarrow> set xs = {a} \<Longrightarrow> xs = [a]"
  by (cases xs) (auto simp: subset_singleton_iff)

lemma strict_object_unknown:
  assumes "fst ` set kvs - set req = {k}"
  shows "strict_object (PDict (py_dict kvs)) req [] label et = Inl (et (label @ '' contains unknown fields: '' @ k))"
proof -
  have "filter (\<lambda>x. x \<notin> set req) (map fst (py_dict kvs)) = [k]"
    using assms dict_ok_distinct [OF dict_ok_py_dict, of kvs] by (intro distinct_single) auto
  then show ?thesis by (simp add: strict_object_def py_keys_def)
qed

lemma agent_result_v1_rejected:
  assumes "ar_schema_version r = AGENT_RUN_V1"
  shows "agent_result_from_dict (agent_result_to_dict r) =
     Inl (ValueError ''agent result contains unknown fields: verification_artifacts'')"
  using assms
  by (simp add: agent_result_from_dict_def agent_result_to_dict_def Let_def wire_simps)
    (subst strict_object_unknown [where k = "''verification_artifacts''"], auto simp: agent_result_common_def)

lemma attempt_items_wire: "list_all (\<lambda>kv. wire_ok (snd kv)) (attempt_items a)"
  by (simp add: attempt_items_def)

lemma attempt_to_dict_wire: "wire_ok (attempt_to_dict a)"
  unfolding attempt_to_dict_def by (rule wire_ok_py_dict) (simp add: attempt_items_wire)

lemma attempt_digest_sha256 [simp]: "is_sha256 (attempt_digest a)"
  by (simp add: attempt_digest_def)

lemma attempt_round_trip: "storable_attempt a \<Longrightarrow> attempt_from_dict (attempt_to_dict a) = Inr a"
proof -
  assume a: "storable_attempt a"
  then have mk: "mk_attempt_finished a = Inr a"
    by (subst mk_attempt_finished_eq) (auto simp: storable_attempt_def wf_attempt_def)
  from a text_ok_attempt_name [of "fa_job_id a" "fa_attempt a"] mk show ?thesis
    by (cases a) (simp add: attempt_from_dict_def attempt_to_dict_def attempt_items_def wire_simps storable_attempt_def
        wf_attempt_def wb.round_trip ar.round_trip text_ok_def [of "''sisyphus_harness.attempt_finished.v1''"])
qed

lemma attempt_recorded_digest:
  assumes "attempt_from_dict (PDict d) = Inr a"
  shows "map_of d ''attempt_digest'' = Some (PStr (attempt_digest a))"
  using assms by (auto simp: attempt_from_dict_def result_simps)

interpretation fa: digest_class storable_attempt attempt_to_dict attempt_from_dict attempt_items "''attempt_digest''"
  by unfold_locales (erule attempt_round_trip, simp add: attempt_to_dict_def attempt_digest_def,
      simp add: attempt_recorded_digest attempt_digest_def [symmetric])

definition storable_job_result :: "coding_job_result \<Rightarrow> bool" where
  "storable_job_result c \<longleftrightarrow> cj_job_id c \<noteq> [] \<and> 0 < cj_attempt c \<and> cj_attempt_id c = attempt_name (cj_job_id c) (cj_attempt c)
     \<and> cj_success c = ar_success (cj_agent_result c) \<and> wf_bundle (cj_source_bundle c) \<and> wf_bundle (cj_output_bundle c)
     \<and> storable_agent_result (cj_agent_result c) \<and> cj_schema_version c = ''sisyphus_harness.coding_job_result.v1''"

lemma job_result_round_trip: "storable_job_result c \<Longrightarrow> coding_job_result_from_dict (coding_job_result_to_dict c) = Inr c"
  by (cases c) (simp add: coding_job_result_from_dict_def coding_job_result_to_dict_def wire_simps storable_job_result_def
      wb.round_trip ar.round_trip mk_coding_job_result_def attempt_name_def)

interpretation cj: wire_class storable_job_result coding_job_result_to_dict coding_job_result_from_dict
  by unfold_locales (rule job_result_round_trip)

section \<open>Properties\<close>

definition sample_bundle :: workspace_bundle_ref where
  "sample_bundle = \<lparr>wb_bundle_id = ''workspace:sha256:'' @ replicate 64 (CHR ''a''), wb_archive_sha256 = ''sha256:'' @ replicate 64 (CHR ''a''),
     wb_size_bytes = 10, wb_source_commit_sha = replicate 40 (CHR ''b''), wb_source_state_hash = ''sha256:'' @ replicate 64 (CHR ''c''),
     wb_tree_hash = ''sha256:'' @ replicate 64 (CHR ''d''), wb_changed_paths = [''src/a.py''], wb_entry_count = 3,
     wb_schema_version = ''sisyphus_harness.workspace_bundle_ref.v1''\<rparr>"

definition sample_agent_result :: agent_result where
  "sample_agent_result = \<lparr>ar_run_id = ''run'', ar_success = True, ar_reason = ''verified'', ar_steps = 4, ar_compactions = 0,
     ar_verifications = 1, ar_workspace_state_before = ''s0'', ar_workspace_state_after = ''s1'', ar_changed_paths = [''src/a.py''],
     ar_artifact_path = ''runs/run'', ar_verification_artifacts = [], ar_summary = None, ar_schema_version = AGENT_RUN_V2\<rparr>"

definition sample_attempt :: attempt_finished where
  "sample_attempt = \<lparr>fa_job_id = ''job-1'', fa_attempt = 1, fa_attempt_id = ''job-1/attempt-0001'', fa_source_bundle = sample_bundle,
     fa_output_bundle = sample_bundle, fa_agent_result = sample_agent_result,
     fa_schema_version = ''sisyphus_harness.attempt_finished.v1''\<rparr>"

lemma sample_attempt_storable: "storable_attempt sample_attempt"
  by code_simp

lemma sample_bundle_wf: "wf_bundle sample_bundle"
  by code_simp

text \<open>The component test cannot see a lone dot: the path \<open>.\<close> has no components and is its own normal form.\<close>

lemma dot_path_accepted: "validate_relative_paths [''.''] = Inr [''.'']" "validate_artifact_id ''.'' = Inr ()"
  by code_simp+

lemma wf_path_join:
  assumes "wf_path p" and "p \<noteq> ''.''"
  shows "p = join_with ''/'' (posix_parts p)"
proof -
  have "as_posix p = p" "posix_root p = []" using assms by (auto simp: wf_path_def safe_relative_def)
  with assms(2) show ?thesis by (auto simp: as_posix_def Let_def split: if_splits)
qed

text \<open>
  Paths in a decoded workspace bundle stay inside the workspace: whatever raw object is decoded, every
  changed path is relative, is the workspace root itself (a lone dot) or exactly its components joined by
  single slashes, has no empty, dot or dot-dot component, no backslash and no NUL, and the paths are sorted
  without duplicates.
\<close>

theorem bundle_paths_confined:
  assumes "bundle_from_dict raw = Inr w"
  shows "sorted (wb_changed_paths w) \<and> distinct (wb_changed_paths w) \<and>
     (\<forall>p\<in>set (wb_changed_paths w). (p = ''.'' \<or> p = join_with ''/'' (posix_parts p)) \<and> posix_root p = [] \<and> p \<noteq> [] \<and>
        (\<forall>part\<in>set (posix_parts p). part \<notin> {[], ''.'', ''..''}) \<and> CHR 0x5C \<notin> set p \<and> CHR 0x00 \<notin> set p)"
proof -
  have wf: "wf_bundle w" using assms by (rule bundle_from_dict_wf)
  have "wf_path p \<Longrightarrow> p = ''.'' \<or> p = join_with ''/'' (posix_parts p)" for p
    using wf_path_join by blast
  with wf show ?thesis
    by (auto simp: wf_bundle_def list_all_iff wf_path_def safe_relative_def)
qed

theorem bundle_paths_confined_witness:
  "bundle_from_dict (bundle_to_dict sample_bundle) = Inr sample_bundle \<and> ''src/a.py'' \<in> set (wb_changed_paths sample_bundle) \<and>
   sorted (wb_changed_paths sample_bundle) \<and> posix_root ''src/a.py'' = []"
  using bundle_paths_confined [OF wb.round_trip [OF sample_bundle_wf]] wb.round_trip [OF sample_bundle_wf]
  by (simp add: sample_bundle_def)

text \<open>
  An attempt survives storage: an attempt with a current agent result, written as canonical JSON text,
  read strictly and decoded, is the same attempt.
\<close>

theorem attempt_text_round_trip:
  assumes "storable_attempt a"
  shows "bindE (bindE (canonical_json_bytes (attempt_to_dict a)) (\<lambda>text. loads_strict_json text label)) attempt_from_dict = Inr a"
  by (rule fa.text_round_trip [OF assms attempt_to_dict_wire])

theorem attempt_text_round_trip_witness:
  "bindE (bindE (canonical_json_bytes (attempt_to_dict sample_attempt)) (\<lambda>text. loads_strict_json text ''stored'')) attempt_from_dict
     = Inr sample_attempt"
  by (rule attempt_text_round_trip) (rule sample_attempt_storable)

text \<open>
  C14. An agent result of the first schema does not survive storage: its encoding always carries the field
  \<open>verification_artifacts\<close>, which the decoder of that schema rejects as unknown. So an attempt holding
  such a result can be encoded but never decoded.
\<close>

theorem agent_result_v1_not_storable:
  assumes "ar_schema_version (fa_agent_result a) = AGENT_RUN_V1" and "wf_attempt a"
  shows "attempt_from_dict (attempt_to_dict a) =
     Inl (ValueError ''agent result contains unknown fields: verification_artifacts'')"
  using assms(2) agent_result_v1_rejected [OF assms(1)] text_ok_attempt_name [of "fa_job_id a" "fa_attempt a"]
  by (simp add: attempt_from_dict_def attempt_to_dict_def attempt_items_def wire_simps wf_attempt_def wb.round_trip)

theorem agent_result_v1_not_storable_witness:
  "attempt_from_dict (attempt_to_dict (sample_attempt\<lparr>fa_agent_result := sample_agent_result\<lparr>ar_schema_version := AGENT_RUN_V1\<rparr>\<rparr>)) =
     Inl (ValueError ''agent result contains unknown fields: verification_artifacts'')"
  by (rule agent_result_v1_not_storable, simp, code_simp)

end
