(* ===== verification/Job_Store.thy ===== *)
theory Job_Store
  imports Run_Contracts "HOL-Library.Product_Lexorder"
begin

text \<open>
  The control database of \<^verbatim>\<open>database.py\<close>: its three tables as lists of rows in insertion order, with the
  constraints SQLite enforces on every statement (primary keys, unique columns, checks and foreign keys);
  the transaction that rolls back on any exception; and the migrations of \<open>Database.initialize\<close>.
\<close>

section \<open>Tables\<close>

datatype job_status = Queued | Running | Completed | Failed

definition job_status_value :: "job_status \<Rightarrow> string" where
  "job_status_value s = (case s of Queued \<Rightarrow> ''queued'' | Running \<Rightarrow> ''running'' | Completed \<Rightarrow> ''completed'' | Failed \<Rightarrow> ''failed'')"

record job_row =
  j_job_id :: string
  j_idempotency_key :: string
  j_kind :: string
  j_payload_json :: string
  j_status :: job_status
  j_lease_owner :: "string option"
  j_lease_expires_at :: "pyfloat option"
  j_attempts :: int
  j_result_json :: "string option"
  j_created_at :: string
  j_updated_at :: string

record attempt_row =
  t_job_id :: string
  t_attempt :: int
  t_attempt_id :: string
  t_attempt_digest :: string
  t_payload_json :: string
  t_finished_at :: string

record outcome_row =
  u_job_id :: string
  u_attempt :: int
  u_attempt_digest :: string
  u_outcome_digest :: string
  u_payload_json :: string
  u_published_at :: string

text \<open>The stored schema version, the tables, indexes and triggers that exist, and the rows.\<close>

record db =
  db_schema_version :: "string option"
  db_objects :: "string list"
  db_jobs :: "job_row list"
  db_attempts :: "attempt_row list"
  db_outcomes :: "outcome_row list"

definition empty_db :: db where
  "empty_db = \<lparr>db_schema_version = None, db_objects = [], db_jobs = [], db_attempts = [], db_outcomes = []\<rparr>"

section \<open>Constraints and statements\<close>

text \<open>The checks of the table \<open>jobs\<close>: a lease belongs to a running job and to no other.\<close>

definition job_check :: "job_row \<Rightarrow> bool" where
  "job_check r \<longleftrightarrow> 0 \<le> j_attempts r \<and>
     (if j_status r = Running then j_lease_owner r \<noteq> None \<and> j_lease_expires_at r \<noteq> None
      else j_lease_owner r = None \<and> j_lease_expires_at r = None)"

text \<open>\<open>INSERT INTO jobs \<dots> ON CONFLICT(idempotency_key) DO NOTHING\<close>.\<close>

definition insert_job :: "job_row \<Rightarrow> db \<Rightarrow> db result" where
  "insert_job r d =
     (if j_idempotency_key r \<in> j_idempotency_key ` set (db_jobs d) then Inr d
      else if j_job_id r \<in> j_job_id ` set (db_jobs d) then Inl (IntegrityError ''UNIQUE constraint failed: jobs.job_id'')
      else if \<not> job_check r then Inl (IntegrityError ''CHECK constraint failed: jobs'')
      else Inr (d\<lparr>db_jobs := db_jobs d @ [r]\<rparr>))"

text \<open>\<open>UPDATE jobs SET \<dots> WHERE \<dots>\<close> with its \<open>rowcount\<close>.\<close>

definition update_jobs :: "(job_row \<Rightarrow> bool) \<Rightarrow> (job_row \<Rightarrow> job_row) \<Rightarrow> db \<Rightarrow> (nat \<times> db) result" where
  "update_jobs P f d =
     (if \<exists>r\<in>set (db_jobs d). P r \<and> \<not> job_check (f r) then Inl (IntegrityError ''CHECK constraint failed: jobs'')
      else Inr (length (filter P (db_jobs d)), d\<lparr>db_jobs := map (\<lambda>r. if P r then f r else r) (db_jobs d)\<rparr>))"

definition select_job :: "string \<Rightarrow> db \<Rightarrow> job_row option" where
  "select_job job_id d = find (\<lambda>r. j_job_id r = job_id) (db_jobs d)"

definition select_job_by_key :: "string \<Rightarrow> db \<Rightarrow> job_row option" where
  "select_job_by_key key d = find (\<lambda>r. j_idempotency_key r = key) (db_jobs d)"

definition insert_attempt :: "attempt_row \<Rightarrow> db \<Rightarrow> db result" where
  "insert_attempt t d =
     (if t_attempt t \<le> 0 then Inl (IntegrityError ''CHECK constraint failed: attempt > 0'')
      else if \<exists>s\<in>set (db_attempts d). t_job_id s = t_job_id t \<and> t_attempt s = t_attempt t
      then Inl (IntegrityError ''UNIQUE constraint failed: attempt_finished.job_id, attempt_finished.attempt'')
      else if t_attempt_id t \<in> t_attempt_id ` set (db_attempts d)
      then Inl (IntegrityError ''UNIQUE constraint failed: attempt_finished.attempt_id'')
      else if t_attempt_digest t \<in> t_attempt_digest ` set (db_attempts d)
      then Inl (IntegrityError ''UNIQUE constraint failed: attempt_finished.attempt_digest'')
      else if t_job_id t \<notin> j_job_id ` set (db_jobs d) then Inl (IntegrityError ''FOREIGN KEY constraint failed'')
      else Inr (d\<lparr>db_attempts := db_attempts d @ [t]\<rparr>))"

definition insert_outcome :: "outcome_row \<Rightarrow> db \<Rightarrow> db result" where
  "insert_outcome u d =
     (if u_attempt u \<le> 0 then Inl (IntegrityError ''CHECK constraint failed: attempt > 0'')
      else if u_job_id u \<in> u_job_id ` set (db_outcomes d) then Inl (IntegrityError ''UNIQUE constraint failed: task_outcomes.job_id'')
      else if u_outcome_digest u \<in> u_outcome_digest ` set (db_outcomes d)
      then Inl (IntegrityError ''UNIQUE constraint failed: task_outcomes.outcome_digest'')
      else if \<not> (\<exists>t\<in>set (db_attempts d). t_job_id t = u_job_id u \<and> t_attempt t = u_attempt u \<and> t_attempt_digest t = u_attempt_digest u)
      then Inl (IntegrityError ''FOREIGN KEY constraint failed'')
      else Inr (d\<lparr>db_outcomes := db_outcomes d @ [u]\<rparr>))"

section \<open>Transactions\<close>

text \<open>
  \<open>Database.transaction\<close>: the body works on the database of the connection; an exception rolls back to
  the state before, otherwise the body's state is committed. \<open>with_input\<close> runs the checks a method makes before it
  opens the transaction, \<open>returning\<close> what it does with the row after it has closed it.
\<close>

definition transaction :: "('s \<Rightarrow> ('a \<times> 's) result) \<Rightarrow> 's \<Rightarrow> 'a result \<times> 's" where
  "transaction body d = (case body d of Inl e \<Rightarrow> (Inl e, d) | Inr (x, d') \<Rightarrow> (Inr x, d'))"

definition with_input :: "'a result \<Rightarrow> ('a \<Rightarrow> 's \<Rightarrow> 'b result \<times> 's) \<Rightarrow> 's \<Rightarrow> 'b result \<times> 's" where
  "with_input m f d = (case m of Inl e \<Rightarrow> (Inl e, d) | Inr x \<Rightarrow> f x d)"

definition returning :: "'a result \<times> 's \<Rightarrow> ('a \<Rightarrow> 'b result) \<Rightarrow> 'b result \<times> 's" where
  "returning p f = (bindE (fst p) f, snd p)"

lemma with_input_Inl [simp]: "with_input (Inl e) f d = (Inl e, d)"
  by (simp add: with_input_def)

lemma with_input_Inr [simp]: "with_input (Inr x) f d = f x d"
  by (simp add: with_input_def)

lemma with_input_eq: "with_input m f d = (r, d') \<longleftrightarrow> (\<exists>e. m = Inl e \<and> r = Inl e \<and> d' = d) \<or> (\<exists>x. m = Inr x \<and> f x d = (r, d'))"
  by (cases m) auto

lemma transaction_eq:
  "transaction body d = (r, d') \<longleftrightarrow> (\<exists>e. body d = Inl e \<and> r = Inl e \<and> d' = d) \<or> (\<exists>x. body d = Inr (x, d') \<and> r = Inr x)"
  by (auto simp: transaction_def split: sum.splits)

lemma returning_eq: "returning p f = (r, d') \<longleftrightarrow> (\<exists>q. p = (q, d') \<and> r = bindE q f)"
  by (cases p) (auto simp: returning_def)

text \<open>An exception inside the transaction leaves the database as it was.\<close>

lemma transaction_rollback: "transaction body d = (Inl e, d') \<Longrightarrow> d' = d"
  by (auto simp: transaction_eq)

section \<open>Migrations\<close>

definition SCHEMA_VERSION :: int where "SCHEMA_VERSION = 2"

text \<open>\<open>int(text)\<close>: surrounding space, a sign, and decimal digits with single underscores between them.\<close>

fun int_digits :: "bool \<Rightarrow> string \<Rightarrow> bool" where
  "int_digits after [] = after"
| "int_digits after (c # s) = (if is_digit c then int_digits True s else c = CHR ''_'' \<and> after \<and> int_digits False s)"

definition py_int_of_string :: "string \<Rightarrow> int option" where
  "py_int_of_string text =
     (let s = py_strip text;
          neg = (s \<noteq> [] \<and> hd s = CHR ''-'');
          body = (if s \<noteq> [] \<and> hd s \<in> {CHR ''-'', CHR ''+''} then tl s else s)
      in if int_digits False body
         then Some (let n = int (read_nat (filter is_digit body)) in if neg then - n else n)
         else None)"

definition schema_version :: "string \<Rightarrow> int result" where
  "schema_version raw = (case py_int_of_string raw of
       None \<Rightarrow> Inl (RuntimeError (''invalid database schema version: '' @ raw))
     | Some v \<Rightarrow> if v < 0 then Inl (RuntimeError (''invalid database schema version: '' @ raw)) else Inr v)"

text \<open>The object each \<open>CREATE \<dots> IF NOT EXISTS\<close> statement of a migration makes.\<close>

definition MIGRATIONS :: "int \<Rightarrow> string list option" where
  "MIGRATIONS v =
     (if v = 1 then Some [''jobs'', ''jobs_claimable'']
      else if v = 2 then Some [''attempt_finished'', ''task_outcomes'', ''attempt_finished_no_update'', ''attempt_finished_no_delete'',
        ''task_outcomes_no_update'', ''task_outcomes_no_delete'']
      else None)"

definition create_if_missing :: "string \<Rightarrow> db \<Rightarrow> db" where
  "create_if_missing name d = (if name \<in> set (db_objects d) then d else d\<lparr>db_objects := db_objects d @ [name]\<rparr>)"

fun migrate :: "int list \<Rightarrow> db \<Rightarrow> db result" where
  "migrate [] d = Inr d"
| "migrate (v # vs) d = (case MIGRATIONS v of
       None \<Rightarrow> Inl (RuntimeError (''missing database migration '' @ show_int v))
     | Some statements \<Rightarrow> migrate vs ((fold create_if_missing statements d)\<lparr>db_schema_version := Some (show_int v)\<rparr>))"

definition initialize :: "db \<Rightarrow> unit result \<times> db" where
  "initialize = transaction (\<lambda>d.
     let d = create_if_missing ''metadata'' d in
     bindE (case db_schema_version d of None \<Rightarrow> Inr 0 | Some raw \<Rightarrow> schema_version raw) (\<lambda>current.
     if SCHEMA_VERSION < current
     then Inl (RuntimeError (''database schema version '' @ show_int current @ '' is newer than supported version '' @ show_int SCHEMA_VERSION))
     else bindE (migrate [current + 1 .. SCHEMA_VERSION] d) (\<lambda>d'. Inr ((), d'))))"

section \<open>Lemmas on the statements\<close>

lemma find_Some_iff: "distinct (map f xs) \<Longrightarrow> find (\<lambda>x. f x = k) xs = Some x \<longleftrightarrow> x \<in> set xs \<and> f x = k"
  by (induction xs) auto

lemma find_None_image: "find (\<lambda>x. f x = k) xs = None \<longleftrightarrow> k \<notin> f ` set xs"
  by (auto simp: find_None_iff)

lemma distinct_image_eq: "distinct (map f xs) \<Longrightarrow> x \<in> set xs \<Longrightarrow> y \<in> set xs \<Longrightarrow> f x = f y \<Longrightarrow> x = y"
  by (metis distinct_map inj_onD)

lemma filter_key:
  assumes "distinct (map f xs)"
  shows "filter (\<lambda>x. f x = k \<and> Q x) xs = (case find (\<lambda>x. f x = k) xs of Some x \<Rightarrow> if Q x then [x] else [] | None \<Rightarrow> [])"
  using assms
proof (induction xs)
  case (Cons x xs)
  then have "find (\<lambda>y. f y = f x) xs = None" by (simp add: find_None_image)
  with Cons show ?case by (auto split: option.splits)
qed simp

text \<open>A statement keyed by the primary key touches at most one row.\<close>

lemma update_one:
  assumes "distinct (map j_job_id (db_jobs d))"
  shows "length (filter (\<lambda>r. j_job_id r = job_id \<and> Q r) (db_jobs d)) =
     (case select_job job_id d of Some r \<Rightarrow> if Q r then 1 else 0 | None \<Rightarrow> 0)"
  using filter_key [OF assms, of job_id Q] by (auto simp: select_job_def split: option.splits)

lemma find_map_update:
  assumes "\<And>r. f (g r) = f r"
  shows "find (\<lambda>r. f r = k) (map (\<lambda>r. if P r then g r else r) xs) =
     map_option (\<lambda>r. if P r then g r else r) (find (\<lambda>r. f r = k) xs)"
  using assms by (induction xs) auto

lemma migrations_all:
  assumes "0 \<le> v" "v \<le> SCHEMA_VERSION"
  shows "[v + 1 .. SCHEMA_VERSION] \<in> {[1, 2], [2], []}"
proof -
  from assms have "v = 0 \<or> v = 1 \<or> v = 2" by (auto simp: SCHEMA_VERSION_def)
  then show ?thesis by (auto simp: SCHEMA_VERSION_def upto.simps)
qed

end
