(* ===== verification/Job_Queue.thy ===== *)
theory Job_Queue
  imports Job_Store
begin

text \<open>
  The leased job queue of \<^verbatim>\<open>queue.py\<close> over the control database. Every public method of \<open>JobQueue\<close> is a
  function from its arguments and the database to its result or exception and the database it leaves. What a
  method reads from its environment is an argument: \<open>uuid\<close> (the hex text of \<open>uuid4\<close>), \<open>clock\<close> (\<open>time.time()\<close>)
  and \<open>utc\<close> (\<open>datetime.now(UTC)\<close>).
\<close>

section \<open>Time\<close>

record utc_time =
  year :: nat
  month :: nat
  day :: nat
  hour :: nat
  minute :: nat
  second :: nat
  microsecond :: nat

definition valid_time :: "utc_time \<Rightarrow> bool" where
  "valid_time t \<longleftrightarrow> 1 \<le> year t \<and> year t \<le> 9999 \<and> 1 \<le> month t \<and> month t \<le> 12 \<and> 1 \<le> day t \<and> day t \<le> 31
     \<and> hour t < 24 \<and> minute t < 60 \<and> second t < 60 \<and> microsecond t < 1000000"

text \<open>A number printed in a field of fixed width, and \<open>isoformat()\<close>, which omits a zero microsecond.\<close>

fun digits :: "nat \<Rightarrow> nat \<Rightarrow> string" where
  "digits 0 n = []"
| "digits (Suc w) n = digits w (n div 10) @ [digit_char (n mod 10)]"

definition utc_now :: "utc_time \<Rightarrow> string" where
  "utc_now t = digits 4 (year t) @ ''-'' @ digits 2 (month t) @ ''-'' @ digits 2 (day t) @ ''T'' @
     digits 2 (hour t) @ '':'' @ digits 2 (minute t) @ '':'' @ digits 2 (second t) @
     (if microsecond t = 0 then [] else ''.'' @ digits 6 (microsecond t)) @ ''Z''"

definition clock_now :: "pyfloat option \<Rightarrow> pyfloat \<Rightarrow> pyfloat result" where
  "clock_now now clock = (let current = (case now of None \<Rightarrow> clock | Some t \<Rightarrow> t) in
     if \<not> fl_isfinite current then Inl (ValueError ''lease clock must be finite'') else Inr current)"

definition lease_window :: "pyfloat \<Rightarrow> pyfloat option \<Rightarrow> pyfloat \<Rightarrow> (pyfloat \<times> pyfloat) result" where
  "lease_window lease_seconds now clock =
     (if \<not> fl_isfinite lease_seconds \<or> fl_le lease_seconds (Finite 0)
      then Inl (ValueError ''lease duration must be positive and finite'')
      else bindE (clock_now now clock) (\<lambda>current.
        let expires = fl_add current lease_seconds in
        if \<not> fl_isfinite expires then Inl (ValueError ''lease expiry must be finite'') else Inr (current, expires)))"

section \<open>Records\<close>

record job_record =
  r_job_id :: string
  r_idempotency_key :: string
  r_kind :: string
  r_payload :: pyobj
  r_status :: job_status
  r_lease_owner :: "string option"
  r_lease_expires_at :: "pyfloat option"
  r_attempts :: int
  r_result :: "pyobj option"
  r_created_at :: string
  r_updated_at :: string

definition job_from_row :: "job_row \<Rightarrow> job_record result" where
  "job_from_row row =
     bindE (json_loads (j_payload_json row)) (\<lambda>payload.
     bindE (case j_result_json row of None \<Rightarrow> Inr None | Some text \<Rightarrow> bindE (json_loads text) (\<lambda>v. Inr (Some v))) (\<lambda>res.
     Inr \<lparr>r_job_id = j_job_id row, r_idempotency_key = j_idempotency_key row, r_kind = j_kind row, r_payload = payload,
       r_status = j_status row, r_lease_owner = j_lease_owner row, r_lease_expires_at = j_lease_expires_at row,
       r_attempts = j_attempts row, r_result = res, r_created_at = j_created_at row, r_updated_at = j_updated_at row\<rparr>))"

text \<open>\<open>json.dumps\<close> with the queue's options; an object it cannot encode is a \<open>TypeError\<close>.\<close>

fun json_encodable :: "pyobj \<Rightarrow> bool" where
  "json_encodable (PList xs) = list_all json_encodable xs"
| "json_encodable (PTuple xs) = list_all json_encodable xs"
| "json_encodable (PDict d) = list_all (\<lambda>kv. json_encodable (snd kv)) d"
| "json_encodable POpaque = False"
| "json_encodable _ = True"

definition queue_json :: "pyobj \<Rightarrow> string result" where
  "queue_json v = (if json_encodable v then Inr (json_dumps v) else Inl (TypeError ''Object is not JSON serializable''))"

section \<open>Enqueue\<close>

definition enqueue :: "string \<Rightarrow> utc_time \<Rightarrow> string \<Rightarrow> pyobj \<Rightarrow> string \<Rightarrow> db \<Rightarrow> job_record result \<times> db" where
  "enqueue uuid utc kind payload idempotency_key =
     (let normalized_kind = py_strip kind;
          normalized_key = py_strip idempotency_key;
          now = utc_now utc;
          job_id = ''job-'' @ uuid
      in with_input (if normalized_kind = [] then Inl (ValueError ''job kind must be non-empty'')
           else if normalized_key = [] then Inl (ValueError ''idempotency key must be non-empty'')
           else queue_json payload) (\<lambda>payload_json d.
         returning
           (transaction (\<lambda>d.
              bindE (insert_job \<lparr>j_job_id = job_id, j_idempotency_key = normalized_key, j_kind = normalized_kind,
                j_payload_json = payload_json, j_status = Queued, j_lease_owner = None, j_lease_expires_at = None,
                j_attempts = 0, j_result_json = None, j_created_at = now, j_updated_at = now\<rparr> d) (\<lambda>d.
              Inr (select_job_by_key normalized_key d, d))) d)
           (\<lambda>selected. case selected of None \<Rightarrow> Inl (AssertionError []) | Some row \<Rightarrow>
              if j_kind row \<noteq> normalized_kind \<or> j_payload_json row \<noteq> payload_json
              then Inl (IdempotencyConflictError ''idempotency key is already bound to a different request'')
              else job_from_row row)))"

section \<open>Claim\<close>

text \<open>The \<open>WHERE\<close> clause of the claim and its \<open>ORDER BY created_at, job_id LIMIT 1\<close>.\<close>

definition claimable :: "pyfloat \<Rightarrow> job_row \<Rightarrow> bool" where
  "claimable current r \<longleftrightarrow> j_status r = Queued \<or>
     (j_status r = Running \<and> (case j_lease_expires_at r of Some e \<Rightarrow> fl_le e current | None \<Rightarrow> False))"

definition next_claimable :: "pyfloat \<Rightarrow> db \<Rightarrow> job_row option" where
  "next_claimable current d =
     (case sort_key (\<lambda>r. (j_created_at r, j_job_id r)) (filter (claimable current) (db_jobs d)) of
        [] \<Rightarrow> None | r # _ \<Rightarrow> Some r)"

definition claim_body :: "string \<Rightarrow> pyfloat \<Rightarrow> pyfloat \<Rightarrow> string \<Rightarrow> db \<Rightarrow> (job_row option option \<times> db) result" where
  "claim_body normalized_worker current expires updated_at d = (case next_claimable current d of
       None \<Rightarrow> Inr (None, d)
     | Some row \<Rightarrow>
         bindE (update_jobs (\<lambda>r. j_job_id r = j_job_id row)
           (\<lambda>r. r\<lparr>j_status := Running, j_lease_owner := Some normalized_worker, j_lease_expires_at := Some expires,
             j_attempts := j_attempts r + 1, j_updated_at := updated_at\<rparr>) d) (\<lambda>(_, d).
         Inr (Some (select_job (j_job_id row) d), d)))"

definition claim :: "utc_time \<Rightarrow> pyfloat \<Rightarrow> string \<Rightarrow> pyfloat \<Rightarrow> pyfloat option \<Rightarrow> db \<Rightarrow> job_record option result \<times> db" where
  "claim utc clock worker_id lease_seconds now =
     (let normalized_worker = py_strip worker_id in
      with_input (if normalized_worker = [] then Inl (ValueError ''worker ID must be non-empty'')
        else lease_window lease_seconds now clock) (\<lambda>(current, expires) d.
      returning (transaction (claim_body normalized_worker current expires (utc_now utc)) d)
        (\<lambda>selected. case selected of None \<Rightarrow> Inr None
           | Some None \<Rightarrow> Inl (AssertionError [])
           | Some (Some claimed) \<Rightarrow> bindE (job_from_row claimed) (\<lambda>r. Inr (Some r)))))"

section \<open>Operations of the lease owner\<close>

text \<open>The condition on the lease that every owner's statement carries.\<close>

definition owns_lease :: "string \<Rightarrow> pyfloat \<Rightarrow> job_row \<Rightarrow> bool" where
  "owns_lease worker current r \<longleftrightarrow> j_status r = Running \<and> j_lease_owner r = Some worker \<and>
     (case j_lease_expires_at r of Some e \<Rightarrow> fl_less current e | None \<Rightarrow> False)"

definition owner_inputs :: "string \<Rightarrow> string \<Rightarrow> 'a result \<Rightarrow> 'a result" where
  "owner_inputs normalized_job_id normalized_worker m =
     (if normalized_job_id = [] then Inl (ValueError ''job ID must be non-empty'')
      else if normalized_worker = [] then Inl (ValueError ''worker ID must be non-empty'') else m)"

text \<open>The body the owner's methods share: one guarded update, its row count, then the row itself.\<close>

definition owner_update :: "string \<Rightarrow> (job_row \<Rightarrow> bool) \<Rightarrow> (job_row \<Rightarrow> job_row) \<Rightarrow> string \<Rightarrow> (db \<Rightarrow> db result) \<Rightarrow>
    db \<Rightarrow> (job_row option \<times> db) result" where
  "owner_update job_id P f message rest d =
     bindE (update_jobs (\<lambda>r. j_job_id r = job_id \<and> P r) f d) (\<lambda>(count, d).
     if count \<noteq> 1 then Inl (LeaseError message)
     else bindE (rest d) (\<lambda>d. Inr (select_job job_id d, d)))"

definition row_result :: "job_row option \<Rightarrow> job_record result" where
  "row_result selected = (case selected of None \<Rightarrow> Inl (AssertionError []) | Some row \<Rightarrow> job_from_row row)"

definition heartbeat :: "utc_time \<Rightarrow> pyfloat \<Rightarrow> string \<Rightarrow> string \<Rightarrow> pyfloat \<Rightarrow> pyfloat option \<Rightarrow> db \<Rightarrow> job_record result \<times> db" where
  "heartbeat utc clock job_id worker_id lease_seconds now =
     (let normalized_job_id = py_strip job_id;
          normalized_worker = py_strip worker_id
      in with_input (owner_inputs normalized_job_id normalized_worker (lease_window lease_seconds now clock)) (\<lambda>(current, expires) d.
         returning
           (transaction (owner_update normalized_job_id (owns_lease normalized_worker current)
              (\<lambda>r. r\<lparr>j_lease_expires_at := Some expires, j_updated_at := utc_now utc\<rparr>)
              ''job lease is missing, expired, or owned by another worker'' Inr) d)
           row_result))"

text \<open>The columns a finished job keeps: no lease, and the result.\<close>

definition finish_row :: "job_status \<Rightarrow> string \<Rightarrow> string \<Rightarrow> job_row \<Rightarrow> job_row" where
  "finish_row status result_json now r = r\<lparr>j_status := status, j_lease_owner := None, j_lease_expires_at := None,
     j_result_json := Some result_json, j_updated_at := now\<rparr>"

definition finish :: "job_status \<Rightarrow> utc_time \<Rightarrow> pyfloat \<Rightarrow> string \<Rightarrow> string \<Rightarrow> pyobj \<Rightarrow> pyfloat option \<Rightarrow> db \<Rightarrow> job_record result \<times> db" where
  "finish status utc clock job_id worker_id res now =
     (let normalized_job_id = py_strip job_id;
          normalized_worker = py_strip worker_id
      in with_input (owner_inputs normalized_job_id normalized_worker
           (bindE (clock_now now clock) (\<lambda>current. bindE (queue_json res) (\<lambda>result_json. Inr (current, result_json)))))
         (\<lambda>(current, result_json) d.
         returning
           (transaction (owner_update normalized_job_id (owns_lease normalized_worker current)
              (finish_row status result_json (utc_now utc))
              ''job lease is missing, expired, or owned by another worker'' Inr) d)
           row_result))"

definition complete :: "utc_time \<Rightarrow> pyfloat \<Rightarrow> string \<Rightarrow> string \<Rightarrow> pyobj \<Rightarrow> pyfloat option \<Rightarrow> db \<Rightarrow> job_record result \<times> db" where
  "complete = finish Completed"

definition fail :: "utc_time \<Rightarrow> pyfloat \<Rightarrow> string \<Rightarrow> string \<Rightarrow> pyobj \<Rightarrow> pyfloat option \<Rightarrow> db \<Rightarrow> job_record result \<times> db" where
  "fail = finish Failed"

text \<open>SQLite integers have 64 bits; the driver refuses to bind a larger one.\<close>

definition bind_integer :: "int \<Rightarrow> unit result" where
  "bind_integer i = (if i < - (2 ^ 63) \<or> 2 ^ 63 \<le> i then Inl (OverflowError ''Python int too large to convert to SQLite INTEGER'')
     else Inr ())"

definition finish_attempt :: "utc_time \<Rightarrow> pyfloat \<Rightarrow> string \<Rightarrow> string \<Rightarrow> attempt_finished \<Rightarrow> pyfloat option \<Rightarrow> db \<Rightarrow> job_record result \<times> db" where
  "finish_attempt utc clock job_id worker_id attempt now =
     (let normalized_job_id = py_strip job_id;
          normalized_worker = py_strip worker_id;
          finished_at = utc_now utc
      in with_input (owner_inputs normalized_job_id normalized_worker
           (if fa_job_id attempt \<noteq> normalized_job_id then Inl (ValueError ''attempt result is bound to a different job'')
            else bindE (clock_now now clock) (\<lambda>current.
              bindE (canonical_json_bytes (attempt_to_dict attempt)) (\<lambda>result_json. Inr (current, result_json)))))
         (\<lambda>(current, result_json) d.
         returning
           (transaction (\<lambda>d. bindE (bind_integer (fa_attempt attempt)) (\<lambda>_.
              owner_update normalized_job_id
                (\<lambda>r. j_kind r = ''coding-agent'' \<and> owns_lease normalized_worker current r \<and> j_attempts r = fa_attempt attempt)
                (finish_row Completed result_json finished_at)
                ''job lease or attempt authority is missing, stale, or owned by another worker''
                (insert_attempt \<lparr>t_job_id = fa_job_id attempt, t_attempt = fa_attempt attempt, t_attempt_id = fa_attempt_id attempt,
                   t_attempt_digest = attempt_digest attempt, t_payload_json = result_json, t_finished_at = finished_at\<rparr>) d)) d)
           row_result))"

section \<open>Lookup\<close>

definition get_job :: "string \<Rightarrow> db \<Rightarrow> job_record option result" where
  "get_job job_id d = (case select_job job_id d of None \<Rightarrow> Inr None | Some row \<Rightarrow> bindE (job_from_row row) (\<lambda>r. Inr (Some r)))"

end
