(* ===== verification/Step_Systems.thy ===== *)
theory Step_Systems
  imports Main
begin

text \<open>
  The interface between a stateful component and what is shown of its runs. A component provides its step
  relation and an invariant its steps keep; an order its steps follow; an abstract machine its steps
  implement. The facts about every run are proved once here. The order of the steps of a run is free, so a run
  stands for any interleaving of callers whose transactions the database serialises.
\<close>

locale invariant_system =
  fixes step :: "'s \<Rightarrow> 's \<Rightarrow> bool"
    and inv :: "'s \<Rightarrow> bool"
  assumes inv_step: "inv s \<Longrightarrow> step s s' \<Longrightarrow> inv s'"
begin

lemma inv_run: "step\<^sup>*\<^sup>* s s' \<Longrightarrow> inv s \<Longrightarrow> inv s'"
  by (induction rule: rtranclp_induct) (auto intro: inv_step)

end

text \<open>Steps that only go up: what holds of a state and is upward closed holds ever after.\<close>

locale monotone_system = invariant_system +
  fixes le :: "'s \<Rightarrow> 's \<Rightarrow> bool"
  assumes le_refl: "le s s"
    and le_trans: "le s t \<Longrightarrow> le t u \<Longrightarrow> le s u"
    and le_step: "inv s \<Longrightarrow> step s s' \<Longrightarrow> le s s'"
begin

lemma le_run: "step\<^sup>*\<^sup>* s s' \<Longrightarrow> inv s \<Longrightarrow> le s s'"
proof (induction rule: rtranclp_induct)
  case (step t u)
  then have "inv t" by (blast intro: inv_run)
  with step show ?case by (blast intro: le_trans le_step)
qed (rule le_refl)

end

text \<open>Every step is a step of the abstract machine or leaves its state alone.\<close>

locale refinement_system = invariant_system +
  fixes abs_state :: "'s \<Rightarrow> 'a"
    and abs_step :: "'a \<Rightarrow> 'a \<Rightarrow> bool"
  assumes simulate: "inv s \<Longrightarrow> step s s' \<Longrightarrow> abs_state s' = abs_state s \<or> abs_step (abs_state s) (abs_state s')"
begin

lemma simulate_run: "step\<^sup>*\<^sup>* s s' \<Longrightarrow> inv s \<Longrightarrow> abs_step\<^sup>*\<^sup>* (abs_state s) (abs_state s')"
proof (induction rule: rtranclp_induct)
  case (step t u)
  then have "inv t" by (blast intro: inv_run)
  from simulate [OF this \<open>step t u\<close>]
  have "abs_state u = abs_state t \<or> abs_step (abs_state t) (abs_state u)" .
  with step show ?case by (metis rtranclp.rtrancl_into_rtrancl)
qed simp

end

end
