(* ===== verification/Queue_Protocol.thy ===== *)
theory Queue_Protocol
  imports Job_Queue Step_Systems
begin

text \<open>
  The protocol of the job queue: the step relation of its callers, the invariant of the control database,
  what a step can change, and the refinement of an abstract lease machine.
\<close>

section \<open>Steps\<close>

text \<open>
  One call of a public method, whatever its arguments, its environment and its outcome. An attempt is a value of
  its class, so it has passed its constructor.
\<close>

inductive queue_step :: "db \<Rightarrow> db \<Rightarrow> bool" where
  step_enqueue: "enqueue uuid utc kind payload key d = (r, d') \<Longrightarrow> queue_step d d'"
| step_claim: "claim utc clock worker lease now d = (r, d') \<Longrightarrow> queue_step d d'"
| step_heartbeat: "heartbeat utc clock job_id worker lease now d = (r, d') \<Longrightarrow> queue_step d d'"
| step_complete: "complete utc clock job_id worker res now d = (r, d') \<Longrightarrow> queue_step d d'"
| step_fail: "fail utc clock job_id worker res now d = (r, d') \<Longrightarrow> queue_step d d'"
| step_finish_attempt: "wf_attempt attempt \<Longrightarrow> finish_attempt utc clock job_id worker attempt now d = (r, d') \<Longrightarrow> queue_step d d'"

inductive_cases queue_stepE: "queue_step d d'"

section \<open>What a step changes\<close>

definition replace_job :: "job_row \<Rightarrow> db \<Rightarrow> db" where
  "replace_job r d = d\<lparr>db_jobs := map (\<lambda>s. if j_job_id s = j_job_id r then r else s) (db_jobs d)\<rparr>"

definition lease_row :: "string \<Rightarrow> pyfloat \<Rightarrow> string \<Rightarrow> job_row \<Rightarrow> job_row" where
  "lease_row worker expires now r = r\<lparr>j_status := Running, j_lease_owner := Some worker, j_lease_expires_at := Some expires,
     j_attempts := j_attempts r + 1, j_updated_at := now\<rparr>"

definition attempt_row_of :: "attempt_finished \<Rightarrow> string \<Rightarrow> attempt_row" where
  "attempt_row_of a now = \<lparr>t_job_id = fa_job_id a, t_attempt = fa_attempt a, t_attempt_id = fa_attempt_id a,
     t_attempt_digest = attempt_digest a, t_payload_json = json_dumps (attempt_to_dict a), t_finished_at = now\<rparr>"

definition add_attempt :: "attempt_row \<Rightarrow> db \<Rightarrow> db" where
  "add_attempt t d = d\<lparr>db_attempts := db_attempts d @ [t]\<rparr>"

inductive db_change :: "db \<Rightarrow> db \<Rightarrow> bool" where
  submitted: "db_change d (d\<lparr>db_jobs := db_jobs d @ [r]\<rparr>)"
    if "j_job_id r \<notin> j_job_id ` set (db_jobs d)" "j_idempotency_key r \<notin> j_idempotency_key ` set (db_jobs d)"
      "j_status r = Queued" "j_lease_owner r = None" "j_lease_expires_at r = None" "j_attempts r = 0" "j_result_json r = None"
| leased: "db_change d (replace_job (lease_row worker expires now r) d)"
    if "r \<in> set (db_jobs d)" "claimable current r" "fl_isfinite current" "fl_isfinite expires"
| renewed: "db_change d (replace_job (r\<lparr>j_lease_expires_at := Some expires, j_updated_at := now\<rparr>) d)"
    if "r \<in> set (db_jobs d)" "owns_lease worker current r" "fl_isfinite expires"
| finished: "db_change d (replace_job (finish_row status text now r) d)"
    if "r \<in> set (db_jobs d)" "owns_lease worker current r" "status \<in> {Completed, Failed}"
| published: "db_change d (add_attempt (attempt_row_of a now) (replace_job (finish_row Completed (json_dumps (attempt_to_dict a)) now r) d))"
    if "r \<in> set (db_jobs d)" "owns_lease worker current r" "j_kind r = ''coding-agent''" "j_attempts r = fa_attempt a"
      "j_job_id r = fa_job_id a" "wf_attempt a"

text \<open>Updating the rows of one primary key replaces the one row that has it.\<close>

lemma update_key:
  assumes ids: "distinct (map j_job_id (db_jobs d))" and upd: "update_jobs (\<lambda>r. j_job_id r = k \<and> P r) f d = Inr (n, d')"
    and keep: "\<And>r. j_job_id (f r) = j_job_id r"
  shows "(n = 1 \<longleftrightarrow> (\<exists>r. select_job k d = Some r \<and> P r)) \<and>
     (\<forall>r. select_job k d = Some r \<and> P r \<longrightarrow> d' = replace_job (f r) d \<and> select_job k d' = Some (f r))"
proof -
  let ?upd = "\<lambda>r. if j_job_id r = k \<and> P r then f r else r"
  have n: "n = (case select_job k d of Some r \<Rightarrow> if P r then 1 else 0 | None \<Rightarrow> 0)" and d': "d' = d\<lparr>db_jobs := map ?upd (db_jobs d)\<rparr>"
    using upd unfolding update_jobs_def update_one [OF ids] by (simp_all split: if_split_asm)
  have "d' = replace_job (f r) d \<and> select_job k d' = Some (f r)" if sel: "select_job k d = Some r" and P: "P r" for r
  proof
    have r: "r \<in> set (db_jobs d)" "j_job_id r = k" using sel by (auto simp: select_job_def find_Some_iff [OF ids])
    have "?upd s = (if j_job_id s = j_job_id (f r) then f r else s)" if "s \<in> set (db_jobs d)" for s
      using distinct_image_eq [OF ids that r(1)] r(2) P by (auto simp: keep)
    then show "d' = replace_job (f r) d" by (simp add: d' replace_job_def)
    show "select_job k d' = Some (f r)"
      using sel P r(2) find_map_update [of j_job_id f k "\<lambda>r. j_job_id r = k \<and> P r" "db_jobs d", OF keep]
      by (simp add: d' select_job_def)
  qed
  moreover have "n = 1 \<longleftrightarrow> (\<exists>r. select_job k d = Some r \<and> P r)"
    by (simp add: n split: option.split)
  ultimately show ?thesis by blast
qed

lemma select_job_iff: "distinct (map j_job_id (db_jobs d)) \<Longrightarrow> select_job k d = Some r \<longleftrightarrow> r \<in> set (db_jobs d) \<and> j_job_id r = k"
  by (simp add: select_job_def find_Some_iff)

lemma owner_update_Inr:
  assumes ids: "distinct (map j_job_id (db_jobs d))" and keep: "\<And>r. j_job_id (f r) = j_job_id r"
    and upd: "owner_update k P f msg rest d = Inr (x, d')"
  obtains r where "r \<in> set (db_jobs d)" "j_job_id r = k" "P r" "rest (replace_job (f r) d) = Inr d'" "x = select_job k d'"
proof -
  from upd obtain n e where u: "update_jobs (\<lambda>r. j_job_id r = k \<and> P r) f d = Inr (n, e)" and n: "n = 1"
    and rest: "rest e = Inr d'" and x: "x = select_job k d'"
    by (auto simp: owner_update_def result_simps)
  from update_key [OF ids u keep] n obtain r where "select_job k d = Some r" "P r" "e = replace_job (f r) d" by blast
  with rest x show thesis by (intro that [of r]) (auto simp: select_job_iff [OF ids])
qed

lemma next_claimable_Some:
  assumes "next_claimable current d = Some r"
  shows "r \<in> set (db_jobs d) \<and> claimable current r \<and>
     (\<forall>s\<in>set (db_jobs d). claimable current s \<longrightarrow> (j_created_at r, j_job_id r) \<le> (j_created_at s, j_job_id s))"
proof -
  let ?key = "\<lambda>r. (j_created_at r, j_job_id r)"
  let ?xs = "filter (claimable current) (db_jobs d)"
  obtain rs where xs: "sort_key ?key ?xs = r # rs"
    using assms by (auto simp: next_claimable_def split: list.splits)
  then have "set (r # rs) = set ?xs" by (metis set_sort)
  moreover have "sorted (map ?key (r # rs))" by (metis sorted_sort_key xs)
  then have "\<forall>s\<in>set (r # rs). ?key r \<le> ?key s" by (auto simp del: less_eq_prod_simp)
  ultimately show ?thesis by (auto simp del: less_eq_prod_simp)
qed

lemma next_claimable_None: "next_claimable current d = None \<longleftrightarrow> (\<forall>r\<in>set (db_jobs d). \<not> claimable current r)"
proof -
  have "next_claimable current d = None \<longleftrightarrow> filter (claimable current) (db_jobs d) = []"
    by (auto simp: next_claimable_def split: list.splits) (metis list.distinct(1) set_empty set_sort)
  then show ?thesis by (simp add: filter_empty_conv)
qed

lemma lease_window_Inr: "lease_window lease now clock = Inr (current, expires) \<Longrightarrow> fl_isfinite current \<and> fl_isfinite expires"
  by (auto simp: lease_window_def clock_now_def result_simps Let_def)

lemma enqueue_change: "enqueue uuid utc kind payload key d = (r, d') \<Longrightarrow> d' = d \<or> db_change d d'"
  by (auto simp: enqueue_def Let_def with_input_eq returning_eq transaction_eq insert_job_def result_simps
      intro!: submitted split: if_splits)

text \<open>The claim of a database whose rows satisfy their constraints, written out.\<close>

lemma claim_body_eq:
  assumes ids: "distinct (map j_job_id (db_jobs d))" and chk: "list_all job_check (db_jobs d)"
  shows "claim_body worker current expires now d = Inr (case next_claimable current d of None \<Rightarrow> (None, d)
     | Some r \<Rightarrow> (Some (Some (lease_row worker expires now r)), replace_job (lease_row worker expires now r) d))"
proof (cases "next_claimable current d")
  case (Some row)
  let ?f = "lease_row worker expires now"
  from next_claimable_Some [OF Some] have row: "select_job (j_job_id row) d = Some row" by (simp add: select_job_iff [OF ids])
  have "\<forall>r\<in>set (db_jobs d). job_check (?f r)" using chk by (auto simp: list_all_iff job_check_def lease_row_def)
  then obtain n d' where upd: "update_jobs (\<lambda>r. j_job_id r = j_job_id row \<and> True) ?f d = Inr (n, d')"
    by (auto simp: update_jobs_def)
  from update_key [OF ids upd] row have "d' = replace_job (?f row) d" "select_job (j_job_id row) d' = Some (?f row)"
    by (auto simp: lease_row_def)
  with upd Some show ?thesis by (simp add: claim_body_def lease_row_def [abs_def])
qed (simp add: claim_body_def)

lemma claim_change:
  assumes "distinct (map j_job_id (db_jobs d))" "list_all job_check (db_jobs d)" and "claim utc clock worker lease now d = (r, d')"
  shows "d' = d \<or> db_change d d'"
proof (cases "d' = d")
  case False
  with assms(3) obtain current expires row where win: "lease_window lease now clock = Inr (current, expires)"
    and row: "next_claimable current d = Some row" and d': "d' = replace_job (lease_row (py_strip worker) expires (utc_now utc) row) d"
    by (auto simp: claim_def Let_def with_input_eq returning_eq transaction_eq claim_body_eq [OF assms(1,2)] result_simps
        split: if_splits option.splits)
  with next_claimable_Some [OF row] lease_window_Inr [OF win] show ?thesis by (auto intro: leased)
qed simp

lemma heartbeat_change:
  assumes "distinct (map j_job_id (db_jobs d))" and "heartbeat utc clock job_id worker lease now d = (r, d')"
  shows "d' = d \<or> db_change d d'"
proof (cases "d' = d")
  case False
  with assms(2) obtain current expires x where win: "lease_window lease now clock = Inr (current, expires)"
    and upd: "owner_update (py_strip job_id) (owns_lease (py_strip worker) current)
      (\<lambda>r. r\<lparr>j_lease_expires_at := Some expires, j_updated_at := utc_now utc\<rparr>)
      ''job lease is missing, expired, or owned by another worker'' Inr d = Inr (x, d')"
    by (auto simp: heartbeat_def Let_def with_input_eq returning_eq transaction_eq owner_inputs_def split: if_splits)
  from upd show ?thesis
    by (rule owner_update_Inr [OF assms(1), rotated]) (use lease_window_Inr [OF win] in \<open>auto intro: renewed\<close>)
qed simp

lemma finish_change:
  assumes "distinct (map j_job_id (db_jobs d))" and "finish status utc clock job_id worker res now d = (r, d')"
    and "status \<in> {Completed, Failed}"
  shows "d' = d \<or> db_change d d'"
proof (cases "d' = d")
  case False
  with assms(2) obtain current body x where
    upd: "owner_update (py_strip job_id) (owns_lease (py_strip worker) current) (finish_row status body (utc_now utc))
      ''job lease is missing, expired, or owned by another worker'' Inr d = Inr (x, d')"
    by (auto simp: finish_def Let_def with_input_eq returning_eq transaction_eq owner_inputs_def result_simps split: if_splits)
  from upd show ?thesis
    by (rule owner_update_Inr [OF assms(1), rotated]) (use assms(3) in \<open>auto simp: finish_row_def [abs_def] intro!: finished [unfolded finish_row_def]\<close>)
qed simp

lemma finish_attempt_change:
  assumes "distinct (map j_job_id (db_jobs d))" and "finish_attempt utc clock job_id worker a now d = (r, d')" and "wf_attempt a"
  shows "d' = d \<or> db_change d d'"
proof (cases "d' = d")
  case False
  with assms(2) obtain current x where job: "fa_job_id a = py_strip job_id" and
    upd: "owner_update (py_strip job_id)
      (\<lambda>r. j_kind r = ''coding-agent'' \<and> owns_lease (py_strip worker) current r \<and> j_attempts r = fa_attempt a)
      (finish_row Completed (json_dumps (attempt_to_dict a)) (utc_now utc))
      ''job lease or attempt authority is missing, stale, or owned by another worker''
      (insert_attempt (attempt_row_of a (utc_now utc))) d = Inr (x, d')"
    by (auto simp: finish_attempt_def Let_def with_input_eq returning_eq transaction_eq owner_inputs_def result_simps
        attempt_to_dict_wire attempt_row_of_def split: if_splits)
  from upd obtain row where "row \<in> set (db_jobs d)" "j_job_id row = fa_job_id a" "j_kind row = ''coding-agent''"
    "owns_lease (py_strip worker) current row" "j_attempts row = fa_attempt a"
    "insert_attempt (attempt_row_of a (utc_now utc))
       (replace_job (finish_row Completed (json_dumps (attempt_to_dict a)) (utc_now utc) row) d) = Inr d'"
    by (rule owner_update_Inr [OF assms(1), rotated]) (auto simp: finish_row_def job)
  then show ?thesis using assms(3)
    by (auto simp: insert_attempt_def add_attempt_def [symmetric] intro!: published split: if_splits)
qed simp

lemma step_change:
  assumes "distinct (map j_job_id (db_jobs d))" "list_all job_check (db_jobs d)" and "queue_step d d'"
  shows "d' = d \<or> db_change d d'"
  using assms(3)
proof cases
  case (step_complete utc clock job_id worker res now r)
  then show ?thesis using finish_change [OF assms(1)] by (simp add: complete_def)
next
  case (step_fail utc clock job_id worker res now r)
  then show ?thesis using finish_change [OF assms(1)] by (simp add: fail_def)
qed (use enqueue_change claim_change [OF assms(1,2)] heartbeat_change [OF assms(1)] finish_attempt_change [OF assms(1)] in metis)+

section \<open>The invariant\<close>

text \<open>
  A job is queued until its first attempt, holds a finite lease exactly while it runs, and has a result exactly
  when it has finished. A finished attempt is the only one of its job, and is the result the job completed with.
\<close>

definition row_ok :: "job_row \<Rightarrow> bool" where
  "row_ok r \<longleftrightarrow> job_check r \<and> (j_status r = Queued \<longleftrightarrow> j_attempts r = 0) \<and>
     (j_result_json r = None \<longleftrightarrow> j_status r \<in> {Queued, Running}) \<and> pred_option fl_isfinite (j_lease_expires_at r)"

definition lineage_ok :: "db \<Rightarrow> attempt_row \<Rightarrow> bool" where
  "lineage_ok d t \<longleftrightarrow> (\<exists>a. wf_attempt a \<and> t = attempt_row_of a (t_finished_at t)) \<and>
     (\<exists>r\<in>set (db_jobs d). j_job_id r = t_job_id t \<and> j_status r = Completed \<and> j_kind r = ''coding-agent'' \<and>
        j_attempts r = t_attempt t \<and> j_result_json r = Some (t_payload_json t))"

definition queue_ok :: "db \<Rightarrow> bool" where
  "queue_ok d \<longleftrightarrow> distinct (map j_job_id (db_jobs d)) \<and> distinct (map j_idempotency_key (db_jobs d)) \<and>
     list_all row_ok (db_jobs d) \<and> distinct (map t_job_id (db_attempts d)) \<and> (\<forall>t\<in>set (db_attempts d). lineage_ok d t)"

lemma queue_ok_empty: "queue_ok empty_db"
  by (simp add: queue_ok_def empty_db_def)

lemma queue_okD:
  assumes "queue_ok d"
  shows "distinct (map j_job_id (db_jobs d))" "distinct (map j_idempotency_key (db_jobs d))" "list_all job_check (db_jobs d)"
    "r \<in> set (db_jobs d) \<Longrightarrow> row_ok r" "t \<in> set (db_attempts d) \<Longrightarrow> lineage_ok d t" "distinct (map t_job_id (db_attempts d))"
  using assms by (auto simp: queue_ok_def list_all_iff row_ok_def)

lemma replace_job_ids [simp]: "map j_job_id (db_jobs (replace_job r d)) = map j_job_id (db_jobs d)"
  by (simp add: replace_job_def)

lemma replace_job_other [simp]:
  "db_attempts (replace_job r d) = db_attempts d" "db_outcomes (replace_job r d) = db_outcomes d"
  by (simp_all add: replace_job_def)

lemma in_replace_job:
  assumes "distinct (map j_job_id (db_jobs d))" "r \<in> set (db_jobs d)" "j_job_id r' = j_job_id r"
  shows "s \<in> set (db_jobs (replace_job r' d)) \<longleftrightarrow> s = r' \<or> (s \<in> set (db_jobs d) \<and> s \<noteq> r)"
  using assms distinct_image_eq [OF assms(1) _ assms(2)] by (auto simp: replace_job_def image_iff)

lemma keys_replace_job:
  assumes "distinct (map j_job_id (db_jobs d))" "r \<in> set (db_jobs d)" "j_job_id r' = j_job_id r" "j_idempotency_key r' = j_idempotency_key r"
  shows "map j_idempotency_key (db_jobs (replace_job r' d)) = map j_idempotency_key (db_jobs d)"
  using assms distinct_image_eq [OF assms(1) _ assms(2)] by (auto simp: replace_job_def)

text \<open>Replacing a running or queued row by a well-formed one keeps the invariant: no attempt refers to it.\<close>

lemma queue_ok_replace:
  assumes ok: "queue_ok d" and r: "r \<in> set (db_jobs d)" "j_status r \<noteq> Completed" and r': "row_ok r'"
    "j_job_id r' = j_job_id r" "j_idempotency_key r' = j_idempotency_key r"
  shows "queue_ok (replace_job r' d)"
proof -
  note ids = queue_okD(1) [OF ok] and in_new = in_replace_job [OF queue_okD(1) [OF ok] r(1) r'(2)]
  have "lineage_ok (replace_job r' d) t" if "t \<in> set (db_attempts d)" for t
  proof -
    from queue_okD(5) [OF ok that] obtain s where "s \<in> set (db_jobs d)" "j_job_id s = t_job_id t" "j_status s = Completed"
      "j_kind s = ''coding-agent''" "j_attempts s = t_attempt t" "j_result_json s = Some (t_payload_json t)"
      by (auto simp: lineage_ok_def)
    moreover from this r(2) have "s \<in> set (db_jobs (replace_job r' d))" by (auto simp: in_new)
    ultimately show ?thesis using queue_okD(5) [OF ok that] by (auto simp: lineage_ok_def)
  qed
  moreover have "list_all row_ok (db_jobs (replace_job r' d))" using r'(1) queue_okD(4) [OF ok] by (auto simp: list_all_iff in_new)
  ultimately show ?thesis using ok keys_replace_job [OF ids r(1) r'(2,3)] by (simp add: queue_ok_def)
qed

text \<open>The rows the transitions write are well formed.\<close>

lemma row_ok_lease: "row_ok r \<Longrightarrow> claimable current r \<Longrightarrow> fl_isfinite expires \<Longrightarrow> row_ok (lease_row worker expires now r)"
  by (auto simp: row_ok_def job_check_def lease_row_def claimable_def split: if_splits)

lemma row_ok_renew: "row_ok r \<Longrightarrow> owns_lease worker current r \<Longrightarrow> fl_isfinite expires \<Longrightarrow>
    row_ok (r\<lparr>j_lease_expires_at := Some expires, j_updated_at := now\<rparr>)"
  by (auto simp: row_ok_def job_check_def owns_lease_def)

lemma row_ok_finish: "row_ok r \<Longrightarrow> owns_lease worker current r \<Longrightarrow> status \<in> {Completed, Failed} \<Longrightarrow> row_ok (finish_row status body now r)"
  by (auto simp: row_ok_def job_check_def owns_lease_def finish_row_def)

lemma lease_not_completed: "owns_lease worker current r \<Longrightarrow> j_status r \<noteq> Completed" "claimable current r \<Longrightarrow> j_status r \<noteq> Completed"
  by (auto simp: owns_lease_def claimable_def)

lemma row_fields [simp]:
  "j_job_id (lease_row worker expires now r) = j_job_id r" "j_idempotency_key (lease_row worker expires now r) = j_idempotency_key r"
  "j_job_id (finish_row status body now r) = j_job_id r" "j_idempotency_key (finish_row status body now r) = j_idempotency_key r"
  by (simp_all add: lease_row_def finish_row_def)

lemma queue_ok_submit:
  assumes "queue_ok d" and "j_job_id r \<notin> j_job_id ` set (db_jobs d)" "j_idempotency_key r \<notin> j_idempotency_key ` set (db_jobs d)" "row_ok r"
  shows "queue_ok (d\<lparr>db_jobs := db_jobs d @ [r]\<rparr>)"
  using assms by (auto simp: queue_ok_def lineage_ok_def)

lemma queue_ok_publish:
  assumes ok: "queue_ok d" and r: "r \<in> set (db_jobs d)" "owns_lease worker current r" and kind: "j_kind r = ''coding-agent''"
    and a: "j_attempts r = fa_attempt a" "j_job_id r = fa_job_id a" "wf_attempt a"
  shows "queue_ok (add_attempt (attempt_row_of a now) (replace_job (finish_row Completed (json_dumps (attempt_to_dict a)) now r) d))"
    (is "queue_ok (add_attempt ?t (replace_job ?r' d))")
proof -
  have base: "queue_ok (replace_job ?r' d)"
    using queue_ok_replace [OF ok r(1) lease_not_completed(1) [OF r(2)] row_ok_finish [OF queue_okD(4) [OF ok r(1)] r(2)]] by simp
  have fresh: "j_job_id r \<notin> t_job_id ` set (db_attempts d)"
  proof
    assume "j_job_id r \<in> t_job_id ` set (db_attempts d)"
    then obtain t s where "t \<in> set (db_attempts d)" "s \<in> set (db_jobs d)" "j_job_id s = j_job_id r" "j_status s = Completed"
      using queue_okD(5) [OF ok] by (force simp: lineage_ok_def)
    with distinct_image_eq [OF queue_okD(1) [OF ok], of s r] r lease_not_completed(1) [OF r(2)] show False by blast
  qed
  have "?r' \<in> set (db_jobs (replace_job ?r' d))" by (simp add: in_replace_job [OF queue_okD(1) [OF ok] r(1)])
  then have "lineage_ok (replace_job ?r' d) ?t" using a kind
    by (auto simp: lineage_ok_def attempt_row_of_def finish_row_def intro!: bexI [of _ ?r'])
  with base fresh a(2) show ?thesis
    by (auto simp: queue_ok_def add_attempt_def lineage_ok_def attempt_row_of_def)
qed

lemma db_change_ok:
  assumes ok: "queue_ok d" and "db_change d d'"
  shows "queue_ok d'"
  using assms(2)
proof cases
  case (submitted r)
  then show ?thesis using queue_ok_submit [OF ok] by (auto simp: row_ok_def job_check_def)
next
  case (published r worker current a now)
  then show ?thesis using queue_ok_publish [OF ok] by blast
qed (use queue_okD(4) [OF ok] in \<open>auto intro!: queue_ok_replace [OF ok] row_ok_lease row_ok_renew row_ok_finish dest: lease_not_completed\<close>)

lemma queue_ok_step: "queue_ok d \<Longrightarrow> queue_step d d' \<Longrightarrow> queue_ok d'"
  using step_change db_change_ok queue_okD(1,3) by metis

section \<open>What never changes\<close>

text \<open>
  A later database keeps every job with its identity, request and creation time; its attempt counter does not
  decrease, a finished row is never touched again, and attempts and outcomes are only appended.
\<close>

definition row_le :: "job_row \<Rightarrow> job_row \<Rightarrow> bool" where
  "row_le r r' \<longleftrightarrow> j_job_id r' = j_job_id r \<and> j_idempotency_key r' = j_idempotency_key r \<and> j_kind r' = j_kind r \<and>
     j_payload_json r' = j_payload_json r \<and> j_created_at r' = j_created_at r \<and> j_attempts r \<le> j_attempts r' \<and>
     (j_status r \<in> {Completed, Failed} \<longrightarrow> r' = r)"

definition db_le :: "db \<Rightarrow> db \<Rightarrow> bool" where
  "db_le d d' \<longleftrightarrow> (\<forall>r\<in>set (db_jobs d). \<exists>r'\<in>set (db_jobs d'). row_le r r') \<and>
     (\<exists>ts. db_attempts d' = db_attempts d @ ts) \<and> (\<exists>us. db_outcomes d' = db_outcomes d @ us)"

lemma row_le_refl: "row_le r r"
  by (simp add: row_le_def)

lemma row_le_trans: "row_le r s \<Longrightarrow> row_le s t \<Longrightarrow> row_le r t"
  by (auto simp: row_le_def)

lemma db_le_refl: "db_le d d"
  by (auto simp: db_le_def intro: row_le_refl)

lemma db_le_trans: "db_le d e \<Longrightarrow> db_le e f \<Longrightarrow> db_le d f"
  unfolding db_le_def by (elim conjE exE, intro conjI) (metis row_le_trans, simp_all)

lemma db_le_replace:
  assumes "distinct (map j_job_id (db_jobs d))" "r \<in> set (db_jobs d)" "row_le r r'"
  shows "db_le d (replace_job r' d)"
proof -
  have id: "j_job_id r' = j_job_id r" using assms(3) by (simp add: row_le_def)
  have "\<exists>s'\<in>set (db_jobs (replace_job r' d)). row_le s s'" if "s \<in> set (db_jobs d)" for s
    using that assms(3) row_le_refl [of s] in_replace_job [OF assms(1,2) id] by (cases "s = r") blast+
  then show ?thesis by (simp add: db_le_def)
qed

lemma row_le_transitions:
  "row_ok r \<Longrightarrow> claimable current r \<Longrightarrow> row_le r (lease_row worker expires now r)"
  "owns_lease worker current r \<Longrightarrow> row_le r (r\<lparr>j_lease_expires_at := Some expires, j_updated_at := now\<rparr>)"
  "owns_lease worker current r \<Longrightarrow> row_le r (finish_row status body now r)"
  by (auto simp: row_le_def claimable_def lease_row_def owns_lease_def finish_row_def)

lemma db_change_le:
  assumes ok: "queue_ok d" and "db_change d d'"
  shows "db_le d d'"
  using assms(2)
proof cases
  case (submitted r)
  then show ?thesis by (auto simp: db_le_def intro: row_le_refl)
next
  case (published r worker current a now)
  then have "db_le d (replace_job (finish_row Completed (json_dumps (attempt_to_dict a)) now r) d)"
    using db_le_replace [OF queue_okD(1) [OF ok]] row_le_transitions(3) by blast
  then show ?thesis using published(1) by (auto simp: db_le_def add_attempt_def)
qed (use queue_okD(1,4) [OF ok] row_le_transitions in \<open>blast intro: db_le_replace\<close>)+

lemma queue_step_le: "queue_ok d \<Longrightarrow> queue_step d d' \<Longrightarrow> db_le d d'"
  using step_change db_change_le queue_okD(1,3) db_le_refl by metis

section \<open>The abstract lease machine\<close>

text \<open>
  What the queue promises its callers, without tables: a job waits, is leased to one worker until an expiry
  under an attempt number, or is done for good.
\<close>

datatype job_state = Waiting | Leased string pyfloat int | Done bool string int

inductive lease_step :: "(string \<rightharpoonup> job_state) \<Rightarrow> (string \<rightharpoonup> job_state) \<Rightarrow> bool" where
  submit: "m j = None \<Longrightarrow> lease_step m (m(j \<mapsto> Waiting))"
| grant: "m j = Some Waiting \<Longrightarrow> lease_step m (m(j \<mapsto> Leased w e 1))"
| take_over: "m j = Some (Leased w e n) \<Longrightarrow> fl_le e t \<Longrightarrow> lease_step m (m(j \<mapsto> Leased w' e' (n + 1)))"
| renew: "m j = Some (Leased w e n) \<Longrightarrow> fl_less t e \<Longrightarrow> lease_step m (m(j \<mapsto> Leased w e' n))"
| finish: "m j = Some (Leased w e n) \<Longrightarrow> fl_less t e \<Longrightarrow> lease_step m (m(j \<mapsto> Done success body n))"

definition job_state_of :: "job_row \<Rightarrow> job_state" where
  "job_state_of r = (case j_status r of
       Queued \<Rightarrow> Waiting
     | Running \<Rightarrow> Leased (the (j_lease_owner r)) (the (j_lease_expires_at r)) (j_attempts r)
     | Completed \<Rightarrow> Done True (the (j_result_json r)) (j_attempts r)
     | Failed \<Rightarrow> Done False (the (j_result_json r)) (j_attempts r))"

definition lease_state :: "db \<Rightarrow> (string \<rightharpoonup> job_state)" where
  "lease_state d job_id = map_option job_state_of (select_job job_id d)"

lemma lease_state_replace:
  assumes "distinct (map j_job_id (db_jobs d))" "r \<in> set (db_jobs d)" "j_job_id r' = j_job_id r"
  shows "lease_state (replace_job r' d) = (lease_state d)(j_job_id r \<mapsto> job_state_of r')"
proof
  fix k
  have "find (\<lambda>s. j_job_id s = k) (map (\<lambda>s. if j_job_id s = j_job_id r then r' else s) xs) =
      (if k = j_job_id r \<and> k \<in> j_job_id ` set xs then Some r' else find (\<lambda>s. j_job_id s = k) xs)" for xs
    using assms(3) by (induction xs) auto
  then have "select_job k (replace_job r' d) = (if k = j_job_id r then Some r' else select_job k d)"
    using assms(2,3) by (simp add: select_job_def replace_job_def)
  then show "lease_state (replace_job r' d) k = ((lease_state d)(j_job_id r \<mapsto> job_state_of r')) k"
    by (simp add: lease_state_def)
qed

lemma lease_state_row: "distinct (map j_job_id (db_jobs d)) \<Longrightarrow> r \<in> set (db_jobs d) \<Longrightarrow> lease_state d (j_job_id r) = Some (job_state_of r)"
  using select_job_iff [of d "j_job_id r" r] by (simp add: lease_state_def)

lemma lease_state_attempt [simp]: "lease_state (add_attempt t d) = lease_state d"
  by (simp add: fun_eq_iff lease_state_def select_job_def add_attempt_def)

lemma lease_state_submit:
  assumes "j_job_id r \<notin> j_job_id ` set (db_jobs d)"
  shows "lease_state (d\<lparr>db_jobs := db_jobs d @ [r]\<rparr>) = (lease_state d)(j_job_id r \<mapsto> job_state_of r)"
    and "lease_state d (j_job_id r) = None"
proof -
  have find_append: "find P (xs @ [x]) = (case find P xs of None \<Rightarrow> if P x then Some x else None | Some y \<Rightarrow> Some y)"
    for P and xs :: "job_row list" and x by (induction xs) auto
  have none: "select_job (j_job_id r) d = None" using assms by (simp add: select_job_def find_None_image)
  then show "lease_state d (j_job_id r) = None" by (simp add: lease_state_def)
  show "lease_state (d\<lparr>db_jobs := db_jobs d @ [r]\<rparr>) = (lease_state d)(j_job_id r \<mapsto> job_state_of r)"
    using none by (auto simp: fun_eq_iff lease_state_def select_job_def find_append split: option.splits)
qed

lemma db_change_lease_step:
  assumes ok: "queue_ok d" and "db_change d d'"
  shows "lease_step (lease_state d) (lease_state d')"
proof -
  note ids = queue_okD(1) [OF ok]
  have at: "lease_state d (j_job_id r) = Some (job_state_of r)" if "r \<in> set (db_jobs d)" for r
    using lease_state_row [OF ids that] .
  from assms(2) show ?thesis
  proof cases
    case (submitted r)
    then show ?thesis using lease_state_submit [of r d] by (auto simp: job_state_of_def intro: lease_step.submit)
  next
    case (leased r current expires worker now)
    then show ?thesis using at [OF leased(2)] queue_okD(4) [OF ok leased(2)]
      by (auto simp: lease_state_replace [OF ids leased(2)] job_state_of_def lease_row_def claimable_def row_ok_def
          intro: lease_step.grant lease_step.take_over split: option.splits)
  next
    case (renewed r worker current expires now)
    then show ?thesis using at [OF renewed(2)]
      by (auto simp: lease_state_replace [OF ids renewed(2)] job_state_of_def owns_lease_def intro: lease_step.renew split: option.splits)
  next
    case (finished r worker current status body now)
    then show ?thesis using at [OF finished(2)]
      by (auto simp: lease_state_replace [OF ids finished(2)] job_state_of_def owns_lease_def finish_row_def
          intro: lease_step.finish split: option.splits)
  next
    case (published r worker current a now)
    then show ?thesis using at [OF published(2)]
      by (auto simp: lease_state_replace [OF ids published(2)] job_state_of_def owns_lease_def finish_row_def
          intro: lease_step.finish split: option.splits)
  qed
qed

interpretation queue: monotone_system queue_step queue_ok db_le
  by unfold_locales (fact queue_ok_step, fact db_le_refl, erule (1) db_le_trans, erule (1) queue_step_le)

interpretation lease: refinement_system queue_step queue_ok lease_state lease_step
proof
  fix d d'
  assume "queue_ok d" "queue_step d d'"
  then show "lease_state d' = lease_state d \<or> lease_step (lease_state d) (lease_state d')"
    using step_change queue_okD(1,3) db_change_lease_step by metis
qed

end
