(* ===== verification/Float_Rounding.thy ===== *)
theory Float_Rounding
  imports Py_Float
begin

text \<open>
  When a float sum is exact: the position of the leading bit that the rounding uses is the right one, and a
  dyadic number of at most 53 bits is its own rounding.
\<close>

lemma pow2_add: "pow2 (a + b) = pow2 a * pow2 b"
proof -
  have eq: "pow2 e = 2 powi e" for e :: int
    by (simp add: pow2_def power_int_def field_simps power_one_over)
  show ?thesis by (simp add: eq power_int_add)
qed

lemma pow2_pos [simp]: "0 < pow2 e"
  by (simp add: pow2_def)

lemma pow2_nonzero [simp]: "pow2 e \<noteq> 0"
  using pow2_pos [of e] by linarith

lemma pow2_nat: "pow2 (int n) = 2 ^ n"
  by (simp add: pow2_def)

lemma pow2_mono: "a \<le> b \<Longrightarrow> pow2 a \<le> pow2 b"
proof -
  assume "a \<le> b"
  then have "pow2 b = pow2 a * 2 ^ nat (b - a)" using pow2_add [of a "b - a"] by (simp add: pow2_def)
  then show ?thesis using one_le_power [of "2::rat" "nat (b - a)"] by simp
qed

lemma pow2_less_iff: "pow2 a < pow2 b \<longleftrightarrow> a < b"
proof
  show "pow2 a < pow2 b \<Longrightarrow> a < b" using pow2_mono [of b a] by linarith
next
  assume "a < b"
  then have "pow2 b = pow2 a * 2 ^ nat (b - a)" using pow2_add [of a "b - a"] by (simp add: pow2_def)
  moreover have "1 < (2::rat) ^ nat (b - a)" using \<open>a < b\<close> by (intro one_less_power) auto
  ultimately show "pow2 a < pow2 b" by simp
qed

lemma floorlog2_bounds:
  assumes "0 < n"
  shows "pow2 (int (floorlog 2 n) - 1) \<le> of_nat n" "of_nat n < pow2 (int (floorlog 2 n))"
proof -
  have b: "2 ^ (floorlog 2 n - 1) \<le> n" "n < 2 ^ floorlog 2 n" "1 \<le> floorlog 2 n"
    using floorlog_bounds [of n 2] floorlog_ge_SucI [of 2 0 n] assms by auto
  have "pow2 (int (floorlog 2 n) - 1) = 2 ^ (floorlog 2 n - 1)" using b(3) by (simp add: pow2_def nat_diff_distrib')
  also have "\<dots> \<le> of_nat n" using b(1) by (metis of_nat_le_iff of_nat_numeral of_nat_power)
  finally show "pow2 (int (floorlog 2 n) - 1) \<le> of_nat n" .
  show "of_nat n < pow2 (int (floorlog 2 n))"
    using b(2) unfolding pow2_nat by (metis of_nat_less_iff of_nat_numeral of_nat_power)
qed

lemma lead2_bounds:
  assumes "0 < x"
  shows "pow2 (lead2 x) \<le> x" "x < pow2 (lead2 x + 1)"
proof -
  obtain p q where pq: "quotient_of x = (p, q)" by (cases "quotient_of x")
  have q: "0 < q" using quotient_of_denom_pos [OF pq] .
  have x: "x = of_int p / of_int q" using quotient_of_div [OF pq] .
  with assms q have p: "0 < p" by (simp add: zero_less_divide_iff)
  define a where "a = int (floorlog 2 (nat p))"
  define b where "b = int (floorlog 2 (nat q))"
  have pb: "pow2 (a - 1) \<le> of_int p" "of_int p < pow2 a" and qb: "pow2 (b - 1) \<le> of_int q" "of_int q < pow2 b"
    using floorlog2_bounds [of "nat p"] floorlog2_bounds [of "nat q"] p q by (simp_all add: a_def b_def)
  have "x * of_int q < pow2 (a - b + 1) * of_int q"
  proof -
    have "of_int p < pow2 (a - b + 1) * pow2 (b - 1)" using pb(2) by (simp flip: pow2_add)
    also have "\<dots> \<le> pow2 (a - b + 1) * of_int q" using qb(1) by simp
    finally show ?thesis using x q by simp
  qed
  then have up: "x < pow2 (a - b + 1)" using q by simp
  have "pow2 (a - b - 1) * of_int q \<le> x * of_int q"
  proof -
    have "pow2 (a - b - 1) * of_int q \<le> pow2 (a - b - 1) * pow2 b" using qb(2) by simp
    also have "\<dots> \<le> of_int p" using pb(1) by (simp flip: pow2_add)
    finally show ?thesis using x q by simp
  qed
  then have low: "pow2 (a - b - 1) \<le> x" using q by simp
  have lead: "lead2 x = (if pow2 (a - b) \<le> x then a - b else a - b - 1)"
    by (simp add: lead2_def pq a_def b_def Let_def)
  show "pow2 (lead2 x) \<le> x" using low by (simp add: lead)
  show "x < pow2 (lead2 x + 1)" using up by (simp add: lead not_le)
qed

lemma lead2_eqI: "pow2 e \<le> x \<Longrightarrow> x < pow2 (e + 1) \<Longrightarrow> lead2 x = e"
proof -
  assume e: "pow2 e \<le> x" "x < pow2 (e + 1)"
  then have "0 < x" using pow2_pos [of e] by linarith
  from lead2_bounds [OF this] e have "pow2 e < pow2 (lead2 x + 1)" "pow2 (lead2 x) < pow2 (e + 1)" by linarith+
  then show ?thesis by (simp add: pow2_less_iff)
qed

lemma round_half_even_of_int [simp]: "round_half_even (of_int i) = i"
  by (simp add: round_half_even_def Let_def)

lemma round64_dyadic:
  assumes x: "x = of_int m * pow2 k" and m: "\<bar>m\<bar> < 2 ^ 53" and k: "-1074 \<le> k" and top: "\<bar>x\<bar> < pow2 1024"
  shows "round64 x = Finite x"
proof (cases "x = 0")
  case False
  define q where "q = max (lead2 \<bar>x\<bar> - 52) (-1074)"
  have "\<bar>x\<bar> < pow2 (k + 53)"
  proof -
    have "\<bar>x\<bar> = of_int \<bar>m\<bar> * pow2 k" using x by (simp add: abs_mult abs_of_pos)
    also have "of_int \<bar>m\<bar> < pow2 53"
      using m by (simp add: pow2_def flip: of_int_less_iff [where 'a = rat])
    then have "of_int \<bar>m\<bar> * pow2 k < pow2 53 * pow2 k" by simp
    finally show ?thesis by (simp add: add.commute flip: pow2_add)
  qed
  with lead2_bounds(1) [of "\<bar>x\<bar>"] False have "pow2 (lead2 \<bar>x\<bar>) < pow2 (k + 53)" by auto
  then have "q \<le> k" using k by (simp add: q_def pow2_less_iff)
  then have "pow2 k = pow2 (k - q) * pow2 q" "pow2 (k - q) = of_int (2 ^ nat (k - q))"
    by (simp_all flip: pow2_add) (simp add: pow2_def)
  then have "\<bar>x\<bar> / pow2 q = of_int (\<bar>m\<bar> * 2 ^ nat (k - q))" using x by (simp add: abs_mult abs_of_pos)
  then have "of_int (round_half_even (\<bar>x\<bar> / pow2 q)) * pow2 q = \<bar>x\<bar>"
    by (simp only: round_half_even_of_int) (simp add: divide_eq_eq)
  with False top show ?thesis by (simp add: round64_def q_def Let_def sgn_mult_abs)
qed (simp add: round64_def)

text \<open>Whole numbers below \<open>2 ^ 53\<close> add exactly.\<close>

lemma fl_add_of_int:
  assumes "\<bar>i + j\<bar> < 2 ^ 53"
  shows "fl_add (Finite (of_int i)) (Finite (of_int j)) = Finite (of_int (i + j))"
proof -
  have "\<bar>of_int (i + j)\<bar> < (pow2 53 :: rat)"
    using assms by (simp add: pow2_def flip: of_int_less_iff [where 'a = rat])
  also have "\<dots> < pow2 1024" by (simp add: pow2_less_iff)
  finally have "round64 (of_int (i + j)) = Finite (of_int (i + j))"
    using round64_dyadic [of "of_int (i + j)" "i + j" 0] assms by (simp add: pow2_def)
  then show ?thesis by simp
qed

end
