(* ===== verification/Queue_Properties.thy ===== *)
theory Queue_Properties
  imports Queue_Protocol Float_Rounding
begin

text \<open>
  What the job queue and its database guarantee, as properties of the methods themselves and of every run of
  calls, derived from the invariant, the order and the refinement of the protocol.
\<close>

section \<open>The owner's methods, written out\<close>

lemma owner_update_eq:
  assumes ids: "distinct (map j_job_id (db_jobs d))" and keep: "\<And>r. j_job_id (f r) = j_job_id r"
    and chk: "\<And>r. r \<in> set (db_jobs d) \<Longrightarrow> P r \<Longrightarrow> job_check (f r)"
  shows "owner_update k P f msg rest d = (case select_job k d of
       Some r \<Rightarrow> if P r then bindE (rest (replace_job (f r) d)) (\<lambda>d'. Inr (select_job k d', d')) else Inl (LeaseError msg)
     | None \<Rightarrow> Inl (LeaseError msg))"
proof -
  obtain n d' where upd: "update_jobs (\<lambda>r. j_job_id r = k \<and> P r) f d = Inr (n, d')"
    using chk by (auto simp: update_jobs_def)
  from update_key [OF ids upd keep] show ?thesis
    by (auto simp: owner_update_def upd split: option.split)
qed

lemma owner_update_refused:
  assumes "distinct (map j_job_id (db_jobs d))" "r \<in> set (db_jobs d)" "\<not> P r" "\<And>r. j_job_id (f r) = j_job_id r"
  shows "owner_update (j_job_id r) P f msg rest d = Inl (LeaseError msg)"
proof -
  have "filter (\<lambda>s. j_job_id s = j_job_id r \<and> P s) (db_jobs d) = []"
    using filter_key [OF assms(1), of "j_job_id r" P] assms(2,3) find_Some_iff [OF assms(1), of "j_job_id r" r] by auto
  moreover from this have "\<not> (\<exists>s\<in>set (db_jobs d). (j_job_id s = j_job_id r \<and> P s) \<and> \<not> job_check (f s))"
    by (auto simp: filter_empty_conv)
  ultimately show ?thesis by (simp add: owner_update_def update_jobs_def)
qed

lemma select_after_replace:
  "distinct (map j_job_id (db_jobs d)) \<Longrightarrow> r \<in> set (db_jobs d) \<Longrightarrow> j_job_id r' = j_job_id r \<Longrightarrow>
   select_job (j_job_id r) (replace_job r' d) = Some r'"
  using select_job_iff [of "replace_job r' d" "j_job_id r" r'] by (simp add: in_replace_job)

lemma select_job_attempt [simp]: "select_job k (add_attempt t d) = select_job k d"
  by (simp add: select_job_def add_attempt_def)

text \<open>The name of an attempt determines its job and its number.\<close>

lemma digits_suffix_unique:
  assumes "xs @ CHR ''-'' # ds = ys @ CHR ''-'' # es" "list_all is_digit ds" "list_all is_digit es"
  shows "xs = ys \<and> ds = es"
proof -
  have "takeWhile is_digit (rev (zs @ CHR ''-'' # fs)) = rev fs" if "list_all is_digit fs" for zs fs :: string
  proof -
    have "\<not> is_digit (CHR ''-'')" by code_simp
    with that show ?thesis by (simp add: takeWhile_append list_all_iff)
  qed
  then have "rev ds = rev es" using assms by metis
  with assms(1) show ?thesis by simp
qed

lemma attempt_name_inj:
  assumes "attempt_name j m = attempt_name k n" "0 < m" "0 < n"
  shows "j = k \<and> m = n"
proof -
  have dig: "list_all is_digit (pad4 (show_int i))" if "0 < i" for i
  proof -
    have "is_digit (CHR ''0'')" by code_simp
    then show ?thesis using that show_nat_digits by (auto simp: pad4_def show_int_def list_all_iff)
  qed
  have "(j @ ''/attempt'') @ CHR ''-'' # pad4 (show_int m) = (k @ ''/attempt'') @ CHR ''-'' # pad4 (show_int n)"
    using assms(1) by (simp add: attempt_name_def)
  from digits_suffix_unique [OF this dig [OF assms(2)] dig [OF assms(3)]]
  have "j = k" and "read_nat (pad4 (show_int m)) = read_nat (pad4 (show_int n))" by simp_all
  with assms(2,3) show ?thesis by (simp add: pad4_def read_nat_zeros show_int_def)
qed

lemma lineage_fields:
  assumes "lineage_ok d t"
  obtains a where "wf_attempt a" "t_job_id t = fa_job_id a" "t_attempt t = fa_attempt a" "t_attempt_id t = fa_attempt_id a"
    "t_attempt_digest t = attempt_digest a" "t_payload_json t = json_dumps (attempt_to_dict a)"
proof -
  from assms obtain a where a: "wf_attempt a" and t: "t = attempt_row_of a (t_finished_at t)" by (auto simp: lineage_ok_def)
  show thesis by (rule that [OF a]) (subst t, simp add: attempt_row_of_def)+
qed

text \<open>Only a digest that is already taken, by another attempt, can stop the insertion of a finished attempt.\<close>

lemma insert_attempt_ok:
  assumes ok: "queue_ok d" and r: "r \<in> set (db_jobs d)" "j_status r \<noteq> Completed" and a: "wf_attempt a" "j_job_id r = fa_job_id a"
    and digest: "attempt_digest a \<notin> t_attempt_digest ` set (db_attempts d)" and r': "j_job_id r' = j_job_id r"
  shows "insert_attempt (attempt_row_of a now) (replace_job r' d) = Inr (add_attempt (attempt_row_of a now) (replace_job r' d))"
proof -
  have other: "t_job_id t \<noteq> fa_job_id a" if "t \<in> set (db_attempts d)" for t
    using queue_okD(5) [OF ok that] distinct_image_eq [OF queue_okD(1) [OF ok] _ r(1)] r(2) a(2) by (force simp: lineage_ok_def)
  have "t_attempt_id t \<noteq> fa_attempt_id a" if t: "t \<in> set (db_attempts d)" for t
  proof
    assume same: "t_attempt_id t = fa_attempt_id a"
    from queue_okD(5) [OF ok t] obtain b where "wf_attempt b" "t_attempt_id t = fa_attempt_id b" "t_job_id t = fa_job_id b"
      by (rule lineage_fields)
    with same a(1) have "t_job_id t = fa_job_id a" by (auto simp: wf_attempt_def dest: attempt_name_inj)
    with other [OF t] show False by simp
  qed
  moreover have "fa_job_id a \<in> j_job_id ` set (db_jobs (replace_job r' d))"
    using r(1) a(2) r' in_replace_job [OF queue_okD(1) [OF ok] r(1) r'] by force
  ultimately show ?thesis using other digest a(1)
    by (force simp: insert_attempt_def add_attempt_def attempt_row_of_def wf_attempt_def)
qed

lemma finish_attempt_eq:
  assumes ok: "queue_ok d" and a: "wf_attempt a" "fa_attempt a < 2 ^ 63" and job: "py_strip job_id = fa_job_id a"
    and worker: "py_strip worker \<noteq> []" and clock: "clock_now now clock = Inr current"
    and digest: "attempt_digest a \<notin> t_attempt_digest ` set (db_attempts d)"
  shows "finish_attempt utc clock job_id worker a now d =
    (case select_job (fa_job_id a) d of
       Some r \<Rightarrow>
         if j_kind r = ''coding-agent'' \<and> owns_lease (py_strip worker) current r \<and> j_attempts r = fa_attempt a
         then let r' = finish_row Completed (json_dumps (attempt_to_dict a)) (utc_now utc) r
              in (job_from_row r', add_attempt (attempt_row_of a (utc_now utc)) (replace_job r' d))
         else (Inl (LeaseError ''job lease or attempt authority is missing, stale, or owned by another worker''), d)
     | None \<Rightarrow> (Inl (LeaseError ''job lease or attempt authority is missing, stale, or owned by another worker''), d))"
proof -
  note ids = queue_okD(1) [OF ok]
  have nonempty: "fa_job_id a \<noteq> []" using a(1) by (simp add: wf_attempt_def text_ok_def)
  have bits: "bind_integer (fa_attempt a) = Inr ()" using a by (simp add: bind_integer_def wf_attempt_def)
  let ?f = "finish_row Completed (json_dumps (attempt_to_dict a)) (utc_now utc)"
  let ?P = "\<lambda>r. j_kind r = ''coding-agent'' \<and> owns_lease (py_strip worker) current r \<and> j_attempts r = fa_attempt a"
  have chk: "job_check (?f r)" if "r \<in> set (db_jobs d)" "?P r" for r
    using row_ok_finish [of r "py_strip worker" current Completed] queue_okD(4) [OF ok that(1)] that(2) by (simp add: row_ok_def)
  have ins: "insert_attempt (attempt_row_of a (utc_now utc)) (replace_job (?f r) d) =
      Inr (add_attempt (attempt_row_of a (utc_now utc)) (replace_job (?f r) d))"
    if "select_job (fa_job_id a) d = Some r" "?P r" for r
    using insert_attempt_ok [OF ok _ _ a(1) _ digest, of r "?f r"] that lease_not_completed(1) [of "py_strip worker" current r]
    by (simp add: select_job_iff [OF ids])
  have sel: "select_job (fa_job_id a) (add_attempt t (replace_job (?f r) d)) = Some (?f r)" if "select_job (fa_job_id a) d = Some r" for r t
    using that select_after_replace [OF ids, of r "?f r"] by (auto simp: select_job_iff [OF ids])
  show ?thesis
    using ins sel
    by (auto simp: finish_attempt_def job owner_inputs_def nonempty worker clock attempt_to_dict_wire bits Let_def
        owner_update_eq [OF ids _ chk] attempt_row_of_def [symmetric] transaction_def returning_def row_result_def split: option.split)
qed

lemma claim_eq:
  assumes "queue_ok d" "py_strip worker \<noteq> []" "lease_window lease now clock = Inr (current, expires)"
  shows "claim utc clock worker lease now d = (case next_claimable current d of
       None \<Rightarrow> (Inr None, d)
     | Some r \<Rightarrow> let r' = lease_row (py_strip worker) expires (utc_now utc) r
                in (bindE (job_from_row r') (\<lambda>x. Inr (Some x)), replace_job r' d))"
  using assms
  by (simp add: claim_def Let_def transaction_def returning_def claim_body_eq [OF queue_okD(1,3) [OF assms(1)]] split: option.split)

lemma heartbeat_eq:
  assumes "queue_ok d" "py_strip job_id \<noteq> []" "py_strip worker \<noteq> []" "lease_window lease now clock = Inr (current, expires)"
  shows "heartbeat utc clock job_id worker lease now d = (case select_job (py_strip job_id) d of
       Some r \<Rightarrow> if owns_lease (py_strip worker) current r
         then let r' = r\<lparr>j_lease_expires_at := Some expires, j_updated_at := utc_now utc\<rparr> in (job_from_row r', replace_job r' d)
         else (Inl (LeaseError ''job lease is missing, expired, or owned by another worker''), d)
     | None \<Rightarrow> (Inl (LeaseError ''job lease is missing, expired, or owned by another worker''), d))"
proof -
  note ids = queue_okD(1) [OF assms(1)]
  let ?f = "\<lambda>r. r\<lparr>j_lease_expires_at := Some expires, j_updated_at := utc_now utc\<rparr>"
  have chk: "job_check (?f r)" if "r \<in> set (db_jobs d)" "owns_lease (py_strip worker) current r" for r
    using row_ok_renew [OF queue_okD(4) [OF assms(1) that(1)] that(2), of expires] lease_window_Inr [OF assms(4)] by (simp add: row_ok_def)
  have sel: "select_job (py_strip job_id) (replace_job (?f r) d) = Some (?f r)" if "select_job (py_strip job_id) d = Some r" for r
    using that select_after_replace [OF ids, of r "?f r"] by (auto simp: select_job_iff [OF ids])
  show ?thesis using sel assms(2-4)
    by (auto simp: heartbeat_def owner_inputs_def Let_def transaction_def returning_def row_result_def
        owner_update_eq [OF ids _ chk] split: option.split)
qed

lemma finish_eq:
  assumes "queue_ok d" "py_strip job_id \<noteq> []" "py_strip worker \<noteq> []" "clock_now now clock = Inr current" "json_encodable res"
    "status \<in> {Completed, Failed}"
  shows "finish status utc clock job_id worker res now d = (case select_job (py_strip job_id) d of
       Some r \<Rightarrow> if owns_lease (py_strip worker) current r
         then let r' = finish_row status (json_dumps res) (utc_now utc) r in (job_from_row r', replace_job r' d)
         else (Inl (LeaseError ''job lease is missing, expired, or owned by another worker''), d)
     | None \<Rightarrow> (Inl (LeaseError ''job lease is missing, expired, or owned by another worker''), d))"
proof -
  note ids = queue_okD(1) [OF assms(1)]
  let ?f = "finish_row status (json_dumps res) (utc_now utc)"
  have chk: "job_check (?f r)" if "r \<in> set (db_jobs d)" "owns_lease (py_strip worker) current r" for r
    using row_ok_finish [OF queue_okD(4) [OF assms(1) that(1)] that(2) assms(6)] by (simp add: row_ok_def)
  have sel: "select_job (py_strip job_id) (replace_job (?f r) d) = Some (?f r)" if "select_job (py_strip job_id) d = Some r" for r
    using that select_after_replace [OF ids, of r "?f r"] by (auto simp: select_job_iff [OF ids])
  show ?thesis using sel assms(2-5)
    by (auto simp: finish_def owner_inputs_def Let_def transaction_def returning_def row_result_def queue_json_def
        owner_update_eq [OF ids _ chk] split: option.split)
qed

section \<open>Sample states\<close>

definition noon :: utc_time where
  "noon = \<lparr>year = 2025, month = 1, day = 2, hour = 12, minute = 0, second = 0, microsecond = 7\<rparr>"

definition start_db :: db where
  "start_db = snd (initialize empty_db)"

text \<open>One coding job, queued, and the same job leased to a worker until the time 100.\<close>

definition queued_db :: db where
  "queued_db = snd (enqueue ''1'' noon ''coding-agent'' (PDict []) ''key'' start_db)"

definition leased_db :: db where
  "leased_db = snd (claim noon (Finite 40) ''w1'' (Finite 60) None queued_db)"

lemma start_db_eq:
  "start_db = \<lparr>db_schema_version = Some ''2'', db_objects = [''metadata'', ''jobs'', ''jobs_claimable'', ''attempt_finished'',
     ''task_outcomes'', ''attempt_finished_no_update'', ''attempt_finished_no_delete'', ''task_outcomes_no_update'',
     ''task_outcomes_no_delete''], db_jobs = [], db_attempts = [], db_outcomes = []\<rparr>"
  by code_simp

lemma start_db_ok: "queue_ok start_db"
  by (simp add: start_db_eq queue_ok_def)

lemma sample_runs: "queue_step\<^sup>*\<^sup>* start_db queued_db" "queue_step\<^sup>*\<^sup>* start_db leased_db"
proof -
  have "queue_step start_db queued_db"
    unfolding queued_db_def by (rule step_enqueue) (rule surjective_pairing)
  moreover have "queue_step queued_db leased_db"
    unfolding leased_db_def by (rule step_claim) (rule surjective_pairing)
  ultimately show "queue_step\<^sup>*\<^sup>* start_db queued_db" "queue_step\<^sup>*\<^sup>* start_db leased_db" by auto
qed

lemmas sample_ok = sample_runs [THEN queue.inv_run, OF start_db_ok]

definition sample_row :: job_row where
  "sample_row = \<lparr>j_job_id = ''job-1'', j_idempotency_key = ''key'', j_kind = ''coding-agent'', j_payload_json = ''{}'',
     j_status = Queued, j_lease_owner = None, j_lease_expires_at = None, j_attempts = 0, j_result_json = None,
     j_created_at = ''2025-01-02T12:00:00.000007Z'', j_updated_at = ''2025-01-02T12:00:00.000007Z''\<rparr>"

definition leased_row :: job_row where
  "leased_row = lease_row ''w1'' (Finite 100) ''2025-01-02T12:00:00.000007Z'' sample_row"

lemma queued_jobs: "db_jobs queued_db = [sample_row]"
  by code_simp

lemma sample_window: "lease_window (Finite 60) None (Finite 40) = Inr (Finite 40, Finite 100)"
  using fl_add_of_int [of 40 60] by (simp add: lease_window_def clock_now_def fl_isfinite_def fl_le_def)

lemma noon_text: "utc_now noon = ''2025-01-02T12:00:00.000007Z''"
  by code_simp

lemma w1_strip [simp]: "py_strip ''w1'' = ''w1''" "py_strip ''w2'' = ''w2''" "py_strip ''job-1'' = ''job-1''"
  by code_simp+

lemma queued_next: "next_claimable current queued_db = Some sample_row"
  by (simp add: next_claimable_def queued_jobs claimable_def sample_row_def)

lemma leased_db_eq: "leased_db = replace_job leased_row queued_db"
  by (simp add: leased_db_def claim_eq [OF sample_ok(1) _ sample_window] noon_text queued_next leased_row_def Let_def)

lemma leased_jobs: "db_jobs leased_db = [leased_row]"
  by (simp add: leased_db_eq replace_job_def queued_jobs leased_row_def)

section \<open>Runs\<close>

text \<open>
  C15. Whatever calls reach an initialised database, in whatever order and with whatever results, job
  identifiers and idempotency keys stay unique, every row is well formed (queued before its first attempt, a finite
  lease exactly while running, a result exactly when finished), and every finished attempt is the only one of
  its job and is the result that its job completed with under the same attempt number.
\<close>

theorem queue_invariant:
  assumes "queue_step\<^sup>*\<^sup>* (snd (initialize empty_db)) d"
  shows "queue_ok d"
  using queue.inv_run [OF assms] start_db_ok by (simp add: start_db_def)

theorem queue_invariant_witness: "queue_ok leased_db \<and> db_jobs leased_db = [leased_row]"
  using queue_invariant [OF sample_runs(2) [unfolded start_db_def]] leased_jobs by simp



text \<open>
  C17. History is permanent: in every run from a well-formed database, a completed or failed job keeps its row to
  the last column, no job disappears or goes back in its attempt count, and recorded attempts are only appended to.
\<close>

theorem finished_forever:
  assumes "queue_ok d" and "queue_step\<^sup>*\<^sup>* d d'"
  shows "(\<forall>r\<in>set (db_jobs d). j_status r \<in> {Completed, Failed} \<longrightarrow> r \<in> set (db_jobs d')) \<and>
     (\<forall>r\<in>set (db_jobs d). \<exists>r'\<in>set (db_jobs d'). j_job_id r' = j_job_id r \<and> j_payload_json r' = j_payload_json r \<and>
        j_attempts r \<le> j_attempts r') \<and>
     (\<exists>ts. db_attempts d' = db_attempts d @ ts)"
  using queue.le_run [OF assms(2,1)] by (fastforce simp: db_le_def row_le_def)

theorem finished_forever_witness:
  "\<exists>r'\<in>set (db_jobs leased_db). j_job_id r' = ''job-1'' \<and> j_payload_json r' = ''{}'' \<and> 0 \<le> j_attempts r'"
proof -
  have "queue_step queued_db leased_db" unfolding leased_db_def by (rule step_claim) (rule surjective_pairing)
  then have "\<exists>r'\<in>set (db_jobs leased_db). j_job_id r' = j_job_id sample_row \<and> j_payload_json r' = j_payload_json sample_row \<and>
      j_attempts sample_row \<le> j_attempts r'"
    using finished_forever [OF sample_ok(1), of leased_db] by (auto simp: queued_jobs)
  then show ?thesis by (simp add: sample_row_def)
qed

section \<open>Leases\<close>

lemma lease_window_clock: "lease_window lease (Some t) clock = Inr (current, expires) \<Longrightarrow> current = t"
  by (auto simp: lease_window_def clock_now_def result_simps Let_def)

lemma owner_refused:
  assumes "distinct (map j_job_id (db_jobs d))" "r \<in> set (db_jobs d)" "k = j_job_id r" "\<And>x. m = Inr x \<Longrightarrow> \<not> P x r"
    and "\<And>x s. j_job_id (f x s) = j_job_id s"
  shows "\<exists>e. with_input m (\<lambda>x d. returning (transaction (owner_update k (P x) (f x) msg (rest x)) d) g) d = (Inl e, d)"
  using owner_update_refused [OF assms(1,2)] assms(3-)
  by (cases m) (simp_all add: transaction_def returning_def)

lemma live_not_claimable: "owns_lease owner t r \<Longrightarrow> \<not> claimable t r"
  by (auto simp: owns_lease_def claimable_def dest: fl_less_not_le split: option.splits)

lemma owner_unique: "owns_lease owner t r \<Longrightarrow> worker \<noteq> owner \<Longrightarrow> \<not> owns_lease worker t' r"
  by (simp add: owns_lease_def)

lemma claim_keeps:
  assumes ok: "queue_ok d" and r: "r \<in> set (db_jobs d)" "\<not> claimable t r"
  shows "r \<in> set (db_jobs (snd (claim utc clock worker lease (Some t) d)))"
proof (cases "py_strip worker \<noteq> [] \<and> (\<exists>w. lease_window lease (Some t) clock = Inr w)")
  case True
  then obtain expires where w: "lease_window lease (Some t) clock = Inr (t, expires)"
    using lease_window_clock by (metis surj_pair)
  show ?thesis
  proof (cases "next_claimable t d")
    case (Some s)
    then have "s \<in> set (db_jobs d)" "s \<noteq> r" using next_claimable_Some [OF Some] r(2) by auto
    with Some True r(1) in_replace_job [OF queue_okD(1) [OF ok]] show ?thesis
      by (simp add: claim_eq [OF ok _ w] Let_def)
  qed (use True r(1) in \<open>simp add: claim_eq [OF ok _ w]\<close>)
next
  case False
  with r(1) show ?thesis
    by (cases "lease_window lease (Some t) clock") (auto simp: claim_def Let_def)
qed

text \<open>
  C18. A live lease excludes everyone else. While a job is leased until after the time \<open>t\<close>, a claim at \<open>t\<close>, by
  any worker, leaves its row as it is, and a heartbeat, completion, failure or attempt publication by another worker raises and
  changes nothing.
\<close>

theorem lease_exclusive:
  assumes "queue_ok d" and "r \<in> set (db_jobs d)" and "owns_lease owner t r" and "py_strip job_id = j_job_id r"
    and "py_strip worker \<noteq> owner"
  shows "r \<in> set (db_jobs (snd (claim utc clock worker' lease (Some t) d))) \<and>
     (\<exists>e. heartbeat utc clock job_id worker lease (Some t) d = (Inl e, d)) \<and>
     (\<exists>e. complete utc clock job_id worker res (Some t) d = (Inl e, d)) \<and>
     (\<exists>e. fail utc clock job_id worker res (Some t) d = (Inl e, d)) \<and>
     (\<exists>e. finish_attempt utc clock job_id worker a (Some t) d = (Inl e, d))"
proof (intro conjI)
  note ids = queue_okD(1) [OF assms(1)]
  note refused = owner_refused [OF ids assms(2)] and other = owner_unique [OF assms(3,5)]
  show "r \<in> set (db_jobs (snd (claim utc clock worker' lease (Some t) d)))"
    by (rule claim_keeps [OF assms(1,2) live_not_claimable [OF assms(3)]])
  show "\<exists>e. heartbeat utc clock job_id worker lease (Some t) d = (Inl e, d)"
    unfolding heartbeat_def Let_def case_prod_unfold by (rule refused) (simp_all add: assms(4) other)
  show "\<exists>e. complete utc clock job_id worker res (Some t) d = (Inl e, d)"
    unfolding complete_def finish_def Let_def case_prod_unfold by (rule refused) (simp_all add: assms(4) other)
  show "\<exists>e. fail utc clock job_id worker res (Some t) d = (Inl e, d)"
    unfolding fail_def finish_def Let_def case_prod_unfold by (rule refused) (simp_all add: assms(4) other)
  have "owner_update (j_job_id r) (\<lambda>r. j_kind r = ''coding-agent'' \<and> owns_lease (py_strip worker) c r \<and> j_attempts r = n)
      (finish_row Completed body now) msg rest d = Inl (LeaseError msg)" for c n body now msg rest
    by (rule owner_update_refused [OF ids assms(2)]) (simp_all add: other)
  then show "\<exists>e. finish_attempt utc clock job_id worker a (Some t) d = (Inl e, d)"
    by (auto simp: finish_attempt_def Let_def with_input_def returning_def transaction_def assms(4) bind_integer_def split: sum.split)
qed

theorem lease_exclusive_witness:
  "leased_row \<in> set (db_jobs (snd (claim noon (Finite 0) ''w2'' (Finite 60) (Some (Finite 99)) leased_db))) \<and>
   (\<exists>e. finish_attempt noon (Finite 0) ''job-1'' ''w2'' sample_attempt (Some (Finite 99)) leased_db = (Inl e, leased_db))"
  using lease_exclusive [OF sample_ok(2), of leased_row "''w1''" "Finite 99" "''job-1''" "''w2''"]
  by (simp add: leased_jobs leased_row_def lease_row_def sample_row_def owns_lease_def)

text \<open>
  C19. Attempt publication is fenced and atomic. A well-formed attempt for which its digest is new is accepted exactly when
  its job is a coding job that the worker still holds under a live lease with the same attempt number; then the
  job is completed with the attempt's text and the attempt recorded, in one step. Otherwise the caller gets a lease
  error and nothing changes, also when the same worker has since claimed the job again.
\<close>

theorem finish_attempt_exact:
  assumes "queue_ok d" and "wf_attempt a" and "fa_attempt a < 2 ^ 63" and "py_strip job_id = fa_job_id a" and "py_strip worker \<noteq> []"
    and "clock_now now clock = Inr current" and "attempt_digest a \<notin> t_attempt_digest ` set (db_attempts d)"
  shows "finish_attempt utc clock job_id worker a now d =
    (case select_job (fa_job_id a) d of
       Some r \<Rightarrow>
         if j_kind r = ''coding-agent'' \<and> owns_lease (py_strip worker) current r \<and> j_attempts r = fa_attempt a
         then let r' = finish_row Completed (json_dumps (attempt_to_dict a)) (utc_now utc) r
              in (job_from_row r', add_attempt (attempt_row_of a (utc_now utc)) (replace_job r' d))
         else (Inl (LeaseError ''job lease or attempt authority is missing, stale, or owned by another worker''), d)
     | None \<Rightarrow> (Inl (LeaseError ''job lease or attempt authority is missing, stale, or owned by another worker''), d))"
  by (rule finish_attempt_eq [OF assms])

theorem finish_attempt_exact_witness:
  "db_attempts (snd (finish_attempt noon (Finite 50) ''job-1'' ''w1'' sample_attempt None leased_db)) =
     [attempt_row_of sample_attempt (utc_now noon)]"
proof -
  have a: "wf_attempt sample_attempt" using sample_attempt_storable by (simp add: storable_attempt_def)
  have none: "db_attempts leased_db = []" by (simp add: leased_db_eq queued_db_def) code_simp
  have sel: "select_job ''job-1'' leased_db = Some leased_row"
    by (simp add: select_job_def leased_jobs leased_row_def sample_row_def)
  show ?thesis
    using finish_attempt_exact [OF sample_ok(2) a, of "''job-1''" "''w1''" None "Finite 50" "Finite 50" noon]
    by (simp add: sample_attempt_def none clock_now_def fl_isfinite_def sel leased_row_def lease_row_def sample_row_def owns_lease_def
        Let_def add_attempt_def)
qed

end
