(* ===== verification/Queue_Liveness.thy ===== *)
theory Queue_Liveness
  imports Queue_Properties
begin

text \<open>
  Progress of the queue: which job a claim hands out, how repeated claims drain the queue, what the rounding of a
  lease can undo, the order of the time stamps, idempotent submission and the migrations of the database.
\<close>

section \<open>Claims\<close>

text \<open>
  C20. A claim is exact: if some job is queued or has an expired lease, the claim leases the one that is
  earliest by creation time and identifier, under the next attempt number, and returns its record; if none is, it
  returns nothing and changes nothing. So an abandoned job is handed out again once its lease has expired.
\<close>

theorem claim_exact:
  assumes "queue_ok d" and "py_strip worker \<noteq> []" and "lease_window lease now clock = Inr (current, expires)"
  shows "if \<exists>r\<in>set (db_jobs d). claimable current r
     then \<exists>r\<in>set (db_jobs d). claimable current r \<and>
       (\<forall>s\<in>set (db_jobs d). claimable current s \<longrightarrow> (j_created_at r, j_job_id r) \<le> (j_created_at s, j_job_id s)) \<and>
       claim utc clock worker lease now d =
         (bindE (job_from_row (lease_row (py_strip worker) expires (utc_now utc) r)) (\<lambda>x. Inr (Some x)),
          replace_job (lease_row (py_strip worker) expires (utc_now utc) r) d)
     else claim utc clock worker lease now d = (Inr None, d)"
proof (cases "next_claimable current d")
  case None
  then have "\<not> (\<exists>r\<in>set (db_jobs d). claimable current r)" by (simp add: next_claimable_None)
  with None show ?thesis by (simp add: claim_eq [OF assms])
next
  case (Some r)
  from next_claimable_Some [OF Some] have "r \<in> set (db_jobs d)" "claimable current r" by auto
  with next_claimable_Some [OF Some] show ?thesis
    by (auto simp: claim_eq [OF assms] Some Let_def simp del: less_eq_prod_simp intro!: bexI [of _ r])
qed

theorem claim_exact_witness:
  "claim noon (Finite 40) ''w1'' (Finite 60) None queued_db =
     (bindE (job_from_row leased_row) (\<lambda>x. Inr (Some x)), replace_job leased_row queued_db)"
  using claim_exact [OF sample_ok(1) _ sample_window, of "''w1''" noon]
  by (simp add: queued_jobs claimable_def sample_row_def leased_row_def noon_text)

section \<open>Draining\<close>

lemma count_claimable_replace:
  assumes ids: "distinct (map j_job_id (db_jobs d))" and r: "r \<in> set (db_jobs d)" "P r" and r': "j_job_id r' = j_job_id r" "\<not> P r'"
  shows "length (filter P (db_jobs (replace_job r' d))) = length (filter P (db_jobs d)) - 1"
proof -
  have "filter P (map (\<lambda>s. if j_job_id s = j_job_id r then r' else s) xs) = remove1 r (filter P xs)"
    if "distinct (map j_job_id xs)" "r \<in> set xs" for xs
    using that
  proof (induction xs)
    case (Cons x xs)
    show ?case
    proof (cases "x = r")
      case True
      then have "map (\<lambda>s. if j_job_id s = j_job_id r then r' else s) xs = xs" using Cons.prems(1)
        by (intro map_idI) (auto simp: image_iff)
      with True r(2) r'(2) show ?thesis by simp
    next
      case False
      then have "r \<in> set xs" and "j_job_id x \<noteq> j_job_id r" using Cons.prems by auto
      with Cons False show ?thesis by simp
    qed
  qed simp
  from this [OF ids r(1)] r show ?thesis by (simp add: replace_job_def r'(1) length_remove1)
qed

lemma claim_counts:
  assumes ok: "queue_ok d" and worker: "py_strip worker \<noteq> []" and w: "lease_window lease (Some t) clock = Inr (t, expires)"
    and live: "fl_less t expires"
  shows "length (filter (claimable t) (db_jobs (snd (claim utc clock worker lease (Some t) d)))) = length (filter (claimable t) (db_jobs d)) - 1"
proof (cases "next_claimable t d")
  case None
  then have "filter (claimable t) (db_jobs d) = []" by (simp add: next_claimable_None filter_empty_conv)
  with None show ?thesis by (simp add: claim_eq [OF ok worker w])
next
  case (Some r)
  have "\<not> claimable t (lease_row (py_strip worker) expires (utc_now utc) r)"
    using live by (auto simp: claimable_def lease_row_def dest: fl_less_not_le)
  with next_claimable_Some [OF Some] show ?thesis
    using count_claimable_replace [OF queue_okD(1) [OF ok], of r "claimable t"] by (simp add: claim_eq [OF ok worker w] Some Let_def)
qed

lemma claim_ok: "queue_ok d \<Longrightarrow> queue_ok (snd (claim utc clock worker lease now d))"
  using queue_ok_step [OF _ step_claim] by (metis surjective_pairing)

text \<open>
  A worker that keeps claiming at one time runs out of work: where the lease outlasts the clock, each claim takes
  exactly one job off the claimable ones, so after as many claims as there are claimable jobs, and not before, a claim
  finds none.
\<close>

theorem claims_drain:
  assumes "queue_ok d" and "py_strip worker \<noteq> []" and "lease_window lease (Some t) clock = Inr (t, expires)" and "fl_less t expires"
  shows "length (filter (claimable t) (db_jobs (((\<lambda>d. snd (claim utc clock worker lease (Some t) d)) ^^ k) d)))
     = length (filter (claimable t) (db_jobs d)) - k"
proof -
  let ?claim = "\<lambda>d. snd (claim utc clock worker lease (Some t) d)"
  have ok: "queue_ok ((?claim ^^ k) d)" for k
    by (induction k) (simp_all add: assms(1) claim_ok)
  show ?thesis
    by (induction k) (simp_all add: claim_counts [OF ok assms(2-4)])
qed

theorem claims_drain_witness:
  "length (filter (claimable (Finite 40)) (db_jobs queued_db)) = 1 \<and>
   length (filter (claimable (Finite 40)) (db_jobs (((\<lambda>d. snd (claim noon (Finite 0) ''w1'' (Finite 60) (Some (Finite 40)) d)) ^^ 1) queued_db))) = 0"
proof -
  have w: "lease_window (Finite 60) (Some (Finite 40)) (Finite 0) = Inr (Finite 40, Finite 100)"
    using fl_add_of_int [of 40 60] by (simp add: lease_window_def clock_now_def fl_isfinite_def fl_le_def)
  have "length (filter (claimable (Finite 40)) (db_jobs queued_db)) = 1"
    by (simp add: queued_jobs claimable_def sample_row_def)
  then show ?thesis using claims_drain [where worker = "''w1''" and utc = noon and k = 1, OF sample_ok(1) _ w] by simp
qed

section \<open>Leases lost to rounding\<close>

lemma next_claimable_eqI:
  assumes ids: "distinct (map j_job_id (db_jobs d))" and r: "r \<in> set (db_jobs d)" "claimable t r"
    and least: "\<And>s. s \<in> set (db_jobs d) \<Longrightarrow> claimable t s \<Longrightarrow> (j_created_at r, j_job_id r) \<le> (j_created_at s, j_job_id s)"
  shows "next_claimable t d = Some r"
proof (cases "next_claimable t d")
  case None
  with r show ?thesis by (simp add: next_claimable_None)
next
  case (Some s)
  with next_claimable_Some [OF Some] least r have "(j_created_at r, j_job_id r) = (j_created_at s, j_job_id s)"
    by (meson order_antisym)
  then have "s = r" by (intro distinct_image_eq [OF ids _ r(1)] next_claimable_Some [OF Some, THEN conjunct1]) simp
  with Some show ?thesis by simp
qed

text \<open>
  C22. A lease can be lost to rounding. The expiry is the float sum of the clock and the duration; when the duration
  is absorbed, the lease is expired as it is granted, and a second worker claiming at the same time is handed the
  same job under the next attempt number.
\<close>

theorem absorbed_lease_not_exclusive:
  assumes "queue_ok d" and "py_strip w1 \<noteq> []" and "py_strip w2 \<noteq> []" and "lease_window lease (Some t) clock = Inr (t, t)"
    and "next_claimable t d = Some r"
  shows "select_job (j_job_id r) (snd (claim utc clock w2 lease (Some t) (snd (claim utc clock w1 lease (Some t) d)))) =
     Some (lease_row (py_strip w2) t (utc_now utc) (lease_row (py_strip w1) t (utc_now utc) r))"
proof -
  note ids = queue_okD(1) [OF assms(1)]
  let ?r1 = "lease_row (py_strip w1) t (utc_now utc) r"
  have r: "r \<in> set (db_jobs d)" "claimable t r" and least: "\<And>s. s \<in> set (db_jobs d) \<Longrightarrow> claimable t s \<Longrightarrow>
      (j_created_at r, j_job_id r) \<le> (j_created_at s, j_job_id s)" using next_claimable_Some [OF assms(5)] by auto
  have t: "fl_isfinite t" using lease_window_Inr [OF assms(4)] by simp
  define d1 where "d1 = snd (claim utc clock w1 lease (Some t) d)"
  have d1: "d1 = replace_job ?r1 d" by (simp add: d1_def claim_eq [OF assms(1,2,4)] assms(5) Let_def)
  have ids1: "distinct (map j_job_id (db_jobs d1))" and in1: "?r1 \<in> set (db_jobs d1)"
    using ids in_replace_job [OF ids r(1), of ?r1] by (simp_all add: d1)
  have "claimable t ?r1" using t by (cases t) (simp_all add: claimable_def lease_row_def fl_le_def fl_isfinite_def)
  then have "next_claimable t d1 = Some ?r1"
  proof (rule next_claimable_eqI [OF ids1 in1])
    fix s assume s: "s \<in> set (db_jobs d1)" "claimable t s"
    have key: "j_created_at ?r1 = j_created_at r" by (simp add: lease_row_def)
    from s(1) have "s = ?r1 \<or> s \<in> set (db_jobs d)" by (auto simp: d1 in_replace_job [OF ids r(1), of ?r1])
    then show "(j_created_at ?r1, j_job_id ?r1) \<le> (j_created_at s, j_job_id s)"
      using least [OF _ s(2)] by (metis key order_refl row_fields(1))
  qed
  moreover have "queue_ok d1" using claim_ok [OF assms(1)] by (simp add: d1_def)
  ultimately show ?thesis using select_after_replace [OF ids1 in1]
    by (simp add: claim_eq [OF _ assms(3,4)] Let_def flip: d1_def)
qed

lemma absorbed_window: "lease_window (Finite (1 / 1152921504606846976)) (Some (Finite 1)) (Finite 0) = Inr (Finite 1, Finite 1)"
proof -
  let ?x = "1152921504606846977 / 1152921504606846976 :: rat"
  have "lead2 ?x = 0" by (rule lead2_eqI) (simp_all add: pow2_def)
  moreover have "\<lfloor>?x * 4503599627370496\<rfloor> = 4503599627370496" by (simp add: floor_eq_iff)
  ultimately have "round64 ?x = Finite 1"
    by (simp add: round64_def round_half_even_def Let_def pow2_def)
  then show ?thesis by (simp add: lease_window_def clock_now_def fl_isfinite_def fl_le_def Let_def)
qed

theorem absorbed_lease_not_exclusive_witness:
  "select_job ''job-1'' (snd (claim noon (Finite 0) ''w2'' (Finite (1 / 1152921504606846976)) (Some (Finite 1))
      (snd (claim noon (Finite 0) ''w1'' (Finite (1 / 1152921504606846976)) (Some (Finite 1)) queued_db)))) =
    Some (lease_row ''w2'' (Finite 1) (utc_now noon) (lease_row ''w1'' (Finite 1) (utc_now noon) sample_row))"
  using absorbed_lease_not_exclusive [OF sample_ok(1) _ _ absorbed_window queued_next, of "''w1''" "''w2''" noon]
  by (simp add: sample_row_def)

section \<open>Time stamps\<close>

text \<open>Fields of one width compare as numbers, and equal-length prefixes decide first.\<close>

lemma length_digits [simp]: "length (digits w n) = w"
  by (induction w arbitrary: n) auto

lemma append_less_iff:
  fixes xs ys :: "'a::linorder list"
  shows "length xs = length ys \<Longrightarrow> xs @ us < ys @ vs \<longleftrightarrow> xs < ys \<or> xs = ys \<and> us < vs"
  by (induction xs ys rule: list_induct2) auto

lemma digit_char_less: "m < 10 \<Longrightarrow> n < 10 \<Longrightarrow> digit_char m < digit_char n \<longleftrightarrow> m < n"
  by (simp add: digit_char_def less_char_def)

lemma digits_eq: "m < 10 ^ w \<Longrightarrow> n < 10 ^ w \<Longrightarrow> digits w m = digits w n \<longleftrightarrow> m = n"
proof (induction w arbitrary: m n)
  case (Suc w)
  then have "digits w (m div 10) = digits w (n div 10) \<longleftrightarrow> m div 10 = n div 10"
    by (intro Suc.IH) (simp_all add: less_mult_imp_div_less mult.commute)
  moreover have "digit_char (m mod 10) = digit_char (n mod 10) \<longleftrightarrow> m mod 10 = n mod 10"
    by (metis digit_char_small mod_less_divisor zero_less_numeral)
  ultimately show ?case by (simp, metis div_mult_mod_eq)
qed simp

lemma div_mod_less: "(m::nat) < n \<longleftrightarrow> m div 10 < n div 10 \<or> m div 10 = n div 10 \<and> m mod 10 < n mod 10"
proof -
  have "m = m div 10 * 10 + m mod 10" "n = n div 10 * 10 + n mod 10" "m mod 10 < 10" "n mod 10 < 10" by simp_all
  then show ?thesis by (cases "m div 10" "n div 10" rule: linorder_cases) linarith+
qed

lemma digits_less: "m < 10 ^ w \<Longrightarrow> n < 10 ^ w \<Longrightarrow> digits w m < digits w n \<longleftrightarrow> m < n"
proof (induction w arbitrary: m n)
  case (Suc w)
  have small: "m div 10 < 10 ^ w" "n div 10 < 10 ^ w"
    using Suc.prems by (auto intro!: less_mult_imp_div_less simp: mult.commute)
  have last: "[digit_char (m mod 10)] < [digit_char (n mod 10)] \<longleftrightarrow> m mod 10 < n mod 10"
    using digit_char_less [of "m mod 10" "n mod 10"] by simp
  show ?case
    unfolding digits.simps append_less_iff [OF trans [OF length_digits length_digits [symmetric]]]
      Suc.IH [OF small] digits_eq [OF small] last div_mod_less [of m n] ..
qed simp

text \<open>Chronological order.\<close>

definition time_less :: "utc_time \<Rightarrow> utc_time \<Rightarrow> bool" where
  "time_less s t \<longleftrightarrow>
     (year s, month s, day s, hour s, minute s, second s, microsecond s) <
     (year t, month t, day t, hour t, minute t, second t, microsecond t)"

text \<open>
  Time stamps order jobs by time, as text, whenever neither of them falls on a whole second; at a whole
  second the text omits the fraction, and then sorts after every other instant of that second.
\<close>

theorem utc_now_order:
  assumes "valid_time s" and "valid_time t"
  shows "(microsecond s \<noteq> 0 \<and> microsecond t \<noteq> 0 \<longrightarrow> (utc_now s < utc_now t \<longleftrightarrow> time_less s t)) \<and>
     (microsecond t \<noteq> 0 \<and> s = t\<lparr>microsecond := 0\<rparr> \<longrightarrow> time_less s t \<and> utc_now t < utc_now s)"
proof (intro conjI impI)
  note cmp = append_less_iff digits_less digits_eq
  have pair: "((a, b) < (c, e)) \<longleftrightarrow> a < c \<or> a = c \<and> b < e" for a c :: nat and b e :: "'x::linorder" by auto
  assume "microsecond s \<noteq> 0 \<and> microsecond t \<noteq> 0"
  with assms show "utc_now s < utc_now t \<longleftrightarrow> time_less s t"
    by (simp add: utc_now_def time_less_def valid_time_def cmp pair del: less_prod_simp)
next
  assume "microsecond t \<noteq> 0 \<and> s = t\<lparr>microsecond := 0\<rparr>"
  then show "time_less s t" "utc_now t < utc_now s"
    by (simp_all add: utc_now_def time_less_def append_less_iff less_char_def)
qed

theorem utc_now_order_witness:
  "time_less (noon\<lparr>microsecond := 0\<rparr>) noon \<and> utc_now noon < utc_now (noon\<lparr>microsecond := 0\<rparr>)"
  using utc_now_order [of "noon\<lparr>microsecond := 0\<rparr>" noon] by (simp add: valid_time_def noon_def)

section \<open>Submission\<close>

definition queued_row :: "string \<Rightarrow> string \<Rightarrow> string \<Rightarrow> string \<Rightarrow> string \<Rightarrow> job_row" where
  "queued_row job_id key kind payload_json now = \<lparr>j_job_id = job_id, j_idempotency_key = key, j_kind = kind,
     j_payload_json = payload_json, j_status = Queued, j_lease_owner = None, j_lease_expires_at = None,
     j_attempts = 0, j_result_json = None, j_created_at = now, j_updated_at = now\<rparr>"

lemma enqueue_eq:
  assumes ok: "queue_ok d" and "py_strip kind \<noteq> []" "py_strip key \<noteq> []" "json_encodable payload"
  shows "enqueue uuid utc kind payload key d = (case select_job_by_key (py_strip key) d of
       Some row \<Rightarrow> (if j_kind row \<noteq> py_strip kind \<or> j_payload_json row \<noteq> json_dumps payload
          then Inl (IdempotencyConflictError ''idempotency key is already bound to a different request'') else job_from_row row, d)
     | None \<Rightarrow> if ''job-'' @ uuid \<in> j_job_id ` set (db_jobs d) then (Inl (IntegrityError ''UNIQUE constraint failed: jobs.job_id''), d)
         else let row = queued_row (''job-'' @ uuid) (py_strip key) (py_strip kind) (json_dumps payload) (utc_now utc)
              in (job_from_row row, d\<lparr>db_jobs := db_jobs d @ [row]\<rparr>))"
proof -
  have find_append: "find P (xs @ [x]) = (case find P xs of None \<Rightarrow> if P x then Some x else None | Some y \<Rightarrow> Some y)"
    for P and xs :: "job_row list" and x by (induction xs) auto
  show ?thesis
  proof (cases "select_job_by_key (py_strip key) d")
    case None
    then have "py_strip key \<notin> j_idempotency_key ` set (db_jobs d)" by (simp add: select_job_by_key_def find_None_image)
    with None assms(2-) show ?thesis
      by (auto simp: enqueue_def Let_def queue_json_def transaction_def returning_def insert_job_def job_check_def queued_row_def
          select_job_by_key_def find_append)
  next
    case (Some row)
    then have "py_strip key \<in> j_idempotency_key ` set (db_jobs d)"
      using find_None_image [of j_idempotency_key "py_strip key" "db_jobs d"] by (auto simp: select_job_by_key_def)
    with Some assms(2-) show ?thesis
      by (auto simp: enqueue_def Let_def queue_json_def transaction_def returning_def insert_job_def)
  qed
qed

lemma job_from_row_id: "job_from_row row = Inr rec \<Longrightarrow> r_job_id rec = j_job_id row \<and> r_status rec = j_status row \<and> r_attempts rec = j_attempts row"
  by (auto simp: job_from_row_def result_simps split: option.splits)

text \<open>An accepted submission leaves a row that holds the request under its key.\<close>

lemma enqueue_row:
  assumes ok: "queue_ok d" and enq: "enqueue uuid utc kind payload key d = (Inr rec, d')"
  obtains row where "row \<in> set (db_jobs d')" "j_job_id row = r_job_id rec" "j_idempotency_key row = py_strip key"
    "j_kind row = py_strip kind" "j_payload_json row = json_dumps payload"
proof -
  have nonempty: "py_strip kind \<noteq> []" "py_strip key \<noteq> []" "json_encodable payload"
    using enq by (auto simp: enqueue_def Let_def with_input_eq queue_json_def split: if_splits)
  note eq = enqueue_eq [OF ok nonempty, of uuid utc]
  show thesis
  proof (cases "select_job_by_key (py_strip key) d")
    case None
    with enq eq show ?thesis
      by (intro that [of "queued_row (''job-'' @ uuid) (py_strip key) (py_strip kind) (json_dumps payload) (utc_now utc)"])
        (auto simp: Let_def queued_row_def dest!: job_from_row_id split: if_splits)
  next
    case (Some row)
    then have "row \<in> set (db_jobs d)" "j_idempotency_key row = py_strip key"
      by (simp_all add: select_job_by_key_def find_Some_iff [OF queue_okD(2) [OF ok]])
    with Some enq eq show ?thesis by (intro that [of row]) (auto dest!: job_from_row_id split: if_splits)
  qed
qed

text \<open>
  C24. Submission is idempotent for good: once a request has been accepted under a key, and whatever calls follow, submitting
  again under that key adds nothing; the same request gets the same job, in its current state, and any other
  request is refused as a conflict.
\<close>

theorem enqueue_idempotent:
  assumes "queue_ok d" and "enqueue uuid utc kind payload key d = (Inr rec, d1)" and "queue_step\<^sup>*\<^sup>* d1 d2"
    and "py_strip key' = py_strip key" and "py_strip kind' \<noteq> []" and "json_encodable payload'"
  shows "\<exists>row\<in>set (db_jobs d2). j_job_id row = r_job_id rec \<and>
     enqueue uuid' utc' kind' payload' key' d2 =
       (if py_strip kind' = py_strip kind \<and> json_dumps payload' = json_dumps payload then job_from_row row
        else Inl (IdempotencyConflictError ''idempotency key is already bound to a different request''), d2)"
proof -
  from enqueue_row [OF assms(1,2)] obtain row where row: "row \<in> set (db_jobs d1)" "j_job_id row = r_job_id rec"
    "j_idempotency_key row = py_strip key" "j_kind row = py_strip kind" "j_payload_json row = json_dumps payload" .
  have key: "py_strip key' \<noteq> []"
    using assms(2,4) by (auto simp: enqueue_def Let_def with_input_eq split: if_splits)
  have ok1: "queue_ok d1" using queue_ok_step [OF assms(1) step_enqueue [OF assms(2)]] .
  note ok2 = queue.inv_run [OF assms(3) ok1]
  from queue.le_run [OF assms(3) ok1] row(1) obtain row' where row': "row' \<in> set (db_jobs d2)" "row_le row row'"
    by (auto simp: db_le_def)
  then have "select_job_by_key (py_strip key') d2 = Some row'"
    using row(3) assms(4) by (simp add: select_job_by_key_def find_Some_iff [OF queue_okD(2) [OF ok2]] row_le_def)
  with row' row show ?thesis
    by (intro bexI [of _ row']) (auto simp: enqueue_eq [OF ok2 assms(5) key assms(6)] row_le_def)
qed

lemma job_from_row_sample: "\<exists>rec. job_from_row sample_row = Inr rec"
proof -
  have "json_loads ''{}'' = Inr (PDict [])" by code_simp
  then show ?thesis by (simp add: job_from_row_def sample_row_def)
qed

theorem enqueue_idempotent_witness:
  "\<exists>row\<in>set (db_jobs leased_db). enqueue ''2'' noon ''coding-agent'' (PDict []) ''key'' leased_db = (job_from_row row, leased_db)"
proof -
  have "fst (enqueue ''1'' noon ''coding-agent'' (PDict []) ''key'' start_db) = job_from_row sample_row" by code_simp
  then obtain rec where enq: "enqueue ''1'' noon ''coding-agent'' (PDict []) ''key'' start_db = (Inr rec, queued_db)"
    by (metis (no_types) queued_db_def prod.collapse job_from_row_sample)
  have "queue_step\<^sup>*\<^sup>* queued_db leased_db"
    unfolding leased_db_def by (rule r_into_rtranclp, rule step_claim) (rule surjective_pairing)
  moreover have "py_strip ''coding-agent'' = ''coding-agent''" by code_simp
  ultimately show ?thesis
    using enqueue_idempotent [OF start_db_ok enq, of leased_db "''key''" "''coding-agent''" "PDict []" "''2''" noon] by auto
qed

section \<open>Migrations\<close>

definition schema_objects :: "string list" where
  "schema_objects = [''metadata'', ''jobs'', ''jobs_claimable'', ''attempt_finished'', ''task_outcomes'', ''attempt_finished_no_update'',
     ''attempt_finished_no_delete'', ''task_outcomes_no_update'', ''task_outcomes_no_delete'']"

text \<open>The objects a database of a given schema version has.\<close>

definition at_version :: "int \<Rightarrow> db \<Rightarrow> bool" where
  "at_version v d \<longleftrightarrow> (if v = 0 then db_schema_version d = None
     else db_schema_version d = Some (show_int v) \<and> set (db_objects d) \<supseteq> set (take (if v = 1 then 3 else 9) schema_objects))"

lemma create_if_missing_fields [simp]:
  "db_schema_version (create_if_missing n d) = db_schema_version d" "db_jobs (create_if_missing n d) = db_jobs d"
  "db_attempts (create_if_missing n d) = db_attempts d" "db_outcomes (create_if_missing n d) = db_outcomes d"
  "set (db_objects (create_if_missing n d)) = insert n (set (db_objects d))"
  by (auto simp: create_if_missing_def)

lemma create_all_fields [simp]:
  "db_jobs (fold create_if_missing ns d) = db_jobs d" "db_attempts (fold create_if_missing ns d) = db_attempts d"
  "db_outcomes (fold create_if_missing ns d) = db_outcomes d"
  "set (db_objects (fold create_if_missing ns d)) = set ns \<union> set (db_objects d)"
  by (induction ns arbitrary: d) auto

lemma py_int_of_show:
  assumes "0 \<le> v"
  shows "py_int_of_string (show_int v) = Some v"
proof -
  have dig: "list_all is_digit (show_int v)" using assms show_nat_digits by (simp add: show_int_def)
  have "is_digit c \<Longrightarrow> \<not> py_isspace c" for c by (auto simp: is_digit_def py_isspace_def py_ord_def Let_def)
  with dig have strip: "py_strip (show_int v) = show_int v" by (intro py_strip_id) (auto simp: list_all_iff)
  have run: "list_all is_digit s \<Longrightarrow> int_digits True s" for s by (induction s) auto
  have nonempty: "show_int v \<noteq> []" using assms by (simp add: show_int_def)
  then have "is_digit (hd (show_int v))" using dig by (metis list.set_sel(1) list_all_iff)
  moreover have "\<not> is_digit (CHR ''-'')" "\<not> is_digit (CHR ''+'')" by code_simp+
  ultimately have sign: "hd (show_int v) \<notin> {CHR ''-'', CHR ''+''}" by auto
  have "int_digits False (show_int v)"
    using dig nonempty run by (cases "show_int v") auto
  moreover have "filter is_digit (show_int v) = show_int v" using dig by (simp add: list_all_iff)
  ultimately show ?thesis using sign assms
    by (simp add: py_int_of_string_def strip Let_def) (simp add: show_int_def)
qed

lemma initialize_migrates:
  assumes "(case db_schema_version d of None \<Rightarrow> Inr 0 | Some raw \<Rightarrow> schema_version raw) = Inr v" and "v \<in> {0, 1, 2}"
  shows "\<exists>d'. initialize d = (Inr (), d') \<and> db_jobs d' = db_jobs d \<and> db_attempts d' = db_attempts d \<and> db_outcomes d' = db_outcomes d \<and>
     set (db_objects d') =
       set (db_objects d) \<union> set (''metadata'' # (if v = 0 then the (MIGRATIONS 1) else []) @ (if v = 2 then [] else the (MIGRATIONS 2))) \<and>
     (if v = 2 then db_schema_version d' = db_schema_version d \<and> (''metadata'' \<in> set (db_objects d) \<longrightarrow> d' = d)
      else db_schema_version d' = Some (show_int 2))"
proof -
  have ranges: "[1 .. 2] = [1, 2::int]" "[2 .. 2] = [2::int]" "[3 .. 2] = ([]::int list)" by (simp_all add: upto.simps)
  from assms(2) show ?thesis
    using assms(1) by (elim insertE emptyE)
      (auto simp: initialize_def transaction_def SCHEMA_VERSION_def ranges MIGRATIONS_def create_if_missing_def [of _ d] Let_def
        simp del: fold_simps)
qed

text \<open>
  C25. Initialisation brings a database of any supported version to the current schema, with all its tables and
  triggers and with its rows untouched; run again it changes nothing; and a database of a newer version is refused
  and left as it is.
\<close>

theorem initialize_exact:
  "(v \<in> {0, 1, 2} \<and> at_version v d \<longrightarrow>
      (\<exists>d'. initialize d = (Inr (), d') \<and> at_version 2 d' \<and> initialize d' = (Inr (), d') \<and>
         db_jobs d' = db_jobs d \<and> db_attempts d' = db_attempts d \<and> db_outcomes d' = db_outcomes d)) \<and>
   (2 < v \<and> db_schema_version d = Some (show_int v) \<longrightarrow> (\<exists>msg. initialize d = (Inl (RuntimeError msg), d)))"
proof (intro conjI impI; elim conjE)
  have version: "schema_version (show_int w) = Inr w" if "0 \<le> w" for w
    using that by (simp add: schema_version_def py_int_of_show)
  assume v: "v \<in> {0, 1, 2}" "at_version v d"
  then have "(case db_schema_version d of None \<Rightarrow> Inr 0 | Some raw \<Rightarrow> schema_version raw) = Inr v"
    using version by (auto simp: at_version_def)
  from initialize_migrates [OF this v(1)] obtain d' where d': "initialize d = (Inr (), d')" "db_jobs d' = db_jobs d"
    "db_attempts d' = db_attempts d" "db_outcomes d' = db_outcomes d" "at_version 2 d'"
    using v by (auto simp: at_version_def schema_objects_def MIGRATIONS_def)
  moreover have "initialize d' = (Inr (), d')"
    using initialize_migrates [of d' 2] version [of 2] d'(5) by (auto simp: at_version_def schema_objects_def)
  ultimately show "\<exists>d'. initialize d = (Inr (), d') \<and> at_version 2 d' \<and> initialize d' = (Inr (), d') \<and>
      db_jobs d' = db_jobs d \<and> db_attempts d' = db_attempts d \<and> db_outcomes d' = db_outcomes d" by blast
next
  assume "2 < v" "db_schema_version d = Some (show_int v)"
  then show "\<exists>msg. initialize d = (Inl (RuntimeError msg), d)"
    by (simp add: initialize_def transaction_def SCHEMA_VERSION_def schema_version_def py_int_of_show)
qed

theorem initialize_exact_witness:
  "\<exists>d'. initialize start_db = (Inr (), d') \<and> at_version 2 d'"
proof -
  have "show_int 2 = ''2''" by code_simp
  then have "at_version 2 start_db" by (simp add: at_version_def start_db_eq schema_objects_def)
  then show ?thesis using initialize_exact [of 2 start_db] by auto
qed

end
