(* ===== verification/Verification_Contracts.thy ===== *)
theory Verification_Contracts
  imports Run_Contracts
begin

text \<open>
  The contracts of one verification run, \<^verbatim>\<open>contracts/verification.py\<close>: the commands that are run, the result of
  each, the request and the receipt. Each dataclass is a record with its constructor \<open>mk_\<dots>\<close>, encoder, digest and
  decoder. The lemmas show which receipts survive storage and what a stored receipt commits to.
\<close>

section \<open>Field checks\<close>

definition opt_string :: "pyobj \<Rightarrow> string \<Rightarrow> string option result" where
  "opt_string raw label = (if raw = PNone then Inr None else bindE (req_string raw label) (\<lambda>s. Inr (Some s)))"

definition as_bool :: "pyobj \<Rightarrow> string \<Rightarrow> bool result" where
  "as_bool raw label = (case raw of PBool b \<Rightarrow> Inr b | _ \<Rightarrow> Inl (ValueError (label @ '' must be a boolean'')))"

definition string_tuple :: "pyobj \<Rightarrow> string \<Rightarrow> string list result" where
  "string_tuple raw label = expect_strings raw (label @ '' must be a string list'')"

definition relative_path :: "pyobj \<Rightarrow> string \<Rightarrow> string result" where
  "relative_path raw label = bindE (req_string raw label) (\<lambda>v.
     if \<not> safe_relative v then Inl (ValueError (label @ '' must be a safe relative path'')) else Inr v)"

definition validate_run_id :: "string \<Rightarrow> unit result" where
  "validate_run_id v = (if \<not> is_safe_id 127 v \<or> v \<in> {''.'', ''..''}
     then Inl (ValueError ''verification run ID contains unsafe characters'') else Inr ())"

text \<open>A field of type \<open>str | None\<close> that passes the check of \<open>_string\<close> when it is present.\<close>

definition check_optional :: "string option \<Rightarrow> string \<Rightarrow> unit result" where
  "check_optional v label = (case v of None \<Rightarrow> Inr () | Some s \<Rightarrow> bindE (req_string (PStr s) label) (\<lambda>_. Inr ()))"

text \<open>\<open>not item.strip()\<close>.\<close>

definition is_blank :: "string \<Rightarrow> bool" where
  "is_blank s \<longleftrightarrow> py_strip s = []"

text \<open>Truth of a raw value, and \<open>==\<close> between raw values, where booleans and numbers compare by value.\<close>

definition py_truthy :: "pyobj \<Rightarrow> bool" where
  "py_truthy v = (case v of PNone \<Rightarrow> False | PBool b \<Rightarrow> b | PInt i \<Rightarrow> i \<noteq> 0 | PFloat f \<Rightarrow> f \<noteq> Finite 0 | PStr s \<Rightarrow> s \<noteq> []
     | PList xs \<Rightarrow> xs \<noteq> [] | PTuple xs \<Rightarrow> xs \<noteq> [] | PDict d \<Rightarrow> d \<noteq> [] | POpaque \<Rightarrow> True)"

definition py_number :: "pyobj \<Rightarrow> pyfloat option" where
  "py_number v = (case v of PBool b \<Rightarrow> Some (Finite (if b then 1 else 0)) | PInt i \<Rightarrow> Some (Finite (of_int i)) | PFloat f \<Rightarrow> Some f
     | _ \<Rightarrow> None)"

fun py_eq :: "pyobj \<Rightarrow> pyobj \<Rightarrow> bool" where
  "py_eq (PList xs) b = (case b of PList ys \<Rightarrow> list_all2 py_eq xs ys | _ \<Rightarrow> False)"
| "py_eq (PTuple xs) b = (case b of PTuple ys \<Rightarrow> list_all2 py_eq xs ys | _ \<Rightarrow> False)"
| "py_eq (PDict d) b = (case b of PDict e \<Rightarrow> list_all2 (\<lambda>kv lw. fst kv = fst lw \<and> py_eq (snd kv) (snd lw)) d e | _ \<Rightarrow> False)"
| "py_eq (PStr s) b = (b = PStr s)"
| "py_eq PNone b = (b = PNone)"
| "py_eq POpaque b = False"
| "py_eq a b = (py_number b = py_number a \<and> py_number a \<noteq> Some NaN)"

section \<open>Commands\<close>

record command_spec =
  cs_name :: string
  cs_argv :: "string list"
  cs_timeout_seconds :: pyfloat
  cs_criteria :: "string list"

definition mk_command_spec :: "command_spec \<Rightarrow> command_spec result" where
  "mk_command_spec c =
     (if is_blank (cs_name c) then Inl (ValueError ''verification command name must be non-empty'')
      else if cs_argv c = [] \<or> (\<exists>item\<in>set (cs_argv c). is_blank item \<or> CHR 0x00 \<in> set item)
      then Inl (ValueError (''verification command '' @ py_repr (cs_name c) @ '' requires non-empty argv''))
      else if \<not> fl_isfinite (cs_timeout_seconds c) \<or> fl_le (cs_timeout_seconds c) (Finite 0)
      then Inl (ValueError (''verification command '' @ py_repr (cs_name c) @ '' requires a positive timeout''))
      else if cs_criteria c = [] \<or> (\<exists>item\<in>set (cs_criteria c). is_blank item) \<or> \<not> distinct (cs_criteria c)
      then Inl (ValueError (''verification command '' @ py_repr (cs_name c) @ '' requires unique acceptance criteria''))
      else Inr c)"

definition command_spec_to_dict :: "command_spec \<Rightarrow> pyobj" where
  "command_spec_to_dict c = PDict (py_dict
     [(''name'', PStr (cs_name c)), (''argv'', PList (map PStr (cs_argv c))), (''timeout_seconds'', PFloat (cs_timeout_seconds c)),
      (''criteria'', PList (map PStr (cs_criteria c)))])"

text \<open>\<open>float(timeout)\<close> after the test that the value is numeric; an integer may be too large for it.\<close>

definition as_timeout :: "pyobj \<Rightarrow> string \<Rightarrow> pyfloat result" where
  "as_timeout raw msg = (case raw of PInt i \<Rightarrow> float_of_int i | PFloat f \<Rightarrow> Inr f | _ \<Rightarrow> Inl (ValueError msg))"

definition is_numeric :: "pyobj \<Rightarrow> bool" where
  "is_numeric raw = (case raw of PInt _ \<Rightarrow> True | PFloat _ \<Rightarrow> True | _ \<Rightarrow> False)"

definition command_spec_from_dict :: "pyobj \<Rightarrow> command_spec result" where
  "command_spec_from_dict raw =
     bindE (strict_object raw [''name'', ''argv'', ''timeout_seconds'', ''criteria''] [] ''verification command'' ValueError) (\<lambda>d.
     bindE (dict_item d ''timeout_seconds'') (\<lambda>timeout.
     if \<not> is_numeric timeout then Inl (ValueError ''verification command timeout must be numeric'') else
     bindE (field d ''name'' req_string ''verification command name'') (\<lambda>name.
     bindE (field d ''argv'' string_tuple ''verification command argv'') (\<lambda>argv.
     bindE (as_timeout timeout ''verification command timeout must be numeric'') (\<lambda>timeout_seconds.
     bindE (field d ''criteria'' string_tuple ''verification command criteria'') (\<lambda>criteria.
     mk_command_spec \<lparr>cs_name = name, cs_argv = argv, cs_timeout_seconds = timeout_seconds, cs_criteria = criteria\<rparr>))))))"

section \<open>Command results\<close>

definition FAILURE_CATEGORIES :: "string list" where
  "FAILURE_CATEGORIES = [''assertion_failure'', ''command_failure'', ''execution_error'', ''launch_error'', ''output_limit'',
     ''process_leak'', ''timeout'', ''workspace_mutation'']"

record command_result =
  cr_name :: string
  cr_argv :: "string list"
  cr_criteria :: "string list"
  cr_passed :: bool
  cr_timed_out :: bool
  cr_exit_code :: "int option"
  cr_duration_ms :: int
  cr_executable_path :: "string option"
  cr_executable_sha256 :: "string option"
  cr_stdout_path :: string
  cr_stderr_path :: string
  cr_workspace_state_before :: string
  cr_workspace_state_after :: string
  cr_workspace_unchanged :: bool
  cr_failure_category :: "string option"
  cr_error :: "string option"

text \<open>The last two checks, which the constructor and the decoder both make.\<close>

definition check_verdict :: "command_result \<Rightarrow> unit result" where
  "check_verdict c =
     (if cr_passed c \<and> (cr_timed_out c \<or> cr_exit_code c \<noteq> Some 0 \<or> \<not> cr_workspace_unchanged c \<or> cr_failure_category c \<noteq> None \<or> cr_error c \<noteq> None)
      then Inl (ValueError ''passing verification command result is inconsistent'')
      else if \<not> cr_passed c \<and> cr_failure_category c = None
      then Inl (ValueError ''failed verification command requires a failure category'') else Inr ())"

definition check_executable_digest :: "string option \<Rightarrow> unit result" where
  "check_executable_digest v = (if pred_option is_sha256 v then Inr () else Inl (ValueError ''verification executable digest must be SHA-256''))"

definition check_failure_category :: "string option \<Rightarrow> unit result" where
  "check_failure_category v = (if pred_option (\<lambda>c. c \<in> set FAILURE_CATEGORIES) v then Inr ()
     else Inl (ValueError ''verification failure category is unsupported''))"

definition mk_command_result :: "command_result \<Rightarrow> command_result result" where
  "mk_command_result c =
     bindE (req_string (PStr (cr_name c)) ''verification command result name'') (\<lambda>_.
     if cr_argv c = [] \<or> (\<exists>item\<in>set (cr_argv c). is_blank item \<or> CHR 0x00 \<in> set item)
     then Inl (ValueError ''verification command result argv is invalid'')
     else if \<exists>item\<in>set (cr_criteria c). is_blank item then Inl (ValueError ''verification command result criteria is invalid'')
     else if cr_duration_ms c < 0 then Inl (ValueError ''verification command result duration must be non-negative'')
     else bindE (check_optional (cr_executable_path c) ''verification executable path'') (\<lambda>_.
     bindE (check_executable_digest (cr_executable_sha256 c)) (\<lambda>_.
     bindE (relative_path (PStr (cr_stdout_path c)) ''verification stdout path'') (\<lambda>_.
     bindE (relative_path (PStr (cr_stderr_path c)) ''verification stderr path'') (\<lambda>_.
     bindE (req_string (PStr (cr_workspace_state_before c)) ''verification command state before'') (\<lambda>_.
     bindE (req_string (PStr (cr_workspace_state_after c)) ''verification command state after'') (\<lambda>_.
     if cr_workspace_unchanged c \<noteq> (cr_workspace_state_before c = cr_workspace_state_after c)
     then Inl (ValueError ''verification command workspace state claim is inconsistent'')
     else bindE (check_failure_category (cr_failure_category c)) (\<lambda>_.
     bindE (check_optional (cr_error c) ''verification command error'') (\<lambda>_.
     bindE (check_verdict c) (\<lambda>_. Inr c))))))))))"

definition opt_int :: "int option \<Rightarrow> pyobj" where
  "opt_int v = (case v of None \<Rightarrow> PNone | Some i \<Rightarrow> PInt i)"

definition command_result_to_dict :: "command_result \<Rightarrow> pyobj" where
  "command_result_to_dict c = PDict (py_dict
     [(''name'', PStr (cr_name c)), (''argv'', PList (map PStr (cr_argv c))), (''criteria'', PList (map PStr (cr_criteria c))),
      (''passed'', PBool (cr_passed c)), (''timed_out'', PBool (cr_timed_out c)), (''exit_code'', opt_int (cr_exit_code c)),
      (''duration_ms'', PInt (cr_duration_ms c)), (''executable_path'', opt_str (cr_executable_path c)),
      (''executable_sha256'', opt_str (cr_executable_sha256 c)), (''stdout_path'', PStr (cr_stdout_path c)),
      (''stderr_path'', PStr (cr_stderr_path c)), (''workspace_state_before'', PStr (cr_workspace_state_before c)),
      (''workspace_state_after'', PStr (cr_workspace_state_after c)), (''workspace_unchanged'', PBool (cr_workspace_unchanged c)),
      (''failure_category'', opt_str (cr_failure_category c)), (''error'', opt_str (cr_error c))])"

definition as_exit_code :: "pyobj \<Rightarrow> string \<Rightarrow> int option result" where
  "as_exit_code raw msg = (case raw of PNone \<Rightarrow> Inr None | PInt i \<Rightarrow> Inr (Some i) | _ \<Rightarrow> Inl (ValueError msg))"

definition as_duration :: "pyobj \<Rightarrow> string \<Rightarrow> int result" where
  "as_duration raw msg = (case raw of PInt i \<Rightarrow> if i < 0 then Inl (ValueError msg) else Inr i | _ \<Rightarrow> Inl (ValueError msg))"

definition command_result_from_dict :: "pyobj \<Rightarrow> command_result result" where
  "command_result_from_dict raw =
     bindE (strict_object raw [''name'', ''argv'', ''criteria'', ''passed'', ''timed_out'', ''exit_code'', ''duration_ms'',
       ''executable_path'', ''executable_sha256'', ''stdout_path'', ''stderr_path'', ''workspace_state_before'',
       ''workspace_state_after'', ''workspace_unchanged'', ''failure_category'', ''error''] [] ''verification command result'' ValueError) (\<lambda>d.
     bindE (field d ''exit_code'' as_exit_code ''verification command result exit_code is invalid'') (\<lambda>exit_code.
     bindE (field d ''duration_ms'' as_duration ''verification command result duration must be non-negative'') (\<lambda>duration_ms.
     bindE (field d ''executable_sha256'' opt_string ''verification executable digest'') (\<lambda>executable_sha256.
     bindE (check_executable_digest executable_sha256) (\<lambda>_.
     bindE (field d ''failure_category'' opt_string ''verification failure category'') (\<lambda>failure_category.
     bindE (check_failure_category failure_category) (\<lambda>_.
     bindE (field d ''name'' req_string ''verification command result name'') (\<lambda>name.
     bindE (field d ''argv'' string_tuple ''verification command result argv'') (\<lambda>argv.
     bindE (field d ''criteria'' string_tuple ''verification command result criteria'') (\<lambda>criteria.
     bindE (field d ''passed'' as_bool ''verification command result passed'') (\<lambda>passed.
     bindE (field d ''timed_out'' as_bool ''verification command result timed_out'') (\<lambda>timed_out.
     bindE (field d ''executable_path'' opt_string ''verification executable path'') (\<lambda>executable_path.
     bindE (field d ''stdout_path'' relative_path ''verification stdout path'') (\<lambda>stdout_path.
     bindE (field d ''stderr_path'' relative_path ''verification stderr path'') (\<lambda>stderr_path.
     bindE (field d ''workspace_state_before'' req_string ''verification command state before'') (\<lambda>state_before.
     bindE (field d ''workspace_state_after'' req_string ''verification command state after'') (\<lambda>state_after.
     bindE (field d ''workspace_unchanged'' as_bool ''verification command workspace_unchanged'') (\<lambda>workspace_unchanged.
     bindE (field d ''error'' opt_string ''verification command error'') (\<lambda>error.
     bindE (mk_command_result \<lparr>cr_name = name, cr_argv = argv, cr_criteria = criteria, cr_passed = passed, cr_timed_out = timed_out,
       cr_exit_code = exit_code, cr_duration_ms = duration_ms, cr_executable_path = executable_path,
       cr_executable_sha256 = executable_sha256, cr_stdout_path = stdout_path, cr_stderr_path = stderr_path,
       cr_workspace_state_before = state_before, cr_workspace_state_after = state_after,
       cr_workspace_unchanged = workspace_unchanged, cr_failure_category = failure_category, cr_error = error\<rparr>) (\<lambda>res.
     bindE (check_verdict res) (\<lambda>_. Inr res)))))))))))))))))))))"

section \<open>Requests\<close>

record verification_request =
  vq_run_id :: string
  vq_workspace :: string
  vq_workspace_state_before :: string
  vq_commands :: "command_spec list"
  vq_schema_version :: string

definition mk_verification_request :: "verification_request \<Rightarrow> verification_request result" where
  "mk_verification_request q =
     bindE (validate_run_id (vq_run_id q)) (\<lambda>_.
     bindE (req_string (PStr (vq_workspace q)) ''verification request workspace'') (\<lambda>_.
     bindE (req_string (PStr (vq_workspace_state_before q)) ''verification request workspace state'') (\<lambda>_.
     if vq_commands q = [] then Inl (ValueError ''verification request requires commands'')
     else if \<not> distinct (map cs_name (vq_commands q)) then Inl (ValueError ''verification request command names must be unique'')
     else if vq_schema_version q \<noteq> ''sisyphus_harness.verification_request.v1''
     then Inl (ValueError ''unsupported verification request schema'') else Inr q)))"

definition verification_request_items :: "verification_request \<Rightarrow> pydict" where
  "verification_request_items q =
     [(''run_id'', PStr (vq_run_id q)), (''workspace'', PStr (vq_workspace q)),
      (''workspace_state_before'', PStr (vq_workspace_state_before q)),
      (''commands'', PList (map command_spec_to_dict (vq_commands q))), (''schema_version'', PStr (vq_schema_version q))]"

definition verification_request_digest :: "verification_request \<Rightarrow> string" where
  "verification_request_digest q = wire_digest (PDict (py_dict (verification_request_items q)))"

definition verification_request_to_dict :: "verification_request \<Rightarrow> pyobj" where
  "verification_request_to_dict q =
     PDict (py_dict (verification_request_items q @ [(''request_digest'', PStr (verification_request_digest q))]))"

definition verification_request_from_dict :: "pyobj \<Rightarrow> verification_request result" where
  "verification_request_from_dict raw =
     bindE (strict_object raw [''run_id'', ''workspace'', ''workspace_state_before'', ''commands'', ''schema_version'', ''request_digest'']
       [] ''verification request'' ValueError) (\<lambda>d.
     bindE (field d ''commands'' expect_list ''verification request commands must be a list'') (\<lambda>commands_raw.
     bindE (field d ''run_id'' req_string ''verification request run ID'') (\<lambda>run_id.
     bindE (field d ''workspace'' req_string ''verification request workspace'') (\<lambda>workspace.
     bindE (field d ''workspace_state_before'' req_string ''verification request state'') (\<lambda>state_before.
     bindE (mapE command_spec_from_dict commands_raw) (\<lambda>commands.
     bindE (field d ''schema_version'' req_string ''verification request schema'') (\<lambda>schema.
     bindE (mk_verification_request \<lparr>vq_run_id = run_id, vq_workspace = workspace, vq_workspace_state_before = state_before,
       vq_commands = commands, vq_schema_version = schema\<rparr>) (\<lambda>request.
     bindE (field d ''request_digest'' req_string ''verification request digest'') (\<lambda>recorded.
     if recorded \<noteq> verification_request_digest request
     then Inl (ValueError ''verification request digest does not match content'') else Inr request)))))))))"

section \<open>Receipts\<close>

record verification_receipt =
  vr_run_id :: string
  vr_workspace :: string
  vr_worktree_commit_sha :: string
  vr_started_at :: string
  vr_finished_at :: string
  vr_passed :: bool
  vr_commands :: "command_result list"
  vr_workspace_state_before :: string
  vr_workspace_state_after :: string
  vr_workspace_unchanged :: bool
  vr_request_digest :: string
  vr_schema_version :: string
  vr_workspace_bundle_id :: "string option"
  vr_profile_digest :: "string option"
  vr_execution_identity_digest :: "string option"
  vr_verifier_asset_bundle_id :: "string option"

definition RECEIPT_V1 :: string where "RECEIPT_V1 = ''sisyphus_harness.verification.v1''"
definition RECEIPT_V2 :: string where "RECEIPT_V2 = ''sisyphus_harness.verification.v2''"
definition RECEIPT_V3 :: string where "RECEIPT_V3 = ''sisyphus_harness.verification.v3''"

definition criteria_payload :: "command_result list \<Rightarrow> pyobj" where
  "criteria_payload commands = PList (concat (map (\<lambda>command. map (\<lambda>criterion. PDict (py_dict
     [(''criterion'', PStr criterion), (''command_name'', PStr (cr_name command)), (''passed'', PBool (cr_passed command))]))
     (cr_criteria command)) commands))"

definition legacy_request_digest :: "verification_receipt \<Rightarrow> string" where
  "legacy_request_digest r = wire_digest (PDict (py_dict
     [(''run_id'', PStr (vr_run_id r)), (''workspace'', PStr (vr_workspace r)),
      (''workspace_state_before'', PStr (vr_workspace_state_before r)),
      (''commands'', PList (map (\<lambda>c. PDict (py_dict [(''name'', PStr (cr_name c)), (''argv'', PList (map PStr (cr_argv c))),
         (''criteria'', PList (map PStr (cr_criteria c)))])) (vr_commands r)))]))"

text \<open>The bindings to a bundle, profile and execution identity, which only the third schema has.\<close>

definition check_bindings :: "verification_receipt \<Rightarrow> unit result" where
  "check_bindings r =
     (if vr_schema_version r \<in> {RECEIPT_V1, RECEIPT_V2}
      then if vr_workspace_bundle_id r \<noteq> None \<or> vr_profile_digest r \<noteq> None \<or> vr_execution_identity_digest r \<noteq> None
             \<or> vr_verifier_asset_bundle_id r \<noteq> None
           then Inl (ValueError ''legacy verification receipt cannot contain v3 bindings'') else Inr ()
      else bindE (req_string (opt_str (vr_workspace_bundle_id r)) ''verification receipt bundle ID'') (\<lambda>_.
        bindE (checkE (\<lambda>(v, label). case v of Some s \<Rightarrow> if is_sha256 s then Inr () else Inl (ValueError (label @ '' must be SHA-256''))
            | None \<Rightarrow> Inl (ValueError (label @ '' must be SHA-256'')))
          [(vr_profile_digest r, ''verification receipt profile digest''),
           (vr_execution_identity_digest r, ''verification receipt execution identity digest'')]) (\<lambda>_.
        check_optional (vr_verifier_asset_bundle_id r) ''verification receipt verifier asset bundle ID'')))"

text \<open>A receipt without a request digest gets the one computed from its own fields.\<close>

definition fill_request_digest :: "verification_receipt \<Rightarrow> verification_receipt" where
  "fill_request_digest r = (if vr_request_digest r = [] then r\<lparr>vr_request_digest := legacy_request_digest r\<rparr> else r)"

definition mk_verification_receipt :: "verification_receipt \<Rightarrow> verification_receipt result" where
  "mk_verification_receipt r =
     bindE (validate_run_id (vr_run_id r)) (\<lambda>_.
     bindE (checkE (\<lambda>(v, label). bindE (req_string (PStr v) label) (\<lambda>_. Inr ()))
       [(vr_workspace r, ''verification receipt workspace''), (vr_worktree_commit_sha r, ''verification receipt commit''),
        (vr_started_at r, ''verification receipt start time''), (vr_finished_at r, ''verification receipt finish time''),
        (vr_workspace_state_before r, ''verification receipt state before''),
        (vr_workspace_state_after r, ''verification receipt state after'')]) (\<lambda>_.
     if vr_workspace_unchanged r \<noteq> (vr_workspace_state_before r = vr_workspace_state_after r)
     then Inl (ValueError ''verification receipt workspace state claim is inconsistent'')
     else if vr_schema_version r \<notin> {RECEIPT_V1, RECEIPT_V2, RECEIPT_V3}
     then Inl (ValueError ''unsupported verification receipt schema'')
     else let r = fill_request_digest r in
       if \<not> is_sha256 (vr_request_digest r) then Inl (ValueError ''verification request digest must be SHA-256'')
       else bindE (check_bindings r) (\<lambda>_.
         if vr_passed r \<noteq> (vr_workspace_unchanged r \<and> list_all cr_passed (vr_commands r))
         then Inl (ValueError ''verification receipt pass status is inconsistent'') else Inr r)))"

text \<open>\<open>_unsigned_payload\<close>: all fields, without those the schema does not have, and the criteria projection.\<close>

definition receipt_items :: "verification_receipt \<Rightarrow> pydict" where
  "receipt_items r =
     [(''run_id'', PStr (vr_run_id r)), (''workspace'', PStr (vr_workspace r)), (''worktree_commit_sha'', PStr (vr_worktree_commit_sha r)),
      (''started_at'', PStr (vr_started_at r)), (''finished_at'', PStr (vr_finished_at r)), (''passed'', PBool (vr_passed r)),
      (''commands'', PList (map command_result_to_dict (vr_commands r))),
      (''workspace_state_before'', PStr (vr_workspace_state_before r)), (''workspace_state_after'', PStr (vr_workspace_state_after r)),
      (''workspace_unchanged'', PBool (vr_workspace_unchanged r)), (''schema_version'', PStr (vr_schema_version r)),
      (''criteria'', criteria_payload (vr_commands r))] @
     (if vr_schema_version r = RECEIPT_V1 then [] else [(''request_digest'', PStr (vr_request_digest r))]) @
     (if vr_schema_version r \<in> {RECEIPT_V1, RECEIPT_V2} then []
      else [(''workspace_bundle_id'', opt_str (vr_workspace_bundle_id r)), (''profile_digest'', opt_str (vr_profile_digest r)),
            (''execution_identity_digest'', opt_str (vr_execution_identity_digest r)),
            (''verifier_asset_bundle_id'', opt_str (vr_verifier_asset_bundle_id r))])"

definition receipt_digest :: "verification_receipt \<Rightarrow> string" where
  "receipt_digest r = wire_digest (PDict (py_dict (receipt_items r)))"

definition receipt_to_dict :: "verification_receipt \<Rightarrow> pyobj" where
  "receipt_to_dict r = PDict (py_dict (receipt_items r @
     (if vr_schema_version r \<in> {RECEIPT_V2, RECEIPT_V3} then [(''receipt_digest'', PStr (receipt_digest r))] else [])))"

definition receipt_fields :: "pyobj \<Rightarrow> string list option" where
  "receipt_fields schema =
     (let common = [''run_id'', ''workspace'', ''worktree_commit_sha'', ''started_at'', ''finished_at'', ''passed'', ''commands'',
        ''workspace_state_before'', ''workspace_state_after'', ''workspace_unchanged'', ''schema_version'', ''criteria'']
      in if schema = PStr RECEIPT_V1 then Some common
         else if schema = PStr RECEIPT_V2 then Some (common @ [''request_digest'', ''receipt_digest''])
         else if schema = PStr RECEIPT_V3 then Some (common @ [''request_digest'', ''receipt_digest'', ''workspace_bundle_id'',
           ''profile_digest'', ''execution_identity_digest'', ''verifier_asset_bundle_id''])
         else None)"

text \<open>\<open>_string(digest, label) if digest else ""\<close>.\<close>

definition as_request_digest :: "pyobj \<Rightarrow> string result" where
  "as_request_digest raw = (if py_truthy raw then req_string raw ''verification receipt request digest'' else Inr [])"

definition receipt_from_dict :: "pyobj \<Rightarrow> verification_receipt result" where
  "receipt_from_dict raw = (case raw of PDict d0 \<Rightarrow>
       (case receipt_fields (dict_get d0 ''schema_version'') of None \<Rightarrow> Inl (ValueError ''unsupported verification receipt schema'')
        | Some required \<Rightarrow>
          bindE (strict_object raw required [] ''verification receipt'' ValueError) (\<lambda>d.
          bindE (field d ''commands'' expect_list ''verification receipt commands must be a list'') (\<lambda>commands_raw.
          bindE (mapE command_result_from_dict commands_raw) (\<lambda>commands.
          bindE (field d ''run_id'' req_string ''verification receipt run ID'') (\<lambda>run_id.
          bindE (field d ''workspace'' req_string ''verification receipt workspace'') (\<lambda>workspace.
          bindE (field d ''worktree_commit_sha'' req_string ''verification receipt commit'') (\<lambda>commit.
          bindE (field d ''started_at'' req_string ''verification receipt start time'') (\<lambda>started_at.
          bindE (field d ''finished_at'' req_string ''verification receipt finish time'') (\<lambda>finished_at.
          bindE (field d ''passed'' as_bool ''verification receipt passed'') (\<lambda>passed.
          bindE (field d ''workspace_state_before'' req_string ''verification receipt state before'') (\<lambda>state_before.
          bindE (field d ''workspace_state_after'' req_string ''verification receipt state after'') (\<lambda>state_after.
          bindE (field d ''workspace_unchanged'' as_bool ''verification receipt workspace_unchanged'') (\<lambda>unchanged.
          bindE (as_request_digest (case map_of d ''request_digest'' of Some v \<Rightarrow> v | None \<Rightarrow> PStr [])) (\<lambda>request_digest.
          bindE (field d ''schema_version'' req_string ''verification receipt schema'') (\<lambda>schema.
          bindE (opt_string (dict_get d ''workspace_bundle_id'') ''verification receipt bundle ID'') (\<lambda>bundle_id.
          bindE (opt_string (dict_get d ''profile_digest'') ''verification receipt profile digest'') (\<lambda>profile.
          bindE (opt_string (dict_get d ''execution_identity_digest'') ''verification receipt execution identity digest'') (\<lambda>identity.
          bindE (opt_string (dict_get d ''verifier_asset_bundle_id'') ''verification receipt verifier asset bundle ID'') (\<lambda>assets.
          bindE (mk_verification_receipt \<lparr>vr_run_id = run_id, vr_workspace = workspace, vr_worktree_commit_sha = commit,
            vr_started_at = started_at, vr_finished_at = finished_at, vr_passed = passed, vr_commands = commands,
            vr_workspace_state_before = state_before, vr_workspace_state_after = state_after, vr_workspace_unchanged = unchanged,
            vr_request_digest = request_digest, vr_schema_version = schema, vr_workspace_bundle_id = bundle_id,
            vr_profile_digest = profile, vr_execution_identity_digest = identity, vr_verifier_asset_bundle_id = assets\<rparr>) (\<lambda>receipt.
          bindE (dict_item d ''criteria'') (\<lambda>criteria.
          if \<not> py_eq criteria (criteria_payload commands)
          then Inl (ValueError ''verification receipt criteria projection is inconsistent'')
          else if vr_schema_version receipt \<in> {RECEIPT_V2, RECEIPT_V3}
          then bindE (field d ''receipt_digest'' req_string ''verification receipt digest'') (\<lambda>recorded.
            if recorded \<noteq> receipt_digest receipt then Inl (ValueError ''verification receipt digest does not match content'')
            else Inr receipt)
          else Inr receipt)))))))))))))))))))))
     | _ \<Rightarrow> Inl (ValueError ''verification receipt must be an object''))"

section \<open>Inversion of the checks\<close>

lemma verification_field_eq [simp]:
  "opt_string raw label = Inr x \<longleftrightarrow> raw = opt_str x \<and> pred_option text_ok x"
  "as_bool raw label = Inr b \<longleftrightarrow> raw = PBool b"
  "string_tuple raw label = Inr ss \<longleftrightarrow> raw = PList (map PStr ss)"
  "relative_path raw label = Inr s \<longleftrightarrow> raw = PStr s \<and> text_ok s \<and> safe_relative s"
  "validate_run_id v = Inr u \<longleftrightarrow> is_safe_id 127 v"
  "check_optional o' label = Inr u \<longleftrightarrow> pred_option text_ok o'"
  "as_exit_code raw label = Inr e \<longleftrightarrow> raw = opt_int e"
  "as_duration raw label = Inr i \<longleftrightarrow> raw = PInt i \<and> 0 \<le> i"
  "check_executable_digest o' = Inr u \<longleftrightarrow> pred_option is_sha256 o'"
  "check_failure_category o' = Inr u \<longleftrightarrow> pred_option (\<lambda>c. c \<in> set FAILURE_CATEGORIES) o'"
proof -
  show "opt_string raw label = Inr x \<longleftrightarrow> raw = opt_str x \<and> pred_option text_ok x"
    by (cases x) (auto simp: opt_string_def opt_str_def bindE_eq_Inr)
  show "as_bool raw label = Inr b \<longleftrightarrow> raw = PBool b" by (cases raw) (auto simp: as_bool_def)
  show "string_tuple raw label = Inr ss \<longleftrightarrow> raw = PList (map PStr ss)" by (simp add: string_tuple_def)
  show "relative_path raw label = Inr s \<longleftrightarrow> raw = PStr s \<and> text_ok s \<and> safe_relative s"
    by (auto simp: relative_path_def bindE_eq_Inr)
  have "\<not> is_safe_id 127 ''.''" "\<not> is_safe_id 127 ''..''" by code_simp+
  then show "validate_run_id v = Inr u \<longleftrightarrow> is_safe_id 127 v" by (auto simp: validate_run_id_def)
  show "check_optional o' label = Inr u \<longleftrightarrow> pred_option text_ok o'"
    by (cases o') (auto simp: check_optional_def bindE_eq_Inr)
  show "as_exit_code raw label = Inr e \<longleftrightarrow> raw = opt_int e"
    by (cases raw; cases e) (auto simp: as_exit_code_def opt_int_def)
  show "as_duration raw label = Inr i \<longleftrightarrow> raw = PInt i \<and> 0 \<le> i" by (cases raw) (auto simp: as_duration_def)
qed (simp_all add: check_executable_digest_def check_failure_category_def)

lemma opt_int_wire [simp]: "wire_ok (opt_int e)"
  by (cases e) (simp_all add: opt_int_def)

section \<open>Well-formed values\<close>

definition wf_command :: "command_spec \<Rightarrow> bool" where
  "wf_command c \<longleftrightarrow> text_ok (cs_name c) \<and> \<not> is_blank (cs_name c) \<and> cs_argv c \<noteq> [] \<and>
     (\<forall>item\<in>set (cs_argv c). \<not> is_blank item \<and> CHR 0x00 \<notin> set item) \<and> fl_isfinite (cs_timeout_seconds c) \<and> fl_less (Finite 0) (cs_timeout_seconds c) \<and>
     cs_criteria c \<noteq> [] \<and> (\<forall>item\<in>set (cs_criteria c). \<not> is_blank item) \<and> distinct (cs_criteria c)"

definition verdict_ok :: "command_result \<Rightarrow> bool" where
  "verdict_ok c \<longleftrightarrow> (if cr_passed c then \<not> cr_timed_out c \<and> cr_exit_code c = Some 0 \<and> cr_workspace_unchanged c \<and>
     cr_failure_category c = None \<and> cr_error c = None else cr_failure_category c \<noteq> None)"

definition wf_command_result :: "command_result \<Rightarrow> bool" where
  "wf_command_result c \<longleftrightarrow> text_ok (cr_name c) \<and> cr_argv c \<noteq> [] \<and> (\<forall>item\<in>set (cr_argv c). \<not> is_blank item \<and> CHR 0x00 \<notin> set item) \<and>
     (\<forall>item\<in>set (cr_criteria c). \<not> is_blank item) \<and> 0 \<le> cr_duration_ms c \<and> pred_option text_ok (cr_executable_path c) \<and>
     pred_option is_sha256 (cr_executable_sha256 c) \<and> text_ok (cr_stdout_path c) \<and> safe_relative (cr_stdout_path c) \<and>
     text_ok (cr_stderr_path c) \<and> safe_relative (cr_stderr_path c) \<and> text_ok (cr_workspace_state_before c) \<and>
     text_ok (cr_workspace_state_after c) \<and> cr_workspace_unchanged c = (cr_workspace_state_before c = cr_workspace_state_after c) \<and>
     pred_option (\<lambda>k. k \<in> set FAILURE_CATEGORIES) (cr_failure_category c) \<and> pred_option text_ok (cr_error c) \<and> verdict_ok c"

definition wf_request :: "verification_request \<Rightarrow> bool" where
  "wf_request q \<longleftrightarrow> is_safe_id 127 (vq_run_id q) \<and> text_ok (vq_workspace q) \<and> text_ok (vq_workspace_state_before q) \<and>
     vq_commands q \<noteq> [] \<and> list_all wf_command (vq_commands q) \<and> distinct (map cs_name (vq_commands q)) \<and>
     vq_schema_version q = ''sisyphus_harness.verification_request.v1''"

text \<open>What the constructor of a receipt enforces, and the receipts whose encoding keeps every field.\<close>

definition bindings_ok :: "verification_receipt \<Rightarrow> bool" where
  "bindings_ok r \<longleftrightarrow> (if vr_schema_version r = RECEIPT_V3
     then (\<exists>b. vr_workspace_bundle_id r = Some b \<and> text_ok b) \<and> (\<exists>p. vr_profile_digest r = Some p \<and> is_sha256 p) \<and>
       (\<exists>i. vr_execution_identity_digest r = Some i \<and> is_sha256 i) \<and> pred_option text_ok (vr_verifier_asset_bundle_id r)
     else vr_workspace_bundle_id r = None \<and> vr_profile_digest r = None \<and> vr_execution_identity_digest r = None \<and>
       vr_verifier_asset_bundle_id r = None)"

definition wf_receipt :: "verification_receipt \<Rightarrow> bool" where
  "wf_receipt r \<longleftrightarrow> is_safe_id 127 (vr_run_id r) \<and> text_ok (vr_workspace r) \<and> text_ok (vr_worktree_commit_sha r) \<and>
     text_ok (vr_started_at r) \<and> text_ok (vr_finished_at r) \<and> text_ok (vr_workspace_state_before r) \<and> text_ok (vr_workspace_state_after r) \<and>
     vr_workspace_unchanged r = (vr_workspace_state_before r = vr_workspace_state_after r) \<and>
     vr_schema_version r \<in> {RECEIPT_V1, RECEIPT_V2, RECEIPT_V3} \<and> is_sha256 (vr_request_digest r) \<and> bindings_ok r \<and>
     list_all wf_command_result (vr_commands r) \<and> vr_passed r = (vr_workspace_unchanged r \<and> list_all cr_passed (vr_commands r))"

definition storable_receipt :: "verification_receipt \<Rightarrow> bool" where
  "storable_receipt r \<longleftrightarrow> wf_receipt r \<and> (vr_schema_version r = RECEIPT_V1 \<longrightarrow> vr_request_digest r = legacy_request_digest r)"

lemma check_verdict_eq [simp]: "check_verdict c = Inr u \<longleftrightarrow> verdict_ok c"
  by (auto simp: check_verdict_def verdict_ok_def)

lemma fl_positive: "fl_isfinite t \<and> \<not> fl_le t (Finite 0) \<longleftrightarrow> fl_isfinite t \<and> fl_less (Finite 0) t"
  using fl_le_iff_not_less [of t "Finite 0"] by (auto simp: fl_isfinite_def)

lemma mk_command_spec_eq: "text_ok (cs_name c) \<Longrightarrow> mk_command_spec c = Inr c' \<longleftrightarrow> c' = c \<and> wf_command c"
  using fl_positive [of "cs_timeout_seconds c"] by (auto simp: mk_command_spec_def wf_command_def)

lemma mk_command_result_eq: "mk_command_result c = Inr c' \<longleftrightarrow> c' = c \<and> wf_command_result c"
  by (auto simp: mk_command_result_def wf_command_result_def bindE_eq_Inr)

lemma mk_verification_request_eq:
  "list_all wf_command (vq_commands q) \<Longrightarrow> mk_verification_request q = Inr q' \<longleftrightarrow> q' = q \<and> wf_request q"
  by (auto simp: mk_verification_request_def wf_request_def bindE_eq_Inr)

lemma receipt_schemas [simp]: "RECEIPT_V1 \<noteq> RECEIPT_V2" "RECEIPT_V1 \<noteq> RECEIPT_V3" "RECEIPT_V2 \<noteq> RECEIPT_V3"
  "RECEIPT_V2 \<noteq> RECEIPT_V1" "RECEIPT_V3 \<noteq> RECEIPT_V1" "RECEIPT_V3 \<noteq> RECEIPT_V2"
  "text_ok RECEIPT_V1" "text_ok RECEIPT_V2" "text_ok RECEIPT_V3"
  by (simp_all add: RECEIPT_V1_def RECEIPT_V2_def RECEIPT_V3_def text_ok_def)

lemma opt_str_eq [simp]: "opt_str v = PStr s \<longleftrightarrow> v = Some s" "opt_str v = PNone \<longleftrightarrow> v = None"
  by (cases v; simp add: opt_str_def)+

lemma required_string: "req_string (opt_str v) label = Inr s \<longleftrightarrow> v = Some s \<and> text_ok s"
  by (cases v) (auto simp: opt_str_def)

lemma required_digest: "(case v of Some s \<Rightarrow> if is_sha256 s then Inr () else Inl e | None \<Rightarrow> Inl e) = Inr () \<longleftrightarrow> (\<exists>s. v = Some s \<and> is_sha256 s)"
  by (cases v) auto

lemma check_bindings_eq:
  assumes "vr_schema_version r \<in> {RECEIPT_V1, RECEIPT_V2, RECEIPT_V3}"
  shows "check_bindings r = Inr u \<longleftrightarrow> bindings_ok r"
proof (cases "vr_schema_version r = RECEIPT_V3")
  case True
  then show ?thesis by (simp add: check_bindings_def bindings_ok_def bindE_eq_Inr required_digest) blast
next
  case False
  with assms have "vr_schema_version r \<in> {RECEIPT_V1, RECEIPT_V2}" by simp
  with False show ?thesis by (simp only: check_bindings_def bindings_ok_def) auto
qed

lemma legacy_digest_sha256 [simp]: "is_sha256 (legacy_request_digest r)"
  by (simp add: legacy_request_digest_def)

text \<open>The constructor fills in a missing request digest and keeps everything else.\<close>

lemma fill_request_digest_fields [simp]:
  "vr_run_id (fill_request_digest r) = vr_run_id r" "vr_workspace (fill_request_digest r) = vr_workspace r"
  "vr_worktree_commit_sha (fill_request_digest r) = vr_worktree_commit_sha r" "vr_started_at (fill_request_digest r) = vr_started_at r"
  "vr_finished_at (fill_request_digest r) = vr_finished_at r" "vr_passed (fill_request_digest r) = vr_passed r"
  "vr_commands (fill_request_digest r) = vr_commands r" "vr_schema_version (fill_request_digest r) = vr_schema_version r"
  "vr_workspace_state_before (fill_request_digest r) = vr_workspace_state_before r"
  "vr_workspace_state_after (fill_request_digest r) = vr_workspace_state_after r"
  "vr_workspace_unchanged (fill_request_digest r) = vr_workspace_unchanged r"
  by (simp_all add: fill_request_digest_def)

lemma mk_verification_receipt_eq:
  assumes "list_all wf_command_result (vr_commands r)"
  shows "mk_verification_receipt r = Inr r' \<longleftrightarrow> r' = fill_request_digest r \<and> wf_receipt r'"
proof -
  have "mk_verification_receipt r = Inr r' \<longleftrightarrow> wf_receipt (fill_request_digest r) \<and> fill_request_digest r = r'"
  proof (cases "vr_schema_version r \<in> {RECEIPT_V1, RECEIPT_V2, RECEIPT_V3}")
    case True
    have bind: "check_bindings (fill_request_digest r) = Inr u \<longleftrightarrow> bindings_ok (fill_request_digest r)" for u
      by (rule check_bindings_eq) (use True in simp)
    show ?thesis using assms True
      unfolding mk_verification_receipt_def wf_receipt_def Let_def
      by (simp add: bindE_eq_Inr bind del: insert_iff)
  next
    case False
    then show ?thesis
      unfolding mk_verification_receipt_def wf_receipt_def by (simp add: bindE_eq_Inr del: insert_iff)
  qed
  then show ?thesis by blast
qed

lemma mk_verification_receipt_wf: "wf_receipt r \<Longrightarrow> mk_verification_receipt r = Inr r"
proof -
  assume r: "wf_receipt r"
  then have "is_sha256 (vr_request_digest r)" "list_all wf_command_result (vr_commands r)" unfolding wf_receipt_def by blast+
  with r show ?thesis by (subst mk_verification_receipt_eq) (auto simp: is_sha256_def fill_request_digest_def)
qed

section \<open>The decoders\<close>

lemma verification_field_simps [simp]:
  "pred_option text_ok x \<Longrightarrow> opt_string (opt_str x) label = Inr x" "opt_string PNone label = Inr None"
  "as_bool (PBool b) label = Inr b" "string_tuple (PList (map PStr ss)) label = Inr ss"
  "text_ok s \<Longrightarrow> safe_relative s \<Longrightarrow> relative_path (PStr s) label = Inr s"
  "as_exit_code (opt_int e) label = Inr e" "0 \<le> i \<Longrightarrow> as_duration (PInt i) label = Inr i"
  "pred_option is_sha256 x \<Longrightarrow> check_executable_digest x = Inr ()"
  "pred_option (\<lambda>c. c \<in> set FAILURE_CATEGORIES) x \<Longrightarrow> check_failure_category x = Inr ()"
  "verdict_ok c \<Longrightarrow> check_verdict c = Inr ()"
  by (simp_all add: opt_string_def [of PNone])

lemma text_ok_option [simp]: "pred_option is_sha256 x \<Longrightarrow> pred_option text_ok x"
  by (cases x) simp_all

lemma command_round_trip: "wf_command c \<Longrightarrow> command_spec_from_dict (command_spec_to_dict c) = Inr c"
  by (cases c) (simp add: command_spec_from_dict_def command_spec_to_dict_def wire_simps is_numeric_def as_timeout_def
      mk_command_spec_eq wf_command_def)

interpretation cs: wire_class wf_command command_spec_to_dict command_spec_from_dict
  by unfold_locales (rule command_round_trip)

lemma command_result_wire_ok [simp]: "wire_ok (command_result_to_dict c)"
  unfolding command_result_to_dict_def by (rule wire_ok_py_dict) simp

lemma category_text_ok: "c \<in> set FAILURE_CATEGORIES \<Longrightarrow> text_ok c"
  by (auto simp: FAILURE_CATEGORIES_def text_ok_def)

text \<open>Reading the fields of a dict display with distinct keys; the display itself stays folded.\<close>

lemma display_fields:
  assumes "distinct (map fst kvs)" and "d = py_dict kvs"
  shows "field d k conv label = (case map_of kvs k of Some v \<Rightarrow> conv v label | None \<Rightarrow> Inl (KeyError k))"
    and "dict_item d k = (case map_of kvs k of Some v \<Rightarrow> Inr v | None \<Rightarrow> Inl (KeyError k))"
    and "dict_get d k = (case map_of kvs k of Some v \<Rightarrow> v | None \<Rightarrow> PNone)"
    and "list_all (\<lambda>k. k \<in> set req) (map fst kvs) \<Longrightarrow> list_all (\<lambda>k. k \<in> set (map fst kvs)) req \<Longrightarrow>
      strict_object (PDict d) req [] label et = Inr d"
    and "map_of d k = map_of kvs k"
  using assms
  by (simp_all add: field_def dict_item_def dict_get_def map_of_py_dict_distinct split: option.split)
    (rule strict_object_py_dict, auto simp: list_all_iff)

lemma command_result_round_trip:
  assumes "wf_command_result c"
  shows "command_result_from_dict (command_result_to_dict c) = Inr c"
proof -
  obtain d where d: "command_result_to_dict c = PDict d" by (simp add: command_result_to_dict_def)
  note read = display_fields [OF _ d [unfolded command_result_to_dict_def pyobj.inject, symmetric]]
  have "pred_option text_ok (cr_failure_category c)" using assms
    by (cases "cr_failure_category c") (simp_all add: wf_command_result_def category_text_ok)
  moreover have "mk_command_result c = Inr c" using assms by (simp add: mk_command_result_eq)
  ultimately show ?thesis using assms unfolding d
    by (cases c) (simp add: command_result_from_dict_def read wf_command_result_def)
qed

lemma command_result_decoded: "command_result_from_dict raw = Inr c \<Longrightarrow> wf_command_result c"
  by (auto simp: command_result_from_dict_def bindE_eq_Inr mk_command_result_eq)

interpretation cr: wire_class wf_command_result command_result_to_dict command_result_from_dict
  by unfold_locales (rule command_result_round_trip)

lemma safe_id_text_ok: "is_safe_id n s \<Longrightarrow> text_ok s"
proof -
  have "\<not> is_ascii_alnum (CHR 0x00)" by code_simp
  then show "is_safe_id n s \<Longrightarrow> text_ok s"
    by (auto simp: is_safe_id_def text_ok_def list_all_iff split: list.splits)
qed

lemma request_round_trip: "wf_request q \<Longrightarrow> verification_request_from_dict (verification_request_to_dict q) = Inr q"
proof -
  assume q: "wf_request q"
  obtain d where d: "verification_request_to_dict q = PDict d" by (simp add: verification_request_to_dict_def)
  note read = display_fields [OF _ d [unfolded verification_request_to_dict_def verification_request_items_def pyobj.inject, symmetric]]
  have "mk_verification_request q = Inr q" using q by (subst mk_verification_request_eq) (simp_all add: wf_request_def)
  moreover have "text_ok (vq_run_id q)" using q by (auto simp: wf_request_def intro: safe_id_text_ok)
  moreover have "text_ok (verification_request_digest q)" by (simp add: verification_request_digest_def)
  ultimately show ?thesis using q cs.encode_list [of "vq_commands q"] unfolding d
    by (cases q) (simp add: verification_request_from_dict_def read wf_request_def text_ok_def [of "''sisyphus_harness.verification_request.v1''"])
qed

lemma request_recorded_digest:
  assumes "verification_request_from_dict (PDict d) = Inr q"
  shows "map_of d ''request_digest'' = Some (PStr (verification_request_digest q))"
  using assms by (auto simp: verification_request_from_dict_def result_simps)

interpretation vq: digest_class wf_request verification_request_to_dict verification_request_from_dict verification_request_items "''request_digest''"
  by unfold_locales (erule request_round_trip, simp add: verification_request_to_dict_def verification_request_digest_def,
      simp add: request_recorded_digest verification_request_digest_def [symmetric])

subsection \<open>Receipts\<close>

lemma py_eq_refl: "wire_ok v \<Longrightarrow> py_eq v v"
proof (induction v)
  case (PFloat f)
  then show ?case by (auto simp: float_ok_def fl_isfinite_def py_number_def split: pyfloat.splits)
next
  case (PList xs)
  then show ?case by (auto simp: list_all2_same list_all_iff)
next
  case (PDict d)
  then show ?case by (force simp: list_all2_same list_all_iff)
qed (simp_all add: py_number_def)

lemma criteria_wire [simp]: "wire_ok (criteria_payload cs)"
  by (auto simp: criteria_payload_def list_all_iff simp del: wire_ok.simps(3) intro!: wire_ok_py_dict)

lemma receipt_items_wire: "list_all (\<lambda>kv. wire_ok (snd kv)) (receipt_items r)"
  by (simp add: receipt_items_def list_all_iff)

lemma receipt_to_dict_wire: "wire_ok (receipt_to_dict r)"
  unfolding receipt_to_dict_def by (rule wire_ok_py_dict) (simp add: receipt_items_wire)

lemma receipt_digest_ok [simp]: "is_sha256 (receipt_digest r)"
  by (simp add: receipt_digest_def)

lemma receipt_round_trip:
  assumes "storable_receipt r"
  shows "receipt_from_dict (receipt_to_dict r) = Inr r"
proof -
  have r: "wf_receipt r" and legacy: "vr_schema_version r = RECEIPT_V1 \<Longrightarrow> vr_request_digest r = legacy_request_digest r"
    using assms by (auto simp: storable_receipt_def)
  have texts: "text_ok (vr_run_id r)" "text_ok (vr_workspace r)" "text_ok (vr_worktree_commit_sha r)" "text_ok (vr_started_at r)"
    "text_ok (vr_finished_at r)" "text_ok (vr_workspace_state_before r)" "text_ok (vr_workspace_state_after r)"
    "is_sha256 (vr_request_digest r)" and cmds: "mapE command_result_from_dict (map command_result_to_dict (vr_commands r)) = Inr (vr_commands r)"
    and bind: "bindings_ok r" and schema: "vr_schema_version r \<in> {RECEIPT_V1, RECEIPT_V2, RECEIPT_V3}"
    using r safe_id_text_ok cr.encode_list unfolding wf_receipt_def by blast+
  have mk: "mk_verification_receipt \<lparr>vr_run_id = vr_run_id r, vr_workspace = vr_workspace r, vr_worktree_commit_sha = vr_worktree_commit_sha r,
      vr_started_at = vr_started_at r, vr_finished_at = vr_finished_at r, vr_passed = vr_passed r,
      vr_commands = vr_commands r, vr_workspace_state_before = vr_workspace_state_before r, vr_workspace_state_after = vr_workspace_state_after r,
      vr_workspace_unchanged = vr_workspace_unchanged r, vr_request_digest = vr_request_digest r, vr_schema_version = vr_schema_version r,
      vr_workspace_bundle_id = vr_workspace_bundle_id r, vr_profile_digest = vr_profile_digest r, vr_execution_identity_digest = vr_execution_identity_digest r,
      vr_verifier_asset_bundle_id = vr_verifier_asset_bundle_id r\<rparr> = Inr r"
    (is "mk_verification_receipt ?x = _")
  proof -
    have "?x = r" by simp
    then show ?thesis using mk_verification_receipt_wf [OF r] by (simp only:)
  qed
  have fill: "mk_verification_receipt \<lparr>vr_run_id = vr_run_id r, vr_workspace = vr_workspace r, vr_worktree_commit_sha = vr_worktree_commit_sha r,
      vr_started_at = vr_started_at r, vr_finished_at = vr_finished_at r, vr_passed = vr_passed r,
      vr_commands = vr_commands r, vr_workspace_state_before = vr_workspace_state_before r, vr_workspace_state_after = vr_workspace_state_after r,
      vr_workspace_unchanged = vr_workspace_unchanged r, vr_request_digest = [], vr_schema_version = vr_schema_version r,
      vr_workspace_bundle_id = vr_workspace_bundle_id r, vr_profile_digest = vr_profile_digest r, vr_execution_identity_digest = vr_execution_identity_digest r,
      vr_verifier_asset_bundle_id = vr_verifier_asset_bundle_id r\<rparr> = Inr r"
    if "vr_schema_version r = RECEIPT_V1"
  proof -
    have eta: "\<lparr>vr_run_id = vr_run_id r, vr_workspace = vr_workspace r, vr_worktree_commit_sha = vr_worktree_commit_sha r,
      vr_started_at = vr_started_at r, vr_finished_at = vr_finished_at r, vr_passed = vr_passed r,
      vr_commands = vr_commands r, vr_workspace_state_before = vr_workspace_state_before r, vr_workspace_state_after = vr_workspace_state_after r,
      vr_workspace_unchanged = vr_workspace_unchanged r, vr_request_digest = [], vr_schema_version = vr_schema_version r,
      vr_workspace_bundle_id = vr_workspace_bundle_id r, vr_profile_digest = vr_profile_digest r, vr_execution_identity_digest = vr_execution_identity_digest r,
      vr_verifier_asset_bundle_id = vr_verifier_asset_bundle_id r\<rparr> = r\<lparr>vr_request_digest := []\<rparr>" by simp
    have "legacy_request_digest (r\<lparr>vr_request_digest := []\<rparr>) = legacy_request_digest r" by (simp add: legacy_request_digest_def)
    then have "fill_request_digest (r\<lparr>vr_request_digest := []\<rparr>) = r" using legacy [OF that] by (simp add: fill_request_digest_def)
    moreover have "list_all wf_command_result (vr_commands r)" using r unfolding wf_receipt_def by blast
    ultimately show ?thesis unfolding eta using r by (subst mk_verification_receipt_eq) simp_all
  qed
  obtain d where d: "receipt_to_dict r = PDict d" by (simp add: receipt_to_dict_def)
  let ?sig = "if vr_schema_version r \<in> {RECEIPT_V2, RECEIPT_V3} then [(''receipt_digest'', PStr (receipt_digest r))] else []"
  have dist: "distinct (map fst (receipt_items r @ ?sig))" by (simp add: receipt_items_def)
  have eq: "d = py_dict (receipt_items r @ ?sig)" using d by (simp add: receipt_to_dict_def)
  note read = display_fields [OF dist eq, unfolded receipt_items_def]
  have nonempty: "vr_request_digest r \<noteq> []" using texts(8) by (auto simp: is_sha256_def)
  note eval = receipt_from_dict_def receipt_fields_def Let_def as_request_digest_def py_truthy_def py_eq_refl cmds texts
  from schema consider "vr_schema_version r = RECEIPT_V1" | "vr_schema_version r = RECEIPT_V2" | "vr_schema_version r = RECEIPT_V3" by blast
  then show ?thesis
  proof cases
    case 1
    show ?thesis using fill [OF 1] bind unfolding d
      by (simp add: eval read 1 bindings_ok_def)
  next
    case 2
    show ?thesis using mk bind unfolding d
      by (simp add: eval read 2 bindings_ok_def nonempty)
  next
    case 3
    show ?thesis using mk bind unfolding d
      by (auto simp add: eval read 3 bindings_ok_def nonempty)
  qed
qed

interpretation vr: wire_class storable_receipt receipt_to_dict receipt_from_dict
  by unfold_locales (rule receipt_round_trip)

lemma mk_receipt_commands: "mk_verification_receipt r = Inr r' \<Longrightarrow> vr_commands r' = vr_commands r"
  unfolding mk_verification_receipt_def Let_def by (simp only: bindE_eq_Inr if_Inl_eq_Inr) auto

lemma receipt_decoded:
  assumes "receipt_from_dict raw = Inr r"
  shows "wf_receipt r"
proof -
  from assms obtain r0 where mk: "mk_verification_receipt r0 = Inr r"
    by (auto simp: receipt_from_dict_def bindE_eq_Inr split: pyobj.splits option.splits if_splits)
  from assms obtain raws where "mapE command_result_from_dict raws = Inr (vr_commands r)"
    by (auto simp: receipt_from_dict_def bindE_eq_Inr dest!: mk_receipt_commands split: pyobj.splits option.splits if_splits)
  then have "list_all wf_command_result (vr_commands r)" by (rule mapE_list_all) (rule command_result_decoded)
  then have "list_all wf_command_result (vr_commands r0)" by (simp only: mk_receipt_commands [OF mk])
  from mk_verification_receipt_eq [OF this, of r] mk show ?thesis by blast
qed

section \<open>Properties\<close>

definition sample_command_result :: command_result where
  "sample_command_result = \<lparr>cr_name = ''tests'', cr_argv = [''pytest''], cr_criteria = [''tests pass''], cr_passed = True, cr_timed_out = False,
     cr_exit_code = Some 0, cr_duration_ms = 12, cr_executable_path = None, cr_executable_sha256 = None, cr_stdout_path = ''tests/stdout.txt'',
     cr_stderr_path = ''tests/stderr.txt'', cr_workspace_state_before = ''s'', cr_workspace_state_after = ''s'',
     cr_workspace_unchanged = True, cr_failure_category = None, cr_error = None\<rparr>"

definition sample_receipt :: verification_receipt where
  "sample_receipt = \<lparr>vr_run_id = ''run-1'', vr_workspace = ''w'', vr_worktree_commit_sha = ''c'', vr_started_at = ''t0'', vr_finished_at = ''t1'',
     vr_passed = True, vr_commands = [sample_command_result], vr_workspace_state_before = ''s'', vr_workspace_state_after = ''s'',
     vr_workspace_unchanged = True, vr_request_digest = ''sha256:'' @ replicate 64 (CHR ''a''), vr_schema_version = RECEIPT_V3,
     vr_workspace_bundle_id = Some ''bundle'', vr_profile_digest = Some (''sha256:'' @ replicate 64 (CHR ''b'')),
     vr_execution_identity_digest = Some (''sha256:'' @ replicate 64 (CHR ''c'')), vr_verifier_asset_bundle_id = None\<rparr>"

lemma sample_command_result_wf: "wf_command_result sample_command_result"
proof -
  have "safe_relative ''tests/stdout.txt''" "safe_relative ''tests/stderr.txt''" "\<not> is_blank ''pytest''" "\<not> is_blank ''tests pass''"
    by code_simp+
  then show ?thesis by (simp add: wf_command_result_def sample_command_result_def text_ok_def verdict_ok_def)
qed

lemma sample_receipt_storable: "storable_receipt sample_receipt"
proof -
  have "is_sha256 (''sha256:'' @ replicate 64 c)" if "is_lower_hex c" for c
    using that by (simp add: is_sha256_def list_all_iff)
  moreover have "is_lower_hex (CHR ''a'')" "is_lower_hex (CHR ''b'')" "is_lower_hex (CHR ''c'')" "is_safe_id 127 ''run-1''" by code_simp+
  ultimately show ?thesis
    by (simp add: storable_receipt_def wf_receipt_def bindings_ok_def sample_receipt_def text_ok_def sample_command_result_wf)
      (simp add: sample_command_result_def)
qed

text \<open>
  A verification receipt survives storage: written as canonical JSON text, read strictly and decoded, every
  receipt its constructor accepts is the same receipt, under all three schemas; a receipt of the first schema, whose text
  has no request digest, when its digest is the one computed from its own fields.
\<close>

theorem receipt_text_round_trip:
  assumes "storable_receipt r"
  shows "bindE (bindE (canonical_json_bytes (receipt_to_dict r)) (\<lambda>text. loads_strict_json text label)) receipt_from_dict = Inr r"
  by (rule vr.text_round_trip [OF assms receipt_to_dict_wire])

theorem receipt_text_round_trip_witness:
  "bindE (bindE (canonical_json_bytes (receipt_to_dict sample_receipt)) (\<lambda>text. loads_strict_json text ''receipt'')) receipt_from_dict
     = Inr sample_receipt"
  by (rule receipt_text_round_trip) (rule sample_receipt_storable)

text \<open>
  C27. A decoded receipt that claims to have passed has passed: whatever raw object it came from, the workspace state
  is the same before and after, and every command exited with code zero, without a time-out, an error or a failure category,
  and left the workspace as it was; a receipt that claims to have failed has a changed workspace or a command with a
  failure category.
\<close>

theorem receipt_verdict_sound:
  assumes "receipt_from_dict raw = Inr r"
  shows "if vr_passed r
     then vr_workspace_state_before r = vr_workspace_state_after r \<and>
       (\<forall>c\<in>set (vr_commands r). cr_exit_code c = Some 0 \<and> \<not> cr_timed_out c \<and> cr_error c = None \<and> cr_failure_category c = None \<and>
          cr_workspace_state_before c = cr_workspace_state_after c)
     else vr_workspace_state_before r \<noteq> vr_workspace_state_after r \<or>
       (\<exists>c\<in>set (vr_commands r). \<exists>k\<in>set FAILURE_CATEGORIES. cr_failure_category c = Some k)"
proof -
  have r: "vr_passed r = (vr_workspace_unchanged r \<and> list_all cr_passed (vr_commands r))" "list_all wf_command_result (vr_commands r)"
    "vr_workspace_unchanged r = (vr_workspace_state_before r = vr_workspace_state_after r)"
    using receipt_decoded [OF assms] unfolding wf_receipt_def by blast+
  have pass: "cr_exit_code c = Some 0 \<and> \<not> cr_timed_out c \<and> cr_error c = None \<and> cr_failure_category c = None \<and>
      cr_workspace_state_before c = cr_workspace_state_after c" if "wf_command_result c" "cr_passed c" for c
    using that by (auto simp: wf_command_result_def verdict_ok_def)
  have fail: "\<exists>k\<in>set FAILURE_CATEGORIES. cr_failure_category c = Some k" if "wf_command_result c" "\<not> cr_passed c" for c
    using that by (cases "cr_failure_category c") (auto simp: wf_command_result_def verdict_ok_def)
  show ?thesis
  proof (cases "vr_passed r")
    case True
    with r pass show ?thesis by (simp add: list_all_iff)
  next
    case False
    then have "vr_workspace_state_before r \<noteq> vr_workspace_state_after r \<or> (\<exists>c\<in>set (vr_commands r). \<not> cr_passed c)"
      using r by (auto simp: list_all_iff)
    with False r(2) fail show ?thesis unfolding list_all_iff by (metis (no_types, lifting))
  qed
qed

theorem receipt_verdict_sound_witness:
  "receipt_from_dict (receipt_to_dict sample_receipt) = Inr sample_receipt \<and> vr_passed sample_receipt \<and>
   cr_exit_code sample_command_result = Some 0 \<and> cr_failure_category sample_command_result = None"
  using receipt_verdict_sound [OF vr.round_trip [OF sample_receipt_storable]] vr.round_trip [OF sample_receipt_storable]
  by (simp add: sample_receipt_def)

end
