(* ===== verification/Verification_Service.thy ===== *)
theory Verification_Service
  imports Verification_Contracts
begin

text \<open>
  The contracts of the verification service, \<^verbatim>\<open>contracts/verification_service.py\<close> and
  \<^verbatim>\<open>contracts/verifier_assets.py\<close>: verifier asset bundles, execution identities, profiles, bundle requests and
  service results. The second schema of each binds the verifier's assets and its execution identity.
\<close>

section \<open>Verifier assets\<close>

definition is_asset_bundle_id :: "string \<Rightarrow> bool" where
  "is_asset_bundle_id s \<longleftrightarrow> take 16 s = ''verifier-assets:'' \<and> is_sha256 (drop 16 s)"

record verifier_asset_bundle_ref =
  ab_bundle_id :: string
  ab_manifest_sha256 :: string
  ab_tree_hash :: string
  ab_total_size_bytes :: int
  ab_entry_count :: int
  ab_schema_version :: string

definition mk_asset_bundle :: "verifier_asset_bundle_ref \<Rightarrow> verifier_asset_bundle_ref result" where
  "mk_asset_bundle b =
     (if \<not> is_asset_bundle_id (ab_bundle_id b) then Inl (ValueError ''verifier asset bundle ID is invalid'')
      else bindE (checkE (\<lambda>(v, label). if \<not> is_sha256 v then Inl (ValueError (label @ '' must be SHA-256'')) else Inr ())
        [(ab_manifest_sha256 b, ''verifier asset manifest digest''), (ab_tree_hash b, ''verifier asset tree hash'')]) (\<lambda>_.
      if ab_bundle_id b \<noteq> ''verifier-assets:'' @ ab_manifest_sha256 b
      then Inl (ValueError ''verifier asset bundle ID and manifest digest differ'')
      else bindE (checkE (\<lambda>(v, label). if v < 0 then Inl (ValueError (label @ '' must be a non-negative integer'')) else Inr ())
        [(ab_total_size_bytes b, ''verifier asset total size''), (ab_entry_count b, ''verifier asset entry count'')]) (\<lambda>_.
      if ab_entry_count b = 0 then Inl (ValueError ''verifier asset bundle must contain at least one file'')
      else if ab_schema_version b \<noteq> ''sisyphus_harness.verifier_asset_bundle_ref.v1''
      then Inl (ValueError ''unsupported verifier asset bundle reference schema'') else Inr b)))"

definition asset_bundle_items :: "verifier_asset_bundle_ref \<Rightarrow> pydict" where
  "asset_bundle_items b =
     [(''bundle_id'', PStr (ab_bundle_id b)), (''manifest_sha256'', PStr (ab_manifest_sha256 b)), (''tree_hash'', PStr (ab_tree_hash b)),
      (''total_size_bytes'', PInt (ab_total_size_bytes b)), (''entry_count'', PInt (ab_entry_count b)),
      (''schema_version'', PStr (ab_schema_version b))]"

definition asset_reference_digest :: "verifier_asset_bundle_ref \<Rightarrow> string" where
  "asset_reference_digest b = wire_digest (PDict (py_dict (asset_bundle_items b)))"

definition asset_bundle_to_dict :: "verifier_asset_bundle_ref \<Rightarrow> pyobj" where
  "asset_bundle_to_dict b = PDict (py_dict (asset_bundle_items b @ [(''reference_digest'', PStr (asset_reference_digest b))]))"

definition nonneg_integer :: "pyobj \<Rightarrow> string \<Rightarrow> int result" where
  "nonneg_integer raw label = (case raw of
       PInt i \<Rightarrow> if i < 0 then Inl (ValueError (label @ '' must be a non-negative integer'')) else Inr i
     | _ \<Rightarrow> Inl (ValueError (label @ '' must be a non-negative integer'')))"

definition asset_bundle_from_dict :: "pyobj \<Rightarrow> verifier_asset_bundle_ref result" where
  "asset_bundle_from_dict raw =
     bindE (strict_object raw [''bundle_id'', ''manifest_sha256'', ''tree_hash'', ''total_size_bytes'', ''entry_count'', ''schema_version'',
       ''reference_digest''] [] ''verifier asset bundle reference'' ValueError) (\<lambda>d.
     bindE (field d ''total_size_bytes'' nonneg_integer ''verifier asset total size'') (\<lambda>total_size.
     bindE (field d ''entry_count'' nonneg_integer ''verifier asset entry count'') (\<lambda>entry_count.
     bindE (field d ''bundle_id'' req_string ''verifier asset bundle ID'') (\<lambda>bundle_id.
     bindE (field d ''manifest_sha256'' req_string ''verifier asset manifest digest'') (\<lambda>manifest.
     bindE (field d ''tree_hash'' req_string ''verifier asset tree hash'') (\<lambda>tree_hash.
     bindE (field d ''schema_version'' req_string ''verifier asset bundle reference schema'') (\<lambda>schema.
     bindE (mk_asset_bundle \<lparr>ab_bundle_id = bundle_id, ab_manifest_sha256 = manifest, ab_tree_hash = tree_hash,
       ab_total_size_bytes = total_size, ab_entry_count = entry_count, ab_schema_version = schema\<rparr>) (\<lambda>ref.
     bindE (field d ''reference_digest'' req_string ''verifier asset reference digest'') (\<lambda>recorded.
     if \<not> is_sha256 recorded then Inl (ValueError ''verifier asset reference digest must be SHA-256'')
     else if recorded \<noteq> asset_reference_digest ref
     then Inl (ValueError ''verifier asset reference digest does not match content'') else Inr ref)))))))))"

section \<open>Execution identities\<close>

record verifier_execution_identity =
  xi_runtime :: string
  xi_image_reference :: string
  xi_image_id :: string
  xi_schema_version :: string

definition image_reference :: "pyobj \<Rightarrow> string result" where
  "image_reference raw = bindE (req_string raw ''verifier image reference'') (\<lambda>v.
     if 512 < length v \<or> take 1 v = ''-'' \<or> (\<exists>c\<in>set v. py_isspace c \<or> py_ord c < 32)
     then Inl (ValueError ''verifier image reference is unsafe'') else Inr v)"

definition mk_execution_identity :: "verifier_execution_identity \<Rightarrow> verifier_execution_identity result" where
  "mk_execution_identity x =
     (if xi_runtime x \<noteq> ''docker'' then Inl (ValueError ''verifier execution runtime must be docker'')
      else bindE (image_reference (PStr (xi_image_reference x))) (\<lambda>_.
      bindE (req_digest (PStr (xi_image_id x)) ''verifier image ID'') (\<lambda>_.
      if xi_schema_version x \<noteq> ''sisyphus_harness.verifier_execution_identity.v1''
      then Inl (ValueError ''unsupported verifier execution identity schema'') else Inr x)))"

definition identity_items :: "verifier_execution_identity \<Rightarrow> pydict" where
  "identity_items x =
     [(''runtime'', PStr (xi_runtime x)), (''image_reference'', PStr (xi_image_reference x)), (''image_id'', PStr (xi_image_id x)),
      (''schema_version'', PStr (xi_schema_version x))]"

definition identity_digest :: "verifier_execution_identity \<Rightarrow> string" where
  "identity_digest x = wire_digest (PDict (py_dict (identity_items x)))"

definition identity_to_dict :: "verifier_execution_identity \<Rightarrow> pyobj" where
  "identity_to_dict x = PDict (py_dict (identity_items x @ [(''identity_digest'', PStr (identity_digest x))]))"

definition identity_from_dict :: "pyobj \<Rightarrow> verifier_execution_identity result" where
  "identity_from_dict raw =
     bindE (strict_object raw [''runtime'', ''image_reference'', ''image_id'', ''schema_version'', ''identity_digest''] []
       ''verifier execution identity'' ValueError) (\<lambda>d.
     bindE (field d ''runtime'' req_string ''verifier execution runtime'') (\<lambda>runtime.
     bindE (field d ''image_reference'' req_string ''verifier image reference'') (\<lambda>image_reference.
     bindE (field d ''image_id'' req_digest ''verifier image ID'') (\<lambda>image_id.
     bindE (field d ''schema_version'' req_string ''verifier execution identity schema'') (\<lambda>schema.
     bindE (mk_execution_identity \<lparr>xi_runtime = runtime, xi_image_reference = image_reference, xi_image_id = image_id,
       xi_schema_version = schema\<rparr>) (\<lambda>identity.
     bindE (field d ''identity_digest'' req_digest ''verifier identity digest'') (\<lambda>recorded.
     if recorded \<noteq> identity_digest identity
     then Inl (ValueError ''verifier identity digest does not match content'') else Inr identity)))))))"

section \<open>Profiles\<close>

record verification_profile =
  vp_profile_id :: string
  vp_commands :: "command_spec list"
  vp_asset_bundle :: "verifier_asset_bundle_ref option"
  vp_schema_version :: string

definition PROFILE_V1 :: string where "PROFILE_V1 = ''sisyphus_harness.verification_profile.v1''"
definition PROFILE_V2 :: string where "PROFILE_V2 = ''sisyphus_harness.verification_profile.v2''"

definition validate_id :: "string \<Rightarrow> string \<Rightarrow> unit result" where
  "validate_id v label = (if \<not> is_safe_id 127 v \<or> v \<in> {''.'', ''..''}
     then Inl (ValueError (label @ '' contains unsafe characters'')) else Inr ())"

definition mk_verification_profile :: "verification_profile \<Rightarrow> verification_profile result" where
  "mk_verification_profile p =
     bindE (validate_id (vp_profile_id p) ''verification profile ID'') (\<lambda>_.
     if vp_commands p = [] then Inl (ValueError ''verification profile requires exact CommandSpec values'')
     else if \<not> distinct (map cs_name (vp_commands p)) then Inl (ValueError ''verification profile command names must be unique'')
     else if vp_schema_version p \<notin> {PROFILE_V1, PROFILE_V2} then Inl (ValueError ''unsupported verification profile schema'')
     else if vp_schema_version p = PROFILE_V1 \<and> vp_asset_bundle p \<noteq> None
     then Inl (ValueError ''v1 verification profile cannot bind verifier assets'') else Inr p)"

text \<open>An optional nested value: its encoding, or null.\<close>

definition opt_dict :: "('a \<Rightarrow> pyobj) \<Rightarrow> 'a option \<Rightarrow> pyobj" where
  "opt_dict f v = (case v of None \<Rightarrow> PNone | Some x \<Rightarrow> f x)"

text \<open>\<open>X.from_dict(raw[key]) if raw.get(key) is not None else None\<close>.\<close>

definition opt_field :: "pydict \<Rightarrow> string \<Rightarrow> (pyobj \<Rightarrow> 'a result) \<Rightarrow> 'a option result" where
  "opt_field d key from_dict = (if dict_get d key = PNone then Inr None
     else bindE (dict_item d key) (\<lambda>raw. bindE (from_dict raw) (\<lambda>x. Inr (Some x))))"

definition profile_items :: "verification_profile \<Rightarrow> pydict" where
  "profile_items p =
     [(''profile_id'', PStr (vp_profile_id p)), (''commands'', PList (map command_spec_to_dict (vp_commands p)))] @
     (if vp_schema_version p = PROFILE_V1 then [] else [(''asset_bundle'', opt_dict asset_bundle_to_dict (vp_asset_bundle p))]) @
     [(''schema_version'', PStr (vp_schema_version p))]"

definition profile_digest :: "verification_profile \<Rightarrow> string" where
  "profile_digest p = wire_digest (PDict (py_dict (profile_items p)))"

definition profile_to_dict :: "verification_profile \<Rightarrow> pyobj" where
  "profile_to_dict p = PDict (py_dict (profile_items p @ [(''profile_digest'', PStr (profile_digest p))]))"

definition profile_from_dict :: "pyobj \<Rightarrow> verification_profile result" where
  "profile_from_dict raw = (case raw of PDict d0 \<Rightarrow>
       (let schema = dict_get d0 ''schema_version'' in
        if schema \<noteq> PStr PROFILE_V1 \<and> schema \<noteq> PStr PROFILE_V2 then Inl (ValueError ''unsupported verification profile schema'')
        else
          let required = [''profile_id'', ''commands'', ''schema_version'', ''profile_digest''] @ (if schema = PStr PROFILE_V2 then [''asset_bundle''] else []) in
          bindE (strict_object raw required [] ''verification profile'' ValueError) (\<lambda>d.
          bindE (field d ''commands'' expect_list ''verification profile commands must be a list'') (\<lambda>commands_raw.
          bindE (field d ''profile_id'' req_string ''verification profile ID'') (\<lambda>profile_id.
          bindE (mapE command_spec_from_dict commands_raw) (\<lambda>commands.
          bindE (opt_field d ''asset_bundle'' asset_bundle_from_dict) (\<lambda>assets.
          bindE (field d ''schema_version'' req_string ''verification profile schema'') (\<lambda>version.
          bindE (mk_verification_profile \<lparr>vp_profile_id = profile_id, vp_commands = commands, vp_asset_bundle = assets,
            vp_schema_version = version\<rparr>) (\<lambda>profile.
          bindE (field d ''profile_digest'' req_digest ''verification profile digest'') (\<lambda>recorded.
          if recorded \<noteq> profile_digest profile then Inl (ValueError ''verification profile digest does not match content'')
          else Inr profile)))))))))
     | _ \<Rightarrow> Inl (ValueError ''verification profile must be an object''))"

section \<open>Bundle requests\<close>

record bundle_verification_request =
  bq_run_id :: string
  bq_workspace_bundle :: workspace_bundle_ref
  bq_profile :: verification_profile
  bq_execution_identity :: "verifier_execution_identity option"
  bq_schema_version :: string

definition BUNDLE_REQUEST_V1 :: string where "BUNDLE_REQUEST_V1 = ''sisyphus_harness.bundle_verification_request.v1''"
definition BUNDLE_REQUEST_V2 :: string where "BUNDLE_REQUEST_V2 = ''sisyphus_harness.bundle_verification_request.v2''"

definition mk_bundle_request :: "bundle_verification_request \<Rightarrow> bundle_verification_request result" where
  "mk_bundle_request q =
     bindE (validate_id (bq_run_id q) ''bundle verification run ID'') (\<lambda>_.
     if bq_schema_version q \<notin> {BUNDLE_REQUEST_V1, BUNDLE_REQUEST_V2} then Inl (ValueError ''unsupported bundle verification request schema'')
     else if bq_schema_version q = BUNDLE_REQUEST_V1
     then if bq_execution_identity q \<noteq> None then Inl (ValueError ''v1 bundle request cannot bind execution identity'')
          else if vp_schema_version (bq_profile q) \<noteq> PROFILE_V1 then Inl (ValueError ''v1 bundle request requires a v1 profile'') else Inr q
     else if bq_execution_identity q = None then Inl (TypeError ''v2 bundle request requires exact execution identity'')
     else if vp_schema_version (bq_profile q) \<noteq> PROFILE_V2 then Inl (ValueError ''v2 bundle request requires a v2 profile'') else Inr q)"

definition bundle_request_items :: "bundle_verification_request \<Rightarrow> pydict" where
  "bundle_request_items q =
     [(''run_id'', PStr (bq_run_id q)), (''workspace_bundle'', bundle_to_dict (bq_workspace_bundle q)), (''profile'', profile_to_dict (bq_profile q))] @
     (if bq_schema_version q = BUNDLE_REQUEST_V1 then [] else [(''execution_identity'', opt_dict identity_to_dict (bq_execution_identity q))]) @
     [(''schema_version'', PStr (bq_schema_version q))]"

definition bundle_request_digest :: "bundle_verification_request \<Rightarrow> string" where
  "bundle_request_digest q = wire_digest (PDict (py_dict (bundle_request_items q)))"

definition bundle_request_to_dict :: "bundle_verification_request \<Rightarrow> pyobj" where
  "bundle_request_to_dict q = PDict (py_dict (bundle_request_items q @ [(''request_digest'', PStr (bundle_request_digest q))]))"

definition bundle_request_from_dict :: "pyobj \<Rightarrow> bundle_verification_request result" where
  "bundle_request_from_dict raw = (case raw of PDict d0 \<Rightarrow>
       (let schema = dict_get d0 ''schema_version'' in
        if schema \<noteq> PStr BUNDLE_REQUEST_V1 \<and> schema \<noteq> PStr BUNDLE_REQUEST_V2
        then Inl (ValueError ''unsupported bundle verification request schema'')
        else
          let required = [''run_id'', ''workspace_bundle'', ''profile'', ''schema_version'', ''request_digest''] @
            (if schema = PStr BUNDLE_REQUEST_V2 then [''execution_identity''] else []) in
          bindE (strict_object raw required [] ''bundle verification request'' ValueError) (\<lambda>d.
          bindE (field d ''run_id'' req_string ''bundle verification run ID'') (\<lambda>run_id.
          bindE (field d ''workspace_bundle'' (\<lambda>r _. bundle_from_dict r) []) (\<lambda>bundle.
          bindE (field d ''profile'' (\<lambda>r _. profile_from_dict r) []) (\<lambda>profile.
          bindE (opt_field d ''execution_identity'' identity_from_dict) (\<lambda>identity.
          bindE (field d ''schema_version'' req_string ''bundle verification request schema'') (\<lambda>version.
          bindE (mk_bundle_request \<lparr>bq_run_id = run_id, bq_workspace_bundle = bundle, bq_profile = profile,
            bq_execution_identity = identity, bq_schema_version = version\<rparr>) (\<lambda>request.
          bindE (field d ''request_digest'' req_digest ''bundle request digest'') (\<lambda>recorded.
          if recorded \<noteq> bundle_request_digest request
          then Inl (ValueError ''bundle verification request digest does not match content'') else Inr request)))))))))
     | _ \<Rightarrow> Inl (ValueError ''bundle verification request must be an object''))"

section \<open>Service results\<close>

record verification_service_result =
  sv_request_digest :: string
  sv_workspace_bundle_id :: string
  sv_profile_digest :: string
  sv_receipt :: verification_receipt
  sv_receipt_artifact :: artifact_ref
  sv_execution_identity :: "verifier_execution_identity option"
  sv_schema_version :: string

definition SERVICE_V1 :: string where "SERVICE_V1 = ''sisyphus_harness.verification_service_result.v1''"
definition SERVICE_V2 :: string where "SERVICE_V2 = ''sisyphus_harness.verification_service_result.v2''"

definition mk_service_result :: "verification_service_result \<Rightarrow> verification_service_result result" where
  "mk_service_result s =
     bindE (req_digest (PStr (sv_request_digest s)) ''verification service request digest'') (\<lambda>_.
     bindE (req_string (PStr (sv_workspace_bundle_id s)) ''verification service workspace bundle ID'') (\<lambda>_.
     bindE (req_digest (PStr (sv_profile_digest s)) ''verification service profile digest'') (\<lambda>_.
     if vr_request_digest (sv_receipt s) \<noteq> sv_request_digest s
     then Inl (ValueError ''verification receipt is not bound to the service request'')
     else if af_artifact_id (sv_receipt_artifact s) \<noteq> vr_run_id (sv_receipt s) @ ''/receipt.json''
     then Inl (ValueError ''verification receipt artifact ID is inconsistent'')
     else if sv_schema_version s \<notin> {SERVICE_V1, SERVICE_V2} then Inl (ValueError ''unsupported verification service result schema'')
     else if sv_schema_version s = SERVICE_V1
     then if sv_execution_identity s \<noteq> None then Inl (ValueError ''v1 service result cannot bind execution identity'') else Inr s
     else (case sv_execution_identity s of None \<Rightarrow> Inl (TypeError ''v2 service result requires exact execution identity'')
       | Some identity \<Rightarrow>
         if vr_schema_version (sv_receipt s) \<noteq> RECEIPT_V3
         then Inl (ValueError ''v2 service result requires a v3 verification receipt'')
         else if vr_workspace_bundle_id (sv_receipt s) \<noteq> Some (sv_workspace_bundle_id s) \<or> vr_profile_digest (sv_receipt s) \<noteq> Some (sv_profile_digest s)
           \<or> vr_execution_identity_digest (sv_receipt s) \<noteq> Some (identity_digest identity)
         then Inl (ValueError ''v2 service result and receipt bindings are inconsistent'') else Inr s))))"

definition service_result_to_dict :: "verification_service_result \<Rightarrow> pyobj" where
  "service_result_to_dict s = PDict (py_dict (
     [(''request_digest'', PStr (sv_request_digest s)), (''workspace_bundle_id'', PStr (sv_workspace_bundle_id s)),
      (''profile_digest'', PStr (sv_profile_digest s)), (''receipt'', receipt_to_dict (sv_receipt s)),
      (''receipt_artifact'', artifact_to_dict (sv_receipt_artifact s))] @
     (if sv_schema_version s = SERVICE_V1 then [] else [(''execution_identity'', opt_dict identity_to_dict (sv_execution_identity s))]) @
     [(''schema_version'', PStr (sv_schema_version s))]))"

definition service_result_from_dict :: "pyobj \<Rightarrow> verification_service_result result" where
  "service_result_from_dict raw = (case raw of PDict d0 \<Rightarrow>
       (let schema = dict_get d0 ''schema_version'' in
        if schema \<noteq> PStr SERVICE_V1 \<and> schema \<noteq> PStr SERVICE_V2
        then Inl (ValueError ''unsupported verification service result schema'')
        else
          let required = [''request_digest'', ''workspace_bundle_id'', ''profile_digest'', ''receipt'', ''receipt_artifact'', ''schema_version''] @
            (if schema = PStr SERVICE_V2 then [''execution_identity''] else []) in
          bindE (strict_object raw required [] ''verification service result'' ValueError) (\<lambda>d.
          bindE (field d ''request_digest'' req_digest ''verification service request digest'') (\<lambda>request_digest.
          bindE (field d ''workspace_bundle_id'' req_string ''verification service workspace bundle ID'') (\<lambda>bundle_id.
          bindE (field d ''profile_digest'' req_digest ''verification service profile digest'') (\<lambda>profile.
          bindE (field d ''receipt'' (\<lambda>r _. receipt_from_dict r) []) (\<lambda>receipt.
          bindE (field d ''receipt_artifact'' (\<lambda>r _. artifact_from_dict r) []) (\<lambda>artifact.
          bindE (opt_field d ''execution_identity'' identity_from_dict) (\<lambda>identity.
          bindE (field d ''schema_version'' req_string ''verification service result schema'') (\<lambda>version.
          mk_service_result \<lparr>sv_request_digest = request_digest, sv_workspace_bundle_id = bundle_id, sv_profile_digest = profile,
            sv_receipt = receipt, sv_receipt_artifact = artifact, sv_execution_identity = identity, sv_schema_version = version\<rparr>)))))))))
     | _ \<Rightarrow> Inl (ValueError ''verification service result must be an object''))"

section \<open>Well-formed values\<close>

definition wf_assets :: "verifier_asset_bundle_ref \<Rightarrow> bool" where
  "wf_assets b \<longleftrightarrow> is_sha256 (ab_manifest_sha256 b) \<and> is_sha256 (ab_tree_hash b) \<and>
     ab_bundle_id b = ''verifier-assets:'' @ ab_manifest_sha256 b \<and> 0 \<le> ab_total_size_bytes b \<and> 0 < ab_entry_count b \<and>
     ab_schema_version b = ''sisyphus_harness.verifier_asset_bundle_ref.v1''"

definition wf_identity :: "verifier_execution_identity \<Rightarrow> bool" where
  "wf_identity x \<longleftrightarrow> xi_runtime x = ''docker'' \<and> text_ok (xi_image_reference x) \<and> length (xi_image_reference x) \<le> 512 \<and>
     take 1 (xi_image_reference x) \<noteq> ''-'' \<and> (\<forall>c\<in>set (xi_image_reference x). \<not> py_isspace c \<and> \<not> py_ord c < 32) \<and>
     is_sha256 (xi_image_id x) \<and> xi_schema_version x = ''sisyphus_harness.verifier_execution_identity.v1''"

definition wf_profile :: "verification_profile \<Rightarrow> bool" where
  "wf_profile p \<longleftrightarrow> is_safe_id 127 (vp_profile_id p) \<and> vp_commands p \<noteq> [] \<and> list_all wf_command (vp_commands p) \<and>
     distinct (map cs_name (vp_commands p)) \<and> pred_option wf_assets (vp_asset_bundle p) \<and>
     (vp_schema_version p = PROFILE_V1 \<and> vp_asset_bundle p = None \<or> vp_schema_version p = PROFILE_V2)"

definition wf_bundle_request :: "bundle_verification_request \<Rightarrow> bool" where
  "wf_bundle_request q \<longleftrightarrow> is_safe_id 127 (bq_run_id q) \<and> wf_bundle (bq_workspace_bundle q) \<and> wf_profile (bq_profile q) \<and>
     pred_option wf_identity (bq_execution_identity q) \<and>
     (bq_schema_version q = BUNDLE_REQUEST_V1 \<and> bq_execution_identity q = None \<and> vp_schema_version (bq_profile q) = PROFILE_V1 \<or>
      bq_schema_version q = BUNDLE_REQUEST_V2 \<and> bq_execution_identity q \<noteq> None \<and> vp_schema_version (bq_profile q) = PROFILE_V2)"

definition service_bindings :: "verification_service_result \<Rightarrow> bool" where
  "service_bindings s \<longleftrightarrow>
     (sv_schema_version s = SERVICE_V1 \<and> sv_execution_identity s = None \<or>
      sv_schema_version s = SERVICE_V2 \<and> vr_schema_version (sv_receipt s) = RECEIPT_V3 \<and>
      vr_workspace_bundle_id (sv_receipt s) = Some (sv_workspace_bundle_id s) \<and> vr_profile_digest (sv_receipt s) = Some (sv_profile_digest s) \<and>
      (\<exists>x. sv_execution_identity s = Some x \<and> vr_execution_identity_digest (sv_receipt s) = Some (identity_digest x)))"

definition wf_service_result :: "verification_service_result \<Rightarrow> bool" where
  "wf_service_result s \<longleftrightarrow> is_sha256 (sv_request_digest s) \<and> text_ok (sv_workspace_bundle_id s) \<and> is_sha256 (sv_profile_digest s) \<and>
     storable_receipt (sv_receipt s) \<and> wf_artifact (sv_receipt_artifact s) \<and> pred_option wf_identity (sv_execution_identity s) \<and>
     vr_request_digest (sv_receipt s) = sv_request_digest s \<and>
     af_artifact_id (sv_receipt_artifact s) = vr_run_id (sv_receipt s) @ ''/receipt.json'' \<and> service_bindings s"

lemma service_schemas [simp]:
  "PROFILE_V1 \<noteq> PROFILE_V2" "PROFILE_V2 \<noteq> PROFILE_V1" "BUNDLE_REQUEST_V1 \<noteq> BUNDLE_REQUEST_V2" "BUNDLE_REQUEST_V2 \<noteq> BUNDLE_REQUEST_V1"
  "SERVICE_V1 \<noteq> SERVICE_V2" "SERVICE_V2 \<noteq> SERVICE_V1" "text_ok PROFILE_V1" "text_ok PROFILE_V2" "text_ok BUNDLE_REQUEST_V1"
  "text_ok BUNDLE_REQUEST_V2" "text_ok SERVICE_V1" "text_ok SERVICE_V2"
  by (simp_all add: PROFILE_V1_def PROFILE_V2_def BUNDLE_REQUEST_V1_def BUNDLE_REQUEST_V2_def SERVICE_V1_def SERVICE_V2_def text_ok_def)

lemma service_field_eq [simp]:
  "nonneg_integer raw label = Inr i \<longleftrightarrow> raw = PInt i \<and> 0 \<le> i"
  "validate_id v label = Inr u \<longleftrightarrow> is_safe_id 127 v"
proof -
  show "nonneg_integer raw label = Inr i \<longleftrightarrow> raw = PInt i \<and> 0 \<le> i" by (cases raw) (auto simp: nonneg_integer_def)
  have "\<not> is_safe_id 127 ''.''" "\<not> is_safe_id 127 ''..''" by code_simp+
  then show "validate_id v label = Inr u \<longleftrightarrow> is_safe_id 127 v" by (auto simp: validate_id_def)
qed

lemma nonneg_integer_PInt [simp]: "0 \<le> i \<Longrightarrow> nonneg_integer (PInt i) label = Inr i"
  by simp

lemma mk_asset_bundle_eq: "mk_asset_bundle b = Inr b' \<longleftrightarrow> b' = b \<and> wf_assets b"
  by (auto simp: mk_asset_bundle_def wf_assets_def bindE_eq_Inr is_asset_bundle_id_def)

lemma mk_execution_identity_eq: "mk_execution_identity x = Inr x' \<longleftrightarrow> x' = x \<and> wf_identity x"
  by (auto simp: mk_execution_identity_def wf_identity_def image_reference_def bindE_eq_Inr)

lemma mk_verification_profile_eq:
  "list_all wf_command (vp_commands p) \<Longrightarrow> pred_option wf_assets (vp_asset_bundle p) \<Longrightarrow>
   mk_verification_profile p = Inr p' \<longleftrightarrow> p' = p \<and> wf_profile p"
  by (auto simp: mk_verification_profile_def wf_profile_def bindE_eq_Inr)

lemma mk_bundle_request_eq:
  "wf_bundle (bq_workspace_bundle q) \<Longrightarrow> wf_profile (bq_profile q) \<Longrightarrow> pred_option wf_identity (bq_execution_identity q) \<Longrightarrow>
   mk_bundle_request q = Inr q' \<longleftrightarrow> q' = q \<and> wf_bundle_request q"
  by (auto simp: mk_bundle_request_def wf_bundle_request_def bindE_eq_Inr split: if_splits)

lemma mk_service_result_eq:
  "storable_receipt (sv_receipt s) \<Longrightarrow> wf_artifact (sv_receipt_artifact s) \<Longrightarrow> pred_option wf_identity (sv_execution_identity s) \<Longrightarrow>
   mk_service_result s = Inr s' \<longleftrightarrow> s' = s \<and> wf_service_result s"
  by (cases "sv_execution_identity s") (auto simp: mk_service_result_def wf_service_result_def service_bindings_def bindE_eq_Inr split: if_splits)

section \<open>The decoders\<close>

lemma command_decoded: "command_spec_from_dict raw = Inr c \<Longrightarrow> wf_command c"
proof -
  assume "command_spec_from_dict raw = Inr c"
  then obtain name argv timeout criteria where "text_ok name"
    "mk_command_spec \<lparr>cs_name = name, cs_argv = argv, cs_timeout_seconds = timeout, cs_criteria = criteria\<rparr> = Inr c"
    by (auto simp: command_spec_from_dict_def bindE_eq_Inr if_Inl_eq_Inr field_eq_Inr)
  then show ?thesis by (simp add: mk_command_spec_eq)
qed

lemma asset_bundle_round_trip: "wf_assets b \<Longrightarrow> asset_bundle_from_dict (asset_bundle_to_dict b) = Inr b"
proof -
  assume b: "wf_assets b"
  obtain d where d: "asset_bundle_to_dict b = PDict d" by (simp add: asset_bundle_to_dict_def)
  note read = display_fields [OF _ d [unfolded asset_bundle_to_dict_def asset_bundle_items_def pyobj.inject, symmetric]]
  have dig: "is_sha256 (asset_reference_digest b)" by (simp add: asset_reference_digest_def)
  have "text_ok (ab_bundle_id b)" using b text_ok_sha256 [of "ab_manifest_sha256 b"] by (auto simp: wf_assets_def text_ok_def)
  moreover have "mk_asset_bundle \<lparr>ab_bundle_id = ab_bundle_id b, ab_manifest_sha256 = ab_manifest_sha256 b, ab_tree_hash = ab_tree_hash b,
      ab_total_size_bytes = ab_total_size_bytes b, ab_entry_count = ab_entry_count b, ab_schema_version = ab_schema_version b\<rparr> = Inr b"
    using b by (simp add: mk_asset_bundle_eq wf_assets_def)
  moreover have "text_ok (ab_schema_version b)" "is_sha256 (ab_manifest_sha256 b)" "is_sha256 (ab_tree_hash b)"
    "0 \<le> ab_total_size_bytes b" "0 \<le> ab_entry_count b"
    using b by (simp_all add: wf_assets_def text_ok_def)
  ultimately show ?thesis using dig unfolding d by (simp add: asset_bundle_from_dict_def read)
qed

lemma asset_bundle_decoded: "asset_bundle_from_dict raw = Inr b \<Longrightarrow> wf_assets b"
  by (auto simp: asset_bundle_from_dict_def bindE_eq_Inr if_Inl_eq_Inr mk_asset_bundle_eq)

lemma asset_recorded_digest:
  "asset_bundle_from_dict (PDict d) = Inr b \<Longrightarrow> map_of d ''reference_digest'' = Some (PStr (asset_reference_digest b))"
  by (auto simp: asset_bundle_from_dict_def result_simps)

interpretation ab: digest_class wf_assets asset_bundle_to_dict asset_bundle_from_dict asset_bundle_items "''reference_digest''"
  by unfold_locales (erule asset_bundle_round_trip, simp add: asset_bundle_to_dict_def asset_reference_digest_def,
      simp add: asset_recorded_digest asset_reference_digest_def [symmetric])

lemma identity_round_trip: "wf_identity x \<Longrightarrow> identity_from_dict (identity_to_dict x) = Inr x"
proof -
  assume x: "wf_identity x"
  obtain d where d: "identity_to_dict x = PDict d" by (simp add: identity_to_dict_def)
  note read = display_fields [OF _ d [unfolded identity_to_dict_def identity_items_def pyobj.inject, symmetric]]
  have dig: "is_sha256 (identity_digest x)" by (simp add: identity_digest_def)
  have "mk_execution_identity x = Inr x" using x by (simp add: mk_execution_identity_eq)
  then show ?thesis using x dig unfolding d
    by (cases x) (simp add: identity_from_dict_def read wf_identity_def text_ok_def [of "''docker''"]
        text_ok_def [of "''sisyphus_harness.verifier_execution_identity.v1''"])
qed

lemma identity_decoded: "identity_from_dict raw = Inr x \<Longrightarrow> wf_identity x"
  by (auto simp: identity_from_dict_def bindE_eq_Inr if_Inl_eq_Inr mk_execution_identity_eq)

lemma identity_recorded_digest:
  "identity_from_dict (PDict d) = Inr x \<Longrightarrow> map_of d ''identity_digest'' = Some (PStr (identity_digest x))"
  by (auto simp: identity_from_dict_def result_simps)

interpretation xi: digest_class wf_identity identity_to_dict identity_from_dict identity_items "''identity_digest''"
  by unfold_locales (erule identity_round_trip, simp add: identity_to_dict_def identity_digest_def,
      simp add: identity_recorded_digest identity_digest_def [symmetric])

lemma opt_field_decoded: "opt_field d k from_dict = Inr v \<Longrightarrow> (\<And>raw x. from_dict raw = Inr x \<Longrightarrow> P x) \<Longrightarrow> pred_option P v"
  by (auto simp: opt_field_def bindE_eq_Inr split: if_splits)

text \<open>An optional nested value is read back, whether or not its field is there.\<close>

lemma opt_field_display:
  assumes "distinct (map fst kvs)" "d = py_dict kvs" and "map_of kvs k = Some (opt_dict to_dict v) \<or> map_of kvs k = None \<and> v = None"
    and "\<And>x. v = Some x \<Longrightarrow> from_dict (to_dict x) = Inr x \<and> to_dict x \<noteq> PNone"
  shows "opt_field d k from_dict = Inr v"
  using assms(3,4) display_fields(2,3) [OF assms(1,2), of k]
  by (cases v) (auto simp: opt_field_def opt_dict_def)

lemma profile_round_trip: "wf_profile p \<Longrightarrow> profile_from_dict (profile_to_dict p) = Inr p"
proof -
  assume p: "wf_profile p"
  obtain d where d: "profile_to_dict p = PDict d" by (simp add: profile_to_dict_def)
  note eq = d [unfolded profile_to_dict_def profile_items_def pyobj.inject, symmetric]
  note read = display_fields [OF _ eq] and opt = opt_field_display [OF _ eq]
  have cmds: "mapE command_spec_from_dict (map command_spec_to_dict (vp_commands p)) = Inr (vp_commands p)"
    and id: "text_ok (vp_profile_id p)" and dig: "is_sha256 (profile_digest p)"
    using p cs.encode_list safe_id_text_ok by (auto simp: wf_profile_def profile_digest_def)
  have assets: "asset_bundle_from_dict (asset_bundle_to_dict b) = Inr b \<and> asset_bundle_to_dict b \<noteq> PNone" if "vp_asset_bundle p = Some b" for b
    using that p ab.round_trip by (simp add: wf_profile_def asset_bundle_to_dict_def)
  have opt': "opt_field d ''asset_bundle'' asset_bundle_from_dict = Inr (vp_asset_bundle p)"
    by (rule opt) (use p assets in \<open>auto simp: wf_profile_def\<close>)
  have mk: "mk_verification_profile \<lparr>vp_profile_id = vp_profile_id p, vp_commands = vp_commands p, vp_asset_bundle = vp_asset_bundle p,
      vp_schema_version = vp_schema_version p\<rparr> = Inr p"
    using p by (subst mk_verification_profile_eq) (auto simp: wf_profile_def)
  from p consider "vp_schema_version p = PROFILE_V1" | "vp_schema_version p = PROFILE_V2" by (auto simp: wf_profile_def)
  then show ?thesis
    using mk id dig cmds opt' unfolding d by cases (simp_all add: profile_from_dict_def read Let_def)
qed

lemma profile_decoded:
  assumes "profile_from_dict raw = Inr p"
  shows "wf_profile p"
proof -
  from assms obtain d raws id cmds assets version
    where cmds: "mapE command_spec_from_dict raws = Inr cmds" and assets: "opt_field d ''asset_bundle'' asset_bundle_from_dict = Inr assets"
      and mk: "mk_verification_profile \<lparr>vp_profile_id = id, vp_commands = cmds, vp_asset_bundle = assets, vp_schema_version = version\<rparr> = Inr p"
    by (auto simp: profile_from_dict_def Let_def bindE_eq_Inr if_Inl_eq_Inr split: pyobj.splits)
  have "list_all wf_command cmds" using cmds by (rule mapE_list_all) (rule command_decoded)
  moreover have "pred_option wf_assets assets" using assets asset_bundle_decoded by (rule opt_field_decoded)
  ultimately show ?thesis using mk by (simp add: mk_verification_profile_eq)
qed

lemma profile_recorded_digest:
  "profile_from_dict (PDict d) = Inr p \<Longrightarrow> map_of d ''profile_digest'' = Some (PStr (profile_digest p))"
  by (auto simp: profile_from_dict_def Let_def result_simps)

interpretation vp: digest_class wf_profile profile_to_dict profile_from_dict profile_items "''profile_digest''"
  by unfold_locales (erule profile_round_trip, simp add: profile_to_dict_def profile_digest_def,
      simp add: profile_recorded_digest profile_digest_def [symmetric])

lemma bundle_request_round_trip: "wf_bundle_request q \<Longrightarrow> bundle_request_from_dict (bundle_request_to_dict q) = Inr q"
proof -
  assume q: "wf_bundle_request q"
  obtain d where d: "bundle_request_to_dict q = PDict d" by (simp add: bundle_request_to_dict_def)
  note eq = d [unfolded bundle_request_to_dict_def bundle_request_items_def pyobj.inject, symmetric]
  note read = display_fields [OF _ eq] and opt = opt_field_display [OF _ eq]
  have nested: "bundle_from_dict (bundle_to_dict (bq_workspace_bundle q)) = Inr (bq_workspace_bundle q)"
    "profile_from_dict (profile_to_dict (bq_profile q)) = Inr (bq_profile q)"
    and id: "text_ok (bq_run_id q)" and dig: "is_sha256 (bundle_request_digest q)"
    using q wb.round_trip vp.round_trip safe_id_text_ok by (auto simp: wf_bundle_request_def bundle_request_digest_def)
  have ident: "identity_from_dict (identity_to_dict x) = Inr x \<and> identity_to_dict x \<noteq> PNone" if "bq_execution_identity q = Some x" for x
    using that q xi.round_trip by (simp add: wf_bundle_request_def identity_to_dict_def)
  have opt': "opt_field d ''execution_identity'' identity_from_dict = Inr (bq_execution_identity q)"
    by (rule opt) (use q ident in \<open>auto simp: wf_bundle_request_def\<close>)
  have mk: "mk_bundle_request \<lparr>bq_run_id = bq_run_id q, bq_workspace_bundle = bq_workspace_bundle q, bq_profile = bq_profile q,
      bq_execution_identity = bq_execution_identity q, bq_schema_version = bq_schema_version q\<rparr> = Inr q"
    using q by (subst mk_bundle_request_eq) (auto simp: wf_bundle_request_def)
  from q consider "bq_schema_version q = BUNDLE_REQUEST_V1" | "bq_schema_version q = BUNDLE_REQUEST_V2" by (auto simp: wf_bundle_request_def)
  then show ?thesis
    using mk id dig nested opt' unfolding d by cases (simp_all add: bundle_request_from_dict_def read Let_def)
qed

lemma bundle_request_decoded:
  assumes "bundle_request_from_dict raw = Inr q"
  shows "wf_bundle_request q"
proof -
  from assms obtain d b p run_id wb pr identity version
    where parts: "bundle_from_dict b = Inr wb" "profile_from_dict p = Inr pr" and identity: "opt_field d ''execution_identity'' identity_from_dict = Inr identity"
      and mk: "mk_bundle_request \<lparr>bq_run_id = run_id, bq_workspace_bundle = wb, bq_profile = pr,
        bq_execution_identity = identity, bq_schema_version = version\<rparr> = Inr q"
    by (auto simp: bundle_request_from_dict_def Let_def bindE_eq_Inr if_Inl_eq_Inr field_eq_Inr split: pyobj.splits)
  have "pred_option wf_identity identity" using identity identity_decoded by (rule opt_field_decoded)
  then show ?thesis using mk bundle_from_dict_wf [OF parts(1)] profile_decoded [OF parts(2)] by (simp add: mk_bundle_request_eq)
qed

lemma bundle_request_recorded_digest:
  "bundle_request_from_dict (PDict d) = Inr q \<Longrightarrow> map_of d ''request_digest'' = Some (PStr (bundle_request_digest q))"
  by (auto simp: bundle_request_from_dict_def Let_def result_simps)

interpretation bq: digest_class wf_bundle_request bundle_request_to_dict bundle_request_from_dict bundle_request_items "''request_digest''"
  by unfold_locales (erule bundle_request_round_trip, simp add: bundle_request_to_dict_def bundle_request_digest_def,
      simp add: bundle_request_recorded_digest bundle_request_digest_def [symmetric])

lemma service_result_round_trip: "wf_service_result s \<Longrightarrow> service_result_from_dict (service_result_to_dict s) = Inr s"
proof -
  assume s: "wf_service_result s"
  obtain d where d: "service_result_to_dict s = PDict d" by (simp add: service_result_to_dict_def)
  note eq = d [unfolded service_result_to_dict_def pyobj.inject, symmetric]
  note read = display_fields [OF _ eq] and opt = opt_field_display [OF _ eq]
  have nested: "receipt_from_dict (receipt_to_dict (sv_receipt s)) = Inr (sv_receipt s)"
    "artifact_from_dict (artifact_to_dict (sv_receipt_artifact s)) = Inr (sv_receipt_artifact s)"
    and ids: "is_sha256 (sv_request_digest s)" "text_ok (sv_workspace_bundle_id s)" "is_sha256 (sv_profile_digest s)"
    using s vr.round_trip af.round_trip by (auto simp: wf_service_result_def)
  have ident: "identity_from_dict (identity_to_dict x) = Inr x \<and> identity_to_dict x \<noteq> PNone" if "sv_execution_identity s = Some x" for x
    using that s xi.round_trip by (simp add: wf_service_result_def identity_to_dict_def)
  have opt': "opt_field d ''execution_identity'' identity_from_dict = Inr (sv_execution_identity s)"
    by (rule opt) (use s ident in \<open>auto simp: wf_service_result_def service_bindings_def\<close>)
  have mk: "mk_service_result \<lparr>sv_request_digest = sv_request_digest s, sv_workspace_bundle_id = sv_workspace_bundle_id s,
      sv_profile_digest = sv_profile_digest s, sv_receipt = sv_receipt s, sv_receipt_artifact = sv_receipt_artifact s,
      sv_execution_identity = sv_execution_identity s, sv_schema_version = sv_schema_version s\<rparr> = Inr s"
    using s by (simp add: mk_service_result_eq wf_service_result_def service_bindings_def)
  from s consider "sv_schema_version s = SERVICE_V1" | "sv_schema_version s = SERVICE_V2" by (auto simp: wf_service_result_def service_bindings_def)
  then show ?thesis
    using mk ids nested opt' unfolding d by cases (simp_all add: service_result_from_dict_def read Let_def)
qed

interpretation sv: wire_class wf_service_result service_result_to_dict service_result_from_dict
  by unfold_locales (rule service_result_round_trip)

end
