(* ===== verification/Evidence_Evaluator.thy ===== *)
theory Evidence_Evaluator
  imports Evidence_Wire "HOL-Library.Product_Lexorder" "HOL-Library.Multiset"
begin

text \<open>
  \<^verbatim>\<open>evidence_contract.py\<close>: the linter and the evaluator of evidence contracts and gap closure rules.
  The linter's stack walk is the function \<open>lint_walk\<close>, the strong Kleene aggregation is
  \<open>evaluate_expression\<close> (with the KeyError of an unknown clause as a branch), and the two entry points
  \<open>evaluate_evidence_contract\<close> and \<open>evaluate_gap_closure_rule\<close> return the evaluation record or the
  exception. The lemmas show what a clean lint means, that evaluation never raises on well-formed
  input, and that the three-valued result is exact.
\<close>

section \<open>Limits and constants\<close>

definition EVALUATOR_VERSION :: string where
  "EVALUATOR_VERSION = ''sisyphus_harness.evidence_evaluator.v2''"

definition EVALUATOR_DIGEST :: string where
  "EVALUATOR_DIGEST = wire_digest (PDict (py_dict
     [(''version'', PStr EVALUATOR_VERSION),
      (''logical_values'', PList [PStr ''pass'', PStr ''fail'', PStr ''indeterminate'']),
      (''aggregation'', PStr ''strong-kleene-v1''), (''selector_cardinality'', PStr ''exactly-one-v1''),
      (''predicate_semantics'', PStr ''typed-fail-closed-v2'')]))"

record evidence_contract_limits =
  max_clauses :: int
  max_expression_nodes :: int
  max_expression_depth :: int
  max_contract_bytes :: int
  max_observations :: int

definition mk_evidence_contract_limits :: "evidence_contract_limits \<Rightarrow> evidence_contract_limits result" where
  "mk_evidence_contract_limits limits =
     bindE (checkE (\<lambda>(label, v). if v \<le> 0 then Inl (ValueError (''evidence contract '' @ label @ '' must be positive'')) else Inr ())
       [(''max_clauses'', max_clauses limits), (''max_expression_nodes'', max_expression_nodes limits),
        (''max_expression_depth'', max_expression_depth limits), (''max_contract_bytes'', max_contract_bytes limits),
        (''max_observations'', max_observations limits)]) (\<lambda>_. Inr limits)"

definition DEFAULT_LIMITS :: evidence_contract_limits where
  "DEFAULT_LIMITS = \<lparr>max_clauses = 128, max_expression_nodes = 512, max_expression_depth = 32,
     max_contract_bytes = 256 * 1024, max_observations = 1024\<rparr>"

section \<open>The linter\<close>

record contract_lint_issue =
  li_code :: string
  li_location :: string
  li_message :: string

text \<open>The order of the dataclass: field by field.\<close>

definition issue_key :: "contract_lint_issue \<Rightarrow> string \<times> string \<times> string" where
  "issue_key i = (li_code i, li_location i, li_message i)"

definition lint_issue :: "string \<Rightarrow> string \<Rightarrow> string \<Rightarrow> contract_lint_issue" where
  "lint_issue code location message = \<lparr>li_code = code, li_location = location, li_message = message\<rparr>"

text \<open>
  The stack loop of \<open>_lint_rule_set\<close>: node count, maximal depth and the references in the order they
  are met. The head of the list is the top of the stack.
\<close>

definition push_children :: "evidence_expression list \<Rightarrow> nat \<Rightarrow> string \<Rightarrow> (evidence_expression \<times> nat \<times> string) list" where
  "push_children cs depth location =
     map (\<lambda>(i, c). (c, depth, location @ ''.children['' @ show_nat i @ '']'')) (enumerate 0 cs)"

lemma size_push_children: "size_list (\<lambda>p. size (fst p)) (push_children cs depth location) = size_list size cs"
proof -
  have "map (\<lambda>p. size (fst p)) (push_children cs depth location) = map size cs"
    by (intro nth_equalityI) (auto simp: push_children_def nth_enumerate_eq)
  then show ?thesis by (simp add: size_list_conv_sum_list push_children_def)
qed

function lint_walk :: "(evidence_expression \<times> nat \<times> string) list \<Rightarrow> nat \<Rightarrow> nat \<Rightarrow> string list \<Rightarrow> nat \<times> nat \<times> string list" where
  "lint_walk [] nodes max_depth references = (nodes, max_depth, references)"
| "lint_walk ((current, depth, location) # stack) nodes max_depth references =
     (case current of
        ClauseRef cid \<Rightarrow> lint_walk stack (Suc nodes) (max max_depth depth) (references @ [cid])
      | AllOf cs \<Rightarrow> lint_walk (push_children cs (Suc depth) location @ stack) (Suc nodes) (max max_depth depth) references
      | AnyOf cs \<Rightarrow> lint_walk (push_children cs (Suc depth) location @ stack) (Suc nodes) (max max_depth depth) references
      | AtLeast _ cs \<Rightarrow> lint_walk (push_children cs (Suc depth) location @ stack) (Suc nodes) (max max_depth depth) references
      | Not e \<Rightarrow> lint_walk ((e, Suc depth, location @ ''.child'') # stack) (Suc nodes) (max max_depth depth) references)"
  by pat_completeness auto
termination
  by (relation "measure (\<lambda>(stack, _). size_list (\<lambda>p. size (fst p)) stack)")
    (simp_all add: size_push_children)

text \<open>The loop over the references, with the set of the identifiers seen so far.\<close>

fun lint_references :: "string \<Rightarrow> string set \<Rightarrow> (nat \<times> string) list \<Rightarrow> string set \<Rightarrow> contract_lint_issue list" where
  "lint_references label known [] seen = []"
| "lint_references label known ((i, cid) # refs) seen =
     (let location = label @ ''.expression.references['' @ show_nat i @ '']'' in
      (if cid \<notin> known then [lint_issue ''unknown_clause_reference'' location (''unknown clause reference: '' @ cid)] else []) @
      (if cid \<in> seen then [lint_issue ''duplicate_clause_reference'' location
          (''clause is referenced more than once: '' @ cid)] else []) @
      lint_references label known refs (insert cid seen))"

definition lint_clause :: "evidence_clause \<Rightarrow> string \<Rightarrow> contract_lint_issue option" where
  "lint_clause c label =
     (let location = label @ ''.clauses.'' @ cl_clause_id c @ ''.expected'' in
      if cl_operator c \<in> {LESS_THAN, LESS_THAN_OR_EQUAL, GREATER_THAN, GREATER_THAN_OR_EQUAL}
         \<and> \<not> (case cl_expected c of EScalar (EInt _) \<Rightarrow> True | _ \<Rightarrow> False)
      then Some (lint_issue ''invalid_expected_type'' location ''numeric comparison requires an integer expected value'')
      else if cl_operator c = CONTAINS \<and> (case cl_expected c of ETuple _ \<Rightarrow> True | _ \<Rightarrow> False)
      then Some (lint_issue ''invalid_expected_type'' location ''contains requires a scalar expected value'')
      else if cl_operator c \<in> {SUBSET, DISJOINT} \<and> \<not> (case cl_expected c of ETuple _ \<Rightarrow> True | _ \<Rightarrow> False)
      then Some (lint_issue ''invalid_expected_type'' location ''set comparison requires a list expected value'')
      else None)"

definition lint_clause_use :: "string \<Rightarrow> string set \<Rightarrow> evidence_clause \<Rightarrow> contract_lint_issue list" where
  "lint_clause_use label seen c =
     (if cl_clause_id c \<notin> seen
      then [lint_issue ''unused_clause'' (label @ ''.clauses.'' @ cl_clause_id c)
              ''clause is not referenced by the root expression''] else []) @
     (case lint_clause c label of None \<Rightarrow> [] | Some i \<Rightarrow> [i])"

definition lint_rule_set ::
    "evidence_clause list \<Rightarrow> evidence_expression \<Rightarrow> pyobj \<Rightarrow> string \<Rightarrow> evidence_contract_limits \<Rightarrow> contract_lint_issue list result" where
  "lint_rule_set clauses expression payload label limits =
     (let issues1 = (if max_clauses limits < int (length clauses)
            then [lint_issue ''too_many_clauses'' (label @ ''.clauses'') (''clause count exceeds '' @ show_int (max_clauses limits))] else []);
          (nodes, max_depth, references) = lint_walk [(expression, 1, label @ ''.expression'')] 0 0 [];
          issues2 = (if max_expression_nodes limits < int nodes
            then [lint_issue ''expression_too_large'' (label @ ''.expression'')
                   (''expression node count exceeds '' @ show_int (max_expression_nodes limits))] else []);
          issues3 = (if max_expression_depth limits < int max_depth
            then [lint_issue ''expression_too_deep'' (label @ ''.expression'')
                   (''expression depth exceeds '' @ show_int (max_expression_depth limits))] else []);
          issues4 = lint_references label (set (map cl_clause_id clauses)) (enumerate 0 references) {};
          issues5 = concat (map (lint_clause_use label (set references)) clauses)
      in bindE (canonical_json_bytes payload) (\<lambda>bytes.
           let issues6 = (if max_contract_bytes limits < int (length bytes)
             then [lint_issue ''contract_too_large'' label
                    (''canonical contract exceeds '' @ show_int (max_contract_bytes limits) @ '' bytes'')] else [])
           in Inr (sort_key issue_key (issues1 @ issues2 @ issues3 @ issues4 @ issues5 @ issues6))))"

definition lint_evidence_contract :: "evidence_contract \<Rightarrow> evidence_contract_limits \<Rightarrow> contract_lint_issue list result" where
  "lint_evidence_contract c limits = lint_rule_set (ec_clauses c) (ec_task_success c) (contract_payload c) ''contract'' limits"

definition lint_gap_closure_rule :: "gap_closure_rule \<Rightarrow> evidence_contract_limits \<Rightarrow> contract_lint_issue list result" where
  "lint_gap_closure_rule r limits = lint_rule_set (gr_clauses r) (gr_closure_condition r) (rule_payload r) ''closure_rule'' limits"

section \<open>Predicates\<close>

text \<open>The typed key of a scalar is its type name with its value.\<close>

fun scalar_type :: "evidence_scalar \<Rightarrow> string" where
  "scalar_type (EBool _) = ''bool''"
| "scalar_type (EInt _) = ''int''"
| "scalar_type (EStr _) = ''str''"

definition typed_key :: "evidence_scalar \<Rightarrow> string \<times> evidence_scalar" where
  "typed_key v = (scalar_type v, v)"

fun value_type :: "evidence_value \<Rightarrow> string" where
  "value_type (EScalar s) = scalar_type s"
| "value_type (ETuple _) = ''tuple''"

fun typed_equal :: "evidence_value \<Rightarrow> evidence_value \<Rightarrow> bool" where
  "typed_equal (ETuple xs) (ETuple ys) = (length xs = length ys \<and> list_all (\<lambda>(x, y). typed_key x = typed_key y) (zip xs ys))"
| "typed_equal (EScalar x) (EScalar y) = (typed_key x = typed_key y)"
| "typed_equal _ _ = False"

fun same_value_schema :: "evidence_value \<Rightarrow> evidence_value \<Rightarrow> bool" where
  "same_value_schema (ETuple xs) (ETuple ys) = list_all (\<lambda>(x, y). scalar_type x = scalar_type y) (zip xs ys)"
| "same_value_schema left right = (value_type left = value_type right)"

definition predicate_outcome :: "bool \<Rightarrow> logical_result \<times> string" where
  "predicate_outcome passed = (if passed then (PASS, ''predicate_satisfied'') else (FAIL, ''predicate_not_satisfied''))"

definition type_mismatch :: "logical_result \<times> string" where
  "type_mismatch = (INDETERMINATE, ''observation_type_mismatch'')"

fun compare_integers :: "predicate_operator \<Rightarrow> int \<Rightarrow> int \<Rightarrow> bool" where
  "compare_integers LESS_THAN a x = (a < x)"
| "compare_integers LESS_THAN_OR_EQUAL a x = (a \<le> x)"
| "compare_integers GREATER_THAN a x = (x < a)"
| "compare_integers _ a x = (x \<le> a)"

definition evaluate_predicate :: "predicate_operator \<Rightarrow> evidence_value \<Rightarrow> evidence_value \<Rightarrow> logical_result \<times> string" where
  "evaluate_predicate oper actual expected =
     (if oper = EQUALS then predicate_outcome (typed_equal actual expected)
      else if oper = NOT_EQUALS then
        (if \<not> same_value_schema actual expected then type_mismatch else predicate_outcome (\<not> typed_equal actual expected))
      else if oper \<in> {LESS_THAN, LESS_THAN_OR_EQUAL, GREATER_THAN, GREATER_THAN_OR_EQUAL} then
        (case (actual, expected) of
           (EScalar (EInt a), EScalar (EInt x)) \<Rightarrow> predicate_outcome (compare_integers oper a x)
         | _ \<Rightarrow> type_mismatch)
      else if oper = CONTAINS then
        (case (actual, expected) of
           (ETuple items, EScalar x) \<Rightarrow> predicate_outcome (typed_key x \<in> set (map typed_key items))
         | _ \<Rightarrow> type_mismatch)
      else
        (case (actual, expected) of
           (ETuple as, ETuple xs) \<Rightarrow>
             if oper = DISJOINT \<and> as \<noteq> [] \<and> xs \<noteq> [] \<and> set (map scalar_type as) \<noteq> set (map scalar_type xs) then type_mismatch
             else if oper = SUBSET then predicate_outcome (set (map typed_key as) \<subseteq> set (map typed_key xs))
             else predicate_outcome (set (map typed_key as) \<inter> set (map typed_key xs) = {})
         | _ \<Rightarrow> type_mismatch))"

section \<open>Clauses\<close>

definition evaluate_clause :: "evidence_observation list \<Rightarrow> evidence_clause \<Rightarrow> predicate_evaluation result" where
  "evaluate_clause observations c =
     (let found = sort_key ob_observation_id (filter (\<lambda>ob. ob_selector ob = cl_selector c) observations);
          evaluation = (\<lambda>res ids reason. mk_predicate_evaluation
            \<lparr>pe_clause_id = cl_clause_id c, pe_result = res, pe_observation_ids = ids, pe_reason_code = reason\<rparr>)
      in case found of
           [] \<Rightarrow> evaluation INDETERMINATE [] ''missing_observation''
         | [ob] \<Rightarrow>
             if ob_status ob = UNAVAILABLE then evaluation INDETERMINATE [ob_observation_id ob] ''observation_unavailable''
             else if ob_status ob = OBS_ERROR then evaluation INDETERMINATE [ob_observation_id ob] ''observation_error''
             else (case ob_value ob of None \<Rightarrow> Inl (AssertionError [])
                | Some v \<Rightarrow> (case evaluate_predicate (cl_operator c) v (cl_expected c) of
                    (res, reason) \<Rightarrow> evaluation res [ob_observation_id ob] reason))
         | _ \<Rightarrow> evaluation INDETERMINATE (map ob_observation_id found) ''ambiguous_observation'')"

definition evaluate_clauses :: "evidence_clause list \<Rightarrow> evidence_observation list \<Rightarrow> predicate_evaluation list result" where
  "evaluate_clauses clauses observations = mapE (evaluate_clause observations) clauses"

section \<open>Expressions\<close>

definition all_of_result :: "logical_result list \<Rightarrow> logical_result" where
  "all_of_result rs = (if FAIL \<in> set rs then FAIL else if list_all (\<lambda>r. r = PASS) rs then PASS else INDETERMINATE)"

definition any_of_result :: "logical_result list \<Rightarrow> logical_result" where
  "any_of_result rs = (if PASS \<in> set rs then PASS else if list_all (\<lambda>r. r = FAIL) rs then FAIL else INDETERMINATE)"

definition at_least_result :: "int \<Rightarrow> logical_result list \<Rightarrow> logical_result" where
  "at_least_result minimum rs =
     (let passes = int (length (filter (\<lambda>r. r = PASS) rs));
          indeterminate = int (length (filter (\<lambda>r. r = INDETERMINATE) rs))
      in if minimum \<le> passes then PASS else if passes + indeterminate < minimum then FAIL else INDETERMINATE)"

fun not_result :: "logical_result \<Rightarrow> logical_result" where
  "not_result PASS = FAIL"
| "not_result FAIL = PASS"
| "not_result INDETERMINATE = INDETERMINATE"

fun evaluate_expression :: "evidence_expression \<Rightarrow> (string \<times> logical_result) list \<Rightarrow> logical_result result" where
  "evaluate_expression (ClauseRef cid) predicates = (case map_of predicates cid of Some r \<Rightarrow> Inr r | None \<Rightarrow> Inl (KeyError cid))"
| "evaluate_expression (AllOf cs) predicates =
     bindE (mapE (\<lambda>c. evaluate_expression c predicates) cs) (\<lambda>rs. Inr (all_of_result rs))"
| "evaluate_expression (AnyOf cs) predicates =
     bindE (mapE (\<lambda>c. evaluate_expression c predicates) cs) (\<lambda>rs. Inr (any_of_result rs))"
| "evaluate_expression (AtLeast minimum cs) predicates =
     bindE (mapE (\<lambda>c. evaluate_expression c predicates) cs) (\<lambda>rs. Inr (at_least_result minimum rs))"
| "evaluate_expression (Not e) predicates = bindE (evaluate_expression e predicates) (\<lambda>r. Inr (not_result r))"

section \<open>Entry points\<close>

definition observation_input_error :: "evidence_observation list \<Rightarrow> evidence_contract_limits \<Rightarrow> string option" where
  "observation_input_error observations limits =
     (if max_observations limits < int (length observations) then Some ''too_many_observations''
      else if \<not> distinct (map ob_observation_id observations) then Some ''duplicate_observation_id''
      else None)"

definition rejected_observation_set_digest :: "nat \<Rightarrow> int \<Rightarrow> string result" where
  "rejected_observation_set_digest n limit = sha256_digest (PDict (py_dict
     [(''schema_version'', PStr ''sisyphus_harness.rejected_observation_set.v1''),
      (''reason'', PStr ''too_many_observations''), (''count'', PInt (int n)), (''limit'', PInt limit)]))"

definition observation_set_digest :: "evidence_observation list \<Rightarrow> evidence_contract_limits \<Rightarrow> string result" where
  "observation_set_digest observations limits =
     (if max_observations limits < int (length observations)
      then Inl (ValueError ''observation set exceeds the configured observation limit'')
      else sha256_digest (PList (map observation_to_dict
             (sort_key (\<lambda>ob. (ob_observation_id ob, observation_digest ob)) observations))))"

definition predicate_dict :: "predicate_evaluation list \<Rightarrow> (string \<times> logical_result) list" where
  "predicate_dict ps = py_dict (map (\<lambda>p. (pe_clause_id p, pe_result p)) ps)"

definition contract_evaluation_of ::
    "evidence_contract \<Rightarrow> string \<Rightarrow> evaluation_lifecycle \<Rightarrow> logical_result option \<Rightarrow> predicate_evaluation list
       \<Rightarrow> string option \<Rightarrow> contract_evaluation result" where
  "contract_evaluation_of c od lifecycle res ps code = mk_contract_evaluation
     \<lparr>ce_contract_digest = contract_digest c, ce_observation_set_digest = od, ce_evaluator_version = EVALUATOR_VERSION,
      ce_evaluator_digest = EVALUATOR_DIGEST, ce_lifecycle = lifecycle, ce_logical_result = res, ce_predicates = ps,
      ce_error_code = code, ce_scope = ''task'', ce_schema_version = ''sisyphus_harness.contract_evaluation.v1''\<rparr>"

definition evaluate_evidence_contract ::
    "evidence_contract \<Rightarrow> evidence_observation list \<Rightarrow> evidence_contract_limits \<Rightarrow> contract_evaluation result" where
  "evaluate_evidence_contract c observations limits =
     (if max_observations limits < int (length observations) then
        bindE (rejected_observation_set_digest (length observations) (max_observations limits)) (\<lambda>od.
        contract_evaluation_of c od LIFECYCLE_ERROR None [] (Some ''too_many_observations''))
      else
        bindE (observation_set_digest observations limits) (\<lambda>od.
        bindE (lint_evidence_contract c limits) (\<lambda>issues.
        if issues \<noteq> [] then contract_evaluation_of c od LIFECYCLE_ERROR None [] (Some ''contract_lint_failed'')
        else (case observation_input_error observations limits of
            Some code \<Rightarrow> contract_evaluation_of c od LIFECYCLE_ERROR None [] (Some code)
          | None \<Rightarrow>
              bindE (evaluate_clauses (ec_clauses c) observations) (\<lambda>ps.
              bindE (evaluate_expression (ec_task_success c) (predicate_dict ps)) (\<lambda>root.
              contract_evaluation_of c od COMPLETED (Some root) ps None))))))"

fun closure_of :: "logical_result \<Rightarrow> gap_closure_result" where
  "closure_of PASS = CLOSED"
| "closure_of FAIL = NOT_CLOSED"
| "closure_of INDETERMINATE = GAP_INDETERMINATE"

definition gap_evaluation_of ::
    "gap_closure_rule \<Rightarrow> int \<Rightarrow> string \<Rightarrow> evaluation_lifecycle \<Rightarrow> gap_closure_result option \<Rightarrow> predicate_evaluation list
       \<Rightarrow> string option \<Rightarrow> gap_closure_evaluation result" where
  "gap_evaluation_of r revision od lifecycle res ps code = mk_gap_closure_evaluation
     \<lparr>ge_rule_digest = rule_digest r, ge_requirement_id = gr_requirement_id r, ge_gap_id = gr_gap_id r,
      ge_grounding_revision = revision, ge_observation_set_digest = od, ge_evaluator_version = EVALUATOR_VERSION,
      ge_evaluator_digest = EVALUATOR_DIGEST, ge_lifecycle = lifecycle, ge_closure_result = res, ge_predicates = ps,
      ge_error_code = code, ge_schema_version = ''sisyphus_harness.gap_closure_evaluation.v1''\<rparr>"

definition evaluate_gap_closure_rule ::
    "gap_closure_rule \<Rightarrow> evidence_observation list \<Rightarrow> int \<Rightarrow> evidence_contract_limits \<Rightarrow> gap_closure_evaluation result" where
  "evaluate_gap_closure_rule r observations revision limits =
     (if revision < 0 then Inl (ValueError ''grounding revision must be a non-negative integer'')
      else if max_observations limits < int (length observations) then
        bindE (rejected_observation_set_digest (length observations) (max_observations limits)) (\<lambda>od.
        gap_evaluation_of r revision od LIFECYCLE_ERROR None [] (Some ''too_many_observations''))
      else
        bindE (observation_set_digest observations limits) (\<lambda>od.
        bindE (lint_gap_closure_rule r limits) (\<lambda>issues.
        if issues \<noteq> [] then gap_evaluation_of r revision od LIFECYCLE_ERROR None [] (Some ''closure_rule_lint_failed'')
        else (case observation_input_error observations limits of
            Some code \<Rightarrow> gap_evaluation_of r revision od LIFECYCLE_ERROR None [] (Some code)
          | None \<Rightarrow>
              bindE (evaluate_clauses (gr_clauses r) observations) (\<lambda>ps.
              bindE (evaluate_expression (gr_closure_condition r) (predicate_dict ps)) (\<lambda>logical.
              gap_evaluation_of r revision od COMPLETED (Some (closure_of logical)) ps None))))))"

section \<open>What a clean lint means\<close>

fun expr_refs :: "evidence_expression \<Rightarrow> string list" where
  "expr_refs (ClauseRef cid) = [cid]"
| "expr_refs (AllOf cs) = concat (map expr_refs cs)"
| "expr_refs (AnyOf cs) = concat (map expr_refs cs)"
| "expr_refs (AtLeast _ cs) = concat (map expr_refs cs)"
| "expr_refs (Not e) = expr_refs e"

lemma map_push_children [simp]: "map (\<lambda>p. f (fst p) (fst (snd p))) (push_children cs d loc) = map (\<lambda>c. f c d) cs"
  by (intro nth_equalityI) (auto simp: push_children_def nth_enumerate_eq)

lemma foldr_max_init: "foldr max xs (a::nat) = max a (foldr max xs 0)"
  by (induction xs) auto

lemma foldr_max_shift: "d + foldr max (map f cs) (0::nat) = max d (foldr max (map (\<lambda>c. d + f c) cs) 0)"
  by (induction cs) auto

definition reach :: "evidence_expression \<Rightarrow> nat \<Rightarrow> nat" where
  "reach e d = d + expr_depth e - 1"

lemma reach_simps:
  "reach (ClauseRef x) d = d"
  "reach (AllOf cs) d = max d (foldr max (map (\<lambda>c. reach c (Suc d)) cs) 0)"
  "reach (AnyOf cs) d = max d (foldr max (map (\<lambda>c. reach c (Suc d)) cs) 0)"
  "reach (AtLeast m cs) d = max d (foldr max (map (\<lambda>c. reach c (Suc d)) cs) 0)"
  "reach (evidence_expression.Not e) d = reach e (Suc d)"
  "d \<le> reach e d"
  by (simp_all add: reach_def foldr_max_shift) (use expr_depth_pos [of e] in linarith)+

text \<open>The stack walk computes the node count, the depth and the references in reading order.\<close>

lemma lint_walk_eq:
  "lint_walk stack n d refs =
     (n + sum_list (map (\<lambda>p. expr_nodes (fst p)) stack),
      max d (foldr max (map (\<lambda>p. reach (fst p) (fst (snd p))) stack) 0),
      refs @ concat (map (\<lambda>p. expr_refs (fst p)) stack))"
proof (induction stack n d refs rule: lint_walk.induct)
  case (2 e dep loc stack n d refs)
  have kids: "map (\<lambda>p. expr_nodes (fst p)) (push_children cs (Suc dep) loc) = map expr_nodes cs"
    "map (\<lambda>p. expr_refs (fst p)) (push_children cs (Suc dep) loc) = map expr_refs cs"
    "map (\<lambda>p. reach (fst p) (fst (snd p))) (push_children cs (Suc dep) loc) = map (\<lambda>c. reach c (Suc dep)) cs" for cs
    using map_push_children [of "\<lambda>e _. expr_nodes e"] map_push_children [of "\<lambda>e _. expr_refs e"]
      map_push_children [of reach] by auto
  have join: "foldr max xs (foldr max ys (0::nat)) = max (foldr max xs 0) (foldr max ys 0)" for xs ys
    by (simp add: foldr_max_init [of xs "foldr max ys 0"] max.commute)
  have absorb: "max dep (max (reach f (Suc dep)) z) = max (reach f (Suc dep)) z" for f z
    using reach_simps(6) [of "Suc dep" f] by (simp add: max_def)
  show ?case
    by (cases e) (use 2 in \<open>simp_all add: reach_simps kids join absorb max.assoc add.assoc\<close>)
qed simp

lemma lint_references_Nil:
  "lint_references label known (enumerate i refs) seen = [] \<longleftrightarrow> set refs \<subseteq> known \<and> distinct refs \<and> set refs \<inter> seen = {}"
  by (induction refs arbitrary: i seen) (auto simp: Let_def)

text \<open>The operand type each operator needs.\<close>

fun is_integer_value :: "evidence_value \<Rightarrow> bool" where
  "is_integer_value (EScalar (EInt _)) = True"
| "is_integer_value _ = False"

fun is_sequence_value :: "evidence_value \<Rightarrow> bool" where
  "is_sequence_value (ETuple _) = True"
| "is_sequence_value (EScalar _) = False"

definition clause_typed :: "evidence_clause \<Rightarrow> bool" where
  "clause_typed c = (case cl_operator c of
       LESS_THAN \<Rightarrow> is_integer_value (cl_expected c)
     | LESS_THAN_OR_EQUAL \<Rightarrow> is_integer_value (cl_expected c)
     | GREATER_THAN \<Rightarrow> is_integer_value (cl_expected c)
     | GREATER_THAN_OR_EQUAL \<Rightarrow> is_integer_value (cl_expected c)
     | CONTAINS \<Rightarrow> \<not> is_sequence_value (cl_expected c)
     | SUBSET \<Rightarrow> is_sequence_value (cl_expected c)
     | DISJOINT \<Rightarrow> is_sequence_value (cl_expected c)
     | _ \<Rightarrow> True)"

lemma lint_clause_None: "lint_clause c label = None \<longleftrightarrow> clause_typed c"
  by (cases "cl_operator c"; cases "cl_expected c")
    (auto simp: lint_clause_def clause_typed_def Let_def split: evidence_scalar.splits)

lemma lint_clause_use_Nil: "lint_clause_use label seen c = [] \<longleftrightarrow> cl_clause_id c \<in> seen \<and> clause_typed c"
  using lint_clause_None [of c label] by (auto simp: lint_clause_use_def split: option.splits)

lemma sort_key_Nil [simp]: "sort_key f xs = [] \<longleftrightarrow> xs = []"
  by (metis set_sort set_empty)

definition lint_clean :: "evidence_clause list \<Rightarrow> evidence_expression \<Rightarrow> pyobj \<Rightarrow> evidence_contract_limits \<Rightarrow> bool" where
  "lint_clean clauses e payload limits \<longleftrightarrow> int (length clauses) \<le> max_clauses limits
     \<and> int (expr_nodes e) \<le> max_expression_nodes limits \<and> int (expr_depth e) \<le> max_expression_depth limits
     \<and> distinct (expr_refs e) \<and> set (expr_refs e) = cl_clause_id ` set clauses \<and> (\<forall>c\<in>set clauses. clause_typed c)
     \<and> int (length (json_dumps payload)) \<le> max_contract_bytes limits"

lemma lint_rule_set_Nil:
  assumes "wire_ok payload"
  shows "lint_rule_set clauses e payload label limits = Inr [] \<longleftrightarrow> lint_clean clauses e payload limits"
  using assms
  by (auto simp: lint_rule_set_def Let_def lint_walk_eq reach_def lint_references_Nil lint_clause_use_Nil lint_clean_def
      simp del: lint_references.simps)

lemma lint_rule_set_total: "wire_ok payload \<Longrightarrow> \<exists>issues. lint_rule_set clauses e payload label limits = Inr issues"
  by (simp add: lint_rule_set_def Let_def split: prod.splits)

section \<open>The three-valued result is exact\<close>

fun kleene :: "evidence_expression \<Rightarrow> (string \<Rightarrow> logical_result) \<Rightarrow> logical_result" where
  "kleene (ClauseRef cid) \<rho> = \<rho> cid"
| "kleene (AllOf cs) \<rho> = all_of_result (map (\<lambda>c. kleene c \<rho>) cs)"
| "kleene (AnyOf cs) \<rho> = any_of_result (map (\<lambda>c. kleene c \<rho>) cs)"
| "kleene (AtLeast m cs) \<rho> = at_least_result m (map (\<lambda>c. kleene c \<rho>) cs)"
| "kleene (Not e) \<rho> = not_result (kleene e \<rho>)"

lemma mapE_map: "(\<And>x. x \<in> set xs \<Longrightarrow> f x = Inr (g x)) \<Longrightarrow> mapE f xs = Inr (map g xs)"
  by (induction xs) auto

lemma evaluate_expression_kleene:
  "set (expr_refs e) \<subseteq> dom (map_of ps) \<Longrightarrow> evaluate_expression e ps = Inr (kleene e (\<lambda>c. the (map_of ps c)))"
proof (induction e)
  case (AllOf cs)
  then show ?case by (simp add: mapE_map UN_subset_iff)
next
  case (AnyOf cs)
  then show ?case by (simp add: mapE_map UN_subset_iff)
next
  case (AtLeast m cs)
  then show ?case by (simp add: mapE_map UN_subset_iff)
qed auto

text \<open>
  The two-valued reading of an expression, and the two-valued valuations that agree with a
  three-valued one wherever it is determinate.
\<close>

fun holds :: "evidence_expression \<Rightarrow> (string \<Rightarrow> bool) \<Rightarrow> bool" where
  "holds (ClauseRef cid) \<sigma> = \<sigma> cid"
| "holds (AllOf cs) \<sigma> = list_all (\<lambda>c. holds c \<sigma>) cs"
| "holds (AnyOf cs) \<sigma> = list_ex (\<lambda>c. holds c \<sigma>) cs"
| "holds (AtLeast m cs) \<sigma> = (m \<le> int (length (filter (\<lambda>c. holds c \<sigma>) cs)))"
| "holds (Not e) \<sigma> = (\<not> holds e \<sigma>)"

definition completes :: "(string \<Rightarrow> bool) \<Rightarrow> (string \<Rightarrow> logical_result) \<Rightarrow> bool" where
  "completes \<sigma> \<rho> \<longleftrightarrow> (\<forall>c. (\<rho> c = PASS \<longrightarrow> \<sigma> c) \<and> (\<rho> c = FAIL \<longrightarrow> \<not> \<sigma> c))"

lemma holds_cong: "(\<And>x. x \<in> set (expr_refs e) \<Longrightarrow> \<sigma> x = \<tau> x) \<Longrightarrow> holds e \<sigma> = holds e \<tau>"
proof (induction e)
  case (AtLeast m cs)
  then have "filter (\<lambda>c. holds c \<sigma>) cs = filter (\<lambda>c. holds c \<tau>) cs" by (intro filter_cong) auto
  then show ?case by simp
qed (auto simp: list_all_iff list_ex_iff)

lemma length_filter_mono: "(\<And>x. x \<in> set xs \<Longrightarrow> P x \<Longrightarrow> Q x) \<Longrightarrow> length (filter P xs) \<le> length (filter Q xs)"
  by (induction xs) auto

lemma length_filter_PASS_INDET:
  "length (filter (\<lambda>c. f c = PASS) cs) + length (filter (\<lambda>c. f c = INDETERMINATE) cs) = length (filter (\<lambda>c. f c \<noteq> FAIL) cs)"
proof (induction cs)
  case (Cons c cs)
  then show ?case by (cases "f c") auto
qed simp

lemma at_least_result_map:
  "at_least_result m (map f cs) =
     (if m \<le> int (length (filter (\<lambda>c. f c = PASS) cs)) then PASS
      else if int (length (filter (\<lambda>c. f c \<noteq> FAIL) cs)) < m then FAIL else INDETERMINATE)"
  by (simp add: at_least_result_def Let_def filter_map comp_def flip: length_filter_PASS_INDET)

lemma all_of_result_map:
  "all_of_result (map f cs) = PASS \<longleftrightarrow> (\<forall>c\<in>set cs. f c = PASS)"
  "all_of_result (map f cs) = FAIL \<longleftrightarrow> (\<exists>c\<in>set cs. f c = FAIL)"
  by (auto simp: all_of_result_def list_all_iff image_iff) (metis logical_result.distinct(1))+

lemma any_of_result_map:
  "any_of_result (map f cs) = PASS \<longleftrightarrow> (\<exists>c\<in>set cs. f c = PASS)"
  "any_of_result (map f cs) = FAIL \<longleftrightarrow> (\<forall>c\<in>set cs. f c = FAIL)"
  by (auto simp: any_of_result_def list_all_iff image_iff) (metis logical_result.distinct(1))+

lemmas result_map = all_of_result_map any_of_result_map list_all_iff list_ex_iff

lemma not_result_eq: "not_result r = PASS \<longleftrightarrow> r = FAIL" "not_result r = FAIL \<longleftrightarrow> r = PASS"
  by (cases r; simp)+

text \<open>A determinate result is right in every completion.\<close>

lemma kleene_sound:
  "completes \<sigma> \<rho> \<Longrightarrow> (kleene e \<rho> = PASS \<longrightarrow> holds e \<sigma>) \<and> (kleene e \<rho> = FAIL \<longrightarrow> \<not> holds e \<sigma>)"
proof (induction e)
  case (AtLeast m cs)
  have "length (filter (\<lambda>c. kleene c \<rho> = PASS) cs) \<le> length (filter (\<lambda>c. holds c \<sigma>) cs)"
    "length (filter (\<lambda>c. holds c \<sigma>) cs) \<le> length (filter (\<lambda>c. kleene c \<rho> \<noteq> FAIL) cs)"
    using AtLeast by (intro length_filter_mono; blast)+
  then show ?case by (auto simp: at_least_result_map split: if_splits)
qed (auto simp: completes_def result_map not_result_eq)

text \<open>With disjoint references the completions of the children combine.\<close>

lemma completions_merge:
  assumes "distinct (concat (map expr_refs cs))"
    and "\<And>c. c \<in> set cs \<Longrightarrow> \<exists>\<sigma>. completes \<sigma> \<rho> \<and> (Q c \<longrightarrow> holds c \<sigma> = b)"
  shows "\<exists>\<sigma>. completes \<sigma> \<rho> \<and> (\<forall>c\<in>set cs. Q c \<longrightarrow> holds c \<sigma> = b)"
  using assms
proof (induction cs)
  case Nil
  show ?case by (intro exI [of _ "\<lambda>c. \<rho> c = PASS"]) (simp add: completes_def)
next
  case (Cons c cs)
  then obtain \<sigma> where \<sigma>: "completes \<sigma> \<rho>" "\<forall>d\<in>set cs. Q d \<longrightarrow> holds d \<sigma> = b" by auto
  obtain \<tau> where \<tau>: "completes \<tau> \<rho>" "Q c \<longrightarrow> holds c \<tau> = b" using Cons.prems(2) [of c] by auto
  let ?m = "\<lambda>x. if x \<in> set (expr_refs c) then \<tau> x else \<sigma> x"
  have "holds c ?m = holds c \<tau>" by (rule holds_cong) simp
  moreover have "holds d ?m = holds d \<sigma>" if "d \<in> set cs" for d
    by (rule holds_cong) (use Cons.prems(1) that in auto)
  moreover have "completes ?m \<rho>" using \<sigma>(1) \<tau>(1) by (simp add: completes_def)
  ultimately show ?case using \<sigma>(2) \<tau>(2) by (intro exI [of _ ?m]) auto
qed

definition completable :: "evidence_expression \<Rightarrow> (string \<Rightarrow> logical_result) \<Rightarrow> bool" where
  "completable e \<rho> \<longleftrightarrow> (kleene e \<rho> \<noteq> FAIL \<longrightarrow> (\<exists>\<sigma>. completes \<sigma> \<rho> \<and> holds e \<sigma>)) \<and>
     (kleene e \<rho> \<noteq> PASS \<longrightarrow> (\<exists>\<sigma>. completes \<sigma> \<rho> \<and> \<not> holds e \<sigma>))"

lemma completes_exists: "\<exists>\<sigma>. completes \<sigma> \<rho>"
  by (intro exI [of _ "\<lambda>c. \<rho> c = PASS"]) (simp add: completes_def)

lemma children_completable:
  assumes "distinct (concat (map expr_refs cs))" and "\<And>c. c \<in> set cs \<Longrightarrow> completable c \<rho>"
  shows "\<exists>\<sigma>. completes \<sigma> \<rho> \<and> (\<forall>c\<in>set cs. kleene c \<rho> \<noteq> FAIL \<longrightarrow> holds c \<sigma> = True)"
    and "\<exists>\<sigma>. completes \<sigma> \<rho> \<and> (\<forall>c\<in>set cs. kleene c \<rho> \<noteq> PASS \<longrightarrow> holds c \<sigma> = False)"
  by (rule completions_merge [OF assms(1)], use assms(2) completes_exists [of \<rho>] in \<open>unfold completable_def, blast\<close>)+

lemma distinct_refs_child: "distinct (concat (map expr_refs cs)) \<Longrightarrow> c \<in> set cs \<Longrightarrow> distinct (expr_refs c)"
  by (induction cs) auto

lemma kleene_complete: "distinct (expr_refs e) \<Longrightarrow> completable e \<rho>"
proof (induction e)
  case (ClauseRef x)
  have "completes (\<lambda>c. \<rho> c \<noteq> FAIL) \<rho>" "completes (\<lambda>c. \<rho> c = PASS) \<rho>" by (simp_all add: completes_def)
  then show ?case unfolding completable_def kleene.simps holds.simps by blast
next
  case (AllOf cs)
  then have kids: "distinct (concat (map expr_refs cs))" "\<And>c. c \<in> set cs \<Longrightarrow> completable c \<rho>"
    using distinct_refs_child [of cs] by auto
  from children_completable [OF kids] show ?case
    unfolding completable_def by (simp add: result_map) blast
next
  case (AnyOf cs)
  then have kids: "distinct (concat (map expr_refs cs))" "\<And>c. c \<in> set cs \<Longrightarrow> completable c \<rho>"
    using distinct_refs_child [of cs] by auto
  from children_completable [OF kids] show ?case
    unfolding completable_def by (simp add: result_map) blast
next
  case (AtLeast m cs)
  then have kids: "distinct (concat (map expr_refs cs))" "\<And>c. c \<in> set cs \<Longrightarrow> completable c \<rho>"
    using distinct_refs_child [of cs] by auto
  obtain \<sigma> \<tau> where \<sigma>: "completes \<sigma> \<rho>" "\<And>c. c \<in> set cs \<Longrightarrow> kleene c \<rho> \<noteq> FAIL \<Longrightarrow> holds c \<sigma>"
    and \<tau>: "completes \<tau> \<rho>" "\<And>c. c \<in> set cs \<Longrightarrow> kleene c \<rho> \<noteq> PASS \<Longrightarrow> \<not> holds c \<tau>"
    using children_completable [OF kids] by blast
  have "length (filter (\<lambda>c. kleene c \<rho> \<noteq> FAIL) cs) \<le> length (filter (\<lambda>c. holds c \<sigma>) cs)"
    "length (filter (\<lambda>c. holds c \<tau>) cs) \<le> length (filter (\<lambda>c. kleene c \<rho> = PASS) cs)"
    using \<sigma>(2) \<tau>(2) by (intro length_filter_mono; blast)+
  moreover have "kleene (AtLeast m cs) \<rho> \<noteq> FAIL \<Longrightarrow> m \<le> int (length (filter (\<lambda>c. kleene c \<rho> \<noteq> FAIL) cs))"
    using length_filter_mono [of cs "\<lambda>c. kleene c \<rho> = PASS" "\<lambda>c. kleene c \<rho> \<noteq> FAIL"]
    by (auto simp: at_least_result_map split: if_splits)
  moreover have "kleene (AtLeast m cs) \<rho> \<noteq> PASS \<Longrightarrow> int (length (filter (\<lambda>c. kleene c \<rho> = PASS) cs)) < m"
    by (auto simp: at_least_result_map split: if_splits)
  ultimately have "kleene (AtLeast m cs) \<rho> \<noteq> FAIL \<Longrightarrow> holds (AtLeast m cs) \<sigma>"
    "kleene (AtLeast m cs) \<rho> \<noteq> PASS \<Longrightarrow> \<not> holds (AtLeast m cs) \<tau>"
    unfolding holds.simps by linarith+
  with \<sigma>(1) \<tau>(1) show ?case unfolding completable_def by blast
next
  case (Not e)
  then show ?case by (auto simp: completable_def not_result_eq)
qed

lemma kleene_exact:
  assumes "distinct (expr_refs e)"
  shows "kleene e \<rho> = PASS \<longleftrightarrow> (\<forall>\<sigma>. completes \<sigma> \<rho> \<longrightarrow> holds e \<sigma>)"
    and "kleene e \<rho> = FAIL \<longleftrightarrow> (\<forall>\<sigma>. completes \<sigma> \<rho> \<longrightarrow> \<not> holds e \<sigma>)"
  using kleene_sound kleene_complete [OF assms] unfolding completable_def by blast+

section \<open>Clause results\<close>

text \<open>What each operator asks of the observed and the expected value.\<close>

fun predicate_sat :: "predicate_operator \<Rightarrow> evidence_value \<Rightarrow> evidence_value \<Rightarrow> bool" where
  "predicate_sat EQUALS a x = (a = x)"
| "predicate_sat NOT_EQUALS a x = (same_value_schema a x \<and> a \<noteq> x)"
| "predicate_sat CONTAINS a x = (\<exists>items s. a = ETuple items \<and> x = EScalar s \<and> s \<in> set items)"
| "predicate_sat SUBSET a x = (\<exists>as xs. a = ETuple as \<and> x = ETuple xs \<and> set as \<subseteq> set xs)"
| "predicate_sat DISJOINT a x = (\<exists>as xs. a = ETuple as \<and> x = ETuple xs \<and> set as \<inter> set xs = {} \<and>
     (as = [] \<or> xs = [] \<or> scalar_type ` set as = scalar_type ` set xs))"
| "predicate_sat oper a x = (\<exists>i j. a = EScalar (EInt i) \<and> x = EScalar (EInt j) \<and> compare_integers oper i j)"

lemma typed_key_eq [simp]: "typed_key x = typed_key y \<longleftrightarrow> x = y"
  by (auto simp: typed_key_def)

lemma typed_key_mem [simp]: "typed_key x \<in> typed_key ` A \<longleftrightarrow> x \<in> A"
  by (auto simp: image_iff)

lemma typed_key_subset [simp]: "typed_key ` A \<subseteq> typed_key ` B \<longleftrightarrow> A \<subseteq> B"
  by (auto simp: image_subset_iff)

lemma typed_key_disjoint [simp]: "typed_key ` A \<inter> typed_key ` B = {} \<longleftrightarrow> A \<inter> B = {}"
  by auto

lemma typed_equal_eq [simp]: "typed_equal a x \<longleftrightarrow> a = x"
  by (cases a; cases x) (auto simp: list_all_iff list_eq_iff_zip_eq)

lemma predicate_outcome_simps [simp]:
  "predicate_outcome b = (PASS, reason) \<longleftrightarrow> b \<and> reason = ''predicate_satisfied''"
  "fst (predicate_outcome b) = PASS \<longleftrightarrow> b"
  "fst type_mismatch \<noteq> PASS"
  by (auto simp: predicate_outcome_def type_mismatch_def)

lemma evaluate_predicate_PASS: "fst (evaluate_predicate oper a x) = PASS \<longleftrightarrow> predicate_sat oper a x"
  by (cases oper; cases a; cases x)
    (auto simp: evaluate_predicate_def split: evidence_scalar.splits)

lemma reason_tokens: "list_all is_token [''missing_observation'', ''ambiguous_observation'', ''observation_unavailable'',
    ''observation_error'', ''predicate_satisfied'', ''predicate_not_satisfied'', ''observation_type_mismatch'',
    ''too_many_observations'', ''contract_lint_failed'', ''closure_rule_lint_failed'', ''duplicate_observation_id'',
    EVALUATOR_VERSION]"
  by code_simp

lemma evaluate_predicate_reason: "is_token (snd (evaluate_predicate oper a x))"
  using reason_tokens
  by (auto simp: evaluate_predicate_def predicate_outcome_def type_mismatch_def
      split: evidence_value.splits evidence_scalar.splits)

text \<open>Every clause gets an evaluation, under the clause's own identifier.\<close>

lemma evaluate_clause_total:
  assumes "is_token (cl_clause_id c)" and "list_all wf_observation obs" and "distinct (map ob_observation_id obs)"
  obtains p where "evaluate_clause obs c = Inr p" and "wf_predicate p" and "pe_clause_id p = cl_clause_id c"
proof -
  let ?found = "sort_key ob_observation_id (filter (\<lambda>ob. ob_selector ob = cl_selector c) obs)"
  have ids: "list_all is_token (map ob_observation_id ?found)" "distinct (map ob_observation_id ?found)"
    using assms(2,3) by (auto simp: list_all_iff wf_observation_def distinct_map intro: inj_on_subset)
  have val: "ob_status ob = OBSERVED \<Longrightarrow> \<exists>v. ob_value ob = Some v" if "ob \<in> set ?found" for ob
    using that assms(2) by (auto simp: list_all_iff wf_observation_def split: option.splits if_splits)
  have mk: "mk_predicate_evaluation \<lparr>pe_clause_id = cl_clause_id c, pe_result = r, pe_observation_ids = is, pe_reason_code = s\<rparr> =
      Inr \<lparr>pe_clause_id = cl_clause_id c, pe_result = r, pe_observation_ids = is, pe_reason_code = s\<rparr> \<and>
      wf_predicate \<lparr>pe_clause_id = cl_clause_id c, pe_result = r, pe_observation_ids = is, pe_reason_code = s\<rparr>"
    if "list_all is_token is" "distinct is" "is_token s" for r "is" s
    using that assms(1) by (simp add: mk_predicate_evaluation_eq wf_predicate_def token_tuple_ok_def)
  consider "?found = []" | ob where "?found = [ob]" | a b os where "?found = a # b # os"
    by (cases ?found rule: remdups_adj.cases) auto
  then show ?thesis
  proof cases
    case 1
    then show ?thesis using mk [of "[]"] reason_tokens by (auto simp: evaluate_clause_def intro: that)
  next
    case 2
    note mk1 = mk [of "[ob_observation_id ob]"]
    obtain res reason where pred: "evaluate_predicate (cl_operator c) (the (ob_value ob)) (cl_expected c) = (res, reason)"
      by fastforce
    then have "is_token reason" using evaluate_predicate_reason by (metis snd_conv)
    with 2 mk1 ids pred val [of ob] reason_tokens show ?thesis
      by (cases "ob_status ob") (auto simp: evaluate_clause_def intro: that)
  next
    case 3
    then show ?thesis using mk [OF ids] reason_tokens by (auto simp: evaluate_clause_def Let_def intro: that)
  qed
qed

lemma evaluate_clauses_total:
  assumes "list_all wf_clause cs" and "list_all wf_observation obs" and "distinct (map ob_observation_id obs)"
  obtains ps where "evaluate_clauses cs obs = Inr ps" and "list_all wf_predicate ps"
    and "map pe_clause_id ps = map cl_clause_id cs"
proof -
  have "\<exists>ps. evaluate_clauses cs obs = Inr ps \<and> list_all wf_predicate ps \<and> map pe_clause_id ps = map cl_clause_id cs"
    using assms(1)
  proof (induction cs)
    case (Cons c cs)
    then obtain ps where "mapE (evaluate_clause obs) cs = Inr ps" "list_all wf_predicate ps" "map pe_clause_id ps = map cl_clause_id cs"
      by (auto simp: evaluate_clauses_def)
    moreover obtain p where "evaluate_clause obs c = Inr p" "wf_predicate p" "pe_clause_id p = cl_clause_id c"
      using Cons.prems assms by (auto simp: wf_clause_def intro: evaluate_clause_total [of c obs])
    ultimately show ?case by (simp add: evaluate_clauses_def)
  qed (simp add: evaluate_clauses_def)
  then show ?thesis using that by blast
qed

text \<open>The valuation the predicate results give, total on the clause identifiers.\<close>

definition valuation :: "predicate_evaluation list \<Rightarrow> string \<Rightarrow> logical_result" where
  "valuation ps cid = the (map_of (predicate_dict ps) cid)"

lemma dom_predicate_dict: "dom (map_of (predicate_dict ps)) = pe_clause_id ` set ps"
  by (simp add: predicate_dict_def dom_map_of_conv_image_fst image_image)

lemma valuation_eq:
  assumes "distinct (map pe_clause_id ps)" and "p \<in> set ps"
  shows "valuation ps (pe_clause_id p) = pe_result p"
proof -
  have "distinct (map fst (map (\<lambda>p. (pe_clause_id p, pe_result p)) ps))" using assms(1) by (simp add: comp_def)
  moreover from this have "map_of (map (\<lambda>p. (pe_clause_id p, pe_result p)) ps) (pe_clause_id p) = Some (pe_result p)"
    using assms(2) by (intro map_of_is_SomeI) auto
  ultimately show ?thesis by (simp add: valuation_def predicate_dict_def map_of_py_dict_distinct)
qed

lemma observation_set_digest_total:
  "int (length obs) \<le> max_observations limits \<Longrightarrow>
   observation_set_digest obs limits = Inr (wire_digest (PList (map observation_to_dict
     (sort_key (\<lambda>ob. (ob_observation_id ob, observation_digest ob)) obs))))"
  by (simp add: observation_set_digest_def list_all_iff obs.encode_wire)

lemma rejected_digest_total: "\<exists>d. rejected_observation_set_digest n m = Inr d \<and> is_sha256 d"
  unfolding rejected_observation_set_digest_def
  by (subst sha256_digest_wire, rule wire_ok_py_dict) simp_all

lemma contract_payload_wire: "wire_ok (contract_payload c)"
  unfolding contract_payload_def by (rule ec.payload_wire)

lemma rule_payload_wire: "wire_ok (rule_payload r)"
  unfolding rule_payload_def by (rule gr.payload_wire)

definition contract_clean :: "evidence_contract \<Rightarrow> evidence_contract_limits \<Rightarrow> bool" where
  "contract_clean c limits \<longleftrightarrow> lint_clean (ec_clauses c) (ec_task_success c) (contract_payload c) limits"

definition observations_ok :: "evidence_observation list \<Rightarrow> evidence_contract_limits \<Rightarrow> bool" where
  "observations_ok obs limits \<longleftrightarrow> int (length obs) \<le> max_observations limits \<and> distinct (map ob_observation_id obs)"

lemma contract_evaluation_of_ok:
  assumes "is_sha256 od" and "list_all wf_predicate ps" and "distinct (map pe_clause_id ps)" and "lifecycle_ok lc res code"
  shows "\<exists>ev. contract_evaluation_of c od lc res ps code = Inr ev \<and> wf_evaluation ev \<and> ce_lifecycle ev = lc \<and>
     ce_logical_result ev = res \<and> ce_predicates ev = ps \<and> ce_error_code ev = code \<and> ce_contract_digest ev = contract_digest c"
  using assms reason_tokens
  by (simp add: contract_evaluation_of_def mk_contract_evaluation_eq wf_evaluation_def EVALUATOR_DIGEST_def)

lemma lifecycle_error_ok:
  "code \<in> {''too_many_observations'', ''contract_lint_failed'', ''closure_rule_lint_failed'', ''duplicate_observation_id''} \<Longrightarrow>
   lifecycle_ok LIFECYCLE_ERROR None (Some code)"
  using reason_tokens by (auto simp: lifecycle_ok_def)

text \<open>The clauses and the root expression of a clean rule set always evaluate.\<close>

lemma clean_rule_evaluates:
  assumes "list_all wf_clause cs" and "distinct (map cl_clause_id cs)" and "lint_clean cs e payload limits"
    and "list_all wf_observation obs" and "distinct (map ob_observation_id obs)"
  obtains ps where "evaluate_clauses cs obs = Inr ps" and "list_all wf_predicate ps"
    and "map pe_clause_id ps = map cl_clause_id cs" and "distinct (map pe_clause_id ps)"
    and "evaluate_expression e (predicate_dict ps) = Inr (kleene e (valuation ps))"
proof -
  obtain ps where ps: "evaluate_clauses cs obs = Inr ps" "list_all wf_predicate ps"
      "map pe_clause_id ps = map cl_clause_id cs"
    using evaluate_clauses_total [OF assms(1,4,5)] by blast
  have "set (expr_refs e) \<subseteq> dom (map_of (predicate_dict ps))"
    using assms(3) ps(3) by (metis dom_predicate_dict lint_clean_def list.set_map order_refl)
  then have "evaluate_expression e (predicate_dict ps) = Inr (kleene e (valuation ps))"
    by (simp add: evaluate_expression_kleene valuation_def [abs_def])
  with ps assms(2) that show ?thesis by metis
qed

text \<open>The evaluator on a clean contract and an acceptable observation set, and on everything else.\<close>

abbreviation set_digest :: "evidence_observation list \<Rightarrow> string" where
  "set_digest obs \<equiv> wire_digest (PList (map observation_to_dict (sort_key (\<lambda>ob. (ob_observation_id ob, observation_digest ob)) obs)))"

lemma evaluate_completed:
  assumes "wf_contract c" and "list_all wf_observation obs" and "contract_clean c limits" and "observations_ok obs limits"
  obtains ev ps where "evaluate_evidence_contract c obs limits = Inr ev" and "wf_evaluation ev" and "ce_lifecycle ev = COMPLETED"
    and "ce_contract_digest ev = contract_digest c"
    and "evaluate_clauses (ec_clauses c) obs = Inr ps" and "ce_predicates ev = ps" and "map pe_clause_id ps = map cl_clause_id (ec_clauses c)"
    and "distinct (map pe_clause_id ps)"
    and "ce_logical_result ev = Some (kleene (ec_task_success c) (valuation ps))"
proof -
  obtain ps where ps: "evaluate_clauses (ec_clauses c) obs = Inr ps" "list_all wf_predicate ps"
      "map pe_clause_id ps = map cl_clause_id (ec_clauses c)" "distinct (map pe_clause_id ps)"
      "evaluate_expression (ec_task_success c) (predicate_dict ps) = Inr (kleene (ec_task_success c) (valuation ps))"
    using assms clean_rule_evaluates [of "ec_clauses c" "ec_task_success c" "contract_payload c" limits obs]
    by (auto simp: wf_contract_def clauses_ok_def observations_ok_def contract_clean_def)
  have "lint_evidence_contract c limits = Inr []"
    using assms(3) by (simp add: lint_evidence_contract_def lint_rule_set_Nil contract_payload_wire contract_clean_def)
  then have "evaluate_evidence_contract c obs limits =
      contract_evaluation_of c (set_digest obs) COMPLETED (Some (kleene (ec_task_success c) (valuation ps))) ps None"
    using assms(4) ps
    by (simp add: evaluate_evidence_contract_def observation_set_digest_total observation_input_error_def observations_ok_def)
  with contract_evaluation_of_ok [of "set_digest obs" ps COMPLETED "Some (kleene (ec_task_success c) (valuation ps))" None c] ps
  show ?thesis using that by (auto simp: lifecycle_ok_def)
qed

lemma evaluate_rejected:
  assumes "\<not> (contract_clean c limits \<and> observations_ok obs limits)"
  obtains ev where "evaluate_evidence_contract c obs limits = Inr ev" and "wf_evaluation ev" and "ce_lifecycle ev = LIFECYCLE_ERROR"
    and "ce_contract_digest ev = contract_digest c" and "ce_logical_result ev = None"
proof -
  obtain issues where issues: "lint_evidence_contract c limits = Inr issues"
    unfolding lint_evidence_contract_def using lint_rule_set_total [OF contract_payload_wire] by blast
  have clean: "issues = [] \<longleftrightarrow> contract_clean c limits"
    using issues by (simp add: lint_evidence_contract_def contract_clean_def flip: lint_rule_set_Nil [OF contract_payload_wire, of _ _ _ "''contract''"])
  obtain rd where rd: "rejected_observation_set_digest (length obs) (max_observations limits) = Inr rd" "is_sha256 rd"
    using rejected_digest_total by blast
  have err: "\<exists>ev. contract_evaluation_of c od LIFECYCLE_ERROR None [] (Some code) = Inr ev \<and> wf_evaluation ev \<and>
      ce_lifecycle ev = LIFECYCLE_ERROR \<and> ce_contract_digest ev = contract_digest c \<and> ce_logical_result ev = None"
    if "is_sha256 od" "code \<in> {''too_many_observations'', ''contract_lint_failed'', ''closure_rule_lint_failed'', ''duplicate_observation_id''}" for od code
    using contract_evaluation_of_ok [OF that(1), of "[]" LIFECYCLE_ERROR None "Some code" c] lifecycle_error_ok [OF that(2)] by auto
  have "\<exists>ev. evaluate_evidence_contract c obs limits = Inr ev \<and> wf_evaluation ev \<and> ce_lifecycle ev = LIFECYCLE_ERROR \<and>
      ce_contract_digest ev = contract_digest c \<and> ce_logical_result ev = None"
  proof (cases "max_observations limits < int (length obs)")
    case True
    then show ?thesis using rd err by (simp add: evaluate_evidence_contract_def)
  next
    case False
    then show ?thesis using assms clean issues err
      by (auto simp: evaluate_evidence_contract_def observation_set_digest_total observation_input_error_def observations_ok_def)
  qed
  then show ?thesis using that by blast
qed


section \<open>Gap closure rules\<close>

definition rule_clean :: "gap_closure_rule \<Rightarrow> evidence_contract_limits \<Rightarrow> bool" where
  "rule_clean r limits \<longleftrightarrow> lint_clean (gr_clauses r) (gr_closure_condition r) (rule_payload r) limits"

lemma gap_evaluation_of_ok:
  assumes "wf_rule r" and "0 \<le> revision"
    and "is_sha256 od" and "list_all wf_predicate ps" and "distinct (map pe_clause_id ps)" and "lifecycle_ok lc res code"
  shows "\<exists>ev. gap_evaluation_of r revision od lc res ps code = Inr ev \<and> wf_gap_evaluation ev \<and> ge_lifecycle ev = lc \<and>
     ge_closure_result ev = res \<and> ge_predicates ev = ps \<and> ge_rule_digest ev = rule_digest r"
  using assms reason_tokens
  by (simp add: gap_evaluation_of_def mk_gap_closure_evaluation_eq wf_gap_evaluation_def EVALUATOR_DIGEST_def wf_rule_def)

lemma evaluate_gap_completed:
  assumes "wf_rule r" and "0 \<le> revision" and "list_all wf_observation obs" and "rule_clean r limits" and "observations_ok obs limits"
  obtains ev ps where "evaluate_gap_closure_rule r obs revision limits = Inr ev" and "wf_gap_evaluation ev" and "ge_lifecycle ev = COMPLETED"
    and "evaluate_clauses (gr_clauses r) obs = Inr ps" and "ge_predicates ev = ps"
    and "distinct (map pe_clause_id ps)" and "map pe_clause_id ps = map cl_clause_id (gr_clauses r)"
    and "ge_closure_result ev = Some (closure_of (kleene (gr_closure_condition r) (valuation ps)))"
proof -
  obtain ps where ps: "evaluate_clauses (gr_clauses r) obs = Inr ps" "list_all wf_predicate ps"
      "map pe_clause_id ps = map cl_clause_id (gr_clauses r)" "distinct (map pe_clause_id ps)"
      "evaluate_expression (gr_closure_condition r) (predicate_dict ps) = Inr (kleene (gr_closure_condition r) (valuation ps))"
    using assms clean_rule_evaluates [of "gr_clauses r" "gr_closure_condition r" "rule_payload r" limits obs]
    by (auto simp: wf_rule_def clauses_ok_def observations_ok_def rule_clean_def)
  have "lint_gap_closure_rule r limits = Inr []"
    using assms(4) by (simp add: lint_gap_closure_rule_def lint_rule_set_Nil rule_payload_wire rule_clean_def)
  then have "evaluate_gap_closure_rule r obs revision limits =
      gap_evaluation_of r revision (set_digest obs) COMPLETED (Some (closure_of (kleene (gr_closure_condition r) (valuation ps)))) ps None"
    using assms(2,5) ps
    by (simp add: evaluate_gap_closure_rule_def observation_set_digest_total observation_input_error_def observations_ok_def)
  with gap_evaluation_of_ok [of r revision "set_digest obs" ps COMPLETED
      "Some (closure_of (kleene (gr_closure_condition r) (valuation ps)))" None] ps assms(1,2)
  show ?thesis using that by (auto simp: lifecycle_ok_def)
qed

lemma evaluate_gap_rejected:
  assumes "wf_rule r" and "0 \<le> revision" and "\<not> (rule_clean r limits \<and> observations_ok obs limits)"
  obtains ev where "evaluate_gap_closure_rule r obs revision limits = Inr ev" and "wf_gap_evaluation ev"
    and "ge_lifecycle ev = LIFECYCLE_ERROR" and "ge_closure_result ev = None"
proof -
  obtain issues where issues: "lint_gap_closure_rule r limits = Inr issues"
    unfolding lint_gap_closure_rule_def using lint_rule_set_total [OF rule_payload_wire] by blast
  have clean: "issues = [] \<longleftrightarrow> rule_clean r limits"
    using issues by (simp add: lint_gap_closure_rule_def rule_clean_def flip: lint_rule_set_Nil [OF rule_payload_wire, of _ _ _ "''closure_rule''"])
  obtain rd where rd: "rejected_observation_set_digest (length obs) (max_observations limits) = Inr rd" "is_sha256 rd"
    using rejected_digest_total by blast
  have err: "\<exists>ev. gap_evaluation_of r revision od LIFECYCLE_ERROR None [] (Some code) = Inr ev \<and> wf_gap_evaluation ev \<and>
      ge_lifecycle ev = LIFECYCLE_ERROR \<and> ge_closure_result ev = None"
    if "is_sha256 od" "code \<in> {''too_many_observations'', ''contract_lint_failed'', ''closure_rule_lint_failed'', ''duplicate_observation_id''}" for od code
    using gap_evaluation_of_ok [OF assms(1,2) that(1), of "[]" LIFECYCLE_ERROR None "Some code"] lifecycle_error_ok [OF that(2)] by auto
  have "\<exists>ev. evaluate_gap_closure_rule r obs revision limits = Inr ev \<and> wf_gap_evaluation ev \<and>
      ge_lifecycle ev = LIFECYCLE_ERROR \<and> ge_closure_result ev = None"
  proof (cases "max_observations limits < int (length obs)")
    case True
    then show ?thesis using rd err assms(2) by (simp add: evaluate_gap_closure_rule_def)
  next
    case False
    then show ?thesis using assms clean issues err
      by (auto simp: evaluate_gap_closure_rule_def observation_set_digest_total observation_input_error_def observations_ok_def)
  qed
  then show ?thesis using that by blast
qed

section \<open>Independence of the observation order\<close>

lemma sort_key_mset_eq:
  assumes "mset xs = mset ys" and "inj_on f (set xs)"
  shows "sort_key f xs = sort_key f ys"
  by (rule sort_key_inj_key_eq) (use assms in auto)

lemma evaluate_clause_mset:
  assumes "mset obs = mset obs'" and "distinct (map ob_observation_id obs)"
  shows "evaluate_clause obs c = evaluate_clause obs' c"
proof -
  have "sort_key ob_observation_id (filter (\<lambda>ob. ob_selector ob = cl_selector c) obs) =
      sort_key ob_observation_id (filter (\<lambda>ob. ob_selector ob = cl_selector c) obs')"
    using assms by (intro sort_key_mset_eq) (auto simp: distinct_map intro: inj_on_subset)
  then show ?thesis by (simp add: evaluate_clause_def)
qed

lemma observation_set_digest_mset:
  assumes "mset obs = mset obs'" and "distinct (map ob_observation_id obs)"
  shows "observation_set_digest obs limits = observation_set_digest obs' limits"
proof -
  have "sort_key (\<lambda>ob. (ob_observation_id ob, observation_digest ob)) obs =
      sort_key (\<lambda>ob. (ob_observation_id ob, observation_digest ob)) obs'"
    using assms by (intro sort_key_mset_eq) (auto simp: distinct_map inj_on_def)
  moreover have "length obs = length obs'" using assms(1) by (rule mset_eq_length)
  ultimately show ?thesis by (simp add: observation_set_digest_def)
qed

section \<open>Properties\<close>

text \<open>A truth assignment to clauses that no determinate predicate result contradicts.\<close>

definition agrees :: "(string \<Rightarrow> bool) \<Rightarrow> predicate_evaluation list \<Rightarrow> bool" where
  "agrees \<sigma> ps \<longleftrightarrow> (\<forall>p\<in>set ps. (pe_result p = PASS \<longrightarrow> \<sigma> (pe_clause_id p)) \<and> (pe_result p = FAIL \<longrightarrow> \<not> \<sigma> (pe_clause_id p)))"

lemma agrees_completes:
  assumes "distinct (map pe_clause_id ps)" and "set (expr_refs e) \<subseteq> pe_clause_id ` set ps"
  shows "(\<forall>\<sigma>. completes \<sigma> (valuation ps) \<longrightarrow> holds e \<sigma> = b) \<longleftrightarrow> (\<forall>\<sigma>. agrees \<sigma> ps \<longrightarrow> holds e \<sigma> = b)"
proof (rule iffI; intro allI impI)
  fix \<sigma> assume all: "\<forall>\<sigma>. completes \<sigma> (valuation ps) \<longrightarrow> holds e \<sigma> = b" and \<sigma>: "agrees \<sigma> ps"
  define \<tau> where "\<tau> = (\<lambda>c. if c \<in> pe_clause_id ` set ps then \<sigma> c else valuation ps c = PASS)"
  have "completes \<tau> (valuation ps)"
    unfolding completes_def \<tau>_def using \<sigma> by (auto simp: agrees_def valuation_eq [OF assms(1)])
  with all have "holds e \<tau> = b" by blast
  moreover have "holds e \<tau> = holds e \<sigma>" by (rule holds_cong) (use assms(2) in \<open>auto simp: \<tau>_def\<close>)
  ultimately show "holds e \<sigma> = b" by simp
next
  fix \<sigma> assume all: "\<forall>\<sigma>. agrees \<sigma> ps \<longrightarrow> holds e \<sigma> = b" and \<sigma>: "completes \<sigma> (valuation ps)"
  have "agrees \<sigma> ps" unfolding agrees_def
    using \<sigma> by (simp add: completes_def flip: valuation_eq [OF assms(1)])
  with all show "holds e \<sigma> = b" by blast
qed

text \<open>An observation of exit code 0 for the clause of \<^const>\<open>sample_contract\<close>.\<close>

definition sample_observation :: evidence_observation where
  "sample_observation = \<lparr>ob_observation_id = ''o1'', ob_selector = \<lparr>sel_observation_type = ''exit_code'', sel_stage = ''test'',
       sel_check_id = ''unit'', sel_producer_authority = ''harness''\<rparr>,
     ob_subject_digest = ''sha256:'' @ replicate 64 (CHR ''b''), ob_source_run_id = ''run1'',
     ob_artifact_digest = ''sha256:'' @ replicate 64 (CHR ''c''), ob_status = OBSERVED, ob_value = Some (EScalar (EInt 0)),
     ob_reason_code = None, ob_schema_version = ''sisyphus_harness.evidence_observation.v1''\<rparr>"

lemma sample_observation_wf: "list_all wf_observation [sample_observation]"
  by code_simp

lemma sample_clean: "contract_clean sample_contract DEFAULT_LIMITS"
  by code_simp

lemma sample_observations_ok: "observations_ok [sample_observation] DEFAULT_LIMITS"
  by code_simp


definition sample_rule :: gap_closure_rule where
  "sample_rule = \<lparr>gr_rule_id = ''rule1'', gr_version = 1, gr_requirement_id = ''r1'', gr_gap_id = ''g1'',
     gr_clauses = ec_clauses sample_contract, gr_closure_condition = ec_task_success sample_contract,
     gr_schema_version = ''sisyphus_harness.gap_closure_rule.v1''\<rparr>"

lemma sample_rule_ok: "wf_rule sample_rule" "rule_clean sample_rule DEFAULT_LIMITS"
  by code_simp+

text \<open>
  C6. The linter reports no issue exactly when the contract is within every limit, the root expression
  references every clause exactly once and nothing else, and every clause's expected value has the
  type its operator needs. In particular the iterative walk counts nodes and depth as the recursive
  definitions do.
\<close>

theorem lint_exact:
  "lint_evidence_contract c limits = Inr [] \<longleftrightarrow>
     int (length (ec_clauses c)) \<le> max_clauses limits \<and>
     int (expr_nodes (ec_task_success c)) \<le> max_expression_nodes limits \<and>
     int (expr_depth (ec_task_success c)) \<le> max_expression_depth limits \<and>
     distinct (expr_refs (ec_task_success c)) \<and>
     set (expr_refs (ec_task_success c)) = cl_clause_id ` set (ec_clauses c) \<and>
     list_all clause_typed (ec_clauses c) \<and>
     int (length (json_dumps (contract_payload c))) \<le> max_contract_bytes limits"
  by (simp add: lint_evidence_contract_def lint_rule_set_Nil contract_payload_wire lint_clean_def list_all_iff)

text \<open>
  C7. The evaluator never raises on well-formed input: for every well-formed contract and every tuple
  of well-formed observations it returns a well-formed evaluation bound to that contract's digest, and
  the evaluation is completed exactly when the contract lints clean, the observations are within the
  limit and their identifiers are distinct. No KeyError from an unknown clause, no AssertionError from
  a missing value and no constructor failure can occur.
\<close>

theorem evaluation_total:
  assumes "wf_contract c" and "list_all wf_observation obs"
  shows "\<exists>ev. evaluate_evidence_contract c obs limits = Inr ev \<and> wf_evaluation ev \<and>
     ce_contract_digest ev = contract_digest c \<and>
     (ce_lifecycle ev = COMPLETED \<longleftrightarrow> lint_evidence_contract c limits = Inr [] \<and>
        int (length obs) \<le> max_observations limits \<and> distinct (map ob_observation_id obs))"
proof -
  have clean: "lint_evidence_contract c limits = Inr [] \<longleftrightarrow> contract_clean c limits"
    by (simp add: lint_evidence_contract_def lint_rule_set_Nil contract_payload_wire contract_clean_def)
  show ?thesis
  proof (cases "contract_clean c limits \<and> observations_ok obs limits")
    case True
    with evaluate_completed [OF assms, of limits] clean show ?thesis by (metis observations_ok_def)
  next
    case False
    with evaluate_rejected [of c limits obs] clean show ?thesis
      by (metis evaluation_lifecycle.distinct(1) observations_ok_def)
  qed
qed

theorem evaluation_total_witness:
  "\<exists>ev. evaluate_evidence_contract sample_contract [sample_observation] DEFAULT_LIMITS = Inr ev \<and> ce_lifecycle ev = COMPLETED"
  using evaluation_total [OF sample_contract_wf sample_observation_wf, of DEFAULT_LIMITS] sample_clean sample_observations_ok
  by (auto simp: lint_evidence_contract_def lint_rule_set_Nil contract_payload_wire contract_clean_def observations_ok_def)

text \<open>
  C8. The strong Kleene result of a completed evaluation is exact. It is PASS if and only if the success
  expression is true under every two-valued assignment to the clauses that contradicts no determinate
  predicate result, and FAIL if and only if it is false under all of them; so INDETERMINATE is returned
  only when the missing evidence can still decide either way.
\<close>

theorem evaluation_exact:
  assumes "wf_contract c" and "list_all wf_observation obs" and "contract_clean c limits" and "observations_ok obs limits"
  shows "\<exists>ev. evaluate_evidence_contract c obs limits = Inr ev \<and>
     evaluate_clauses (ec_clauses c) obs = Inr (ce_predicates ev) \<and>
     (ce_logical_result ev = Some PASS \<longleftrightarrow> (\<forall>\<sigma>. agrees \<sigma> (ce_predicates ev) \<longrightarrow> holds (ec_task_success c) \<sigma>)) \<and>
     (ce_logical_result ev = Some FAIL \<longleftrightarrow> (\<forall>\<sigma>. agrees \<sigma> (ce_predicates ev) \<longrightarrow> \<not> holds (ec_task_success c) \<sigma>))"
proof -
  obtain ev ps where ev: "evaluate_evidence_contract c obs limits = Inr ev" "evaluate_clauses (ec_clauses c) obs = Inr ps"
      "ce_predicates ev = ps" "map pe_clause_id ps = map cl_clause_id (ec_clauses c)" "distinct (map pe_clause_id ps)"
      "ce_logical_result ev = Some (kleene (ec_task_success c) (valuation ps))"
    using evaluate_completed [OF assms] by blast
  have refs: "distinct (expr_refs (ec_task_success c))" "set (expr_refs (ec_task_success c)) \<subseteq> pe_clause_id ` set ps"
    using assms(3) arg_cong [OF ev(4), of set] by (simp_all add: contract_clean_def lint_clean_def)
  have pass: "kleene (ec_task_success c) (valuation ps) = PASS \<longleftrightarrow> (\<forall>\<sigma>. agrees \<sigma> ps \<longrightarrow> holds (ec_task_success c) \<sigma>)"
    unfolding kleene_exact(1) [OF refs(1)] using agrees_completes [OF ev(5) refs(2), of True] by simp
  have fail: "kleene (ec_task_success c) (valuation ps) = FAIL \<longleftrightarrow> (\<forall>\<sigma>. agrees \<sigma> ps \<longrightarrow> \<not> holds (ec_task_success c) \<sigma>)"
    unfolding kleene_exact(2) [OF refs(1)] using agrees_completes [OF ev(5) refs(2), of False] by simp
  show ?thesis
    by (rule exI [of _ ev]) (simp only: ev option.inject pass fail simp_thms)
qed

theorem evaluation_exact_witness:
  "\<exists>ev. evaluate_evidence_contract sample_contract [sample_observation] DEFAULT_LIMITS = Inr ev \<and>
     evaluate_clauses (ec_clauses sample_contract) [sample_observation] = Inr (ce_predicates ev) \<and>
     (ce_logical_result ev = Some PASS \<longleftrightarrow>
       (\<forall>\<sigma>. agrees \<sigma> (ce_predicates ev) \<longrightarrow> holds (ec_task_success sample_contract) \<sigma>))"
  using evaluation_exact [OF sample_contract_wf sample_observation_wf sample_clean sample_observations_ok] by blast

text \<open>
  A clause passes exactly when one and only one observation matches its selector in all four fields,
  that observation was actually observed, and its value satisfies the operator: missing, ambiguous,
  unavailable or erroneous evidence never passes a clause, and neither does a value of the wrong type.
\<close>

theorem clause_pass_exact:
  assumes "wf_clause c" and "list_all wf_observation obs" and "distinct (map ob_observation_id obs)"
  shows "\<exists>p. evaluate_clause obs c = Inr p \<and> pe_clause_id p = cl_clause_id c \<and>
     (pe_result p = PASS \<longleftrightarrow> (\<exists>ob v. filter (\<lambda>ob. ob_selector ob = cl_selector c) obs = [ob] \<and> ob_status ob = OBSERVED \<and>
        ob_value ob = Some v \<and> predicate_sat (cl_operator c) v (cl_expected c)))"
proof -
  let ?found = "filter (\<lambda>ob. ob_selector ob = cl_selector c) obs"
  obtain p where p: "evaluate_clause obs c = Inr p" "pe_clause_id p = cl_clause_id c"
    using evaluate_clause_total [OF _ assms(2,3), of c] assms(1) by (auto simp: wf_clause_def)
  have same: "mset (sort_key ob_observation_id ?found) = mset ?found" by simp
  show ?thesis
  proof (cases "sort_key ob_observation_id ?found" rule: remdups_adj.cases)
    case 1
    with same have "?found = []" by simp
    with p 1 show ?thesis by (auto simp: evaluate_clause_def mk_predicate_evaluation_eq)
  next
    case (2 ob)
    with same have "?found = [ob]" by (metis mset_single_iff mset.simps)
    moreover from this have "ob \<in> set obs" by (metis filter_eq_Cons_iff in_set_conv_decomp)
    then have "ob_status ob = OBSERVED \<Longrightarrow> \<exists>v. ob_value ob = Some v"
      using assms(2) by (auto simp: list_all_iff wf_observation_def split: option.splits if_splits)
    ultimately show ?thesis using p 2 evaluate_predicate_PASS [of "cl_operator c" "the (ob_value ob)" "cl_expected c"]
      by (cases "ob_status ob") (auto simp: evaluate_clause_def mk_predicate_evaluation_eq split: prod.splits)
  next
    case (3 a b os)
    with same have "length ?found = Suc (Suc (length os))" by (metis size_mset length_Cons)
    with p 3 show ?thesis by (auto simp: evaluate_clause_def mk_predicate_evaluation_eq Let_def)
  qed
qed


theorem clause_pass_exact_witness:
  "\<exists>p. evaluate_clause [sample_observation] (hd (ec_clauses sample_contract)) = Inr p \<and> pe_result p = PASS"
proof -
  have "wf_clause (hd (ec_clauses sample_contract))" by code_simp
  then obtain p where "evaluate_clause [sample_observation] (hd (ec_clauses sample_contract)) = Inr p"
    and pass: "pe_result p = PASS \<longleftrightarrow> (\<exists>ob v. filter (\<lambda>ob. ob_selector ob = cl_selector (hd (ec_clauses sample_contract))) [sample_observation] = [ob] \<and>
      ob_status ob = OBSERVED \<and> ob_value ob = Some v \<and>
      predicate_sat (cl_operator (hd (ec_clauses sample_contract))) v (cl_expected (hd (ec_clauses sample_contract))))"
    using clause_pass_exact [OF _ sample_observation_wf, of "hd (ec_clauses sample_contract)"] by auto
  moreover have "pe_result p = PASS"
    unfolding pass by (simp add: sample_contract_def sample_observation_def)
  ultimately show ?thesis by blast
qed

text \<open>
  The evaluation does not depend on the order in which observations arrive: two tuples with the same
  observations under distinct identifiers give the same evaluation, observation-set digest included.
\<close>

theorem evaluation_order_independent:
  assumes "mset obs = mset obs'" and "distinct (map ob_observation_id obs)"
  shows "evaluate_evidence_contract c obs limits = evaluate_evidence_contract c obs' limits"
proof -
  have len: "length obs = length obs'" using assms(1) by (rule mset_eq_length)
  have "distinct (map ob_observation_id obs')"
    using assms by (metis mset_eq_imp_distinct_iff mset_map)
  then have input: "observation_input_error obs limits = observation_input_error obs' limits"
    using assms(2) len by (simp add: observation_input_error_def)
  have clauses: "evaluate_clauses (ec_clauses c) obs = evaluate_clauses (ec_clauses c) obs'"
    using evaluate_clause_mset [OF assms] by (simp add: evaluate_clauses_def cong: mapE_cong)
  show ?thesis
    unfolding evaluate_evidence_contract_def len input clauses observation_set_digest_mset [OF assms] by (rule refl)
qed

theorem evaluation_order_independent_witness:
  "evaluate_evidence_contract sample_contract [sample_observation, sample_observation\<lparr>ob_observation_id := ''o2''\<rparr>] DEFAULT_LIMITS =
   evaluate_evidence_contract sample_contract [sample_observation\<lparr>ob_observation_id := ''o2''\<rparr>, sample_observation] DEFAULT_LIMITS"
  by (rule evaluation_order_independent) (simp_all add: sample_observation_def)

text \<open>
  C11. A gap is reported closed on the same terms: on well-formed input the rule evaluator never raises,
  it completes exactly when the rule lints clean and the observations are acceptable, and it then answers
  CLOSED if and only if the closure condition holds under every assignment the predicate results allow,
  \<open>NOT_CLOSED\<close> if and only if it fails under all of them.
\<close>

theorem gap_closure_exact:
  assumes "wf_rule r" and "0 \<le> revision" and "list_all wf_observation obs"
  shows "\<exists>ev. evaluate_gap_closure_rule r obs revision limits = Inr ev \<and> wf_gap_evaluation ev \<and>
     (ge_lifecycle ev = COMPLETED \<longleftrightarrow> rule_clean r limits \<and> observations_ok obs limits) \<and>
     (ge_lifecycle ev = COMPLETED \<longrightarrow>
       (ge_closure_result ev = Some CLOSED \<longleftrightarrow> (\<forall>\<sigma>. agrees \<sigma> (ge_predicates ev) \<longrightarrow> holds (gr_closure_condition r) \<sigma>)) \<and>
       (ge_closure_result ev = Some NOT_CLOSED \<longleftrightarrow> (\<forall>\<sigma>. agrees \<sigma> (ge_predicates ev) \<longrightarrow> \<not> holds (gr_closure_condition r) \<sigma>)))"
proof (cases "rule_clean r limits \<and> observations_ok obs limits")
  case True
  then have ok: "rule_clean r limits" "observations_ok obs limits" by auto
  obtain ev ps where ev: "evaluate_gap_closure_rule r obs revision limits = Inr ev" "wf_gap_evaluation ev" "ge_lifecycle ev = COMPLETED"
      "ge_predicates ev = ps" "distinct (map pe_clause_id ps)" "map pe_clause_id ps = map cl_clause_id (gr_clauses r)"
      "ge_closure_result ev = Some (closure_of (kleene (gr_closure_condition r) (valuation ps)))"
    using evaluate_gap_completed [OF assms ok] by blast
  have refs: "distinct (expr_refs (gr_closure_condition r))" "set (expr_refs (gr_closure_condition r)) \<subseteq> pe_clause_id ` set ps"
    using ok(1) arg_cong [OF ev(6), of set] by (simp_all add: rule_clean_def lint_clean_def)
  have closure: "closure_of x = CLOSED \<longleftrightarrow> x = PASS" "closure_of x = NOT_CLOSED \<longleftrightarrow> x = FAIL" for x
    by (cases x; simp)+
  have pass: "kleene (gr_closure_condition r) (valuation ps) = PASS \<longleftrightarrow> (\<forall>\<sigma>. agrees \<sigma> ps \<longrightarrow> holds (gr_closure_condition r) \<sigma>)"
    unfolding kleene_exact(1) [OF refs(1)] using agrees_completes [OF ev(5) refs(2), of True] by simp
  have fail: "kleene (gr_closure_condition r) (valuation ps) = FAIL \<longleftrightarrow> (\<forall>\<sigma>. agrees \<sigma> ps \<longrightarrow> \<not> holds (gr_closure_condition r) \<sigma>)"
    unfolding kleene_exact(2) [OF refs(1)] using agrees_completes [OF ev(5) refs(2), of False] by simp
  show ?thesis
    by (rule exI [of _ ev]) (simp only: ev ok option.inject closure pass fail simp_thms)
next
  case False
  from evaluate_gap_rejected [OF assms(1,2) False] obtain ev where
    "evaluate_gap_closure_rule r obs revision limits = Inr ev" "wf_gap_evaluation ev" "ge_lifecycle ev = LIFECYCLE_ERROR"
    by blast
  with False show ?thesis by (intro exI [of _ ev]) auto
qed

theorem gap_closure_exact_witness:
  "\<exists>ev. evaluate_gap_closure_rule sample_rule [sample_observation] 3 DEFAULT_LIMITS = Inr ev \<and> ge_lifecycle ev = COMPLETED"
  using gap_closure_exact [OF sample_rule_ok(1) _ sample_observation_wf, of 3 DEFAULT_LIMITS] sample_rule_ok(2) sample_observations_ok
  by auto

end
