(* ===== verification/Receipt_Observations.thy ===== *)
theory Receipt_Observations
  imports Verification_Service Evidence_Evaluator
begin

text \<open>
  The adapter between the verifier and the evaluator, \<^verbatim>\<open>adapters/receipt_observations.py\<close>: the check that a verification
  result belongs to the request it answers, the translation of its receipt into evidence observations, and
  the check Control makes on observations whatever adapter they came from.
\<close>

section \<open>Command facts\<close>

definition FINAL_VERIFICATION_STAGE :: string where "FINAL_VERIFICATION_STAGE = ''candidate_final''"
definition COMMAND_PASSED :: string where "COMMAND_PASSED = ''verification.command.passed''"
definition COMMAND_EXIT_CODE :: string where "COMMAND_EXIT_CODE = ''verification.command.exit_code''"
definition COMMAND_TIMED_OUT :: string where "COMMAND_TIMED_OUT = ''verification.command.timed_out''"
definition COMMAND_WORKSPACE_UNCHANGED :: string where "COMMAND_WORKSPACE_UNCHANGED = ''verification.command.workspace_unchanged''"
definition COMMAND_FAILURE_CATEGORY :: string where "COMMAND_FAILURE_CATEGORY = ''verification.command.failure_category''"
definition NO_FAILURE_CATEGORY :: string where "NO_FAILURE_CATEGORY = ''none''"

definition VERIFICATION_RECEIPT_MEDIA_TYPE :: string where
  "VERIFICATION_RECEIPT_MEDIA_TYPE = ''application/vnd.sisyphus-harness.verification-receipt+json''"

definition COMMAND_FACT_TYPES :: "string list" where
  "COMMAND_FACT_TYPES = [COMMAND_PASSED, COMMAND_EXIT_CODE, COMMAND_TIMED_OUT, COMMAND_WORKSPACE_UNCHANGED, COMMAND_FAILURE_CATEGORY]"

lemmas fact_type_defs = COMMAND_FACT_TYPES_def COMMAND_PASSED_def COMMAND_EXIT_CODE_def COMMAND_TIMED_OUT_def
  COMMAND_WORKSPACE_UNCHANGED_def COMMAND_FAILURE_CATEGORY_def

definition RECEIPT_OBSERVATION_ADAPTER_DIGEST :: string where
  "RECEIPT_OBSERVATION_ADAPTER_DIGEST = wire_digest (PDict (py_dict
     [(''version'', PStr ''sisyphus_harness.receipt_observation_adapter.v1''), (''stage'', PStr FINAL_VERIFICATION_STAGE),
      (''fact_types'', PList (map PStr COMMAND_FACT_TYPES)), (''criteria_projection'', PBool False),
      (''raw_output_parsing'', PBool False), (''selector_cardinality'', PStr ''one-per-command-fact'')]))"

definition command_fact_selector :: "string \<Rightarrow> string \<Rightarrow> string \<Rightarrow> evidence_selector result" where
  "command_fact_selector command_name observation_type producer_authority =
     (if observation_type \<notin> set COMMAND_FACT_TYPES then Inl (ValueError ''unsupported command observation type'')
      else mk_evidence_selector observation_type FINAL_VERIFICATION_STAGE command_name producer_authority)"

section \<open>Bindings of a verification result\<close>

definition bind_error :: "string \<Rightarrow> unit result" where
  "bind_error message = Inl (VerificationBindingError message)"

text \<open>The loop over the commands of the profile and of the receipt, with the workspace state each one has to start from.\<close>

definition command_should_pass :: "command_result \<Rightarrow> bool" where
  "command_should_pass c \<longleftrightarrow> \<not> cr_timed_out c \<and> cr_exit_code c = Some 0 \<and> cr_workspace_unchanged c \<and> cr_failure_category c = None \<and> cr_error c = None"

fun check_command_chain :: "nat \<Rightarrow> string \<Rightarrow> (command_spec \<times> command_result) list \<Rightarrow> string result" where
  "check_command_chain index previous_state [] = Inr previous_state"
| "check_command_chain index previous_state ((spec, command) # rest) =
     bindE (if cr_name command \<noteq> cs_name spec \<or> cr_argv command \<noteq> cs_argv spec \<or> cr_criteria command \<noteq> cs_criteria spec
       then bind_error (''verification receipt command '' @ show_nat index @ '' does not match the profile'')
       else if cr_passed command \<noteq> command_should_pass command
       then bind_error (''verification receipt command '' @ show_nat index @ '' pass claim is inconsistent'')
       else if cr_workspace_unchanged command \<noteq> (cr_workspace_state_before command = cr_workspace_state_after command)
       then bind_error (''verification receipt command '' @ show_nat index @ '' workspace state claim is inconsistent'')
       else if cr_workspace_state_before command \<noteq> previous_state
       then bind_error (''verification receipt command '' @ show_nat index @ '' breaks the workspace state chain'')
       else (case command_fact_selector (cr_name command) COMMAND_PASSED ''binding-check'' of
           Inl (ValueError _) \<Rightarrow> bind_error (''verification command '' @ show_nat index @ '' cannot be used as a check ID'')
         | Inl e \<Rightarrow> Inl e
         | Inr _ \<Rightarrow> Inr ())) (\<lambda>_.
     check_command_chain (Suc index) (cr_workspace_state_after command) rest)"

definition validate_final_verification_bindings ::
    "bundle_verification_request \<Rightarrow> verification_service_result \<Rightarrow> bool \<Rightarrow> unit result" where
  "validate_final_verification_bindings request res require_verifier_assets =
     (let receipt = sv_receipt res;
          service_v2 = (bq_schema_version request = BUNDLE_REQUEST_V2);
          asset_bundle = vp_asset_bundle (bq_profile request)
      in
      if sv_request_digest res \<noteq> bundle_request_digest request then bind_error ''verification result is bound to a different request''
      else if sv_workspace_bundle_id res \<noteq> wb_bundle_id (bq_workspace_bundle request)
      then bind_error ''verification result is bound to a different workspace bundle''
      else if sv_profile_digest res \<noteq> profile_digest (bq_profile request) then bind_error ''verification result is bound to a different profile''
      else if service_v2 \<and> (sv_schema_version res \<noteq> SERVICE_V2 \<or> bq_execution_identity request = None \<or>
        sv_execution_identity res \<noteq> bq_execution_identity request)
      then bind_error ''verification result is bound to a different execution identity''
      else if service_v2 \<and> require_verifier_assets \<and> asset_bundle = None
      then bind_error ''Control final verification requires verifier-owned assets''
      else if \<not> service_v2 \<and> (sv_schema_version res \<noteq> SERVICE_V1 \<or> sv_execution_identity res \<noteq> None)
      then bind_error ''legacy verification result has an unexpected execution identity''
      else if vr_schema_version receipt \<noteq> (if service_v2 then RECEIPT_V3 else RECEIPT_V2)
      then bind_error ''final verification requires the matching digest-bound receipt schema''
      else if vr_run_id receipt \<noteq> bq_run_id request then bind_error ''verification receipt is bound to a different run''
      else if vr_request_digest receipt \<noteq> bundle_request_digest request then bind_error ''verification receipt is bound to a different request''
      else if service_v2 \<and> (vr_workspace_bundle_id receipt \<noteq> Some (wb_bundle_id (bq_workspace_bundle request)) \<or>
        vr_profile_digest receipt \<noteq> Some (profile_digest (bq_profile request)) \<or>
        vr_execution_identity_digest receipt \<noteq> map_option identity_digest (bq_execution_identity request) \<or>
        vr_verifier_asset_bundle_id receipt \<noteq> map_option ab_bundle_id asset_bundle)
      then bind_error ''verification receipt service bindings are inconsistent''
      else if vr_worktree_commit_sha receipt \<noteq> wb_source_commit_sha (bq_workspace_bundle request)
      then bind_error ''verification receipt is bound to a different source commit''
      else if vr_workspace_state_before receipt \<noteq> wb_tree_hash (bq_workspace_bundle request)
      then bind_error ''verification receipt is bound to a different workspace tree''
      else if vr_workspace_unchanged receipt \<noteq> (vr_workspace_state_before receipt = vr_workspace_state_after receipt)
      then bind_error ''verification receipt workspace state claim is inconsistent''
      else if af_artifact_id (sv_receipt_artifact res) \<noteq> bq_run_id request @ ''/receipt.json''
      then bind_error ''verification receipt artifact is bound to a different run''
      else if af_media_type (sv_receipt_artifact res) \<noteq> VERIFICATION_RECEIPT_MEDIA_TYPE
      then bind_error ''verification receipt artifact has an unsupported media type''
      else if length (vp_commands (bq_profile request)) \<noteq> length (vr_commands receipt)
      then bind_error ''verification receipt command count does not match the profile''
      else bindE (check_command_chain 0 (vr_workspace_state_before receipt) (zip (vp_commands (bq_profile request)) (vr_commands receipt)))
        (\<lambda>final_state. if final_state \<noteq> vr_workspace_state_after receipt
           then bind_error ''verification receipt command chain does not reach the final state'' else Inr ()))"

section \<open>The adapter\<close>

text \<open>The five facts of a command; an absent exit code is a fact without a value.\<close>

definition category_fact :: "command_result \<Rightarrow> string" where
  "category_fact c = (case cr_failure_category c of None \<Rightarrow> NO_FAILURE_CATEGORY | Some k \<Rightarrow> if k = [] then NO_FAILURE_CATEGORY else k)"

definition command_facts :: "command_result \<Rightarrow> (string \<times> evidence_scalar option) list" where
  "command_facts c =
     [(COMMAND_PASSED, Some (EBool (cr_passed c))), (COMMAND_EXIT_CODE, map_option EInt (cr_exit_code c)),
      (COMMAND_TIMED_OUT, Some (EBool (cr_timed_out c))), (COMMAND_WORKSPACE_UNCHANGED, Some (EBool (cr_workspace_unchanged c))),
      (COMMAND_FAILURE_CATEGORY, Some (EStr (category_fact c)))]"

definition fact_record :: "bundle_verification_request \<Rightarrow> verification_service_result \<Rightarrow> nat \<Rightarrow> string \<Rightarrow> evidence_selector \<Rightarrow>
    evidence_scalar option \<Rightarrow> evidence_observation" where
  "fact_record request res command_index suffix selector val =
     \<lparr>ob_observation_id = vr_run_id (sv_receipt res) @ ''.command-'' @ pad4 (show_nat command_index) @ ''.'' @ suffix,
      ob_selector = selector, ob_subject_digest = wb_archive_sha256 (bq_workspace_bundle request),
      ob_source_run_id = vr_run_id (sv_receipt res), ob_artifact_digest = af_sha256 (sv_receipt_artifact res),
      ob_status = (case val of None \<Rightarrow> UNAVAILABLE | Some _ \<Rightarrow> OBSERVED), ob_value = map_option EScalar val,
      ob_reason_code = (case val of None \<Rightarrow> Some ''command_not_started'' | Some _ \<Rightarrow> None),
      ob_schema_version = ''sisyphus_harness.evidence_observation.v1''\<rparr>"

definition fact_observation :: "bundle_verification_request \<Rightarrow> verification_service_result \<Rightarrow> string \<Rightarrow> nat \<Rightarrow> command_result \<Rightarrow>
    string \<Rightarrow> string \<Rightarrow> evidence_scalar option \<Rightarrow> evidence_observation result" where
  "fact_observation request res producer_authority command_index command suffix observation_type val =
     bindE (command_fact_selector (cr_name command) observation_type producer_authority) (\<lambda>selector.
     mk_evidence_observation (fact_record request res command_index suffix selector val))"

text \<open>The exit code's observation is built first, and put in second place.\<close>

definition command_observations :: "bundle_verification_request \<Rightarrow> verification_service_result \<Rightarrow> string \<Rightarrow> nat \<times> command_result \<Rightarrow>
    evidence_observation list result" where
  "command_observations request res producer_authority indexed = (case indexed of (command_index, command) \<Rightarrow>
     let observed = fact_observation request res producer_authority command_index command in
     bindE (observed ''exit-code'' COMMAND_EXIT_CODE (map_option EInt (cr_exit_code command))) (\<lambda>exit_code.
     bindE (observed ''passed'' COMMAND_PASSED (Some (EBool (cr_passed command)))) (\<lambda>passed.
     bindE (observed ''timed-out'' COMMAND_TIMED_OUT (Some (EBool (cr_timed_out command)))) (\<lambda>timed_out.
     bindE (observed ''workspace-unchanged'' COMMAND_WORKSPACE_UNCHANGED (Some (EBool (cr_workspace_unchanged command)))) (\<lambda>unchanged.
     bindE (observed ''failure-category'' COMMAND_FAILURE_CATEGORY (Some (EStr (category_fact command)))) (\<lambda>category.
     Inr [passed, exit_code, timed_out, unchanged, category]))))))"

definition adapt :: "bundle_verification_request \<Rightarrow> verification_service_result \<Rightarrow> string \<Rightarrow> evidence_observation list result" where
  "adapt request res producer_authority =
     bindE (validate_final_verification_bindings request res False) (\<lambda>_.
     bindE (command_fact_selector ''authority-check'' COMMAND_PASSED producer_authority) (\<lambda>_.
     bindE (mapE (command_observations request res producer_authority) (List.enumerate 0 (vr_commands (sv_receipt res)))) (\<lambda>obss.
     Inr (concat obss))))"

section \<open>The check on observations\<close>

definition check_observation :: "bundle_verification_request \<Rightarrow> verification_service_result \<Rightarrow> string \<Rightarrow> evidence_observation \<Rightarrow> unit result" where
  "check_observation request res producer_authority observation =
     (if ob_subject_digest observation \<noteq> wb_archive_sha256 (bq_workspace_bundle request)
      then bind_error ''receipt observation is bound to a different workspace bundle''
      else if ob_source_run_id observation \<noteq> bq_run_id request then bind_error ''receipt observation is bound to a different run''
      else if ob_artifact_digest observation \<noteq> af_sha256 (sv_receipt_artifact res)
      then bind_error ''receipt observation is bound to a different artifact''
      else if sel_stage (ob_selector observation) \<noteq> FINAL_VERIFICATION_STAGE
      then bind_error ''receipt observation is not candidate-final evidence''
      else if sel_producer_authority (ob_selector observation) \<noteq> producer_authority
      then bind_error ''receipt observation is bound to a different producer'' else Inr ())"

text \<open>The dict \<open>by_selector\<close>, built in the order of the observations.\<close>

definition observation_key :: "evidence_observation \<Rightarrow> string \<times> string" where
  "observation_key ob = (sel_check_id (ob_selector ob), sel_observation_type (ob_selector ob))"

fun index_observations :: "bundle_verification_request \<Rightarrow> verification_service_result \<Rightarrow> string \<Rightarrow> evidence_observation list \<Rightarrow>
    ((string \<times> string) \<rightharpoonup> evidence_observation) \<Rightarrow> ((string \<times> string) \<rightharpoonup> evidence_observation) result" where
  "index_observations request res producer_authority [] by_selector = Inr by_selector"
| "index_observations request res producer_authority (observation # rest) by_selector =
     bindE (check_observation request res producer_authority observation) (\<lambda>_.
     if by_selector (observation_key observation) \<noteq> None then Inl (VerificationBindingError ''receipt observation selector is duplicated'')
     else index_observations request res producer_authority rest (by_selector(observation_key observation \<mapsto> observation)))"

definition check_fact :: "((string \<times> string) \<rightharpoonup> evidence_observation) \<Rightarrow> string \<Rightarrow> string \<times> evidence_scalar option \<Rightarrow> unit result" where
  "check_fact by_selector name expected = (case expected of (observation_type, expected_value) \<Rightarrow>
     case by_selector (name, observation_type) of
       None \<Rightarrow> bind_error ''receipt observation selector does not match command facts''
     | Some observation \<Rightarrow> (case expected_value of
         None \<Rightarrow> if ob_status observation \<noteq> UNAVAILABLE \<or> ob_value observation \<noteq> None
                 then bind_error ''unavailable command fact was normalized incorrectly'' else Inr ()
       | Some v \<Rightarrow> if ob_status observation \<noteq> OBSERVED \<or> ob_value observation \<noteq> Some (EScalar v)
                   then bind_error ''observed command fact does not match the receipt'' else Inr ()))"

definition validate_final_command_observations ::
    "bundle_verification_request \<Rightarrow> verification_service_result \<Rightarrow> evidence_observation list \<Rightarrow> string \<Rightarrow> unit result" where
  "validate_final_command_observations request res observations producer_authority =
     (if length observations \<noteq> length (vr_commands (sv_receipt res)) * length COMMAND_FACT_TYPES
      then bind_error ''receipt observation count does not match command facts''
      else bindE (index_observations request res producer_authority observations Map.empty) (\<lambda>by_selector.
        checkE (\<lambda>command. checkE (check_fact by_selector (cr_name command)) (command_facts command)) (vr_commands (sv_receipt res))))"

section \<open>The facts of a receipt\<close>

text \<open>What the observations of a receipt have to say, as selector, status and value, in the order of the commands.\<close>

definition fact_selector :: "string \<Rightarrow> string \<Rightarrow> string \<Rightarrow> evidence_selector" where
  "fact_selector producer name ty = \<lparr>sel_observation_type = ty, sel_stage = FINAL_VERIFICATION_STAGE, sel_check_id = name,
     sel_producer_authority = producer\<rparr>"

definition stated_fact :: "string \<Rightarrow> string \<Rightarrow> string \<times> evidence_scalar option \<Rightarrow> evidence_selector \<times> observation_status \<times> evidence_value option" where
  "stated_fact producer name f = (fact_selector producer name (fst f), (case snd f of None \<Rightarrow> UNAVAILABLE | Some _ \<Rightarrow> OBSERVED),
     map_option EScalar (snd f))"

definition receipt_facts :: "string \<Rightarrow> command_result list \<Rightarrow> (evidence_selector \<times> observation_status \<times> evidence_value option) list" where
  "receipt_facts producer commands = concat (map (\<lambda>c. map (stated_fact producer (cr_name c)) (command_facts c)) commands)"

definition fact_of :: "evidence_observation \<Rightarrow> evidence_selector \<times> observation_status \<times> evidence_value option" where
  "fact_of ob = (ob_selector ob, ob_status ob, ob_value ob)"

text \<open>An observation that names the bundle, the run, the artifact, the stage and the producer of the request.\<close>

definition observation_bound :: "bundle_verification_request \<Rightarrow> verification_service_result \<Rightarrow> string \<Rightarrow> evidence_observation \<Rightarrow> bool" where
  "observation_bound q s producer ob \<longleftrightarrow> ob_subject_digest ob = wb_archive_sha256 (bq_workspace_bundle q) \<and> ob_source_run_id ob = bq_run_id q \<and>
     ob_artifact_digest ob = af_sha256 (sv_receipt_artifact s) \<and> sel_stage (ob_selector ob) = FINAL_VERIFICATION_STAGE \<and>
     sel_producer_authority (ob_selector ob) = producer"

lemma check_observation_eq [simp]: "check_observation q s producer ob = Inr u \<longleftrightarrow> observation_bound q s producer ob"
  by (auto simp: check_observation_def observation_bound_def bind_error_def)

lemma index_observations_eq:
  "index_observations q s producer obs m = Inr m' \<longleftrightarrow> list_all (observation_bound q s producer) obs \<and> distinct (map observation_key obs) \<and>
     (\<forall>ob\<in>set obs. m (observation_key ob) = None) \<and> m' = m ++ map_of (map (\<lambda>ob. (observation_key ob, ob)) obs)"
proof (induction obs arbitrary: m)
  case (Cons ob obs)
  show ?case
  proof (cases "observation_key ob \<in> observation_key ` set obs")
    case True
    then show ?thesis by (auto simp: bindE_eq_Inr Cons.IH)
  next
    case False
    then have "m(observation_key ob \<mapsto> ob) ++ map_of (map (\<lambda>ob. (observation_key ob, ob)) obs) =
        m ++ map_of (map (\<lambda>ob. (observation_key ob, ob)) (ob # obs))"
      by (simp add: map_add_upd_left dom_map_of_conv_image_fst image_image)
    moreover have "(\<forall>x\<in>set obs. (m(observation_key ob \<mapsto> ob)) (observation_key x) = None) \<longleftrightarrow> (\<forall>x\<in>set obs. m (observation_key x) = None)"
      using False by (auto simp: image_iff)
    ultimately show ?thesis using False by (simp add: bindE_eq_Inr Cons.IH del: fun_upd_apply map_of.simps)
  qed
qed auto

lemma check_fact_eq: "check_fact m name f = Inr u \<longleftrightarrow>
    (\<exists>ob. m (name, fst f) = Some ob \<and> ob_status ob = fst (snd (stated_fact producer name f)) \<and> ob_value ob = snd (snd (stated_fact producer name f)))"
  by (auto simp: check_fact_def stated_fact_def bind_error_def split: option.splits prod.splits)

lemma selector_of_key:
  "observation_bound q s producer ob \<Longrightarrow> ob_selector ob = fact_selector producer (fst (observation_key ob)) (snd (observation_key ob))"
  by (cases "ob_selector ob") (auto simp: observation_bound_def observation_key_def fact_selector_def)

lemma fact_selector_eq [simp]: "fact_selector producer n t = fact_selector producer m u \<longleftrightarrow> n = m \<and> t = u"
  by (auto simp: fact_selector_def)

lemma fact_types_distinct: "distinct COMMAND_FACT_TYPES" "map fst (command_facts c) = COMMAND_FACT_TYPES"
  by (simp_all add: command_facts_def fact_type_defs)

text \<open>The selectors of a receipt's facts are the pairs of a command name and a fact type.\<close>

lemma receipt_fact_selectors:
  "map fst (receipt_facts producer commands) =
     map (\<lambda>(name, ty). fact_selector producer name ty) (List.product (map cr_name commands) COMMAND_FACT_TYPES)"
proof (induction commands)
  case (Cons c cs)
  have "map fst (map (stated_fact producer (cr_name c)) (command_facts c)) = map (fact_selector producer (cr_name c)) COMMAND_FACT_TYPES"
    by (simp add: stated_fact_def command_facts_def COMMAND_FACT_TYPES_def)
  with Cons show ?case by (simp add: receipt_facts_def comp_def)
qed (simp add: receipt_facts_def)

lemma receipt_facts_distinct:
  assumes "distinct (map cr_name commands)"
  shows "distinct (map fst (receipt_facts producer commands))"
proof -
  have "distinct (List.product (map cr_name commands) COMMAND_FACT_TYPES)"
    using assms fact_types_distinct(1) by (rule distinct_product)
  then show ?thesis unfolding receipt_fact_selectors by (simp add: distinct_map inj_on_def)
qed

lemma receipt_facts_length: "length (receipt_facts producer commands) = length commands * length COMMAND_FACT_TYPES"
  by (induction commands) (simp_all add: receipt_facts_def command_facts_def COMMAND_FACT_TYPES_def)

text \<open>Every fact has its observation exactly when the observations cover the facts of the receipt.\<close>

lemma facts_found:
  assumes bound: "list_all (observation_bound q s producer) obs" and dist: "distinct (map observation_key obs)"
  shows "(\<forall>c\<in>set commands. \<forall>f\<in>set (command_facts c). check_fact (map_of (map (\<lambda>ob. (observation_key ob, ob)) obs)) (cr_name c) f = Inr ()) \<longleftrightarrow>
     set (receipt_facts producer commands) \<subseteq> fact_of ` set obs"
proof -
  have at: "map_of (map (\<lambda>ob. (observation_key ob, ob)) obs) k = Some ob \<longleftrightarrow> ob \<in> set obs \<and> observation_key ob = k" for k ob
    using dist by (subst map_of_eq_Some_iff) (auto simp: comp_def)
  have "check_fact (map_of (map (\<lambda>ob. (observation_key ob, ob)) obs)) name f = Inr () \<longleftrightarrow> stated_fact producer name f \<in> fact_of ` set obs" for name f
  proof -
    have "ob_selector ob = fact_selector producer name (fst f) \<longleftrightarrow> observation_key ob = (name, fst f)" if "ob \<in> set obs" for ob
      using selector_of_key [of q s producer ob] bound that by (cases "observation_key ob") (simp add: list_all_iff)
    then show ?thesis unfolding check_fact_eq [where producer = producer] at
      by (force simp: fact_of_def stated_fact_def image_iff)
  qed
  then show ?thesis unfolding receipt_facts_def by (simp add: UN_subset_iff image_subset_iff)
qed

lemma mset_of_covering:
  assumes "distinct xs" "distinct ys" "length ys = length xs"
  shows "set xs \<subseteq> set ys \<longleftrightarrow> mset ys = mset xs"
proof
  assume "set xs \<subseteq> set ys"
  then have "set xs = set ys" using assms by (intro card_subset_eq) (simp_all add: distinct_card)
  then show "mset ys = mset xs" using assms set_eq_iff_mset_eq_distinct by blast
qed (metis set_mset_mset subset_refl)

lemma observations_exact:
  assumes names: "distinct (map cr_name (vr_commands (sv_receipt s)))"
  shows "validate_final_command_observations q s obs producer = Inr () \<longleftrightarrow> list_all (observation_bound q s producer) obs \<and>
     mset (map fact_of obs) = mset (receipt_facts producer (vr_commands (sv_receipt s)))"
proof (cases "list_all (observation_bound q s producer) obs")
  case bound: True
  let ?F = "receipt_facts producer (vr_commands (sv_receipt s))"
  have distF: "distinct ?F" using receipt_facts_distinct [OF names] by (simp add: distinct_map)
  have keys: "distinct (map fst (map fact_of obs)) \<longleftrightarrow> distinct (map observation_key obs)"
  proof -
    have "fst (fact_of ob) = (\<lambda>k. fact_selector producer (fst k) (snd k)) (observation_key ob)" if "ob \<in> set obs" for ob
      using selector_of_key [of q s producer ob] bound that by (simp add: list_all_iff fact_of_def)
    then have "map fst (map fact_of obs) = map (\<lambda>k. fact_selector producer (fst k) (snd k)) (map observation_key obs)" by simp
    then show ?thesis by (simp only: distinct_map) (simp add: inj_on_def prod_eq_iff)
  qed
  have "validate_final_command_observations q s obs producer = Inr () \<longleftrightarrow>
      length obs = length ?F \<and> distinct (map observation_key obs) \<and> set ?F \<subseteq> fact_of ` set obs"
    using facts_found [OF bound] bound
    by (auto simp: validate_final_command_observations_def receipt_facts_length bind_error_def bindE_eq_Inr index_observations_eq)
  also have "\<dots> \<longleftrightarrow> mset (map fact_of obs) = mset ?F"
  proof (cases "distinct (map observation_key obs)")
    case True
    then have "distinct (map fact_of obs)" using keys by (metis distinct_map)
    then have "length obs = length ?F \<Longrightarrow> set ?F \<subseteq> fact_of ` set obs \<longleftrightarrow> mset (map fact_of obs) = mset ?F"
      using mset_of_covering [OF distF, of "map fact_of obs"] by simp
    moreover have "mset (map fact_of obs) = mset ?F \<Longrightarrow> length obs = length ?F" by (metis mset_eq_length length_map)
    ultimately show ?thesis using True by blast
  next
    case False
    then have "mset (map fst (map fact_of obs)) \<noteq> mset (map fst ?F)"
      using receipt_facts_distinct [OF names] keys by (metis mset_eq_imp_distinct_iff)
    with False show ?thesis by (metis mset_map)
  qed
  finally show ?thesis using bound by simp
next
  case False
  then show ?thesis
    by (auto simp: validate_final_command_observations_def bind_error_def bindE_eq_Inr index_observations_eq)
qed

section \<open>The adapter's observations\<close>

lemma command_fact_selector_eq:
  "command_fact_selector name ty producer = Inr sel \<longleftrightarrow> ty \<in> set COMMAND_FACT_TYPES \<and> sel = fact_selector producer name ty \<and> wf_selector sel"
  by (auto simp: command_fact_selector_def mk_evidence_selector_eq fact_selector_def)

lemma mk_observation_keeps:
  "mk_evidence_observation ob = Inr ob' \<Longrightarrow> ob_value ob = map_option EScalar v \<Longrightarrow> ob' = ob"
  by (cases "ob_value ob"; cases v; cases "the v")
    (auto simp: mk_evidence_observation_def bindE_eq_Inr split: if_splits option.splits)

lemma fact_observation_sound:
  assumes "fact_observation q s producer i c suffix ty v = Inr ob"
  shows "ob = fact_record q s i suffix (fact_selector producer (cr_name c) ty) v"
  using assms mk_observation_keeps [of "fact_record q s i suffix (fact_selector producer (cr_name c) ty) v" ob v]
  by (auto simp: fact_observation_def bindE_eq_Inr command_fact_selector_eq fact_record_def)

lemma fact_of_record: "fact_of (fact_record q s i suffix (fact_selector producer name ty) v) = stated_fact producer name (ty, v)"
  by (simp add: fact_of_def fact_record_def stated_fact_def)

definition fact_suffixes :: "string list" where
  "fact_suffixes = [''passed'', ''exit-code'', ''timed-out'', ''workspace-unchanged'', ''failure-category'']"

definition command_records :: "bundle_verification_request \<Rightarrow> verification_service_result \<Rightarrow> string \<Rightarrow> nat \<Rightarrow> command_result \<Rightarrow> evidence_observation list" where
  "command_records q s producer i c =
     map (\<lambda>(suffix, ty, v). fact_record q s i suffix (fact_selector producer (cr_name c) ty) v) (zip fact_suffixes (command_facts c))"

lemma command_observations_sound: "command_observations q s producer (i, c) = Inr obs \<Longrightarrow> obs = command_records q s producer i c"
  by (auto simp: command_observations_def Let_def bindE_eq_Inr command_records_def command_facts_def fact_suffixes_def dest!: fact_observation_sound)

lemma command_records_facts: "map fact_of (command_records q s producer i c) = map (stated_fact producer (cr_name c)) (command_facts c)"
  by (simp add: command_records_def command_facts_def fact_suffixes_def fact_of_record)

lemma command_records_bound:
  "vr_run_id (sv_receipt s) = bq_run_id q \<Longrightarrow> list_all (observation_bound q s producer) (command_records q s producer i c)"
  by (simp add: command_records_def command_facts_def fact_suffixes_def observation_bound_def fact_record_def fact_selector_def)

lemma mapE_command_observations:
  assumes "mapE (command_observations q s producer) (List.enumerate i cs) = Inr obss" and run: "vr_run_id (sv_receipt s) = bq_run_id q"
  shows "map fact_of (concat obss) = receipt_facts producer cs \<and> list_all (observation_bound q s producer) (concat obss)"
  using assms(1)
proof (induction cs arbitrary: i obss)
  case (Cons c cs)
  from Cons.prems obtain obs rest where obs: "command_observations q s producer (i, c) = Inr obs"
    and rest: "mapE (command_observations q s producer) (List.enumerate (Suc i) cs) = Inr rest" and obss: "obss = obs # rest"
    by (auto simp: bindE_eq_Inr)
  show ?case using Cons.IH [OF rest] command_records_facts command_records_bound [OF run]
    by (simp add: obss receipt_facts_def command_observations_sound [OF obs])
qed (simp add: receipt_facts_def)

text \<open>What the check of the bindings establishes.\<close>

lemma bindings_run:
  assumes "validate_final_verification_bindings q s assets = Inr u"
  shows "vr_run_id (sv_receipt s) = bq_run_id q" "length (vp_commands (bq_profile q)) = length (vr_commands (sv_receipt s))"
    "check_command_chain 0 (vr_workspace_state_before (sv_receipt s)) (zip (vp_commands (bq_profile q)) (vr_commands (sv_receipt s)))
       = Inr (vr_workspace_state_after (sv_receipt s))"
  using assms unfolding validate_final_verification_bindings_def Let_def bind_error_def
  by (simp_all only: if_Inl_eq_Inr bindE_eq_Inr) (auto simp: bindE_eq_Inr if_Inl_eq_Inr)

lemma chain_names:
  "check_command_chain i st (zip specs cs) = Inr st' \<Longrightarrow> length specs = length cs \<Longrightarrow> map cr_name cs = map cs_name specs \<and> list_all (is_token \<circ> cr_name) cs"
proof (induction specs cs arbitrary: i st rule: list_induct2')
  case (4 spec specs c cs)
  then have "check_command_chain (Suc i) (cr_workspace_state_after c) (zip specs cs) = Inr st'" "cr_name c = cs_name spec"
    "\<exists>sel. command_fact_selector (cr_name c) COMMAND_PASSED ''binding-check'' = Inr sel"
    by (auto simp: bindE_eq_Inr bind_error_def split: if_splits sum.splits py_error.splits)
  with 4 show ?case by (auto simp: command_fact_selector_eq fact_selector_def wf_selector_def)
qed simp_all

lemma adapt_sound:
  assumes "adapt q s producer = Inr obs"
  shows "map fact_of obs = receipt_facts producer (vr_commands (sv_receipt s)) \<and> list_all (observation_bound q s producer) obs \<and>
     map cr_name (vr_commands (sv_receipt s)) = map cs_name (vp_commands (bq_profile q))"
proof -
  from assms obtain obss where b: "validate_final_verification_bindings q s False = Inr ()" and obs: "obs = concat obss"
    and m: "mapE (command_observations q s producer) (List.enumerate 0 (vr_commands (sv_receipt s))) = Inr obss"
    by (auto simp: adapt_def bindE_eq_Inr)
  from mapE_command_observations [OF m bindings_run(1) [OF b]] chain_names [OF bindings_run(3,2) [OF b]] show ?thesis by (simp add: obs)
qed

subsection \<open>The adapter succeeds\<close>

text \<open>Characters of a token: neither space nor control.\<close>

definition token_char :: "char \<Rightarrow> bool" where
  "token_char c \<longleftrightarrow> \<not> py_isspace c \<and> 32 \<le> py_ord c"

lemma is_tokenI:
  assumes "list_all token_char v" "v \<noteq> []" "length v \<le> 256"
  shows "is_token v"
proof -
  have "py_strip v = v"
    using assms(1) dropWhile_id [of py_isspace v] dropWhile_id [of py_isspace "rev v"] by (simp add: py_strip_def list_all_iff token_char_def)
  moreover have "\<not> token_char (CHR 0x00)" by code_simp
  ultimately show ?thesis using assms by (auto simp: is_token_def list_all_iff token_char_def)
qed

lemma token_char_alnum: "is_ascii_alnum c \<Longrightarrow> token_char c" "is_digit c \<Longrightarrow> token_char c"
  by (auto simp: token_char_def is_ascii_alnum_def is_digit_def py_isspace_def py_ord_def Let_def)

lemma safe_id_chars:
  assumes "is_safe_id n v"
  shows "list_all token_char v" "v \<noteq> []" "length v \<le> Suc n"
proof -
  have "token_char (CHR ''.'')" "token_char (CHR ''_'')" "token_char (CHR ''-'')" by code_simp+
  then show "list_all token_char v" "v \<noteq> []" "length v \<le> Suc n"
    using assms token_char_alnum(1) by (auto simp: is_safe_id_def list_all_iff split: list.splits)
qed

definition facts_in_range :: "command_result \<Rightarrow> bool" where
  "facts_in_range c \<longleftrightarrow> pred_option (\<lambda>code. \<bar>code\<bar> \<le> MAX_INTEGER) (cr_exit_code c)"

lemma fact_values_wf:
  assumes "wf_command_result c" "facts_in_range c" "(ty, v) \<in> set (command_facts c)"
  shows "pred_option wf_scalar v"
proof -
  have "list_all (\<lambda>k. length k \<le> 4096 \<and> CHR 0x00 \<notin> set k) (NO_FAILURE_CATEGORY # FAILURE_CATEGORIES)"
    by (simp add: NO_FAILURE_CATEGORY_def FAILURE_CATEGORIES_def)
  moreover have "category_fact c \<in> set (NO_FAILURE_CATEGORY # FAILURE_CATEGORIES)"
    using assms(1) by (auto simp: category_fact_def wf_command_result_def split: option.splits)
  ultimately have "wf_scalar (EStr (category_fact c))" unfolding list_all_iff by auto
  then show ?thesis using assms(2,3) by (auto simp: command_facts_def facts_in_range_def option.pred_map comp_def)
qed

lemma fact_tokens:
  "list_all is_token COMMAND_FACT_TYPES" "is_token FINAL_VERIFICATION_STAGE" "is_token ''command_not_started''"
  "list_all (\<lambda>suffix. list_all token_char suffix \<and> length suffix \<le> 19) fact_suffixes" "list_all token_char ''.command-.''"
  by code_simp+

lemma fact_record_wf:
  assumes run: "is_safe_id 127 (vr_run_id (sv_receipt s))" and sel: "wf_selector sel" and v: "pred_option wf_scalar v"
    and suffix: "suffix \<in> set fact_suffixes" and i: "i < 10 ^ 90"
    and digests: "is_sha256 (wb_archive_sha256 (bq_workspace_bundle q))" "is_sha256 (af_sha256 (sv_receipt_artifact s))"
  shows "wf_observation (fact_record q s i suffix sel v)"
proof -
  note runid = safe_id_chars [OF run]
  have len: "length (pad4 (show_nat i)) \<le> 90" using show_nat_length [OF i] by (simp add: pad4_def)
  have digits: "list_all token_char (pad4 (show_nat i))" using pad4_digits [of i] token_char_alnum(2) by (auto simp: list_all_iff)
  have "is_token (vr_run_id (sv_receipt s) @ ''.command-'' @ pad4 (show_nat i) @ ''.'' @ suffix)"
    by (rule is_tokenI) (use runid digits len fact_tokens(4,5) suffix in \<open>auto simp: list_all_iff\<close>)
  moreover have "is_token (vr_run_id (sv_receipt s))" using runid by (intro is_tokenI) auto
  ultimately show ?thesis using sel v digests fact_tokens(3)
    by (cases v) (auto simp: wf_observation_def fact_record_def)
qed

lemma command_observations_total:
  assumes c: "wf_command_result c" "facts_in_range c" "is_token (cr_name c)" and producer: "is_token producer"
    and run: "is_safe_id 127 (vr_run_id (sv_receipt s))" and i: "i < 10 ^ 90"
    and digests: "is_sha256 (wb_archive_sha256 (bq_workspace_bundle q))" "is_sha256 (af_sha256 (sv_receipt_artifact s))"
  shows "command_observations q s producer (i, c) = Inr (command_records q s producer i c) \<and> list_all wf_observation (command_records q s producer i c)"
proof -
  have sel: "wf_selector (fact_selector producer (cr_name c) ty)" if "ty \<in> set COMMAND_FACT_TYPES" for ty
    using that c(3) producer fact_tokens(1,2) by (simp add: wf_selector_def fact_selector_def list_all_iff)
  have types: "ty \<in> set COMMAND_FACT_TYPES" if "(ty, v) \<in> set (command_facts c)" for ty v
    using that fact_types_distinct(2) [of c] by (metis fst_conv image_eqI set_map)
  have wf: "wf_observation (fact_record q s i suffix (fact_selector producer (cr_name c) ty) v)"
    if "(ty, v) \<in> set (command_facts c)" "suffix \<in> set fact_suffixes" for suffix ty v
    using fact_record_wf [OF run sel [OF types [OF that(1)]] fact_values_wf [OF c(1,2) that(1)] that(2) i digests] .
  have ok: "fact_observation q s producer i c suffix ty v = Inr (fact_record q s i suffix (fact_selector producer (cr_name c) ty) v)"
    if "(ty, v) \<in> set (command_facts c)" "suffix \<in> set fact_suffixes" for suffix ty v
  proof -
    have "command_fact_selector (cr_name c) ty producer = Inr (fact_selector producer (cr_name c) ty)"
      using sel types that by (simp add: command_fact_selector_eq)
    then show ?thesis using wf [OF that] by (simp add: fact_observation_def mk_wf(3))
  qed
  show ?thesis
    using ok wf by (auto simp: command_observations_def command_records_def command_facts_def fact_suffixes_def)
qed

lemma mapE_commands_total:
  assumes "\<And>c. c \<in> set cs \<Longrightarrow> wf_command_result c \<and> facts_in_range c \<and> is_token (cr_name c)" and "is_token producer"
    and "is_safe_id 127 (vr_run_id (sv_receipt s))" and "i + length cs \<le> 10 ^ 90"
    and "is_sha256 (wb_archive_sha256 (bq_workspace_bundle q))" "is_sha256 (af_sha256 (sv_receipt_artifact s))"
  shows "mapE (command_observations q s producer) (List.enumerate i cs) =
       Inr (map (\<lambda>(j, c). command_records q s producer j c) (List.enumerate i cs)) \<and>
     (\<forall>(j, c)\<in>set (List.enumerate i cs). list_all wf_observation (command_records q s producer j c))"
  using assms(1,4)
proof (induction cs arbitrary: i)
  case (Cons c cs)
  have "command_observations q s producer (i, c) = Inr (command_records q s producer i c) \<and> list_all wf_observation (command_records q s producer i c)"
    using Cons.prems by (intro command_observations_total assms) auto
  with Cons.IH [of "Suc i"] Cons.prems show ?case by simp
qed simp

text \<open>The identifiers are distinct: the index and the suffix can be read off them.\<close>

lemma digits_prefix_unique:
  assumes "ds @ CHR ''.'' # xs = es @ CHR ''.'' # ys" "list_all is_digit ds" "list_all is_digit es"
  shows "ds = es \<and> xs = ys"
proof -
  have "takeWhile is_digit (fs @ CHR ''.'' # zs) = fs" if "list_all is_digit fs" for fs zs
  proof -
    have "\<not> is_digit (CHR ''.'')" by code_simp
    with that show ?thesis by (simp add: takeWhile_append list_all_iff)
  qed
  then have "ds = es" using assms by metis
  with assms(1) show ?thesis by simp
qed

lemma fact_record_ids:
  assumes "ob_observation_id (fact_record q s i suffix sel v) = ob_observation_id (fact_record q s j suffix' sel' v')"
  shows "i = j \<and> suffix = suffix'"
proof -
  from assms have "pad4 (show_nat i) @ CHR ''.'' # suffix = pad4 (show_nat j) @ CHR ''.'' # suffix'" by (simp add: fact_record_def)
  from digits_prefix_unique [OF this pad4_digits pad4_digits] show ?thesis by (metis read_pad4)
qed

lemma command_records_ids:
  "map ob_observation_id (command_records q s producer i c) =
     map (\<lambda>suffix. ob_observation_id (fact_record q s i suffix (fact_selector producer [] []) None)) fact_suffixes"
  by (simp add: command_records_def command_facts_def fact_suffixes_def fact_record_def)

lemma records_distinct_ids:
  "distinct (map ob_observation_id (concat (map (\<lambda>(j, c). command_records q s producer j c) (List.enumerate i cs))))"
proof (induction cs arbitrary: i)
  case (Cons c cs)
  let ?ids = "\<lambda>j c. map ob_observation_id (command_records q s producer j c)"
  have "distinct (?ids i c)"
    unfolding command_records_ids distinct_map by (auto simp: inj_on_def fact_suffixes_def dest: fact_record_ids)
  moreover have "x \<notin> set (?ids j d)" if "x \<in> set (?ids i c)" "(j, d) \<in> set (List.enumerate (Suc i) cs)" for x j d
  proof -
    have "i \<noteq> j" using that(2) by (auto simp: in_set_enumerate_eq)
    with that(1) show ?thesis unfolding command_records_ids by (auto dest: fact_record_ids)
  qed
  ultimately show ?case using Cons.IH [of "Suc i"] by (fastforce simp: image_iff)
qed simp

lemma adapt_total:
  assumes q: "wf_bundle_request q" and s: "wf_service_result s" and b: "validate_final_verification_bindings q s False = Inr ()"
    and producer: "is_token producer" and range: "list_all facts_in_range (vr_commands (sv_receipt s))"
    and size: "length (vr_commands (sv_receipt s)) \<le> 10 ^ 90"
  obtains obs where "adapt q s producer = Inr obs" "list_all wf_observation obs" "distinct (map ob_observation_id obs)"
proof -
  let ?cs = "vr_commands (sv_receipt s)"
  have receipt: "wf_receipt (sv_receipt s)" "wf_artifact (sv_receipt_artifact s)"
    using s by (simp_all add: wf_service_result_def storable_receipt_def)
  then have run: "is_safe_id 127 (vr_run_id (sv_receipt s))" and wf: "list_all wf_command_result ?cs" unfolding wf_receipt_def by blast+
  have digests: "is_sha256 (wb_archive_sha256 (bq_workspace_bundle q))" "is_sha256 (af_sha256 (sv_receipt_artifact s))"
    using q receipt(2) by (simp_all add: wf_bundle_request_def wf_bundle_def wf_artifact_def)
  have names: "list_all (is_token \<circ> cr_name) ?cs" using chain_names [OF bindings_run(3,2) [OF b]] by simp
  have all: "mapE (command_observations q s producer) (List.enumerate 0 ?cs) =
       Inr (map (\<lambda>(j, c). command_records q s producer j c) (List.enumerate 0 ?cs)) \<and>
     (\<forall>(j, c)\<in>set (List.enumerate 0 ?cs). list_all wf_observation (command_records q s producer j c))"
    using wf names range size by (intro mapE_commands_total producer run digests) (auto simp: list_all_iff)
  have auth: "is_token ''authority-check''" by code_simp
  have "\<exists>sel. command_fact_selector ''authority-check'' COMMAND_PASSED producer = Inr sel"
    using fact_tokens(1,2) auth producer by (auto simp: command_fact_selector_eq COMMAND_FACT_TYPES_def wf_selector_def fact_selector_def)
  with all b have "adapt q s producer = Inr (concat (map (\<lambda>(j, c). command_records q s producer j c) (List.enumerate 0 ?cs)))"
    by (auto simp: adapt_def)
  moreover have "list_all wf_observation (concat (map (\<lambda>(j, c). command_records q s producer j c) (List.enumerate 0 ?cs)))"
    using all unfolding list_all_iff by fastforce
  ultimately show thesis using records_distinct_ids by (intro that) assumption+
qed

section \<open>Evaluation of the facts\<close>

text \<open>What a clause evaluates to, as a function of the facts alone.\<close>

definition clause_result :: "(evidence_selector \<times> observation_status \<times> evidence_value option) list \<Rightarrow> evidence_clause \<Rightarrow> logical_result" where
  "clause_result facts c = (case filter (\<lambda>f. fst f = cl_selector c) facts of
       [(_, OBSERVED, Some v)] \<Rightarrow> fst (evaluate_predicate (cl_operator c) v (cl_expected c))
     | _ \<Rightarrow> INDETERMINATE)"

lemma evaluate_clause_result:
  assumes "evaluate_clause obs c = Inr p"
  shows "pe_clause_id p = cl_clause_id c \<and> pe_result p = clause_result (map fact_of obs) c"
proof -
  let ?found = "filter (\<lambda>ob. ob_selector ob = cl_selector c) obs"
  have facts: "filter (\<lambda>f. fst f = cl_selector c) (map fact_of obs) = map fact_of ?found"
    by (simp add: filter_map comp_def fact_of_def)
  consider "?found = []" | ob where "?found = [ob]" | "1 < length ?found"
    by (cases ?found rule: remdups_adj.cases) auto
  then show ?thesis
  proof cases
    case 1
    then show ?thesis using assms by (simp add: evaluate_clause_def clause_result_def facts mk_predicate_evaluation_eq)
  next
    case (2 ob)
    then show ?thesis using assms
      by (cases "ob_status ob"; cases "ob_value ob")
        (auto simp: evaluate_clause_def clause_result_def facts fact_of_def mk_predicate_evaluation_eq split: prod.splits)
  next
    case 3
    let ?sorted = "sort_key ob_observation_id ?found"
    from 3 obtain a b os where sorted: "?sorted = a # b # os"
      by (cases ?sorted rule: remdups_adj.cases) (auto dest: arg_cong [of _ _ length])
    from 3 obtain a' b' os' where "?found = a' # b' # os'" by (cases ?found rule: remdups_adj.cases) auto
    then show ?thesis using assms sorted by (auto simp: evaluate_clause_def clause_result_def facts mk_predicate_evaluation_eq Let_def split: prod.splits observation_status.splits option.splits)
  qed
qed

lemma filter_fst_short: "distinct (map fst fs) \<Longrightarrow> length (filter (\<lambda>f. fst f = k) fs) \<le> 1"
proof (induction fs)
  case (Cons f fs)
  then have "fst f \<notin> set (map fst fs)" by simp
  then have "filter (\<lambda>g. fst g = fst f) fs = []" unfolding filter_empty_conv by (metis image_eqI set_map)
  with Cons show ?case by auto
qed simp

lemma mset_short: "mset xs = mset ys \<Longrightarrow> length ys \<le> 1 \<Longrightarrow> xs = ys"
  by (cases ys) auto

lemma clause_result_mset:
  assumes "mset fs = mset gs" "distinct (map fst gs)"
  shows "clause_result fs c = clause_result gs c"
proof -
  have m: "mset (filter (\<lambda>f. fst f = cl_selector c) fs) = mset (filter (\<lambda>f. fst f = cl_selector c) gs)" using assms(1) by simp
  show ?thesis unfolding clause_result_def mset_short [OF m filter_fst_short [OF assms(2)]] by (rule refl)
qed

definition fact_valuation :: "evidence_contract \<Rightarrow> (evidence_selector \<times> observation_status \<times> evidence_value option) list \<Rightarrow> (string \<times> logical_result) list" where
  "fact_valuation c facts = py_dict (map (\<lambda>cl. (cl_clause_id cl, clause_result facts cl)) (ec_clauses c))"

lemma evaluate_clauses_results:
  assumes "evaluate_clauses cls obs = Inr ps" 
  shows "map (\<lambda>p. (pe_clause_id p, pe_result p)) ps = map (\<lambda>cl. (cl_clause_id cl, clause_result (map fact_of obs) cl)) cls"
  using assms unfolding evaluate_clauses_def mapE_eq_Inr
  by (induction rule: list_all2_induct) (simp_all add: evaluate_clause_result)

lemma evaluation_of_completed: "contract_evaluation_of c od lc res ps code = Inr ev \<Longrightarrow> ce_lifecycle ev = lc \<and> ce_logical_result ev = res"
  unfolding contract_evaluation_of_def mk_contract_evaluation_def by (simp only: bindE_eq_Inr if_Inl_eq_Inr) auto

lemma evaluation_from_facts:
  assumes "evaluate_evidence_contract c obs limits = Inr ev" "ce_lifecycle ev = COMPLETED"
  obtains root where "evaluate_expression (ec_task_success c) (fact_valuation c (map fact_of obs)) = Inr root" "ce_logical_result ev = Some root"
proof -
  from assms obtain od ps root where ps: "evaluate_clauses (ec_clauses c) obs = Inr ps"
    and root: "evaluate_expression (ec_task_success c) (predicate_dict ps) = Inr root"
    and ev: "contract_evaluation_of c od COMPLETED (Some root) ps None = Inr ev"
    unfolding evaluate_evidence_contract_def
    by (auto simp: bindE_eq_Inr dest: evaluation_of_completed split: if_splits option.splits)
  have "predicate_dict ps = fact_valuation c (map fact_of obs)"
    using evaluate_clauses_results [OF ps] by (simp add: predicate_dict_def fact_valuation_def)
  with root evaluation_of_completed [OF ev] that show thesis by simp
qed

lemma fact_valuation_mset:
  assumes "mset fs = mset gs" "distinct (map fst gs)"
  shows "fact_valuation c fs = fact_valuation c gs"
  using clause_result_mset [OF assms] by (simp add: fact_valuation_def)

lemma verdict_of_facts:
  assumes "distinct (map cr_name (vr_commands (sv_receipt s)))" "validate_final_command_observations q s obs producer = Inr ()"
    and "evaluate_evidence_contract c obs limits = Inr ev" "ce_lifecycle ev = COMPLETED"
  obtains root where "evaluate_expression (ec_task_success c) (fact_valuation c (receipt_facts producer (vr_commands (sv_receipt s)))) = Inr root"
    "ce_logical_result ev = Some root"
proof -
  obtain root where root: "evaluate_expression (ec_task_success c) (fact_valuation c (map fact_of obs)) = Inr root" "ce_logical_result ev = Some root"
    using evaluation_from_facts [OF assms(3,4)] .
  have "fact_valuation c (map fact_of obs) = fact_valuation c (receipt_facts producer (vr_commands (sv_receipt s)))"
    using observations_exact [OF assms(1)] assms(2) receipt_facts_distinct [OF assms(1)] by (intro fact_valuation_mset) simp_all
  with root that show thesis by simp
qed

section \<open>Samples\<close>

text \<open>A request for the sample bundle under a profile with verifier assets, and a result that answers it.\<close>

definition sample_assets :: verifier_asset_bundle_ref where
  "sample_assets = \<lparr>ab_bundle_id = ''verifier-assets:sha256:'' @ replicate 64 (CHR ''a''), ab_manifest_sha256 = ''sha256:'' @ replicate 64 (CHR ''a''),
     ab_tree_hash = ''sha256:'' @ replicate 64 (CHR ''b''), ab_total_size_bytes = 5, ab_entry_count = 1,
     ab_schema_version = ''sisyphus_harness.verifier_asset_bundle_ref.v1''\<rparr>"

definition final_profile :: verification_profile where
  "final_profile = \<lparr>vp_profile_id = ''final'', vp_commands = [\<lparr>cs_name = ''unit'', cs_argv = [''pytest''], cs_timeout_seconds = Finite 60,
     cs_criteria = [''tests pass'']\<rparr>], vp_asset_bundle = Some sample_assets, vp_schema_version = PROFILE_V2\<rparr>"

definition sample_identity :: verifier_execution_identity where
  "sample_identity = \<lparr>xi_runtime = ''docker'', xi_image_reference = ''verifier:1'', xi_image_id = ''sha256:'' @ replicate 64 (CHR ''9''),
     xi_schema_version = ''sisyphus_harness.verifier_execution_identity.v1''\<rparr>"

definition final_request :: bundle_verification_request where
  "final_request = \<lparr>bq_run_id = ''run-1'', bq_workspace_bundle = sample_bundle, bq_profile = final_profile,
     bq_execution_identity = Some sample_identity, bq_schema_version = BUNDLE_REQUEST_V2\<rparr>"

definition final_command :: command_result where
  "final_command = sample_command_result\<lparr>cr_name := ''unit'', cr_workspace_state_before := wb_tree_hash sample_bundle,
     cr_workspace_state_after := wb_tree_hash sample_bundle\<rparr>"

definition final_receipt :: verification_receipt where
  "final_receipt = sample_receipt\<lparr>vr_worktree_commit_sha := wb_source_commit_sha sample_bundle, vr_commands := [final_command],
     vr_workspace_state_before := wb_tree_hash sample_bundle, vr_workspace_state_after := wb_tree_hash sample_bundle,
     vr_request_digest := bundle_request_digest final_request, vr_workspace_bundle_id := Some (wb_bundle_id sample_bundle),
     vr_profile_digest := Some (profile_digest final_profile), vr_execution_identity_digest := Some (identity_digest sample_identity),
     vr_verifier_asset_bundle_id := Some (ab_bundle_id sample_assets)\<rparr>"

definition final_artifact :: artifact_ref where
  "final_artifact = \<lparr>af_artifact_id = ''run-1/receipt.json'', af_sha256 = ''sha256:'' @ replicate 64 (CHR ''f''),
     af_size_bytes = 9, af_media_type = VERIFICATION_RECEIPT_MEDIA_TYPE, af_schema_version = ''sisyphus_harness.artifact_ref.v1''\<rparr>"

definition final_result :: verification_service_result where
  "final_result = \<lparr>sv_request_digest = bundle_request_digest final_request, sv_workspace_bundle_id = wb_bundle_id sample_bundle,
     sv_profile_digest = profile_digest final_profile, sv_receipt = final_receipt, sv_receipt_artifact = final_artifact,
     sv_execution_identity = Some sample_identity, sv_schema_version = SERVICE_V2\<rparr>"

lemma final_profile_wf: "wf_profile final_profile"
proof -
  have "wf_assets sample_assets" "list_all wf_command (vp_commands final_profile)" "is_safe_id 127 ''final''" by code_simp+
  then show ?thesis by (simp add: wf_profile_def final_profile_def)
qed

lemma final_request_wf: "wf_bundle_request final_request"
proof -
  have "wf_identity sample_identity" "is_safe_id 127 ''run-1''" by code_simp+
  then show ?thesis using final_profile_wf sample_bundle_wf
    by (simp add: wf_bundle_request_def final_request_def) (simp add: final_profile_def)
qed

lemma service_digests [simp]: "is_sha256 (bundle_request_digest q)" "is_sha256 (profile_digest p)" "is_sha256 (identity_digest x)"
  by (simp_all add: bundle_request_digest_def profile_digest_def identity_digest_def)

lemma final_command_wf: "wf_command_result final_command"
  using sample_command_result_wf unfolding final_command_def wf_command_result_def verdict_ok_def
  by (simp add: sample_bundle_def text_ok_def) (simp add: sample_command_result_def)

lemma final_receipt_wf: "storable_receipt final_receipt"
proof -
  have "is_safe_id 127 ''run-1''" by code_simp
  then show ?thesis using final_command_wf
    by (simp add: storable_receipt_def wf_receipt_def bindings_ok_def final_receipt_def sample_receipt_def text_ok_def sample_bundle_def sample_assets_def)
      (simp add: final_command_def sample_command_result_def is_asset_bundle_id_def is_sha256_def list_all_iff)
qed

lemma final_result_wf: "wf_service_result final_result"
proof -
  have "wf_artifact final_artifact" "wf_identity sample_identity" "text_ok (wb_bundle_id sample_bundle)" by code_simp+
  then show ?thesis using final_receipt_wf
    by (simp add: wf_service_result_def final_result_def service_bindings_def)
      (simp add: final_receipt_def sample_receipt_def final_artifact_def)
qed

lemma final_bindings: "validate_final_verification_bindings final_request final_result True = Inr ()"
proof -
  have "is_token ''unit''" "is_token ''binding-check''" by code_simp+
  then have "command_fact_selector ''unit'' COMMAND_PASSED ''binding-check'' = Inr (fact_selector ''binding-check'' ''unit'' COMMAND_PASSED)"
    using fact_tokens(1,2) by (simp add: command_fact_selector_eq wf_selector_def fact_selector_def COMMAND_FACT_TYPES_def)
  then show ?thesis
    by (auto simp: validate_final_verification_bindings_def final_request_def final_result_def final_receipt_def sample_receipt_def
        final_profile_def final_artifact_def final_command_def sample_command_result_def command_should_pass_def Let_def)
qed

lemma bindings_weaken: "validate_final_verification_bindings q s True = Inr () \<Longrightarrow> validate_final_verification_bindings q s False = Inr ()"
  unfolding validate_final_verification_bindings_def Let_def by (simp only: if_Inl_eq_Inr bind_error_def) simp

lemma bindings_names:
  "validate_final_verification_bindings q s b = Inr () \<Longrightarrow> wf_bundle_request q \<Longrightarrow> distinct (map cr_name (vr_commands (sv_receipt s)))"
  using chain_names [OF bindings_run(3,2)] by (simp add: wf_bundle_request_def wf_profile_def)

lemma final_range: "list_all facts_in_range (vr_commands (sv_receipt final_result))"
  by (simp add: final_result_def final_receipt_def final_command_def sample_command_result_def facts_in_range_def MAX_INTEGER_def)

definition verdict_contract :: evidence_contract where
  "verdict_contract = sample_contract\<lparr>ec_clauses := [\<lparr>cl_clause_id = ''exit'', cl_selector = fact_selector ''harness'' ''unit'' COMMAND_PASSED,
     cl_operator = EQUALS, cl_expected = EScalar (EBool True)\<rparr>]\<rparr>"

lemma verdict_contract_ok: "wf_contract verdict_contract" "contract_clean verdict_contract DEFAULT_LIMITS"
  by code_simp+

lemma verdict_value:
  "evaluate_expression (ec_task_success verdict_contract) (fact_valuation verdict_contract (receipt_facts ''harness'' [final_command])) = Inr PASS"
  by (simp add: verdict_contract_def sample_contract_def fact_valuation_def clause_result_def receipt_facts_def command_facts_def
      stated_fact_def final_command_def sample_command_result_def fact_type_defs all_of_result_def evaluate_predicate_def predicate_outcome_def
      map_of_py_dict_distinct)

section \<open>Properties\<close>

text \<open>
  The adapter is complete and consistent with Control's own check. For every well-formed request and result whose bindings are
  valid, a producer that is a token, and exit codes in the range of evidence values, it returns observations: well formed,
  with distinct identifiers, five for each command, and accepted by the check that Control runs on the observations of any adapter.
\<close>

theorem adapter_complete:
  assumes "wf_bundle_request q" and "wf_service_result s" and "validate_final_verification_bindings q s False = Inr ()"
    and "is_token producer" and "list_all facts_in_range (vr_commands (sv_receipt s))" and "length (vr_commands (sv_receipt s)) \<le> 10 ^ 90"
  shows "\<exists>obs. adapt q s producer = Inr obs \<and> list_all wf_observation obs \<and> distinct (map ob_observation_id obs) \<and>
     length obs = 5 * length (vr_commands (sv_receipt s)) \<and> validate_final_command_observations q s obs producer = Inr ()"
proof -
  obtain obs where obs: "adapt q s producer = Inr obs" "list_all wf_observation obs" "distinct (map ob_observation_id obs)"
    using adapt_total [OF assms] .
  note sound = adapt_sound [OF obs(1)]
  have "length obs = length (receipt_facts producer (vr_commands (sv_receipt s)))" using sound by (metis length_map)
  then have "length obs = 5 * length (vr_commands (sv_receipt s))" by (simp add: receipt_facts_length COMMAND_FACT_TYPES_def)
  with sound observations_exact [OF bindings_names [OF assms(3,1)], of q obs producer] obs show ?thesis by auto
qed

theorem adapter_complete_witness:
  "\<exists>obs. adapt final_request final_result ''harness'' = Inr obs \<and> length obs = 5 \<and>
     validate_final_command_observations final_request final_result obs ''harness'' = Inr ()"
proof -
  have "is_token ''harness''" by code_simp
  moreover have "length (vr_commands (sv_receipt final_result)) = 1" by (simp add: final_result_def final_receipt_def)
  ultimately show ?thesis
    using adapter_complete [OF final_request_wf final_result_wf bindings_weaken [OF final_bindings] _ final_range, of "''harness''"] by auto
qed

text \<open>
  C33. Control's check on observations is exact: it accepts a list of observations precisely when each one names the
  bundle, run, artifact, stage and producer of the request and, as a multiset, their selectors, statuses and values are the facts of the
  receipt's commands. So no adapter can add, drop, repeat or change a fact.
\<close>

theorem observation_check_exact:
  assumes "distinct (map cr_name (vr_commands (sv_receipt s)))"
  shows "validate_final_command_observations q s obs producer = Inr () \<longleftrightarrow> list_all (observation_bound q s producer) obs \<and>
     mset (map fact_of obs) = mset (receipt_facts producer (vr_commands (sv_receipt s)))"
  by (rule observations_exact [OF assms])

theorem observation_check_exact_witness:
  "validate_final_command_observations final_request final_result [] ''harness'' \<noteq> Inr () \<and>
   mset (receipt_facts ''harness'' (vr_commands (sv_receipt final_result))) \<noteq> {#}"
proof -
  have cmds: "vr_commands (sv_receipt final_result) = [final_command]" by (simp add: final_result_def final_receipt_def)
  show ?thesis using observation_check_exact [of final_result final_request "[]" "''harness''"]
    by (simp add: cmds) (simp add: receipt_facts_def command_facts_def)
qed

text \<open>
  The verdict comes from the receipt. Whatever adapter produced the observations, when Control's check accepts
  them and the evaluation completes, its logical result is the contract's success condition evaluated on the facts of the receipt:
  it does not depend on the adapter, on observation identifiers or on their order.
\<close>

theorem verdict_from_receipt:
  assumes "distinct (map cr_name (vr_commands (sv_receipt s)))" and "validate_final_command_observations q s obs producer = Inr ()"
    and "evaluate_evidence_contract c obs limits = Inr ev" and "ce_lifecycle ev = COMPLETED"
  shows "\<exists>root. evaluate_expression (ec_task_success c) (fact_valuation c (receipt_facts producer (vr_commands (sv_receipt s)))) = Inr root \<and>
     ce_logical_result ev = Some root"
  using verdict_of_facts [OF assms] by metis

theorem verdict_from_receipt_witness:
  "\<exists>obs ev. adapt final_request final_result ''harness'' = Inr obs \<and>
     evaluate_evidence_contract verdict_contract obs DEFAULT_LIMITS = Inr ev \<and> ce_logical_result ev = Some PASS"
proof -
  have token: "is_token ''harness''" by code_simp
  have cmds: "vr_commands (sv_receipt final_result) = [final_command]" by (simp add: final_result_def final_receipt_def)
  obtain obs where obs: "adapt final_request final_result ''harness'' = Inr obs" "list_all wf_observation obs" "distinct (map ob_observation_id obs)"
    using adapt_total [OF final_request_wf final_result_wf bindings_weaken [OF final_bindings] token final_range] by (auto simp: cmds)
  note sound = adapt_sound [OF obs(1)]
  have "length obs = length (receipt_facts ''harness'' [final_command])" using sound unfolding cmds by (metis length_map)
  then have "length obs = 5" by (simp add: receipt_facts_length COMMAND_FACT_TYPES_def)
  then have "observations_ok obs DEFAULT_LIMITS" using obs(3) by (simp add: observations_ok_def DEFAULT_LIMITS_def)
  then obtain ev where ev: "evaluate_evidence_contract verdict_contract obs DEFAULT_LIMITS = Inr ev" "ce_lifecycle ev = COMPLETED"
    using evaluate_completed [OF verdict_contract_ok(1) obs(2) verdict_contract_ok(2)] by metis
  have "validate_final_command_observations final_request final_result obs ''harness'' = Inr ()"
    using observations_exact [of final_result final_request obs "''harness''"] sound by (simp add: cmds)
  from verdict_from_receipt [OF _ this ev] verdict_value have "ce_logical_result ev = Some PASS" by (simp add: cmds)
  with obs ev show ?thesis by blast
qed

end
