(* ===== verification/Task_Outcomes.thy ===== *)
theory Task_Outcomes
  imports Verification_Service Float_Rounding
begin

text \<open>
  The semantic outcome of a job, \<^verbatim>\<open>contracts/control/outcomes.py\<close>: the decision an evaluation stands for, and the outcome
  record that binds it to one attempt, contract, profile, receipt and execution identity.
\<close>

section \<open>Decisions\<close>

datatype task_outcome_decision = PASSED | FAILED | INDETERMINATE_DECISION

definition decision_value :: "task_outcome_decision \<Rightarrow> string" where
  "decision_value d = (case d of PASSED \<Rightarrow> ''passed'' | FAILED \<Rightarrow> ''failed'' | INDETERMINATE_DECISION \<Rightarrow> ''indeterminate'')"

definition from_evaluation :: "contract_evaluation \<Rightarrow> task_outcome_decision result" where
  "from_evaluation ev =
     (if ce_lifecycle ev = LIFECYCLE_ERROR then Inr INDETERMINATE_DECISION
      else case ce_logical_result ev of
          Some PASS \<Rightarrow> Inr PASSED
        | Some FAIL \<Rightarrow> Inr FAILED
        | Some INDETERMINATE \<Rightarrow> Inr INDETERMINATE_DECISION
        | None \<Rightarrow> Inl (ValueError ''completed task evaluation has no logical result''))"

definition as_decision :: "pyobj \<Rightarrow> task_outcome_decision result" where
  "as_decision raw = bindE (req_string raw ''task outcome decision'') (\<lambda>v.
     case find (\<lambda>d. decision_value d = v) [PASSED, FAILED, INDETERMINATE_DECISION] of
       Some d \<Rightarrow> Inr d | None \<Rightarrow> Inl (ValueError ''task outcome decision is invalid''))"

definition validate_producer_authority :: "pyobj \<Rightarrow> string result" where
  "validate_producer_authority raw = bindE (req_string raw ''task outcome producer authority'') (\<lambda>v.
     if 256 < length v \<or> py_strip v \<noteq> v \<or> (\<exists>c\<in>set v. py_isspace c) \<or> (\<exists>c\<in>set v. py_ord c < 32)
     then Inl (ValueError ''task outcome producer authority must be a bounded token'') else Inr v)"

section \<open>Outcomes\<close>

record task_outcome =
  to_job_id :: string
  to_attempt :: int
  to_attempt_id :: string
  to_attempt_digest :: string
  to_source_bundle_id :: string
  to_output_bundle_id :: string
  to_contract_digest :: string
  to_contract :: evidence_contract
  to_verification_run_id :: string
  to_verification_request_digest :: string
  to_verification_profile_digest :: string
  to_verification_profile :: verification_profile
  to_verification_receipt_digest :: string
  to_verification_receipt_artifact :: artifact_ref
  to_producer_authority :: string
  to_observation_set_digest :: string
  to_evaluation_digest :: string
  to_evaluation :: contract_evaluation
  to_decision :: task_outcome_decision
  to_evidence_finished_at :: string
  to_verification_execution_identity_digest :: "string option"
  to_verification_execution_identity :: "verifier_execution_identity option"
  to_schema_version :: string

definition OUTCOME_V1 :: string where "OUTCOME_V1 = ''sisyphus_harness.task_outcome.v1''"
definition OUTCOME_V2 :: string where "OUTCOME_V2 = ''sisyphus_harness.task_outcome.v2''"

definition validate_snapshots :: "task_outcome \<Rightarrow> unit result" where
  "validate_snapshots t =
     (if contract_digest (to_contract t) \<noteq> to_contract_digest t then Inl (ValueError ''task outcome contract digest is inconsistent'')
      else if profile_digest (to_verification_profile t) \<noteq> to_verification_profile_digest t
      then Inl (ValueError ''task outcome profile digest is inconsistent'')
      else if ec_verification_profile_digest (to_contract t) \<noteq> profile_digest (to_verification_profile t)
      then Inl (ValueError ''task outcome contract and profile are inconsistent'') else Inr ())"

text \<open>The binding to an execution identity that the second schema adds.\<close>

definition validate_identity_binding :: "task_outcome \<Rightarrow> unit result" where
  "validate_identity_binding t =
     (if to_schema_version t = OUTCOME_V1
      then if to_verification_execution_identity_digest t \<noteq> None \<or> to_verification_execution_identity t \<noteq> None
           then Inl (ValueError ''v1 task outcome cannot bind execution identity'') else Inr ()
      else (case to_verification_execution_identity t of
          None \<Rightarrow> Inl (TypeError ''v2 task outcome requires exact verifier execution identity'')
        | Some identity \<Rightarrow>
          bindE (req_digest (opt_str (to_verification_execution_identity_digest t)) ''task outcome verifier execution identity digest'') (\<lambda>recorded.
          if identity_digest identity \<noteq> recorded
          then Inl (ValueError ''task outcome verifier execution identity digest is inconsistent'')
          else if vp_schema_version (to_verification_profile t) \<noteq> PROFILE_V2 \<or> vp_asset_bundle (to_verification_profile t) = None
          then Inl (ValueError ''v2 task outcome requires a verifier-asset-bound profile'') else Inr ())))"

definition mk_task_outcome :: "task_outcome \<Rightarrow> task_outcome result" where
  "mk_task_outcome t =
     bindE (validate_attempt_identity (to_job_id t) (to_attempt t) (to_attempt_id t)) (\<lambda>_.
     bindE (checkE (\<lambda>(v, label). bindE (req_digest (PStr v) label) (\<lambda>_. Inr ()))
       [(to_attempt_digest t, ''task outcome attempt digest''), (to_contract_digest t, ''task outcome contract digest''),
        (to_verification_request_digest t, ''task outcome verification request digest''),
        (to_verification_profile_digest t, ''task outcome verification profile digest''),
        (to_verification_receipt_digest t, ''task outcome verification receipt digest''),
        (to_observation_set_digest t, ''task outcome observation-set digest''),
        (to_evaluation_digest t, ''task outcome evaluation digest'')]) (\<lambda>_.
     bindE (checkE (\<lambda>(v, label). bindE (req_string (PStr v) label) (\<lambda>_. Inr ()))
       [(to_source_bundle_id t, ''task outcome source bundle ID''), (to_output_bundle_id t, ''task outcome output bundle ID''),
        (to_verification_run_id t, ''task outcome verification run ID''),
        (to_evidence_finished_at t, ''task outcome evidence finish time'')]) (\<lambda>_.
     bindE (validate_producer_authority (PStr (to_producer_authority t))) (\<lambda>_.
     bindE (validate_snapshots t) (\<lambda>_.
     if af_artifact_id (to_verification_receipt_artifact t) \<noteq> to_verification_run_id t @ ''/receipt.json''
     then Inl (ValueError ''task outcome receipt artifact ID is inconsistent'')
     else if ce_contract_digest (to_evaluation t) \<noteq> to_contract_digest t \<or> ce_observation_set_digest (to_evaluation t) \<noteq> to_observation_set_digest t
       \<or> evaluation_digest (to_evaluation t) \<noteq> to_evaluation_digest t
     then Inl (ValueError ''task outcome evaluation binding is inconsistent'')
     else bindE (from_evaluation (to_evaluation t)) (\<lambda>decision.
     if to_decision t \<noteq> decision then Inl (ValueError ''task outcome decision is inconsistent with evaluation'')
     else if to_schema_version t \<notin> {OUTCOME_V1, OUTCOME_V2} then Inl (ValueError ''unsupported task-outcome schema'')
     else bindE (validate_identity_binding t) (\<lambda>_. Inr t)))))))"

definition outcome_items :: "task_outcome \<Rightarrow> pydict" where
  "outcome_items t =
     [(''job_id'', PStr (to_job_id t)), (''attempt'', PInt (to_attempt t)), (''attempt_id'', PStr (to_attempt_id t)),
      (''attempt_digest'', PStr (to_attempt_digest t)), (''source_bundle_id'', PStr (to_source_bundle_id t)),
      (''output_bundle_id'', PStr (to_output_bundle_id t)), (''contract_digest'', PStr (to_contract_digest t)),
      (''contract'', contract_to_dict (to_contract t)), (''verification_run_id'', PStr (to_verification_run_id t)),
      (''verification_request_digest'', PStr (to_verification_request_digest t)),
      (''verification_profile_digest'', PStr (to_verification_profile_digest t)),
      (''verification_profile'', profile_to_dict (to_verification_profile t)),
      (''verification_receipt_digest'', PStr (to_verification_receipt_digest t)),
      (''verification_receipt_artifact'', artifact_to_dict (to_verification_receipt_artifact t)),
      (''producer_authority'', PStr (to_producer_authority t)), (''observation_set_digest'', PStr (to_observation_set_digest t)),
      (''evaluation_digest'', PStr (to_evaluation_digest t)), (''evaluation'', evaluation_to_dict (to_evaluation t)),
      (''decision'', PStr (decision_value (to_decision t))), (''evidence_finished_at'', PStr (to_evidence_finished_at t))] @
     (if to_schema_version t = OUTCOME_V1 then []
      else [(''verification_execution_identity_digest'', opt_str (to_verification_execution_identity_digest t)),
            (''verification_execution_identity'', opt_dict identity_to_dict (to_verification_execution_identity t))]) @
     [(''schema_version'', PStr (to_schema_version t))]"

definition outcome_digest :: "task_outcome \<Rightarrow> string" where
  "outcome_digest t = wire_digest (PDict (py_dict (outcome_items t)))"

definition outcome_to_dict :: "task_outcome \<Rightarrow> pyobj" where
  "outcome_to_dict t = PDict (py_dict (outcome_items t @ [(''outcome_digest'', PStr (outcome_digest t))]))"

definition outcome_fields :: "string list" where
  "outcome_fields = [''job_id'', ''attempt'', ''attempt_id'', ''attempt_digest'', ''source_bundle_id'', ''output_bundle_id'', ''contract_digest'',
     ''contract'', ''verification_run_id'', ''verification_request_digest'', ''verification_profile_digest'', ''verification_profile'',
     ''verification_receipt_digest'', ''verification_receipt_artifact'', ''producer_authority'', ''observation_set_digest'',
     ''evaluation_digest'', ''evaluation'', ''decision'', ''evidence_finished_at'', ''schema_version'', ''outcome_digest'']"

definition outcome_from_dict :: "pyobj \<Rightarrow> task_outcome result" where
  "outcome_from_dict raw = (case raw of PDict d0 \<Rightarrow>
       (let schema = dict_get d0 ''schema_version'' in
        if schema \<noteq> PStr OUTCOME_V1 \<and> schema \<noteq> PStr OUTCOME_V2 then Inl (ValueError ''unsupported task-outcome schema'')
        else
          let required = outcome_fields @ (if schema = PStr OUTCOME_V2
            then [''verification_execution_identity_digest'', ''verification_execution_identity''] else []) in
          bindE (strict_object raw required [] ''task outcome'' ValueError) (\<lambda>d.
          bindE (field d ''job_id'' req_string ''task outcome job ID'') (\<lambda>job_id.
          bindE (field d ''attempt'' positive_integer ''task outcome attempt'') (\<lambda>attempt.
          bindE (field d ''attempt_id'' req_string ''task outcome attempt ID'') (\<lambda>attempt_id.
          bindE (field d ''attempt_digest'' req_digest ''task outcome attempt digest'') (\<lambda>attempt_digest.
          bindE (field d ''source_bundle_id'' req_string ''task outcome source bundle ID'') (\<lambda>source.
          bindE (field d ''output_bundle_id'' req_string ''task outcome output bundle ID'') (\<lambda>output.
          bindE (field d ''contract_digest'' req_digest ''task outcome contract digest'') (\<lambda>contract_digest.
          bindE (field d ''contract'' (\<lambda>r _. contract_from_dict r) []) (\<lambda>contract.
          bindE (field d ''verification_run_id'' req_string ''task outcome verification run ID'') (\<lambda>run_id.
          bindE (field d ''verification_request_digest'' req_digest ''task outcome verification request digest'') (\<lambda>request_digest.
          bindE (field d ''verification_profile_digest'' req_digest ''task outcome verification profile digest'') (\<lambda>profile_digest.
          bindE (field d ''verification_profile'' (\<lambda>r _. profile_from_dict r) []) (\<lambda>profile.
          bindE (field d ''verification_receipt_digest'' req_digest ''task outcome verification receipt digest'') (\<lambda>receipt_digest.
          bindE (field d ''verification_receipt_artifact'' (\<lambda>r _. artifact_from_dict r) []) (\<lambda>artifact.
          bindE (field d ''producer_authority'' (\<lambda>r _. validate_producer_authority r) []) (\<lambda>producer.
          bindE (field d ''observation_set_digest'' req_digest ''task outcome observation-set digest'') (\<lambda>observations.
          bindE (field d ''evaluation_digest'' req_digest ''task outcome evaluation digest'') (\<lambda>evaluation_digest.
          bindE (field d ''evaluation'' (\<lambda>r _. evaluation_from_dict r) []) (\<lambda>evaluation.
          bindE (field d ''decision'' (\<lambda>r _. as_decision r) []) (\<lambda>decision.
          bindE (field d ''evidence_finished_at'' req_string ''task outcome evidence finish time'') (\<lambda>finished_at.
          bindE (opt_field d ''verification_execution_identity_digest'' (\<lambda>r. req_digest r ''task outcome verifier execution identity digest'')) (\<lambda>identity_digest.
          bindE (opt_field d ''verification_execution_identity'' identity_from_dict) (\<lambda>identity.
          bindE (field d ''schema_version'' req_string ''task outcome schema'') (\<lambda>version.
          bindE (mk_task_outcome \<lparr>to_job_id = job_id, to_attempt = attempt, to_attempt_id = attempt_id, to_attempt_digest = attempt_digest,
            to_source_bundle_id = source, to_output_bundle_id = output, to_contract_digest = contract_digest, to_contract = contract,
            to_verification_run_id = run_id, to_verification_request_digest = request_digest, to_verification_profile_digest = profile_digest,
            to_verification_profile = profile, to_verification_receipt_digest = receipt_digest, to_verification_receipt_artifact = artifact,
            to_producer_authority = producer, to_observation_set_digest = observations, to_evaluation_digest = evaluation_digest,
            to_evaluation = evaluation, to_decision = decision, to_evidence_finished_at = finished_at,
            to_verification_execution_identity_digest = identity_digest, to_verification_execution_identity = identity,
            to_schema_version = version\<rparr>) (\<lambda>res.
          bindE (field d ''outcome_digest'' req_digest ''task outcome digest'') (\<lambda>recorded.
          if recorded \<noteq> outcome_digest res then Inl (ValueError ''task outcome digest does not match content'') else Inr res)))))))))))))))))))))))))))
     | _ \<Rightarrow> Inl (ValueError ''task outcome must be an object''))"

section \<open>Well-formed outcomes\<close>

definition producer_ok :: "string \<Rightarrow> bool" where
  "producer_ok v \<longleftrightarrow> text_ok v \<and> length v \<le> 256 \<and> py_strip v = v \<and> (\<forall>c\<in>set v. \<not> py_isspace c \<and> \<not> py_ord c < 32)"

definition snapshots_ok :: "task_outcome \<Rightarrow> bool" where
  "snapshots_ok t \<longleftrightarrow> contract_digest (to_contract t) = to_contract_digest t \<and>
     profile_digest (to_verification_profile t) = to_verification_profile_digest t \<and>
     ec_verification_profile_digest (to_contract t) = profile_digest (to_verification_profile t)"

definition identity_binding_ok :: "task_outcome \<Rightarrow> bool" where
  "identity_binding_ok t \<longleftrightarrow>
     (to_schema_version t = OUTCOME_V1 \<and> to_verification_execution_identity_digest t = None \<and> to_verification_execution_identity t = None \<or>
      to_schema_version t = OUTCOME_V2 \<and> vp_schema_version (to_verification_profile t) = PROFILE_V2 \<and>
      vp_asset_bundle (to_verification_profile t) \<noteq> None \<and>
      (\<exists>x. to_verification_execution_identity t = Some x \<and> to_verification_execution_identity_digest t = Some (identity_digest x)))"

definition nested_ok :: "task_outcome \<Rightarrow> bool" where
  "nested_ok t \<longleftrightarrow> wf_contract (to_contract t) \<and> wf_profile (to_verification_profile t) \<and> wf_artifact (to_verification_receipt_artifact t) \<and>
     wf_evaluation (to_evaluation t) \<and> pred_option wf_identity (to_verification_execution_identity t)"

definition wf_outcome :: "task_outcome \<Rightarrow> bool" where
  "wf_outcome t \<longleftrightarrow> nested_ok t \<and> text_ok (to_job_id t) \<and> 0 < to_attempt t \<and> to_attempt_id t = attempt_name (to_job_id t) (to_attempt t) \<and>
     is_sha256 (to_attempt_digest t) \<and> is_sha256 (to_contract_digest t) \<and> is_sha256 (to_verification_request_digest t) \<and>
     is_sha256 (to_verification_profile_digest t) \<and> is_sha256 (to_verification_receipt_digest t) \<and>
     is_sha256 (to_observation_set_digest t) \<and> is_sha256 (to_evaluation_digest t) \<and>
     text_ok (to_source_bundle_id t) \<and> text_ok (to_output_bundle_id t) \<and> text_ok (to_verification_run_id t) \<and>
     text_ok (to_evidence_finished_at t) \<and> producer_ok (to_producer_authority t) \<and> snapshots_ok t \<and>
     af_artifact_id (to_verification_receipt_artifact t) = to_verification_run_id t @ ''/receipt.json'' \<and>
     ce_contract_digest (to_evaluation t) = to_contract_digest t \<and> ce_observation_set_digest (to_evaluation t) = to_observation_set_digest t \<and>
     evaluation_digest (to_evaluation t) = to_evaluation_digest t \<and> from_evaluation (to_evaluation t) = Inr (to_decision t) \<and>
     identity_binding_ok t"

lemma outcome_schemas [simp]: "OUTCOME_V1 \<noteq> OUTCOME_V2" "OUTCOME_V2 \<noteq> OUTCOME_V1" "text_ok OUTCOME_V1" "text_ok OUTCOME_V2"
  by (simp_all add: OUTCOME_V1_def OUTCOME_V2_def text_ok_def)

lemma producer_eq [simp]: "validate_producer_authority raw = Inr v \<longleftrightarrow> raw = PStr v \<and> producer_ok v"
  by (auto simp: validate_producer_authority_def producer_ok_def bindE_eq_Inr)

lemma as_decision_eq [simp]: "as_decision raw = Inr d \<longleftrightarrow> raw = PStr (decision_value d)"
  by (cases d) (auto simp: as_decision_def decision_value_def bindE_eq_Inr text_ok_def split: if_splits)

lemma validate_snapshots_eq [simp]: "validate_snapshots t = Inr u \<longleftrightarrow> snapshots_ok t"
  by (simp add: validate_snapshots_def snapshots_ok_def)

lemma validate_identity_binding_eq:
  "to_schema_version t \<in> {OUTCOME_V1, OUTCOME_V2} \<Longrightarrow> validate_identity_binding t = Inr u \<longleftrightarrow> identity_binding_ok t"
proof -
  have dig: "is_sha256 (identity_digest x)" for x by (simp add: identity_digest_def)
  assume "to_schema_version t \<in> {OUTCOME_V1, OUTCOME_V2}"
  then show ?thesis using dig
    by (cases "to_verification_execution_identity t") (auto simp: validate_identity_binding_def identity_binding_ok_def bindE_eq_Inr)
qed

lemma mk_task_outcome_eq:
  assumes "nested_ok t"
  shows "mk_task_outcome t = Inr t' \<longleftrightarrow> t' = t \<and> wf_outcome t"
proof (cases "to_schema_version t \<in> {OUTCOME_V1, OUTCOME_V2}")
  case True
  note bind = validate_identity_binding_eq [OF True]
  have name: "text_ok (to_job_id t) \<Longrightarrow> to_attempt_id t = attempt_name (to_job_id t) (to_attempt t) \<Longrightarrow> text_ok (to_attempt_id t)"
    using text_ok_attempt_name by simp
  show ?thesis using assms True
    unfolding mk_task_outcome_def wf_outcome_def
    by (simp add: bindE_eq_Inr if_Inl_eq_Inr bind validate_attempt_identity_eq split del: if_split del: insert_iff)
      (blast intro: text_ok_sha256 name)
next
  case False
  then have "\<not> identity_binding_ok t" by (auto simp: identity_binding_ok_def)
  with False show ?thesis unfolding mk_task_outcome_def wf_outcome_def by (simp add: bindE_eq_Inr del: insert_iff)
qed

section \<open>The decoder\<close>

lemma outcome_field_simps [simp]:
  "producer_ok v \<Longrightarrow> validate_producer_authority (PStr v) = Inr v" "as_decision (PStr (decision_value d)) = Inr d"
  by simp_all

lemma outcome_round_trip: "wf_outcome t \<Longrightarrow> outcome_from_dict (outcome_to_dict t) = Inr t"
proof -
  assume t: "wf_outcome t"
  obtain d where d: "outcome_to_dict t = PDict d" by (simp add: outcome_to_dict_def)
  have dist: "distinct (map fst (outcome_items t @ [(''outcome_digest'', PStr (outcome_digest t))]))" by (simp add: outcome_items_def)
  have eq: "d = py_dict (outcome_items t @ [(''outcome_digest'', PStr (outcome_digest t))])" using d by (simp add: outcome_to_dict_def)
  note read = display_fields [OF dist eq, unfolded outcome_items_def] and opt = opt_field_display [OF dist eq, unfolded outcome_items_def]
  have nested: "contract_from_dict (contract_to_dict (to_contract t)) = Inr (to_contract t)"
    "profile_from_dict (profile_to_dict (to_verification_profile t)) = Inr (to_verification_profile t)"
    "artifact_from_dict (artifact_to_dict (to_verification_receipt_artifact t)) = Inr (to_verification_receipt_artifact t)"
    "evaluation_from_dict (evaluation_to_dict (to_evaluation t)) = Inr (to_evaluation t)"
    using t ec.round_trip vp.round_trip af.round_trip ce.round_trip unfolding wf_outcome_def nested_ok_def by blast+
  have fields: "text_ok (to_job_id t)" "0 < to_attempt t" "text_ok (to_attempt_id t)" "is_sha256 (to_attempt_digest t)"
    "is_sha256 (to_contract_digest t)" "is_sha256 (to_verification_request_digest t)" "is_sha256 (to_verification_profile_digest t)"
    "is_sha256 (to_verification_receipt_digest t)" "is_sha256 (to_observation_set_digest t)" "is_sha256 (to_evaluation_digest t)"
    "text_ok (to_source_bundle_id t)" "text_ok (to_output_bundle_id t)" "text_ok (to_verification_run_id t)"
    "text_ok (to_evidence_finished_at t)" "producer_ok (to_producer_authority t)" "is_sha256 (outcome_digest t)"
    using t text_ok_attempt_name [of "to_job_id t" "to_attempt t"] unfolding wf_outcome_def outcome_digest_def by auto
  have ident: "identity_from_dict (identity_to_dict x) = Inr x \<and> identity_to_dict x \<noteq> PNone"
    if "to_verification_execution_identity t = Some x" for x
    using that t xi.round_trip by (simp add: wf_outcome_def nested_ok_def identity_to_dict_def)
  have bind: "identity_binding_ok t" using t by (simp add: wf_outcome_def)
  have opt1: "opt_field d ''verification_execution_identity'' identity_from_dict = Inr (to_verification_execution_identity t)"
    by (rule opt) (use bind ident in \<open>auto simp: identity_binding_ok_def\<close>)
  have opt_str_dict: "opt_str = opt_dict PStr" by (simp add: fun_eq_iff opt_str_def opt_dict_def)
  have dig: "is_sha256 (identity_digest x)" for x by (simp add: identity_digest_def)
  have opt2: "opt_field d ''verification_execution_identity_digest'' (\<lambda>r. req_digest r ''task outcome verifier execution identity digest'')
      = Inr (to_verification_execution_identity_digest t)"
    by (rule opt [where to_dict = PStr]) (use bind dig in \<open>auto simp: identity_binding_ok_def opt_str_dict\<close>)
  have mk: "mk_task_outcome \<lparr>to_job_id = to_job_id t, to_attempt = to_attempt t, to_attempt_id = to_attempt_id t,
      to_attempt_digest = to_attempt_digest t, to_source_bundle_id = to_source_bundle_id t, to_output_bundle_id = to_output_bundle_id t,
      to_contract_digest = to_contract_digest t, to_contract = to_contract t, to_verification_run_id = to_verification_run_id t,
      to_verification_request_digest = to_verification_request_digest t, to_verification_profile_digest = to_verification_profile_digest t, to_verification_profile = to_verification_profile t,
      to_verification_receipt_digest = to_verification_receipt_digest t, to_verification_receipt_artifact = to_verification_receipt_artifact t, to_producer_authority = to_producer_authority t,
      to_observation_set_digest = to_observation_set_digest t, to_evaluation_digest = to_evaluation_digest t, to_evaluation = to_evaluation t,
      to_decision = to_decision t, to_evidence_finished_at = to_evidence_finished_at t, to_verification_execution_identity_digest = to_verification_execution_identity_digest t,
      to_verification_execution_identity = to_verification_execution_identity t, to_schema_version = to_schema_version t\<rparr> = Inr t" (is "mk_task_outcome ?x = _")
  proof -
    have "?x = t" by simp
    then show ?thesis using t mk_task_outcome_eq [of t t] by (simp only:) (simp add: wf_outcome_def)
  qed
  from bind consider "to_schema_version t = OUTCOME_V1" | "to_schema_version t = OUTCOME_V2" by (auto simp: identity_binding_ok_def)
  then show ?thesis
    using mk fields nested opt1 opt2 unfolding d by cases (simp_all add: outcome_from_dict_def outcome_fields_def read Let_def)
qed

lemma outcome_recorded_digest:
  "outcome_from_dict (PDict d) = Inr t \<Longrightarrow> map_of d ''outcome_digest'' = Some (PStr (outcome_digest t))"
  by (auto simp: outcome_from_dict_def Let_def result_simps)

interpretation to: digest_class wf_outcome outcome_to_dict outcome_from_dict outcome_items "''outcome_digest''"
  by unfold_locales (erule outcome_round_trip, simp add: outcome_to_dict_def outcome_digest_def,
      simp add: outcome_recorded_digest outcome_digest_def [symmetric])



lemma mk_task_outcome_id: "mk_task_outcome t = Inr t' \<Longrightarrow> t' = t"
  unfolding mk_task_outcome_def by (simp only: bindE_eq_Inr if_Inl_eq_Inr) blast

text \<open>The text of an outcome reads back when the time limits of its profile do.\<close>

definition storable_outcome :: "task_outcome \<Rightarrow> bool" where
  "storable_outcome t \<longleftrightarrow> wf_outcome t \<and> list_all (\<lambda>c. float_ok (cs_timeout_seconds c)) (vp_commands (to_verification_profile t))"

lemma wire_ok_opt_dict [simp]: "(\<And>x. wire_ok (to_dict x)) \<Longrightarrow> wire_ok (opt_dict to_dict v)"
  by (cases v) (simp_all add: opt_dict_def)

lemma asset_bundle_wire [simp]: "wire_ok (asset_bundle_to_dict b)"
  unfolding asset_bundle_to_dict_def by (rule wire_ok_py_dict) (simp add: asset_bundle_items_def)

lemma identity_wire [simp]: "wire_ok (identity_to_dict x)"
  unfolding identity_to_dict_def by (rule wire_ok_py_dict) (simp add: identity_items_def)

lemma command_spec_wire: "float_ok (cs_timeout_seconds c) \<Longrightarrow> wire_ok (command_spec_to_dict c)"
  unfolding command_spec_to_dict_def by (rule wire_ok_py_dict) simp

lemma profile_wire: "list_all (\<lambda>c. float_ok (cs_timeout_seconds c)) (vp_commands p) \<Longrightarrow> wire_ok (profile_to_dict p)"
  unfolding profile_to_dict_def by (rule wire_ok_py_dict) (auto simp: profile_items_def list_all_iff command_spec_wire)

lemma outcome_wire: "storable_outcome t \<Longrightarrow> wire_ok (outcome_to_dict t)"
  unfolding outcome_to_dict_def storable_outcome_def
  by (rule wire_ok_py_dict) (simp add: outcome_items_def profile_wire contract_to_dict_wire evaluation_to_dict_wire af.encode_wire)

section \<open>Samples\<close>

definition sample_profile :: verification_profile where
  "sample_profile = \<lparr>vp_profile_id = ''p1'', vp_commands = [\<lparr>cs_name = ''unit'', cs_argv = [''pytest''], cs_timeout_seconds = Finite 60,
     cs_criteria = [''tests pass'']\<rparr>], vp_asset_bundle = None, vp_schema_version = PROFILE_V1\<rparr>"

definition bound_contract :: evidence_contract where
  "bound_contract = sample_contract\<lparr>ec_verification_profile_digest := profile_digest sample_profile\<rparr>"

definition sample_evaluation :: contract_evaluation where
  "sample_evaluation = \<lparr>ce_contract_digest = contract_digest bound_contract, ce_observation_set_digest = ''sha256:'' @ replicate 64 (CHR ''b''),
     ce_evaluator_version = ''v1'', ce_evaluator_digest = ''sha256:'' @ replicate 64 (CHR ''c''), ce_lifecycle = COMPLETED,
     ce_logical_result = Some PASS, ce_predicates = [], ce_error_code = None, ce_scope = ''task'',
     ce_schema_version = ''sisyphus_harness.contract_evaluation.v1''\<rparr>"

definition sample_artifact :: artifact_ref where
  "sample_artifact = \<lparr>af_artifact_id = ''run-1/receipt.json'', af_sha256 = ''sha256:'' @ replicate 64 (CHR ''f''),
     af_size_bytes = 9, af_media_type = ''application/json'', af_schema_version = ''sisyphus_harness.artifact_ref.v1''\<rparr>"

definition sample_outcome :: task_outcome where
  "sample_outcome = \<lparr>to_job_id = ''job-1'', to_attempt = 1, to_attempt_id = ''job-1/attempt-0001'', to_attempt_digest = attempt_digest sample_attempt,
     to_source_bundle_id = wb_bundle_id sample_bundle, to_output_bundle_id = wb_bundle_id sample_bundle,
     to_contract_digest = contract_digest bound_contract, to_contract = bound_contract, to_verification_run_id = ''run-1'',
     to_verification_request_digest = ''sha256:'' @ replicate 64 (CHR ''d''), to_verification_profile_digest = profile_digest sample_profile,
     to_verification_profile = sample_profile, to_verification_receipt_digest = ''sha256:'' @ replicate 64 (CHR ''e''),
     to_verification_receipt_artifact = sample_artifact,
     to_producer_authority = ''harness'', to_observation_set_digest = ''sha256:'' @ replicate 64 (CHR ''b''),
     to_evaluation_digest = evaluation_digest sample_evaluation, to_evaluation = sample_evaluation, to_decision = PASSED,
     to_evidence_finished_at = ''t1'', to_verification_execution_identity_digest = None, to_verification_execution_identity = None,
     to_schema_version = OUTCOME_V1\<rparr>"

lemma digest_forms [simp]:
  "is_sha256 (profile_digest p)" "is_sha256 (contract_digest c)" "is_sha256 (evaluation_digest e)" "is_sha256 (attempt_digest a)"
  by (simp_all add: profile_digest_def contract_digest_def evaluation_digest_def attempt_digest_def)

lemma sample_profile_wf: "wf_profile sample_profile"
  by code_simp (simp add: PROFILE_V1_def)

lemma bound_contract_wf: "wf_contract bound_contract"
  using sample_contract_wf by (simp add: bound_contract_def wf_contract_def)

lemma sample_evaluation_wf: "wf_evaluation sample_evaluation"
proof -
  have "is_sha256 (''sha256:'' @ replicate 64 (CHR ''b''))" "is_sha256 (''sha256:'' @ replicate 64 (CHR ''c''))" "is_token ''v1''"
    "lifecycle_ok COMPLETED (Some PASS) None" by code_simp+
  then show ?thesis by (simp add: sample_evaluation_def wf_evaluation_def)
qed

text \<open>The time limit of the samples reads back from its text.\<close>

lemma float_ok_60: "float_ok (Finite 60)"
proof -
  have r: "round64 60 = Finite 60" using fl_add_of_int [of 60 0] by simp
  have d: "dec_value 1 60 = 60" "lead10 60 = 1" "round_half_even (60 / pow10 1) = 6" by code_simp+
  have "[1..<17] = 1 # [Suc 1..<17]" by (rule upt_conv_Cons) simp
  then have "repr_len 60 = 1" using d(1) by (simp add: repr_len_def r)
  then have text60: "repr_float (Finite 60) = ''60.0''"
    by (simp add: repr_float_def repr_pos_def Let_def d [simplified]) code_simp
  have "of_nat (read_nat ''600'') * pow10 (0 - int (length ''0'')) = (60::rat)" by code_simp
  then have "float_of_lexeme False ''60'' ''0'' 0 = Finite 60" by (simp add: float_of_lexeme_def Let_def r)
  moreover have "int_part ''60.0'' = ''60''" "scan_frac ''.0'' = (''0'', [])" "scan_exp [] = (None, [])" by code_simp+
  ultimately show ?thesis unfolding float_ok_def text60
    by (simp add: fl_isfinite_def scan_number_def scan_unsigned_def scan_tail_def)
qed

lemma sample_outcome_storable: "storable_outcome sample_outcome"
proof -
  have art: "wf_artifact sample_artifact" "af_artifact_id sample_artifact = ''run-1/receipt.json''" by code_simp+
  have "is_sha256 (''sha256:'' @ replicate 64 (CHR ''b''))" "is_sha256 (''sha256:'' @ replicate 64 (CHR ''d''))"
    "is_sha256 (''sha256:'' @ replicate 64 (CHR ''e''))" "producer_ok ''harness''" "attempt_name ''job-1'' 1 = ''job-1/attempt-0001''"
    "text_ok (wb_bundle_id sample_bundle)" by code_simp+
  with art float_ok_60 show ?thesis
    by (simp add: storable_outcome_def wf_outcome_def nested_ok_def snapshots_ok_def identity_binding_ok_def from_evaluation_def text_ok_def
        sample_profile_wf bound_contract_wf sample_evaluation_wf sample_outcome_def)
      (simp add: sample_profile_def bound_contract_def sample_evaluation_def)
qed

section \<open>Properties\<close>

text \<open>
  A task outcome survives storage: written as canonical JSON text, read strictly and decoded, every outcome its constructor
  accepts is the same outcome, with its contract, profile, evaluation and execution identity, under both schemas, when the time limits
  of its profile read back from their text.
\<close>

theorem outcome_text_round_trip:
  assumes "storable_outcome t"
  shows "bindE (bindE (canonical_json_bytes (outcome_to_dict t)) (\<lambda>text. loads_strict_json text label)) outcome_from_dict = Inr t"
proof -
  have "wf_outcome t" using assms by (simp add: storable_outcome_def)
  then show ?thesis by (rule to.text_round_trip [OF _ outcome_wire [OF assms]])
qed

theorem outcome_text_round_trip_witness:
  "bindE (bindE (canonical_json_bytes (outcome_to_dict sample_outcome)) (\<lambda>text. loads_strict_json text ''stored'')) outcome_from_dict
     = Inr sample_outcome"
  by (rule outcome_text_round_trip) (rule sample_outcome_storable)

end
