(* ===== verification/Outcome_Authority.thy ===== *)
theory Outcome_Authority
  imports Task_Outcomes Queue_Properties
begin

text \<open>
  The store of attempt lineage and task outcomes of \<^verbatim>\<open>infra/control_outcomes.py\<close>: the two readers, the fenced
  publication, and the protocol of the whole control database, whose callers are the queue and this store.
\<close>

section \<open>Readers\<close>

definition attempt_from_row :: "attempt_row \<Rightarrow> attempt_finished result" where
  "attempt_from_row row =
     bindE (loads_strict_json (t_payload_json row) ''stored attempt-finished result'') (\<lambda>raw.
     bindE (attempt_from_dict raw) (\<lambda>attempt.
     if t_job_id row \<noteq> fa_job_id attempt \<or> t_attempt row \<noteq> fa_attempt attempt \<or> t_attempt_id row \<noteq> fa_attempt_id attempt \<or>
        t_attempt_digest row \<noteq> attempt_digest attempt
     then Inl (TaskOutcomeAuthorityError ''attempt-finished columns do not match the stored payload'')
     else Inr attempt))"

definition outcome_from_row :: "outcome_row \<Rightarrow> task_outcome result" where
  "outcome_from_row row =
     bindE (loads_strict_json (u_payload_json row) ''stored task outcome'') (\<lambda>raw.
     bindE (outcome_from_dict raw) (\<lambda>outcome.
     if u_job_id row \<noteq> to_job_id outcome \<or> u_attempt row \<noteq> to_attempt outcome \<or> u_attempt_digest row \<noteq> to_attempt_digest outcome \<or>
        u_outcome_digest row \<noteq> outcome_digest outcome
     then Inl (TaskOutcomeAuthorityError ''task-outcome columns do not match the stored payload'')
     else Inr outcome))"

text \<open>\<open>ORDER BY attempt DESC LIMIT 1\<close> over the attempts of one job.\<close>

definition latest_attempt :: "string \<Rightarrow> db \<Rightarrow> attempt_row option" where
  "latest_attempt job_id d =
     (case sort_key (\<lambda>t. - t_attempt t) (filter (\<lambda>t. t_job_id t = job_id) (db_attempts d)) of [] \<Rightarrow> None | t # _ \<Rightarrow> Some t)"

definition get_attempt_finished :: "string \<Rightarrow> db \<Rightarrow> attempt_finished option result" where
  "get_attempt_finished job_id d = (case latest_attempt job_id d of None \<Rightarrow> Inr None
     | Some row \<Rightarrow> bindE (attempt_from_row row) (\<lambda>a. Inr (Some a)))"

definition select_outcome :: "string \<Rightarrow> db \<Rightarrow> outcome_row option" where
  "select_outcome job_id d = find (\<lambda>u. u_job_id u = job_id) (db_outcomes d)"

definition get_task_outcome :: "string \<Rightarrow> db \<Rightarrow> task_outcome option result" where
  "get_task_outcome job_id d = (case select_outcome job_id d of None \<Rightarrow> Inr None
     | Some row \<Rightarrow> bindE (outcome_from_row row) (\<lambda>t. Inr (Some t)))"

section \<open>Publication\<close>

definition validate_outcome_binding :: "attempt_finished \<Rightarrow> task_outcome \<Rightarrow> unit result" where
  "validate_outcome_binding attempt outcome =
     (if to_job_id outcome \<noteq> fa_job_id attempt \<or> to_attempt outcome \<noteq> fa_attempt attempt \<or> to_attempt_id outcome \<noteq> fa_attempt_id attempt \<or>
         to_attempt_digest outcome \<noteq> attempt_digest attempt \<or> to_source_bundle_id outcome \<noteq> wb_bundle_id (fa_source_bundle attempt) \<or>
         to_output_bundle_id outcome \<noteq> wb_bundle_id (fa_output_bundle attempt)
      then Inl (StaleAttemptError ''task outcome is not bound to the expected attempt'') else Inr ())"

text \<open>The join of a job with the attempt recorded under its current attempt number.\<close>

definition select_lineage :: "string \<Rightarrow> db \<Rightarrow> (job_row \<times> attempt_row) option" where
  "select_lineage job_id d = (case select_job job_id d of None \<Rightarrow> None
     | Some r \<Rightarrow> map_option (Pair r) (find (\<lambda>t. t_job_id t = j_job_id r \<and> t_attempt t = j_attempts r) (db_attempts d)))"

definition check_lineage :: "attempt_finished \<Rightarrow> job_row \<times> attempt_row \<Rightarrow> unit result" where
  "check_lineage expected_attempt row = (case row of (r, t) \<Rightarrow>
     if j_kind r \<noteq> ''coding-agent'' then Inl (StaleAttemptError ''finished attempt is not bound to a coding-agent job'')
     else if j_status r \<noteq> Completed then Inl (StaleAttemptError ''job execution is not completed'')
     else if j_attempts r \<noteq> fa_attempt expected_attempt then Inl (StaleAttemptError ''attempt number no longer owns job authority'')
     else
       bindE (loads_strict_json (t_payload_json t) ''stored attempt-finished result'') (\<lambda>raw.
       bindE (attempt_from_dict raw) (\<lambda>stored_attempt.
       if stored_attempt \<noteq> expected_attempt \<or> t_attempt_digest t \<noteq> attempt_digest expected_attempt \<or>
          j_result_json r \<noteq> Some (t_payload_json t)
       then Inl (StaleAttemptError ''attempt payload does not match authoritative queue state'') else Inr ())))"

definition publish_body :: "utc_time \<Rightarrow> attempt_finished \<Rightarrow> task_outcome \<Rightarrow> string \<Rightarrow> db \<Rightarrow> (task_outcome \<times> db) result" where
  "publish_body utc expected_attempt outcome payload_json d =
     bindE (case select_lineage (fa_job_id expected_attempt) d of
         None \<Rightarrow> Inl (StaleAttemptError ''job has no authoritative finished attempt at its current fence'')
       | Some row \<Rightarrow> check_lineage expected_attempt row) (\<lambda>_.
     case select_outcome (fa_job_id expected_attempt) d of
       Some existing \<Rightarrow>
         bindE (outcome_from_row existing) (\<lambda>published.
         if published \<noteq> outcome then Inl (TaskOutcomeConflictError ''job already has a different immutable task outcome'')
         else Inr (published, d))
     | None \<Rightarrow>
         bindE (bind_integer (to_attempt outcome)) (\<lambda>_.
         bindE (insert_outcome \<lparr>u_job_id = to_job_id outcome, u_attempt = to_attempt outcome, u_attempt_digest = to_attempt_digest outcome,
           u_outcome_digest = outcome_digest outcome, u_payload_json = payload_json, u_published_at = utc_now utc\<rparr> d) (\<lambda>d.
         Inr (outcome, d))))"

definition publish_task_outcome :: "utc_time \<Rightarrow> attempt_finished \<Rightarrow> task_outcome \<Rightarrow> db \<Rightarrow> task_outcome result \<times> db" where
  "publish_task_outcome utc expected_attempt outcome =
     with_input (bindE (validate_outcome_binding expected_attempt outcome) (\<lambda>_. canonical_json_bytes (outcome_to_dict outcome)))
       (\<lambda>payload_json. transaction (publish_body utc expected_attempt outcome payload_json))"

section \<open>The control database\<close>

text \<open>
  Its callers are the queue, the store and the openings of the database. An outcome that is published is a value
  of its class, with time limits that read back from their text.
\<close>

inductive control_step :: "db \<Rightarrow> db \<Rightarrow> bool" where
  control_queue: "queue_step d d' \<Longrightarrow> control_step d d'"
| control_open: "initialize d = (r, d') \<Longrightarrow> control_step d d'"
| control_publish: "wf_attempt a \<Longrightarrow> storable_outcome t \<Longrightarrow> publish_task_outcome utc a t d = (r, d') \<Longrightarrow> control_step d d'"

inductive_cases control_stepE: "control_step d d'"

definition outcome_row_of :: "task_outcome \<Rightarrow> string \<Rightarrow> outcome_row" where
  "outcome_row_of t now = \<lparr>u_job_id = to_job_id t, u_attempt = to_attempt t, u_attempt_digest = to_attempt_digest t,
     u_outcome_digest = outcome_digest t, u_payload_json = json_dumps (outcome_to_dict t), u_published_at = now\<rparr>"

definition add_outcome :: "outcome_row \<Rightarrow> db \<Rightarrow> db" where
  "add_outcome u d = d\<lparr>db_outcomes := db_outcomes d @ [u]\<rparr>"

text \<open>Every published outcome is the only one of its job, is stored whole, and is about the job's recorded attempt.\<close>

definition outcome_ok :: "db \<Rightarrow> outcome_row \<Rightarrow> bool" where
  "outcome_ok d u \<longleftrightarrow> (\<exists>t. storable_outcome t \<and> u = outcome_row_of t (u_published_at u)) \<and>
     (\<exists>s\<in>set (db_attempts d). t_job_id s = u_job_id u \<and> t_attempt s = u_attempt u \<and> t_attempt_digest s = u_attempt_digest u)"

definition control_ok :: "db \<Rightarrow> bool" where
  "control_ok d \<longleftrightarrow> queue_ok d \<and> distinct (map u_job_id (db_outcomes d)) \<and> distinct (map u_outcome_digest (db_outcomes d)) \<and>
     (\<forall>u\<in>set (db_outcomes d). outcome_ok d u)"

lemma control_okD:
  assumes "control_ok d"
  shows "queue_ok d" "distinct (map u_job_id (db_outcomes d))" "distinct (map u_outcome_digest (db_outcomes d))"
    "u \<in> set (db_outcomes d) \<Longrightarrow> outcome_ok d u"
  using assms by (simp_all add: control_ok_def)

subsection \<open>Reading the rows\<close>

lemma attempt_row_reads: "storable_attempt a \<Longrightarrow> attempt_from_row (attempt_row_of a now) = Inr a"
  by (simp add: attempt_from_row_def attempt_row_of_def loads_json_dumps attempt_to_dict_wire fa.round_trip)

text \<open>Nothing else reads back: a stored attempt that decodes at all is the attempt that was stored.\<close>

lemma agent_result_decodes:
  assumes "agent_result_from_dict (agent_result_to_dict r) = Inr r'" and "wf_agent_result r"
  shows "storable_agent_result r"
proof -
  have v2: "ar_schema_version r = AGENT_RUN_V2"
    using assms agent_result_v1_rejected [of r] by (auto simp: wf_agent_result_def)
  with assms have "ar_workspace_state_before r \<noteq> [] \<and> ar_workspace_state_after r \<noteq> []"
    by (auto simp: agent_result_from_dict_def agent_result_to_dict_def agent_result_common_def Let_def wire_simps result_simps string_fields_eq)
  with v2 assms(2) show ?thesis by (simp add: storable_agent_result_def)
qed

lemma attempt_decodes:
  assumes "attempt_from_dict (attempt_to_dict b) = Inr a" and "wf_attempt b"
  shows "a = b" "storable_attempt b"
proof -
  have "\<exists>r'. agent_result_from_dict (agent_result_to_dict (fa_agent_result b)) = Inr r'"
    using assms text_ok_attempt_name [of "fa_job_id b" "fa_attempt b"]
    by (auto simp: attempt_from_dict_def attempt_to_dict_def attempt_items_def wire_simps wf_attempt_def wb.round_trip result_simps)
  then show b: "storable_attempt b" using assms(2) agent_result_decodes by (auto simp: storable_attempt_def wf_attempt_def)
  show "a = b" using assms(1) fa.round_trip [OF b] by simp
qed

lemma outcome_row_reads: "storable_outcome t \<Longrightarrow> outcome_from_row (outcome_row_of t now) = Inr t"
  by (simp add: outcome_from_row_def outcome_row_of_def loads_json_dumps outcome_wire to.round_trip storable_outcome_def)

lemma outcome_ok_reads: "outcome_ok d u \<Longrightarrow> outcome_from_row u = Inr t \<longleftrightarrow> u = outcome_row_of t (u_published_at u) \<and> storable_outcome t"
  unfolding outcome_ok_def using outcome_row_reads by (metis sum.inject(2))

lemma latest_attempt_eq:
  assumes "distinct (map t_job_id (db_attempts d))"
  shows "latest_attempt job_id d = find (\<lambda>t. t_job_id t = job_id) (db_attempts d)"
  using filter_key [OF assms, of job_id "\<lambda>_. True"] by (auto simp: latest_attempt_def split: option.splits)

lemma select_lineage_eq:
  assumes ok: "queue_ok d"
  shows "select_lineage job_id d = Some (r, s) \<longleftrightarrow> r \<in> set (db_jobs d) \<and> j_job_id r = job_id \<and> s \<in> set (db_attempts d) \<and> t_job_id s = job_id"
proof -
  note jobs = queue_okD(1) [OF ok] and atts = queue_okD(6) [OF ok]
  have find: "find (\<lambda>t. t_job_id t = k \<and> t_attempt t = n) xs = Some s \<longleftrightarrow> s \<in> set xs \<and> t_job_id s = k \<and> t_attempt s = n"
    if "distinct (map t_job_id xs)" for xs s k n
    using that by (induction xs) auto
  have "t_attempt s = j_attempts r" if "r \<in> set (db_jobs d)" "s \<in> set (db_attempts d)" "t_job_id s = j_job_id r"
    using queue_okD(5) [OF ok that(2)] distinct_image_eq [OF jobs _ that(1)] that(3) by (fastforce simp: lineage_ok_def)
  moreover have "select_lineage job_id d = Some (r, s) \<longleftrightarrow> select_job job_id d = Some r \<and>
      find (\<lambda>t. t_job_id t = j_job_id r \<and> t_attempt t = j_attempts r) (db_attempts d) = Some s"
    by (auto simp: select_lineage_def split: option.splits)
  ultimately show ?thesis by (auto simp: find [OF atts] select_job_iff [OF jobs])
qed

lemma select_lineage_None:
  assumes ok: "queue_ok d"
  shows "select_lineage job_id d = None \<longleftrightarrow> job_id \<notin> t_job_id ` set (db_attempts d)"
proof -
  have "\<exists>r\<in>set (db_jobs d). j_job_id r = t_job_id s" if "s \<in> set (db_attempts d)" for s
    using queue_okD(5) [OF ok that] by (auto simp: lineage_ok_def)
  then have "(\<exists>r s. select_lineage job_id d = Some (r, s)) \<longleftrightarrow> job_id \<in> t_job_id ` set (db_attempts d)"
    unfolding select_lineage_eq [OF ok] by (auto simp: image_iff) metis
  then show ?thesis by (cases "select_lineage job_id d") auto
qed

text \<open>In a well-formed database the fence has one question left: is the recorded attempt the expected one?\<close>

lemma check_lineage_iff:
  assumes ok: "queue_ok d" and a: "storable_attempt a" and row: "select_lineage (fa_job_id a) d = Some (r, s)"
  shows "check_lineage a (r, s) = Inr u \<longleftrightarrow> s = attempt_row_of a (t_finished_at s)"
proof -
  from row have r: "r \<in> set (db_jobs d)" "j_job_id r = fa_job_id a" and s: "s \<in> set (db_attempts d)" "t_job_id s = fa_job_id a"
    by (simp_all add: select_lineage_eq [OF ok])
  from queue_okD(5) [OF ok s(1)] obtain b where b: "wf_attempt b" and s_eq: "s = attempt_row_of b (t_finished_at s)"
    and job: "j_status r = Completed" "j_kind r = ''coding-agent''" "j_attempts r = t_attempt s" "j_result_json r = Some (t_payload_json s)"
    using distinct_image_eq [OF queue_okD(1) [OF ok] _ r(1)] r(2) s(2) by (fastforce simp: lineage_ok_def)
  have cols: "t_payload_json s = json_dumps (attempt_to_dict b)" "t_attempt_digest s = attempt_digest b" "t_attempt s = fa_attempt b"
    by (subst s_eq, simp add: attempt_row_of_def)+
  have read: "loads_strict_json (t_payload_json s) l = Inr (attempt_to_dict b)" for l
    by (simp add: cols loads_json_dumps attempt_to_dict_wire)
  show ?thesis
  proof
    assume "s = attempt_row_of a (t_finished_at s)"
    then have "t_payload_json s = json_dumps (attempt_to_dict a)" "t_attempt_digest s = attempt_digest a" "t_attempt s = fa_attempt a"
      by (metis attempt_row.select_convs(2,4,5) attempt_row_of_def)+
    then show "check_lineage a (r, s) = Inr u"
      using job by (simp add: check_lineage_def loads_json_dumps attempt_to_dict_wire fa.round_trip [OF a])
  next
    assume "check_lineage a (r, s) = Inr u"
    then have "attempt_from_dict (attempt_to_dict b) = Inr a" "attempt_digest b = attempt_digest a"
      using job by (auto simp: check_lineage_def read cols(2,3) result_simps split: if_splits)
    with attempt_decodes(1) [OF _ b] s_eq show "s = attempt_row_of a (t_finished_at s)" by simp
  qed
qed

subsection \<open>What a publication does\<close>

lemma publish_change:
  assumes "publish_task_outcome utc a t d = (r, d')" "storable_outcome t" "d' \<noteq> d"
  obtains "d' = add_outcome (outcome_row_of t (utc_now utc)) d" "to_job_id t \<notin> u_job_id ` set (db_outcomes d)"
    "outcome_digest t \<notin> u_outcome_digest ` set (db_outcomes d)"
    "\<exists>s\<in>set (db_attempts d). t_job_id s = to_job_id t \<and> t_attempt s = to_attempt t \<and> t_attempt_digest s = to_attempt_digest t"
proof -
  have "canonical_json_bytes (outcome_to_dict t) = Inr (json_dumps (outcome_to_dict t))" using assms(2) by (simp add: outcome_wire)
  with assms(1,3) have "insert_outcome (outcome_row_of t (utc_now utc)) d = Inr d'"
    by (auto simp: publish_task_outcome_def with_input_eq transaction_eq publish_body_def result_simps outcome_row_of_def split: option.splits if_splits)
  then show thesis
    by (intro that) (auto simp: insert_outcome_def outcome_row_of_def add_outcome_def split: if_splits)
qed

lemma outcome_row_of_fields [simp]:
  "u_job_id (outcome_row_of t now) = to_job_id t" "u_attempt (outcome_row_of t now) = to_attempt t"
  "u_attempt_digest (outcome_row_of t now) = to_attempt_digest t" "u_outcome_digest (outcome_row_of t now) = outcome_digest t"
  "u_published_at (outcome_row_of t now) = now"
  by (simp_all add: outcome_row_of_def)

lemma publish_ok:
  assumes ok: "control_ok d" and t: "storable_outcome t" and publish: "publish_task_outcome utc a t d = (r, d')"
  shows "control_ok d'"
proof (cases "d' = d")
  case False
  from publish t False show ?thesis
  proof (rule publish_change)
    assume d': "d' = add_outcome (outcome_row_of t (utc_now utc)) d" and new: "to_job_id t \<notin> u_job_id ` set (db_outcomes d)"
      "outcome_digest t \<notin> u_outcome_digest ` set (db_outcomes d)" and
      att: "\<exists>s\<in>set (db_attempts d). t_job_id s = to_job_id t \<and> t_attempt s = to_attempt t \<and> t_attempt_digest s = to_attempt_digest t"
    have "queue_ok d'" using control_okD(1) [OF ok] by (simp add: d' add_outcome_def queue_ok_def lineage_ok_def)
    moreover have "outcome_ok d' u" if "u \<in> set (db_outcomes d')" for u
      using that control_okD(4) [OF ok] t att by (auto simp: d' add_outcome_def outcome_ok_def)
    ultimately show ?thesis using control_okD(2,3) [OF ok] new by (simp add: control_ok_def d' add_outcome_def)
  qed
qed (use ok in simp)

lemma db_change_outcomes: "db_change d d' \<Longrightarrow> db_outcomes d' = db_outcomes d"
  by (erule db_change.cases) (simp_all add: replace_job_def add_attempt_def)

lemma queue_step_control:
  assumes ok: "control_ok d" and step: "queue_step d d'"
  shows "control_ok d'"
proof -
  note q = control_okD(1) [OF ok]
  have same: "db_outcomes d' = db_outcomes d" using step_change [OF queue_okD(1,3) [OF q] step] db_change_outcomes by blast
  obtain ts where "db_attempts d' = db_attempts d @ ts" using queue_step_le [OF q step] by (auto simp: db_le_def)
  then have "outcome_ok d' u" if "u \<in> set (db_outcomes d)" for u
    using control_okD(4) [OF ok that] by (auto simp: outcome_ok_def)
  with ok queue_ok_step [OF q step] show ?thesis by (simp add: control_ok_def same)
qed

lemma create_if_missing_rows [simp]:
  "db_jobs (create_if_missing x d) = db_jobs d" "db_attempts (create_if_missing x d) = db_attempts d"
  "db_outcomes (create_if_missing x d) = db_outcomes d"
  by (simp_all add: create_if_missing_def)

lemma fold_create_rows [simp]:
  "db_jobs (fold create_if_missing xs d) = db_jobs d" "db_attempts (fold create_if_missing xs d) = db_attempts d"
  "db_outcomes (fold create_if_missing xs d) = db_outcomes d"
  by (induction xs arbitrary: d) simp_all

lemma migrate_rows:
  "migrate vs d = Inr d' \<Longrightarrow> db_jobs d' = db_jobs d \<and> db_attempts d' = db_attempts d \<and> db_outcomes d' = db_outcomes d"
  by (induction vs d rule: migrate.induct) (auto split: option.splits)

lemma initialize_rows:
  assumes "initialize d = (r, d')"
  shows "db_jobs d' = db_jobs d" "db_attempts d' = db_attempts d" "db_outcomes d' = db_outcomes d"
  using assms by (auto simp: initialize_def transaction_eq Let_def result_simps dest!: migrate_rows split: if_splits)

lemma rows_determine_ok:
  assumes "db_jobs d' = db_jobs d" "db_attempts d' = db_attempts d" "db_outcomes d' = db_outcomes d"
  shows "control_ok d' = control_ok d" "db_le d d'"
  using assms by (simp_all add: control_ok_def queue_ok_def lineage_ok_def outcome_ok_def db_le_def) (auto intro: row_le_refl)

lemma control_ok_step: "control_ok d \<Longrightarrow> control_step d d' \<Longrightarrow> control_ok d'"
  by (erule control_stepE) (auto intro: queue_step_control publish_ok simp: rows_determine_ok(1) [OF initialize_rows])

lemma control_le_step:
  assumes "control_ok d" "control_step d d'"
  shows "db_le d d'"
  using assms(2)
proof cases
  case control_queue
  then show ?thesis using queue_step_le control_okD(1) [OF assms(1)] by blast
next
  case (control_open r)
  then show ?thesis using rows_determine_ok(2) initialize_rows by blast
next
  case (control_publish a t utc r)
  show ?thesis
  proof (cases "d' = d")
    case False
    from control_publish(3,2) False have "d' = add_outcome (outcome_row_of t (utc_now utc)) d" by (rule publish_change)
    then show ?thesis by (auto simp: db_le_def add_outcome_def intro: row_le_refl)
  qed (simp add: db_le_refl)
qed

interpretation control: monotone_system control_step control_ok db_le
  by unfold_locales (fact control_ok_step, fact db_le_refl, erule (1) db_le_trans, erule (1) control_le_step)

section \<open>Publication, written out\<close>

text \<open>The attempt is the recorded one of its job.\<close>

definition recorded :: "attempt_finished \<Rightarrow> db \<Rightarrow> bool" where
  "recorded a d \<longleftrightarrow> (\<exists>now. attempt_row_of a now \<in> set (db_attempts d))"

lemma attempt_row_of_fields [simp]:
  "t_job_id (attempt_row_of a now) = fa_job_id a" "t_attempt (attempt_row_of a now) = fa_attempt a"
  "t_attempt_digest (attempt_row_of a now) = attempt_digest a" "t_finished_at (attempt_row_of a now) = now"
  by (simp_all add: attempt_row_of_def)

text \<open>A job has at most one recorded attempt, so the row of the job decides.\<close>

lemma recorded_iff:
  assumes "queue_ok d" "s \<in> set (db_attempts d)" "t_job_id s = fa_job_id a"
  shows "recorded a d \<longleftrightarrow> s = attempt_row_of a (t_finished_at s)"
proof
  assume "recorded a d"
  then obtain now where row: "attempt_row_of a now \<in> set (db_attempts d)" by (auto simp: recorded_def)
  have "attempt_row_of a now = s"
    by (rule distinct_image_eq [OF queue_okD(6) [OF assms(1)] row assms(2)]) (simp add: assms(3))
  then show "s = attempt_row_of a (t_finished_at s)" by auto
next
  assume "s = attempt_row_of a (t_finished_at s)"
  then show "recorded a d" using assms(2) unfolding recorded_def by metis
qed

lemma not_recorded: "fa_job_id a \<notin> t_job_id ` set (db_attempts d) \<Longrightarrow> \<not> recorded a d"
  by (force simp: recorded_def)

lemma lineage_check_eq:
  assumes ok: "queue_ok d" and a: "storable_attempt a"
  shows "(case select_lineage (fa_job_id a) d of None \<Rightarrow> Inl e | Some row \<Rightarrow> check_lineage a row) = Inr () \<longleftrightarrow> recorded a d"
proof (cases "select_lineage (fa_job_id a) d")
  case None
  then have "\<not> recorded a d" by (intro not_recorded) (simp add: select_lineage_None [OF ok])
  with None show ?thesis by simp
next
  case (Some row)
  obtain r s where row: "row = (r, s)" by (cases row)
  with Some have "s \<in> set (db_attempts d)" "t_job_id s = fa_job_id a" by (simp_all add: select_lineage_eq [OF ok])
  with Some row show ?thesis using check_lineage_iff [OF ok a] recorded_iff [OF ok] by simp
qed

lemma bound_fields:
  assumes "validate_outcome_binding a t = Inr ()"
  shows "to_job_id t = fa_job_id a" "to_attempt t = fa_attempt a" "to_attempt_digest t = attempt_digest a"
  using assms by (simp_all add: validate_outcome_binding_def split: if_splits)

lemma select_outcome_iff:
  "distinct (map u_job_id (db_outcomes d)) \<Longrightarrow> select_outcome k d = Some u \<longleftrightarrow> u \<in> set (db_outcomes d) \<and> u_job_id u = k"
  by (simp add: select_outcome_def find_Some_iff)

lemma publish_eq:
  assumes ok: "control_ok d" and a: "storable_attempt a" and t: "storable_outcome t" and bound: "validate_outcome_binding a t = Inr ()"
    and bits: "to_attempt t < 2 ^ 63" and rec: "recorded a d"
    and fresh: "\<And>u. u \<in> set (db_outcomes d) \<Longrightarrow> u_outcome_digest u = outcome_digest t \<Longrightarrow> u_job_id u = to_job_id t"
  shows "publish_task_outcome utc a t d = (case select_outcome (fa_job_id a) d of
       None \<Rightarrow> (Inr t, add_outcome (outcome_row_of t (utc_now utc)) d)
     | Some u \<Rightarrow> if u = outcome_row_of t (u_published_at u) then (Inr t, d)
                else (Inl (TaskOutcomeConflictError ''job already has a different immutable task outcome''), d))"
proof -
  note q = control_okD(1) [OF ok]
  have dump: "canonical_json_bytes (outcome_to_dict t) = Inr (json_dumps (outcome_to_dict t))" using t by (simp add: outcome_wire)
  have int: "bind_integer (to_attempt t) = Inr ()" using bits t by (simp add: bind_integer_def storable_outcome_def wf_outcome_def)
  have fence: "(case select_lineage (fa_job_id a) d of None \<Rightarrow> Inl e | Some row \<Rightarrow> check_lineage a row) = Inr ()" for e
    using rec by (simp add: lineage_check_eq [OF q a])
  show ?thesis
  proof (cases "select_outcome (fa_job_id a) d")
    case None
    then have "fa_job_id a \<notin> u_job_id ` set (db_outcomes d)" by (simp add: select_outcome_def find_None_image)
    moreover have "\<exists>s\<in>set (db_attempts d). t_job_id s = to_job_id t \<and> t_attempt s = to_attempt t \<and> t_attempt_digest s = to_attempt_digest t"
      using rec bound_fields [OF bound] by (force simp: recorded_def)
    moreover have "0 < to_attempt t" using t by (simp add: storable_outcome_def wf_outcome_def)
    ultimately have "insert_outcome (outcome_row_of t (utc_now utc)) d = Inr (add_outcome (outcome_row_of t (utc_now utc)) d)"
      using fresh bound_fields(1) [OF bound] by (force simp: insert_outcome_def add_outcome_def)
    then show ?thesis
      by (simp add: publish_task_outcome_def bound dump transaction_def publish_body_def fence None int outcome_row_of_def)
  next
    case (Some u)
    then have "outcome_ok d u" using control_okD(2,4) [OF ok] by (simp add: select_outcome_iff)
    from outcome_ok_reads [OF this] this obtain t' where t': "outcome_from_row u = Inr t'" "u = outcome_row_of t' (u_published_at u)"
      by (auto simp: outcome_ok_def)
    then have "u = outcome_row_of t (u_published_at u) \<longleftrightarrow> t' = t" using outcome_ok_reads [OF \<open>outcome_ok d u\<close>] t by (metis sum.inject(2))
    then show ?thesis
      by (simp add: publish_task_outcome_def bound dump transaction_def publish_body_def fence Some t'(1))
  qed
qed

lemma publish_stale:
  assumes "control_ok d" "storable_attempt a" "\<not> recorded a d"
  shows "\<exists>e. publish_task_outcome utc a t d = (Inl e, d)"
proof -
  let ?check = "case select_lineage (fa_job_id a) d of
      None \<Rightarrow> Inl (StaleAttemptError ''job has no authoritative finished attempt at its current fence'') | Some row \<Rightarrow> check_lineage a row"
  from lineage_check_eq [OF control_okD(1) [OF assms(1)] assms(2)] assms(3) obtain e where "?check = Inl e" by (cases ?check) auto
  then show ?thesis
    by (cases "bindE (validate_outcome_binding a t) (\<lambda>_. canonical_json_bytes (outcome_to_dict t))")
      (simp_all add: publish_task_outcome_def transaction_def publish_body_def)
qed

text \<open>A job that has an outcome accepts no other.\<close>

lemma publish_conflict:
  assumes "get_task_outcome (fa_job_id a) d = Inr (Some t)" "t' \<noteq> t"
  shows "\<exists>e. publish_task_outcome utc a t' d = (Inl e, d)"
proof -
  from assms(1) obtain u where u: "select_outcome (fa_job_id a) d = Some u" "outcome_from_row u = Inr t"
    by (auto simp: get_task_outcome_def result_simps split: option.splits)
  have body: "\<exists>e. publish_body utc a t' payload d = Inl e" for payload
    using assms(2) u by (auto simp: publish_body_def bindE_def split: sum.split)
  show ?thesis
  proof (cases "bindE (validate_outcome_binding a t') (\<lambda>_. canonical_json_bytes (outcome_to_dict t'))")
    case (Inr payload)
    with body [of payload] show ?thesis by (auto simp: publish_task_outcome_def transaction_def)
  qed (simp add: publish_task_outcome_def)
qed

lemma get_outcome_iff:
  assumes ok: "control_ok d"
  shows "get_task_outcome k d = Inr (Some t) \<longleftrightarrow>
    (\<exists>u\<in>set (db_outcomes d). u_job_id u = k \<and> u = outcome_row_of t (u_published_at u) \<and> storable_outcome t)"
proof (cases "select_outcome k d")
  case None
  then have "k \<notin> u_job_id ` set (db_outcomes d)" by (simp add: select_outcome_def find_None_image)
  with None show ?thesis by (auto simp: get_task_outcome_def)
next
  case (Some u)
  note sel = Some [unfolded select_outcome_iff [OF control_okD(2) [OF ok]]]
  then have "v \<in> set (db_outcomes d) \<Longrightarrow> u_job_id v = k \<Longrightarrow> v = u" for v
    using distinct_image_eq [OF control_okD(2) [OF ok]] by blast
  with sel outcome_ok_reads [OF control_okD(4) [OF ok]] Some show ?thesis
    by (auto simp: get_task_outcome_def result_simps)
qed

lemma get_attempt_iff:
  assumes ok: "queue_ok d" and a: "storable_attempt a"
  shows "get_attempt_finished (fa_job_id a) d = Inr (Some a) \<longleftrightarrow> recorded a d"
proof (cases "latest_attempt (fa_job_id a) d")
  case None
  then have "\<not> recorded a d" by (intro not_recorded) (simp add: latest_attempt_eq [OF queue_okD(6) [OF ok]] find_None_image)
  with None show ?thesis by (simp add: get_attempt_finished_def)
next
  case (Some s)
  then have s: "s \<in> set (db_attempts d)" "t_job_id s = fa_job_id a"
    by (simp_all add: latest_attempt_eq [OF queue_okD(6) [OF ok]] find_Some_iff [OF queue_okD(6) [OF ok]])
  from queue_okD(5) [OF ok s(1)] obtain b now where b: "wf_attempt b" "s = attempt_row_of b now" unfolding lineage_ok_def by blast
  have "attempt_from_row s = Inr a \<longleftrightarrow> s = attempt_row_of a (t_finished_at s)"
  proof
    assume "attempt_from_row s = Inr a"
    then have "attempt_from_dict (attempt_to_dict b) = Inr a" unfolding b(2)
      by (auto simp: attempt_from_row_def attempt_row_of_def loads_json_dumps attempt_to_dict_wire result_simps split: if_splits)
    with attempt_decodes(1) [OF _ b(1)] b(2) show "s = attempt_row_of a (t_finished_at s)" by simp
  next
    assume "s = attempt_row_of a (t_finished_at s)"
    then show "attempt_from_row s = Inr a" using attempt_row_reads [OF a] by metis
  qed
  with Some recorded_iff [OF ok s] show ?thesis by (simp add: get_attempt_finished_def bindE_eq_Inr)
qed

section \<open>The authority as its clients see it\<close>

text \<open>
  \<open>TaskOutcomeAuthorityPort\<close> of \<^verbatim>\<open>ports/control_outcomes.py\<close>: the operations of the store as its clients hold
  them, and the laws they rely on.
\<close>

record 's authority_port =
  ap_get_attempt_finished :: "string \<Rightarrow> 's \<Rightarrow> attempt_finished option result"
  ap_get_task_outcome :: "string \<Rightarrow> 's \<Rightarrow> task_outcome option result"
  ap_publish_task_outcome :: "attempt_finished \<Rightarrow> task_outcome \<Rightarrow> 's \<Rightarrow> task_outcome result \<times> 's"

definition sqlite_authority :: "utc_time \<Rightarrow> db authority_port" where
  "sqlite_authority utc = \<lparr>ap_get_attempt_finished = get_attempt_finished, ap_get_task_outcome = get_task_outcome,
     ap_publish_task_outcome = publish_task_outcome utc\<rparr>"

locale outcome_authority =
  fixes port :: "'s authority_port" and inv :: "'s \<Rightarrow> bool"
  assumes attempt_job: "inv s \<Longrightarrow> ap_get_attempt_finished port k s = Inr (Some a) \<Longrightarrow> fa_job_id a = k \<and> storable_attempt a"
    and outcome_job: "inv s \<Longrightarrow> ap_get_task_outcome port k s = Inr (Some t) \<Longrightarrow> to_job_id t = k \<and> storable_outcome t"
    and refused: "ap_publish_task_outcome port a t s = (Inl e, s') \<Longrightarrow> s' = s"
    and published: "inv s \<Longrightarrow> storable_attempt a \<Longrightarrow> storable_outcome t \<Longrightarrow> ap_publish_task_outcome port a t s = (Inr t', s') \<Longrightarrow>
      t' = t \<and> inv s' \<and> validate_outcome_binding a t = Inr () \<and>
      ap_get_task_outcome port (fa_job_id a) s' = Inr (Some t) \<and> ap_get_attempt_finished port (fa_job_id a) s' = Inr (Some a)"
    and immutable: "ap_get_task_outcome port (fa_job_id a) s = Inr (Some t) \<Longrightarrow> t' \<noteq> t \<Longrightarrow>
      \<exists>e. ap_publish_task_outcome port a t' s = (Inl e, s)"
    and republish: "inv s \<Longrightarrow> ap_get_attempt_finished port k s = Inr (Some a) \<Longrightarrow> ap_get_task_outcome port k s = Inr (Some t) \<Longrightarrow>
      validate_outcome_binding a t = Inr () \<Longrightarrow> ap_publish_task_outcome port a t s = (Inr t, s)"
begin

text \<open>At most one outcome of a job is ever accepted: of two publications that succeed, the second is the first again.\<close>

lemma publish_once:
  assumes "inv s" "storable_attempt a" "storable_outcome t" "storable_attempt b" "storable_outcome u"
    and "ap_publish_task_outcome port a t s = (Inr t', s')" "ap_publish_task_outcome port b u s' = (Inr u', s'')" "fa_job_id b = fa_job_id a"
  shows "u' = t'"
proof -
  have s': "inv s'" "ap_get_task_outcome port (fa_job_id b) s' = Inr (Some t)" "t' = t"
    using published [OF assms(1-3,6)] assms(8) by simp_all
  have "u = t" using immutable [OF s'(2), of u] assms(7) by (cases "u = t") auto
  with published [OF s'(1) assms(4,5,7)] s'(3) show ?thesis by simp
qed

end

lemma latest_attempt_lineage:
  assumes "queue_ok d" "get_attempt_finished k d = Inr (Some a)"
  shows "fa_job_id a = k \<and> storable_attempt a"
proof -
  from assms(2) obtain s where s: "latest_attempt k d = Some s" "attempt_from_row s = Inr a"
    by (auto simp: get_attempt_finished_def result_simps split: option.splits)
  then have "s \<in> set (db_attempts d)" "t_job_id s = k"
    by (simp_all add: latest_attempt_eq [OF queue_okD(6) [OF assms(1)]] find_Some_iff [OF queue_okD(6) [OF assms(1)]])
  moreover from queue_okD(5) [OF assms(1) this(1)] obtain b now where b: "wf_attempt b" "s = attempt_row_of b now"
    unfolding lineage_ok_def by blast
  from s(2) have dec: "attempt_from_dict (attempt_to_dict b) = Inr a" unfolding b(2)
    by (auto simp: attempt_from_row_def attempt_row_of_def loads_json_dumps attempt_to_dict_wire result_simps split: if_splits)
  ultimately show ?thesis using attempt_decodes [OF dec b(1)] b(2) by auto
qed

lemma publish_success:
  assumes ok: "control_ok d" and a: "storable_attempt a" and t: "storable_outcome t" and pub: "publish_task_outcome utc a t d = (Inr t', d')"
  shows "t' = t \<and> control_ok d' \<and> validate_outcome_binding a t = Inr () \<and>
    get_task_outcome (fa_job_id a) d' = Inr (Some t) \<and> get_attempt_finished (fa_job_id a) d' = Inr (Some a)"
proof -
  have bound: "validate_outcome_binding a t = Inr ()"
    using pub by (cases "validate_outcome_binding a t") (simp_all add: publish_task_outcome_def)
  have rec: "recorded a d"
  proof (rule ccontr)
    assume "\<not> recorded a d"
    from publish_stale [OF ok a this] pub show False by (metis Inl_Inr_False prod.inject)
  qed
  have ok': "control_ok d'" by (rule publish_ok [OF ok t pub])
  have body: "publish_body utc a t (json_dumps (outcome_to_dict t)) d = Inr (t', d')"
    using pub t by (simp add: publish_task_outcome_def bound outcome_wire transaction_eq)
  have out: "get_task_outcome (fa_job_id a) d' = Inr (Some t) \<and> t' = t \<and> db_attempts d' = db_attempts d"
  proof (cases "select_outcome (fa_job_id a) d")
    case None
    with body have "insert_outcome (outcome_row_of t (utc_now utc)) d = Inr d'" "t' = t"
      by (auto simp: publish_body_def result_simps outcome_row_of_def split: option.splits)
    then have d': "d' = add_outcome (outcome_row_of t (utc_now utc)) d" by (simp add: insert_outcome_def add_outcome_def split: if_splits)
    then have "outcome_row_of t (utc_now utc) \<in> set (db_outcomes d')" by (simp add: add_outcome_def)
    with t bound_fields(1) [OF bound] have "get_task_outcome (fa_job_id a) d' = Inr (Some t)"
      unfolding get_outcome_iff [OF ok'] by (intro bexI [of _ "outcome_row_of t (utc_now utc)"]) simp_all
    with d' \<open>t' = t\<close> show ?thesis by (simp add: add_outcome_def)
  next
    case (Some u)
    with body show ?thesis by (auto simp: publish_body_def result_simps get_task_outcome_def split: option.splits)
  qed
  then have "recorded a d'" using rec by (simp add: recorded_def)
  with out bound show ?thesis using ok' get_attempt_iff [OF control_okD(1) [OF ok'] a] by simp
qed

lemma republish:
  assumes ok: "control_ok d" and "get_attempt_finished k d = Inr (Some a)" "get_task_outcome k d = Inr (Some t)"
    and "validate_outcome_binding a t = Inr ()"
  shows "publish_task_outcome utc a t d = (Inr t, d)"
proof -
  have a: "fa_job_id a = k" "storable_attempt a" using latest_attempt_lineage [OF control_okD(1) [OF ok] assms(2)] by simp_all
  have t: "storable_outcome t" using assms(3) by (auto simp: get_outcome_iff [OF ok])
  have "recorded a d" using assms(2) a get_attempt_iff [OF control_okD(1) [OF ok] a(2)] by simp
  then have fence: "(case select_lineage k d of None \<Rightarrow> Inl e | Some row \<Rightarrow> check_lineage a row) = Inr ()" for e
    using lineage_check_eq [OF control_okD(1) [OF ok] a(2)] a(1) by simp
  from assms(3) obtain u where "select_outcome k d = Some u" "outcome_from_row u = Inr t"
    by (auto simp: get_task_outcome_def result_simps split: option.splits)
  then show ?thesis using t
    by (simp add: publish_task_outcome_def assms(4) outcome_wire transaction_def publish_body_def fence a(1))
qed

interpretation sqlite: outcome_authority "sqlite_authority utc" control_ok for utc
proof
  fix s s' k a b t t' e
  show "control_ok s \<Longrightarrow> ap_get_attempt_finished (sqlite_authority utc) k s = Inr (Some a) \<Longrightarrow> fa_job_id a = k \<and> storable_attempt a"
    unfolding sqlite_authority_def authority_port.simps by (rule latest_attempt_lineage [OF control_okD(1)])
  show "control_ok s \<Longrightarrow> ap_get_task_outcome (sqlite_authority utc) k s = Inr (Some t) \<Longrightarrow> to_job_id t = k \<and> storable_outcome t"
    by (auto simp: sqlite_authority_def get_outcome_iff) (metis outcome_row_of_fields(1))
  show "ap_publish_task_outcome (sqlite_authority utc) a t s = (Inl e, s') \<Longrightarrow> s' = s"
    by (auto simp: sqlite_authority_def publish_task_outcome_def with_input_eq transaction_eq)
  show "control_ok s \<Longrightarrow> storable_attempt a \<Longrightarrow> storable_outcome t \<Longrightarrow> ap_publish_task_outcome (sqlite_authority utc) a t s = (Inr t', s') \<Longrightarrow>
      t' = t \<and> control_ok s' \<and> validate_outcome_binding a t = Inr () \<and> ap_get_task_outcome (sqlite_authority utc) (fa_job_id a) s' = Inr (Some t) \<and>
      ap_get_attempt_finished (sqlite_authority utc) (fa_job_id a) s' = Inr (Some a)"
    using publish_success by (simp add: sqlite_authority_def)
  show "ap_get_task_outcome (sqlite_authority utc) (fa_job_id a) s = Inr (Some t) \<Longrightarrow> t' \<noteq> t \<Longrightarrow>
      \<exists>e. ap_publish_task_outcome (sqlite_authority utc) a t' s = (Inl e, s)"
    using publish_conflict by (simp add: sqlite_authority_def)
  show "control_ok s \<Longrightarrow> ap_get_attempt_finished (sqlite_authority utc) k s = Inr (Some a) \<Longrightarrow>
      ap_get_task_outcome (sqlite_authority utc) k s = Inr (Some t) \<Longrightarrow> validate_outcome_binding a t = Inr () \<Longrightarrow>
      ap_publish_task_outcome (sqlite_authority utc) a t s = (Inr t, s)"
    using republish by (simp add: sqlite_authority_def)
qed

section \<open>Sample states\<close>

text \<open>The sample job, finished with the sample attempt, and then with the sample outcome.\<close>

definition finished_db :: db where
  "finished_db = snd (finish_attempt noon (Finite 50) ''job-1'' ''w1'' sample_attempt None leased_db)"

definition published_db :: db where
  "published_db = snd (publish_task_outcome noon sample_attempt sample_outcome finished_db)"

lemma sample_attempt_wf: "wf_attempt sample_attempt"
  using sample_attempt_storable by (simp add: storable_attempt_def)

lemma finished_run: "queue_step\<^sup>*\<^sup>* start_db finished_db"
proof -
  have "queue_step leased_db finished_db"
    unfolding finished_db_def by (rule step_finish_attempt [OF sample_attempt_wf]) (rule surjective_pairing)
  with sample_runs(2) show ?thesis by (rule rtranclp.rtrancl_into_rtrancl)
qed

lemma start_control_ok: "control_ok start_db"
  using start_db_ok by (simp add: control_ok_def start_db_eq)

lemma control_runs: "queue_step\<^sup>*\<^sup>* d d' \<Longrightarrow> control_step\<^sup>*\<^sup>* d d'"
  by (induction rule: rtranclp_induct) (auto intro: control_queue rtranclp.rtrancl_into_rtrancl)

lemma finished_control_run: "control_step\<^sup>*\<^sup>* start_db finished_db"
  by (rule control_runs [OF finished_run])

lemma published_step: "control_step finished_db published_db"
  unfolding published_db_def
  by (rule control_publish [OF sample_attempt_wf sample_outcome_storable]) (rule surjective_pairing)

lemmas sample_control_ok = control.inv_run [OF finished_control_run start_control_ok]

lemma finished_rows: "db_attempts finished_db = [attempt_row_of sample_attempt (utc_now noon)]" "db_outcomes finished_db = []"
proof -
  have none: "db_attempts leased_db = []" "db_outcomes leased_db = []" by (simp add: leased_db_eq queued_db_def, code_simp)+
  have sel: "select_job ''job-1'' leased_db = Some leased_row"
    by (simp add: select_job_def leased_jobs leased_row_def sample_row_def)
  have fin: "finished_db = (let r' = finish_row Completed (json_dumps (attempt_to_dict sample_attempt)) (utc_now noon) leased_row
      in add_attempt (attempt_row_of sample_attempt (utc_now noon)) (replace_job r' leased_db))"
    unfolding finished_db_def
    using finish_attempt_eq [OF sample_ok(2) sample_attempt_wf, of "''job-1''" "''w1''" None "Finite 50" "Finite 50" noon]
    by (simp add: sample_attempt_def none clock_now_def fl_isfinite_def sel leased_row_def lease_row_def sample_row_def owns_lease_def Let_def)
  show "db_attempts finished_db = [attempt_row_of sample_attempt (utc_now noon)]" "db_outcomes finished_db = []"
    unfolding fin by (simp_all add: Let_def add_attempt_def none)
qed

lemma sample_recorded: "recorded sample_attempt finished_db"
  by (auto simp: recorded_def finished_rows)

lemma sample_bound: "validate_outcome_binding sample_attempt sample_outcome = Inr ()"
  by (simp add: validate_outcome_binding_def sample_outcome_def) (simp add: sample_attempt_def)

lemma sample_published: "get_task_outcome ''job-1'' published_db = Inr (Some sample_outcome)"
proof -
  have "to_attempt sample_outcome < 2 ^ 63" "fa_job_id sample_attempt = ''job-1''" by (simp_all add: sample_outcome_def sample_attempt_def)
  with publish_eq [OF sample_control_ok sample_attempt_storable sample_outcome_storable sample_bound _ sample_recorded, of noon]
  have "publish_task_outcome noon sample_attempt sample_outcome finished_db = (Inr sample_outcome, published_db)"
    by (simp add: finished_rows select_outcome_def published_db_def)
  from publish_success [OF sample_control_ok sample_attempt_storable sample_outcome_storable this] show ?thesis
    by (simp add: sample_attempt_def)
qed

section \<open>Properties\<close>

text \<open>
  C29. Publication is fenced and happens once. For a well-formed outcome bound to an attempt, whose digest no other job's outcome has: when
  the attempt is not the recorded one of its job, the call raises and changes nothing; when it is and the job has
  no outcome, the outcome is stored; when the job has this very outcome, the call returns it and changes nothing; and when it has
  another, the call raises a conflict and changes nothing.
\<close>

theorem publish_exact:
  assumes "control_ok d" and "storable_attempt a" and "storable_outcome t" and "validate_outcome_binding a t = Inr ()"
    and "to_attempt t < 2 ^ 63"
    and "\<And>u. u \<in> set (db_outcomes d) \<Longrightarrow> u_outcome_digest u = outcome_digest t \<Longrightarrow> u_job_id u = to_job_id t"
  shows "if recorded a d
     then publish_task_outcome utc a t d = (case select_outcome (fa_job_id a) d of
       None \<Rightarrow> (Inr t, add_outcome (outcome_row_of t (utc_now utc)) d)
     | Some u \<Rightarrow> if u = outcome_row_of t (u_published_at u) then (Inr t, d)
                else (Inl (TaskOutcomeConflictError ''job already has a different immutable task outcome''), d))
     else (\<exists>e. publish_task_outcome utc a t d = (Inl e, d))"
  using publish_eq [OF assms(1-5) _ assms(6)] publish_stale [OF assms(1,2)] by simp

theorem publish_exact_witness:
  "publish_task_outcome noon sample_attempt sample_outcome finished_db =
     (Inr sample_outcome, add_outcome (outcome_row_of sample_outcome (utc_now noon)) finished_db)"
  using publish_exact [OF sample_control_ok sample_attempt_storable sample_outcome_storable sample_bound, of noon] sample_recorded
  by (simp add: finished_rows select_outcome_def) (simp add: sample_outcome_def)

text \<open>
  C30. A published outcome is permanent. Once the store answers with an outcome for a job, it gives the same answer
  after every further run of queue and store calls, and every publication of a different outcome for the job raises and
  changes nothing.
\<close>

theorem outcome_permanent:
  assumes "control_ok d" and "get_task_outcome k d = Inr (Some t)" and "control_step\<^sup>*\<^sup>* d d'"
  shows "get_task_outcome k d' = Inr (Some t) \<and>
     (\<forall>utc a t'. fa_job_id a = k \<and> t' \<noteq> t \<longrightarrow> (\<exists>e. publish_task_outcome utc a t' d' = (Inl e, d')))"
proof -
  have ok': "control_ok d'" by (rule control.inv_run [OF assms(3,1)])
  have "set (db_outcomes d) \<subseteq> set (db_outcomes d')" using control.le_run [OF assms(3,1)] by (auto simp: db_le_def)
  then have "get_task_outcome k d' = Inr (Some t)"
    using assms(2) unfolding get_outcome_iff [OF assms(1)] get_outcome_iff [OF ok'] by blast
  then show ?thesis using publish_conflict by blast
qed

theorem outcome_permanent_witness:
  "get_task_outcome ''job-1'' published_db = Inr (Some sample_outcome) \<and>
   (\<exists>e. publish_task_outcome noon sample_attempt (sample_outcome\<lparr>to_decision := FAILED\<rparr>) published_db = (Inl e, published_db))"
proof -
  have ok: "control_ok published_db" using control.inv_step [OF sample_control_ok published_step] .
  have "fa_job_id sample_attempt = ''job-1''" "sample_outcome\<lparr>to_decision := FAILED\<rparr> \<noteq> sample_outcome"
    by (simp_all add: sample_attempt_def sample_outcome_def)
  with outcome_permanent [OF ok sample_published rtranclp.rtrancl_refl] show ?thesis by blast
qed

text \<open>
  C31. In every database the control plane can reach, whatever the calls, the outcome the store answers with for a job is about
  a coding job that is completed, under the job's current attempt number, and the attempt digest it names is the
  one recorded with that job's attempt, whose text is the job's result.
\<close>

theorem outcome_lineage:
  assumes "control_step\<^sup>*\<^sup>* (snd (initialize empty_db)) d" and "get_task_outcome k d = Inr (Some t)"
  shows "\<exists>r\<in>set (db_jobs d). j_job_id r = k \<and> j_kind r = ''coding-agent'' \<and> j_status r = Completed \<and> j_attempts r = to_attempt t \<and>
     (\<exists>s\<in>set (db_attempts d). t_job_id s = k \<and> t_attempt s = to_attempt t \<and> t_attempt_digest s = to_attempt_digest t \<and>
        j_result_json r = Some (t_payload_json s))"
proof -
  have ok: "control_ok d" using control.inv_run [OF assms(1)] start_control_ok by (simp add: start_db_def)
  from assms(2) obtain u now where u: "u \<in> set (db_outcomes d)" "u_job_id u = k" "u = outcome_row_of t now"
    unfolding get_outcome_iff [OF ok] by blast
  from control_okD(4) [OF ok u(1)] obtain s where s: "s \<in> set (db_attempts d)" "t_job_id s = u_job_id u" "t_attempt s = u_attempt u"
    "t_attempt_digest s = u_attempt_digest u" unfolding outcome_ok_def by blast
  from queue_okD(5) [OF control_okD(1) [OF ok] s(1)] obtain r where "r \<in> set (db_jobs d)" "j_job_id r = t_job_id s" "j_status r = Completed"
    "j_kind r = ''coding-agent''" "j_attempts r = t_attempt s" "j_result_json r = Some (t_payload_json s)" unfolding lineage_ok_def by blast
  with s u show ?thesis by auto
qed

theorem outcome_lineage_witness:
  "\<exists>r\<in>set (db_jobs published_db). j_job_id r = ''job-1'' \<and> j_status r = Completed \<and> j_attempts r = 1"
proof -
  have run: "control_step\<^sup>*\<^sup>* (snd (initialize empty_db)) published_db"
    using rtranclp.rtrancl_into_rtrancl [OF finished_control_run published_step] by (simp add: start_db_def)
  from outcome_lineage [OF run sample_published] show ?thesis by (auto simp: sample_outcome_def)
qed

end
