(* ===== verification/Control_Adjudication.thy ===== *)
theory Control_Adjudication
  imports Receipt_Observations Outcome_Authority
begin

text \<open>
  The two services that turn a finished attempt into a published outcome: \<^verbatim>\<open>services/evidence_contract.py\<close>, which runs the final
  verification and evaluates its facts, and \<^verbatim>\<open>services/control_outcomes.py\<close>, which loads the attempt, adjudicates it and publishes; with the
  requests and results of their ports, \<^verbatim>\<open>ports/evidence_contracts.py\<close> and \<^verbatim>\<open>ports/control_outcomes.py\<close>. The verifier is a
  parameter: what it answers to the three calls the service makes.
\<close>

section \<open>Requests and results\<close>

definition bounded_token :: "string \<Rightarrow> bool" where
  "bounded_token v \<longleftrightarrow> \<not> (v = [] \<or> 256 < length v \<or> py_strip v \<noteq> v \<or> (\<exists>c\<in>set v. py_isspace c) \<or> (\<exists>c\<in>set v. py_ord c < 32))"

record evidence_adjudication_request =
  jq_job_result :: attempt_finished
  jq_profile :: verification_profile
  jq_contract :: evidence_contract
  jq_run_id :: string
  jq_producer_authority :: string

definition mk_adjudication_request :: "evidence_adjudication_request \<Rightarrow> evidence_adjudication_request result" where
  "mk_adjudication_request q =
     (if ec_verification_profile_digest (jq_contract q) \<noteq> profile_digest (jq_profile q)
      then Inl (ValueError ''adjudication profile does not match the EvidenceContract'')
      else if \<not> is_safe_id 127 (jq_run_id q) \<or> jq_run_id q \<in> {''.'', ''..''} then Inl (ValueError ''adjudication run ID contains unsafe characters'')
      else if \<not> bounded_token (jq_producer_authority q) then Inl (ValueError ''adjudication producer authority must be a bounded token'')
      else Inr q)"

record evidence_adjudication_result =
  jr_job_id :: string
  jr_attempt_id :: string
  jr_output_bundle_id :: string
  jr_agent_reported_success :: bool
  jr_verification_request :: bundle_verification_request
  jr_verification_result :: verification_service_result
  jr_observations :: "evidence_observation list"
  jr_evaluation :: contract_evaluation

definition mk_adjudication_result :: "evidence_adjudication_result \<Rightarrow> evidence_adjudication_result result" where
  "mk_adjudication_result r =
     (if jr_job_id r = [] \<or> jr_attempt_id r = [] \<or> jr_output_bundle_id r = [] then Inl (ValueError ''adjudication result identity must be non-empty'')
      else if jr_output_bundle_id r \<noteq> wb_bundle_id (bq_workspace_bundle (jr_verification_request r))
      then Inl (ValueError ''adjudication output bundle does not match the verification request'')
      else if sv_request_digest (jr_verification_result r) \<noteq> bundle_request_digest (jr_verification_request r)
      then Inl (ValueError ''adjudication verification result does not match its request'')
      else if sv_workspace_bundle_id (jr_verification_result r) \<noteq> jr_output_bundle_id r
      then Inl (ValueError ''adjudication verification result does not match the output bundle'')
      else if sv_profile_digest (jr_verification_result r) \<noteq> profile_digest (bq_profile (jr_verification_request r))
      then Inl (ValueError ''adjudication verification result does not match the profile'')
      else if vr_run_id (sv_receipt (jr_verification_result r)) \<noteq> bq_run_id (jr_verification_request r)
      then Inl (ValueError ''adjudication receipt does not match the verification run'') else Inr r)"

record task_outcome_request =
  oq_job_id :: string
  oq_profile :: verification_profile
  oq_contract :: evidence_contract
  oq_run_id :: string
  oq_producer_authority :: string

definition mk_outcome_request :: "task_outcome_request \<Rightarrow> task_outcome_request result" where
  "mk_outcome_request q =
     (if oq_job_id q = [] then Inl (ValueError ''task outcome job ID must be non-empty'')
      else if ec_verification_profile_digest (oq_contract q) \<noteq> profile_digest (oq_profile q)
      then Inl (ValueError ''task outcome profile does not match the EvidenceContract'')
      else if \<not> is_safe_id 127 (oq_run_id q) \<or> oq_run_id q \<in> {''.'', ''..''} then Inl (ValueError ''task outcome run ID contains unsafe characters'')
      else if \<not> bounded_token (oq_producer_authority q) then Inl (ValueError ''task outcome producer authority must be a bounded token'')
      else Inr q)"

section \<open>The evidence service\<close>

text \<open>
  \<open>VerificationServicePort\<close>: the identity it runs under, the result of a request, and the receipt stored under an artifact
  reference; and \<open>ReceiptObservationPort\<close>, by default the adapter of the receipt observations.
\<close>

record verifier_port =
  vf_execution_identity :: "verifier_execution_identity result"
  vf_execute :: "bundle_verification_request \<Rightarrow> verification_service_result result"
  vf_read_receipt :: "artifact_ref \<Rightarrow> verification_receipt result"

record observation_port =
  op_adapter_digest :: string
  op_adapt :: "bundle_verification_request \<Rightarrow> verification_service_result \<Rightarrow> string \<Rightarrow> evidence_observation list result"

definition ReceiptObservationAdapter :: observation_port where
  "ReceiptObservationAdapter = \<lparr>op_adapter_digest = RECEIPT_OBSERVATION_ADAPTER_DIGEST, op_adapt = adapt\<rparr>"

definition evidence_adjudicate :: "verifier_port \<Rightarrow> observation_port \<Rightarrow> evidence_adjudication_request \<Rightarrow> evidence_adjudication_result result" where
  "evidence_adjudicate verifier adapter request =
     (if op_adapter_digest adapter \<noteq> ec_observation_adapter_digest (jq_contract request)
      then Inl (VerificationBindingError ''observation adapter does not match the EvidenceContract'')
      else if vp_schema_version (jq_profile request) \<noteq> PROFILE_V2 \<or> vp_asset_bundle (jq_profile request) = None
      then Inl (VerificationBindingError ''Control final verification requires a v2 verifier-asset profile'')
      else
        bindE (vf_execution_identity verifier) (\<lambda>execution_identity.
        bindE (mk_bundle_request \<lparr>bq_run_id = jq_run_id request, bq_workspace_bundle = fa_output_bundle (jq_job_result request),
          bq_profile = jq_profile request, bq_execution_identity = Some execution_identity, bq_schema_version = BUNDLE_REQUEST_V2\<rparr>) (\<lambda>verification_request.
        bindE (vf_execute verifier verification_request) (\<lambda>answered.
        bindE (validate_final_verification_bindings verification_request answered True) (\<lambda>_.
        bindE (vf_read_receipt verifier (sv_receipt_artifact answered)) (\<lambda>authoritative_receipt.
        if authoritative_receipt \<noteq> sv_receipt answered
        then Inl (VerificationBindingError ''inline verification receipt does not match its authoritative artifact'')
        else
          bindE (mk_service_result \<lparr>sv_request_digest = sv_request_digest answered, sv_workspace_bundle_id = sv_workspace_bundle_id answered,
            sv_profile_digest = sv_profile_digest answered, sv_receipt = authoritative_receipt, sv_receipt_artifact = sv_receipt_artifact answered,
            sv_execution_identity = sv_execution_identity answered, sv_schema_version = sv_schema_version answered\<rparr>) (\<lambda>verification_result.
          bindE (validate_final_verification_bindings verification_request verification_result True) (\<lambda>_.
          bindE (op_adapt adapter verification_request verification_result (jq_producer_authority request)) (\<lambda>observations.
          bindE (validate_final_command_observations verification_request verification_result observations (jq_producer_authority request)) (\<lambda>_.
          bindE (evaluate_evidence_contract (jq_contract request) observations DEFAULT_LIMITS) (\<lambda>evaluation.
          mk_adjudication_result \<lparr>jr_job_id = fa_job_id (jq_job_result request), jr_attempt_id = fa_attempt_id (jq_job_result request),
            jr_output_bundle_id = wb_bundle_id (fa_output_bundle (jq_job_result request)),
            jr_agent_reported_success = ar_success (fa_agent_result (jq_job_result request)), jr_verification_request = verification_request,
            jr_verification_result = verification_result, jr_observations = observations, jr_evaluation = evaluation\<rparr>)))))))))))"

section \<open>The outcome service\<close>

definition outcome_inputs_differ :: "task_outcome_request \<Rightarrow> task_outcome \<Rightarrow> bool" where
  "outcome_inputs_differ request existing \<longleftrightarrow> to_contract_digest existing \<noteq> contract_digest (oq_contract request) \<or>
     to_verification_profile_digest existing \<noteq> profile_digest (oq_profile request) \<or> to_verification_run_id existing \<noteq> oq_run_id request \<or>
     to_producer_authority existing \<noteq> oq_producer_authority request"

text \<open>The checks on an adjudication before it becomes an outcome, and the outcome.\<close>

definition adjudication_unbound :: "task_outcome_request \<Rightarrow> attempt_finished \<Rightarrow> evidence_adjudication_result \<Rightarrow> verifier_execution_identity \<Rightarrow>
    verifier_asset_bundle_ref \<Rightarrow> bool" where
  "adjudication_unbound request attempt adjudication execution_identity asset_bundle \<longleftrightarrow>
     (let verification_request = jr_verification_request adjudication;
          verification = jr_verification_result adjudication;
          receipt = sv_receipt verification
      in jr_job_id adjudication \<noteq> fa_job_id attempt \<or> jr_attempt_id adjudication \<noteq> fa_attempt_id attempt \<or>
         jr_output_bundle_id adjudication \<noteq> wb_bundle_id (fa_output_bundle attempt) \<or> bq_run_id verification_request \<noteq> oq_run_id request \<or>
         bq_workspace_bundle verification_request \<noteq> fa_output_bundle attempt \<or> bq_profile verification_request \<noteq> oq_profile request \<or>
         sv_request_digest verification \<noteq> bundle_request_digest verification_request \<or>
         sv_workspace_bundle_id verification \<noteq> wb_bundle_id (fa_output_bundle attempt) \<or> sv_profile_digest verification \<noteq> profile_digest (oq_profile request) \<or>
         sv_execution_identity verification \<noteq> bq_execution_identity verification_request \<or> vr_run_id receipt \<noteq> oq_run_id request \<or>
         vr_request_digest receipt \<noteq> bundle_request_digest verification_request \<or>
         vr_workspace_bundle_id receipt \<noteq> Some (wb_bundle_id (fa_output_bundle attempt)) \<or>
         vr_profile_digest receipt \<noteq> Some (profile_digest (oq_profile request)) \<or>
         vr_execution_identity_digest receipt \<noteq> Some (identity_digest execution_identity) \<or>
         vr_verifier_asset_bundle_id receipt \<noteq> Some (ab_bundle_id asset_bundle))"

definition build_outcome :: "task_outcome_request \<Rightarrow> attempt_finished \<Rightarrow> evidence_adjudication_result \<Rightarrow> task_outcome result" where
  "build_outcome request attempt adjudication =
     (let verification_request = jr_verification_request adjudication;
          verification = jr_verification_result adjudication;
          evaluation = jr_evaluation adjudication
      in case (vp_asset_bundle (oq_profile request), bq_execution_identity verification_request) of
         (Some asset_bundle, Some execution_identity) \<Rightarrow>
           if vp_schema_version (oq_profile request) \<noteq> PROFILE_V2 \<or> bq_schema_version verification_request \<noteq> BUNDLE_REQUEST_V2 \<or>
              sv_schema_version verification \<noteq> SERVICE_V2 \<or> vr_schema_version (sv_receipt verification) \<noteq> RECEIPT_V3
           then Inl (ControlTaskOutcomeError ''Control outcome requires asset- and identity-bound v2 verification'')
           else if adjudication_unbound request attempt adjudication execution_identity asset_bundle
           then Inl (ControlTaskOutcomeError ''adjudication result is not bound to the authoritative attempt'')
           else bindE (from_evaluation evaluation) (\<lambda>decision.
             mk_task_outcome \<lparr>to_job_id = fa_job_id attempt, to_attempt = fa_attempt attempt, to_attempt_id = fa_attempt_id attempt,
               to_attempt_digest = attempt_digest attempt, to_source_bundle_id = wb_bundle_id (fa_source_bundle attempt),
               to_output_bundle_id = wb_bundle_id (fa_output_bundle attempt), to_contract_digest = contract_digest (oq_contract request),
               to_contract = oq_contract request, to_verification_run_id = bq_run_id verification_request,
               to_verification_request_digest = sv_request_digest verification, to_verification_profile_digest = sv_profile_digest verification,
               to_verification_profile = oq_profile request, to_verification_receipt_digest = receipt_digest (sv_receipt verification),
               to_verification_receipt_artifact = sv_receipt_artifact verification, to_producer_authority = oq_producer_authority request,
               to_observation_set_digest = ce_observation_set_digest evaluation, to_evaluation_digest = evaluation_digest evaluation,
               to_evaluation = evaluation, to_decision = decision, to_evidence_finished_at = vr_finished_at (sv_receipt verification),
               to_verification_execution_identity_digest = Some (identity_digest execution_identity),
               to_verification_execution_identity = Some execution_identity, to_schema_version = OUTCOME_V2\<rparr>)
       | _ \<Rightarrow> Inl (ControlTaskOutcomeError ''Control outcome requires asset- and identity-bound v2 verification''))"

text \<open>
  The method reads the attempt, reads the outcome and publishes in three transactions; in between other callers may run, so each of the
  three works on a database of its own: \<open>s1\<close>, \<open>s2\<close> and \<open>s3\<close>, the last of which a publication changes.
\<close>

definition adjudicate :: "'s authority_port \<Rightarrow> (evidence_adjudication_request \<Rightarrow> evidence_adjudication_result result) \<Rightarrow> task_outcome_request \<Rightarrow>
    's \<Rightarrow> 's \<Rightarrow> 's \<Rightarrow> task_outcome result \<times> 's" where
  "adjudicate authority adjudicator request s1 s2 s3 =
     (case ap_get_attempt_finished authority (oq_job_id request) s1 of
        Inl e \<Rightarrow> (Inl e, s3)
      | Inr None \<Rightarrow> (Inl (ControlTaskOutcomeError ''job has no authoritative AttemptFinished record''), s3)
      | Inr (Some attempt) \<Rightarrow>
          (case ap_get_task_outcome authority (oq_job_id request) s2 of
             Inl e \<Rightarrow> (Inl e, s3)
           | Inr (Some existing) \<Rightarrow>
               if outcome_inputs_differ request existing
               then (Inl (ControlTaskOutcomeError ''job already has an outcome bound to different Control inputs''), s3)
               else ap_publish_task_outcome authority attempt existing s3
           | Inr None \<Rightarrow>
               (case bindE (mk_adjudication_request \<lparr>jq_job_result = attempt, jq_profile = oq_profile request, jq_contract = oq_contract request,
                    jq_run_id = oq_run_id request, jq_producer_authority = oq_producer_authority request\<rparr>)
                  (\<lambda>q. bindE (adjudicator q) (build_outcome request attempt)) of
                  Inl e \<Rightarrow> (Inl e, s3)
                | Inr outcome \<Rightarrow> ap_publish_task_outcome authority attempt outcome s3)))"

section \<open>What the evidence service establishes\<close>

lemma bounded_token_producer: "bounded_token v \<longleftrightarrow> producer_ok v"
proof -
  have "py_ord (CHR 0x00) < 32" by code_simp
  then show ?thesis by (auto simp: bounded_token_def producer_ok_def text_ok_def)
qed

lemma mk_keeps:
  "mk_bundle_request q = Inr q' \<Longrightarrow> q' = q" "mk_service_result r = Inr r' \<Longrightarrow> r' = r" "mk_adjudication_result x = Inr x' \<Longrightarrow> x' = x"
  "mk_adjudication_request y = Inr y' \<Longrightarrow> y' = y"
  by (auto simp: mk_bundle_request_def mk_service_result_def mk_adjudication_result_def mk_adjudication_request_def bindE_eq_Inr
      split: if_splits option.splits)

definition final_request_of :: "evidence_adjudication_request \<Rightarrow> verifier_execution_identity \<Rightarrow> bundle_verification_request" where
  "final_request_of q x = \<lparr>bq_run_id = jq_run_id q, bq_workspace_bundle = fa_output_bundle (jq_job_result q), bq_profile = jq_profile q,
     bq_execution_identity = Some x, bq_schema_version = BUNDLE_REQUEST_V2\<rparr>"

lemma service_result_eta: "\<lparr>sv_request_digest = sv_request_digest s, sv_workspace_bundle_id = sv_workspace_bundle_id s, sv_profile_digest = sv_profile_digest s,
    sv_receipt = sv_receipt s, sv_receipt_artifact = sv_receipt_artifact s, sv_execution_identity = sv_execution_identity s,
    sv_schema_version = sv_schema_version s\<rparr> = s"
  by simp

lemma evidence_adjudicate_Inr:
  assumes "evidence_adjudicate v ad q = Inr r"
  obtains x res where "vf_execution_identity v = Inr x" "mk_bundle_request (final_request_of q x) = Inr (final_request_of q x)"
    "vf_execute v (final_request_of q x) = Inr res" "validate_final_verification_bindings (final_request_of q x) res True = Inr ()"
    "vf_read_receipt v (sv_receipt_artifact res) = Inr (sv_receipt res)" "mk_service_result res = Inr res"
    "op_adapt ad (final_request_of q x) res (jq_producer_authority q) = Inr (jr_observations r)"
    "validate_final_command_observations (final_request_of q x) res (jr_observations r) (jq_producer_authority q) = Inr ()"
    "evaluate_evidence_contract (jq_contract q) (jr_observations r) DEFAULT_LIMITS = Inr (jr_evaluation r)"
    "jr_verification_request r = final_request_of q x" "jr_verification_result r = res" "jr_job_id r = fa_job_id (jq_job_result q)"
    "vp_schema_version (jq_profile q) = PROFILE_V2" "vp_asset_bundle (jq_profile q) \<noteq> None"
proof -
  from assms obtain x req res where 1: "vf_execution_identity v = Inr x" "mk_bundle_request (final_request_of q x) = Inr req"
    "vf_execute v req = Inr res" "validate_final_verification_bindings req res True = Inr ()"
    and 2: "vf_read_receipt v (sv_receipt_artifact res) = Inr (sv_receipt res)"
    and 3: "\<exists>res' obs ev. mk_service_result res = Inr res' \<and> op_adapt ad req res' (jq_producer_authority q) = Inr obs \<and>
      validate_final_command_observations req res' obs (jq_producer_authority q) = Inr () \<and>
      evaluate_evidence_contract (jq_contract q) obs DEFAULT_LIMITS = Inr ev \<and>
      r = \<lparr>jr_job_id = fa_job_id (jq_job_result q), jr_attempt_id = fa_attempt_id (jq_job_result q),
            jr_output_bundle_id = wb_bundle_id (fa_output_bundle (jq_job_result q)),
            jr_agent_reported_success = ar_success (fa_agent_result (jq_job_result q)), jr_verification_request = req,
            jr_verification_result = res', jr_observations = obs, jr_evaluation = ev\<rparr>"
    and 4: "vp_schema_version (jq_profile q) = PROFILE_V2" "vp_asset_bundle (jq_profile q) \<noteq> None"
    unfolding evidence_adjudicate_def final_request_of_def
    by (auto simp: bindE_eq_Inr service_result_eta dest!: mk_keeps(3) split: if_splits)
  from 3 mk_keeps(2) obtain obs ev where "mk_service_result res = Inr res" "op_adapt ad req res (jq_producer_authority q) = Inr obs"
    "validate_final_command_observations req res obs (jq_producer_authority q) = Inr ()"
    "evaluate_evidence_contract (jq_contract q) obs DEFAULT_LIMITS = Inr ev"
    "jr_verification_request r = req" "jr_verification_result r = res" "jr_observations r = obs" "jr_evaluation r = ev"
    "jr_job_id r = fa_job_id (jq_job_result q)" by force
  with 1 2 4 mk_keeps(1) [OF 1(2)] show thesis by (intro that [of x res]) simp_all
qed

lemma map_sum_bindE: "map_sum id f (bindE m g) = bindE m (\<lambda>a. map_sum id f (g a))"
  by (cases m) simp_all

lemma mk_result_agent:
  "mk_adjudication_result (x\<lparr>jr_agent_reported_success := b\<rparr>) = map_sum id (\<lambda>adj. adj\<lparr>jr_agent_reported_success := b\<rparr>) (mk_adjudication_result x)"
  by (simp add: mk_adjudication_result_def)

text \<open>Values of the classes a port answers with have passed their constructors.\<close>

definition verifier_values :: "verifier_port \<Rightarrow> bool" where
  "verifier_values v \<longleftrightarrow> (\<forall>x. vf_execution_identity v = Inr x \<longrightarrow> wf_identity x) \<and> (\<forall>q s. vf_execute v q = Inr s \<longrightarrow> wf_service_result s)"

definition adjudicator_values :: "(evidence_adjudication_request \<Rightarrow> evidence_adjudication_result result) \<Rightarrow> bool" where
  "adjudicator_values adjudicator \<longleftrightarrow> (\<forall>q r. wf_attempt (jq_job_result q) \<and> wf_profile (jq_profile q) \<and> wf_contract (jq_contract q) \<and> adjudicator q = Inr r \<longrightarrow>
     wf_bundle_request (jr_verification_request r) \<and> wf_service_result (jr_verification_result r) \<and> wf_evaluation (jr_evaluation r))"

lemma evaluate_clause_wf: "evaluate_clause obs c = Inr p \<Longrightarrow> wf_predicate p"
  by (auto simp: evaluate_clause_def Let_def mk_predicate_evaluation_eq split: list.splits if_splits option.splits prod.splits)

lemma contract_evaluation_of_wf: "contract_evaluation_of c od lc res ps code = Inr ev \<Longrightarrow> list_all wf_predicate ps \<Longrightarrow> wf_evaluation ev"
  by (auto simp: contract_evaluation_of_def mk_contract_evaluation_eq)

lemma evaluate_wf: "evaluate_evidence_contract c obs limits = Inr ev \<Longrightarrow> wf_evaluation ev"
proof -
  assume ev: "evaluate_evidence_contract c obs limits = Inr ev"
  have "evaluate_clauses cs obs = Inr ps \<Longrightarrow> list_all wf_predicate ps" for cs ps
    unfolding evaluate_clauses_def by (rule mapE_list_all) (auto dest: evaluate_clause_wf)
  with ev show ?thesis unfolding evaluate_evidence_contract_def
    by (auto simp: bindE_eq_Inr dest: contract_evaluation_of_wf split: if_splits option.splits)
qed

lemma final_request_of_wf:
  assumes "verifier_values v" "wf_attempt (jq_job_result q)" "wf_profile (jq_profile q)" "vf_execution_identity v = Inr x"
    and mk: "mk_bundle_request (final_request_of q x) = Inr (final_request_of q x)"
  shows "wf_bundle_request (final_request_of q x)"
proof -
  have "wf_bundle (fa_output_bundle (jq_job_result q))" "wf_identity x" using assms by (auto simp: wf_attempt_def verifier_values_def)
  with mk assms(3) show ?thesis by (subst (asm) mk_bundle_request_eq) (simp_all add: final_request_of_def)
qed

lemma evidence_adjudicate_values: "verifier_values v \<Longrightarrow> adjudicator_values (evidence_adjudicate v ad)"
  unfolding adjudicator_values_def
proof (intro allI impI, elim conjE)
  fix q r
  assume v: "verifier_values v" and q: "wf_attempt (jq_job_result q)" "wf_profile (jq_profile q)" and adj: "evidence_adjudicate v ad q = Inr r"
  from adj show "wf_bundle_request (jr_verification_request r) \<and> wf_service_result (jr_verification_result r) \<and> wf_evaluation (jr_evaluation r)"
  proof (rule evidence_adjudicate_Inr)
    fix x res
    assume id: "vf_execution_identity v = Inr x" and mk: "mk_bundle_request (final_request_of q x) = Inr (final_request_of q x)"
      and ex: "vf_execute v (final_request_of q x) = Inr res" and r: "jr_verification_request r = final_request_of q x" "jr_verification_result r = res"
      and ev: "evaluate_evidence_contract (jq_contract q) (jr_observations r) DEFAULT_LIMITS = Inr (jr_evaluation r)"
    have "wf_bundle_request (final_request_of q x)" by (rule final_request_of_wf [OF v q id mk])
    moreover have "wf_service_result res" using v ex by (auto simp: verifier_values_def)
    ultimately show ?thesis using r evaluate_wf [OF ev] by simp
  qed
qed

section \<open>What the outcome service establishes\<close>

text \<open>An authority whose answers outlast the steps of all its callers.\<close>

locale outcome_history = outcome_authority +
  fixes step :: "'a \<Rightarrow> 'a \<Rightarrow> bool"
  assumes inv_step: "inv s \<Longrightarrow> step s s' \<Longrightarrow> inv s'"
    and attempt_step: "inv s \<Longrightarrow> step s s' \<Longrightarrow> ap_get_attempt_finished port k s = Inr (Some a) \<Longrightarrow> ap_get_attempt_finished port k s' = Inr (Some a)"
    and outcome_step: "inv s \<Longrightarrow> step s s' \<Longrightarrow> ap_get_task_outcome port k s = Inr (Some t) \<Longrightarrow> ap_get_task_outcome port k s' = Inr (Some t)"
begin

lemma run:
  "step\<^sup>*\<^sup>* s s' \<Longrightarrow> inv s \<Longrightarrow> inv s' \<and>
     (ap_get_attempt_finished port k s = Inr (Some a) \<longrightarrow> ap_get_attempt_finished port k s' = Inr (Some a)) \<and>
     (ap_get_task_outcome port k s = Inr (Some t) \<longrightarrow> ap_get_task_outcome port k s' = Inr (Some t))"
  by (induction rule: rtranclp_induct) (auto intro: inv_step attempt_step outcome_step)

end

text \<open>The requests whose profile can be stored: their time limits read back.\<close>

definition request_ok :: "task_outcome_request \<Rightarrow> bool" where
  "request_ok request \<longleftrightarrow> wf_profile (oq_profile request) \<and> wf_contract (oq_contract request) \<and>
     list_all (\<lambda>c. float_ok (cs_timeout_seconds c)) (vp_commands (oq_profile request))"

definition outcome_for :: "task_outcome_request \<Rightarrow> attempt_finished \<Rightarrow> task_outcome \<Rightarrow> bool" where
  "outcome_for request attempt t \<longleftrightarrow> \<not> outcome_inputs_differ request t \<and> validate_outcome_binding attempt t = Inr ()"

lemma build_outcome_ok:
  assumes b: "build_outcome request attempt adj = Inr t" and req: "request_ok request"
    and adj: "wf_bundle_request (jr_verification_request adj)" "wf_service_result (jr_verification_result adj)" "wf_evaluation (jr_evaluation adj)"
  shows "storable_outcome t \<and> \<not> outcome_inputs_differ request t \<and> to_evaluation t = jr_evaluation adj \<and>
     from_evaluation (jr_evaluation adj) = Inr (to_decision t)"
proof -
  from b obtain u x where mk: "mk_task_outcome u = Inr t" and u: "to_contract u = oq_contract request" "to_verification_profile u = oq_profile request"
      "to_verification_receipt_artifact u = sv_receipt_artifact (jr_verification_result adj)" "to_evaluation u = jr_evaluation adj"
      "to_verification_execution_identity u = Some x" "bq_execution_identity (jr_verification_request adj) = Some x"
      "to_contract_digest u = contract_digest (oq_contract request)" "to_verification_profile_digest u = profile_digest (oq_profile request)"
      "to_verification_run_id u = oq_run_id request" "to_producer_authority u = oq_producer_authority request"
    by (auto simp: build_outcome_def adjudication_unbound_def Let_def bindE_eq_Inr split: option.splits if_splits)
  have nested: "nested_ok u"
    using u req adj by (auto simp: nested_ok_def request_ok_def wf_service_result_def wf_bundle_request_def)
  from mk_task_outcome_eq [OF nested, of t] mk have t: "t = u" "wf_outcome u" by simp_all
  then show ?thesis using u req by (auto simp: storable_outcome_def request_ok_def outcome_inputs_differ_def wf_outcome_def)
qed

definition adjudication_request_of :: "task_outcome_request \<Rightarrow> attempt_finished \<Rightarrow> evidence_adjudication_request" where
  "adjudication_request_of request attempt = \<lparr>jq_job_result = attempt, jq_profile = oq_profile request, jq_contract = oq_contract request,
     jq_run_id = oq_run_id request, jq_producer_authority = oq_producer_authority request\<rparr>"

lemma adjudication_values:
  assumes "request_ok request" "wf_attempt attempt" "adjudicator_values adjudicator" "adjudicator (adjudication_request_of request attempt) = Inr adj"
  shows "wf_bundle_request (jr_verification_request adj)" "wf_service_result (jr_verification_result adj)" "wf_evaluation (jr_evaluation adj)"
proof -
  have "wf_attempt (jq_job_result (adjudication_request_of request attempt))" "wf_profile (jq_profile (adjudication_request_of request attempt))"
    "wf_contract (jq_contract (adjudication_request_of request attempt))"
    using assms(1,2) by (simp_all add: adjudication_request_of_def request_ok_def)
  then show "wf_bundle_request (jr_verification_request adj)" "wf_service_result (jr_verification_result adj)" "wf_evaluation (jr_evaluation adj)"
    using assms(3,4) unfolding adjudicator_values_def by blast+
qed

text \<open>Where an outcome came from: it was already published, or it carries the evaluation of the adjudicator.\<close>

definition outcome_source :: "'s authority_port \<Rightarrow> (evidence_adjudication_request \<Rightarrow> evidence_adjudication_result result) \<Rightarrow> task_outcome_request \<Rightarrow>
    's \<Rightarrow> attempt_finished \<Rightarrow> task_outcome \<Rightarrow> bool" where
  "outcome_source port adjudicator request s attempt t \<longleftrightarrow> ap_get_task_outcome port (oq_job_id request) s = Inr (Some t) \<or>
     (ap_get_task_outcome port (oq_job_id request) s = Inr None \<and>
      (\<exists>adj. adjudicator (adjudication_request_of request attempt) = Inr adj \<and> build_outcome request attempt adj = Inr t))"

context outcome_history
begin

lemma adjudicate_sound:
  assumes s1: "inv s1" "step\<^sup>*\<^sup>* s1 s2" "step\<^sup>*\<^sup>* s2 s3" and req: "request_ok request" and adj: "adjudicator_values adjudicator"
    and call: "adjudicate port adjudicator request s1 s2 s3 = (Inr t, s')"
  obtains attempt where "inv s'" "ap_get_attempt_finished port (oq_job_id request) s' = Inr (Some attempt)"
    "ap_get_task_outcome port (oq_job_id request) s' = Inr (Some t)" "outcome_for request attempt t"
    "outcome_source port adjudicator request s2 attempt t"
proof -
  note goal = that
  from call obtain attempt where att: "ap_get_attempt_finished port (oq_job_id request) s1 = Inr (Some attempt)"
    by (auto simp: adjudicate_def split: sum.splits option.splits)
  note a = attempt_job [OF s1(1) att]
  have s2: "inv s2" using run [OF s1(2,1)] by blast
  have s3: "inv s3" using run [OF s1(3) s2] by blast
  have concl: thesis if u: "storable_outcome u" "\<not> outcome_inputs_differ request u" "outcome_source port adjudicator request s2 attempt u"
    and pub: "ap_publish_task_outcome port attempt u s3 = (Inr t, s')" for u
  proof -
    from published [OF s3 _ u(1) pub] a have "t = u" "inv s'" "validate_outcome_binding attempt u = Inr ()"
      "ap_get_task_outcome port (oq_job_id request) s' = Inr (Some u)" "ap_get_attempt_finished port (oq_job_id request) s' = Inr (Some attempt)" by simp_all
    with u show thesis by (intro goal [of attempt]) (simp_all add: outcome_for_def)
  qed
  show thesis
  proof (cases "ap_get_task_outcome port (oq_job_id request) s2")
    case (Inr found)
    show thesis
    proof (cases found)
      case (Some existing)
      with Inr call att have "\<not> outcome_inputs_differ request existing" "ap_publish_task_outcome port attempt existing s3 = (Inr t, s')"
        by (auto simp: adjudicate_def split: if_splits)
      moreover have "storable_outcome existing" using outcome_job [OF s2] Inr Some by blast
      ultimately show thesis using Inr Some by (intro concl [of existing]) (simp_all add: outcome_source_def)
    next
      case None
      from call att Inr None obtain q adj u where "mk_adjudication_request (adjudication_request_of request attempt) = Inr q"
        "adjudicator q = Inr adj" and u: "build_outcome request attempt adj = Inr u" and pub: "ap_publish_task_outcome port attempt u s3 = (Inr t, s')"
        by (auto simp: adjudicate_def adjudication_request_of_def bindE_eq_Inr split: sum.splits)
      then have r: "adjudicator (adjudication_request_of request attempt) = Inr adj" using mk_keeps(4) by metis
      have "wf_attempt attempt" using a by (simp add: storable_attempt_def)
      note vals = adjudication_values [OF req this adj r]
      from build_outcome_ok [OF u req vals] show thesis using r u Inr None pub
        by (intro concl [of u]) (auto simp: outcome_source_def)
    qed
  qed (use call att in \<open>simp add: adjudicate_def\<close>)
qed

lemma adjudicate_refused: "adjudicate port adjudicator request s1 s2 s3 = (Inl e, s') \<Longrightarrow> s' = s3"
  by (auto simp: adjudicate_def dest: refused split: sum.splits option.splits if_splits)

lemma adjudicate_again:
  assumes s: "inv s" and att: "ap_get_attempt_finished port (oq_job_id request) s = Inr (Some attempt)"
    and out: "ap_get_task_outcome port (oq_job_id request) s = Inr (Some t)" and bound: "outcome_for request attempt t"
    and runs: "step\<^sup>*\<^sup>* s s1" "step\<^sup>*\<^sup>* s1 s2" "step\<^sup>*\<^sup>* s2 s3"
  shows "adjudicate port adjudicator request s1 s2 s3 = (Inr t, s3)"
proof -
  note s1 = run [OF runs(1) s] note s2 = run [OF runs(2)] note s3 = run [OF runs(3)]
  have "inv s1" "inv s2" "inv s3" using s1 s2 s3 by blast+
  moreover have "ap_get_attempt_finished port (oq_job_id request) s1 = Inr (Some attempt)" using s1 att by blast
  moreover have "ap_get_task_outcome port (oq_job_id request) s1 = Inr (Some t)" using s1 out by blast
  ultimately have "ap_get_task_outcome port (oq_job_id request) s2 = Inr (Some t)" "ap_get_task_outcome port (oq_job_id request) s3 = Inr (Some t)"
    "ap_get_attempt_finished port (oq_job_id request) s3 = Inr (Some attempt)" "ap_get_attempt_finished port (oq_job_id request) s1 = Inr (Some attempt)" "inv s3"
    using s2 s3 by blast+
  with republish [of s3 "oq_job_id request" attempt t] bound show ?thesis by (simp add: adjudicate_def outcome_for_def)
qed

end

lemma attempt_kept:
  assumes ok: "control_ok d" and step: "control_step d d'" and got: "get_attempt_finished k d = Inr (Some a)"
  shows "get_attempt_finished k d' = Inr (Some a)"
proof -
  have a: "fa_job_id a = k" "storable_attempt a" using latest_attempt_lineage [OF control_okD(1) [OF ok] got] by simp_all
  have "recorded a d" using got get_attempt_iff [OF control_okD(1) [OF ok] a(2)] a(1) by simp
  moreover have "set (db_attempts d) \<subseteq> set (db_attempts d')" using control_le_step [OF ok step] by (auto simp: db_le_def)
  ultimately have "recorded a d'" by (auto simp: recorded_def)
  then show ?thesis using get_attempt_iff [OF control_okD(1) [OF control_ok_step [OF ok step]] a(2)] a(1) by simp
qed

lemma outcome_kept:
  assumes ok: "control_ok d" and step: "control_step d d'" and got: "get_task_outcome k d = Inr (Some t)"
  shows "get_task_outcome k d' = Inr (Some t)"
proof -
  have "set (db_outcomes d) \<subseteq> set (db_outcomes d')" using control_le_step [OF ok step] by (auto simp: db_le_def)
  with got show ?thesis unfolding get_outcome_iff [OF ok] get_outcome_iff [OF control_ok_step [OF ok step]] by blast
qed

lemma sqlite_fields [simp]:
  "ap_get_attempt_finished (sqlite_authority utc) = get_attempt_finished" "ap_get_task_outcome (sqlite_authority utc) = get_task_outcome"
  "ap_publish_task_outcome (sqlite_authority utc) = publish_task_outcome utc"
  by (simp_all add: sqlite_authority_def)

interpretation history: outcome_history "sqlite_authority utc" control_ok control_step for utc
  by unfold_locales (auto intro: control_ok_step attempt_kept outcome_kept)

section \<open>Rebinding a contract\<close>

text \<open>A lint-clean contract stays clean when it is bound to other digests: its text keeps its length.\<close>

definition same_length :: "string \<times> pyobj \<Rightarrow> string \<times> pyobj \<Rightarrow> bool" where
  "same_length x y \<longleftrightarrow> fst x = fst y \<and> length (json_dumps (snd x)) = length (json_dumps (snd y))"

lemma same_length_pair [simp]: "same_length (k, v) (k', w) \<longleftrightarrow> k = k' \<and> length (json_dumps v) = length (json_dumps w)"
  by (simp add: same_length_def)

lemma dict_set_same_length:
  "list_all2 same_length d e \<Longrightarrow> length (json_dumps v) = length (json_dumps w) \<Longrightarrow> list_all2 same_length (dict_set k v d) (dict_set k w e)"
  by (induction rule: list_all2_induct) auto

lemma py_dict_same_length: "list_all2 same_length xs ys \<Longrightarrow> list_all2 same_length (py_dict xs) (py_dict ys)"
proof -
  have "list_all2 same_length d e \<Longrightarrow>
      list_all2 same_length (fold (\<lambda>(k, v). dict_set k v) xs d) (fold (\<lambda>(k, v). dict_set k v) ys e)"
    if "list_all2 same_length xs ys" for d e
    using that by (induction arbitrary: d e rule: list_all2_induct) (auto simp: dict_set_same_length)
  then show "list_all2 same_length xs ys \<Longrightarrow> list_all2 same_length (py_dict xs) (py_dict ys)" by (simp add: py_dict_def)
qed

lemma join_sep_length: "map length xs = map length ys \<Longrightarrow> length (join_sep sep xs) = length (join_sep sep ys)"
proof (induction sep xs arbitrary: ys rule: join_sep.induct)
  case (3 sep x z zs)
  then obtain y w ws where ys: "ys = y # w # ws" by (cases ys rule: remdups_adj.cases) auto
  with 3 show ?case by simp
qed auto

lemma dict_dump_length: "list_all2 same_length d e \<Longrightarrow> length (json_dumps (PDict d)) = length (json_dumps (PDict e))"
proof -
  assume "list_all2 same_length d e"
  then have "map length (map (\<lambda>kv. json_string (fst kv) @ '':'' @ json_dumps (snd kv)) d) =
      map length (map (\<lambda>kv. json_string (fst kv) @ '':'' @ json_dumps (snd kv)) e)"
    by (induction rule: list_all2_induct) (auto simp: same_length_def)
  from join_sep_length [OF this] show ?thesis by simp
qed

lemma hex_not_escaped: "is_lower_hex c \<Longrightarrow> json_escape c = [c]"
proof -
  have bad: "\<not> is_lower_hex (CHR 0x22)" "\<not> is_lower_hex (CHR 0x5C)" "\<not> is_lower_hex (CHR 0x0A)" "\<not> is_lower_hex (CHR 0x0D)"
    "\<not> is_lower_hex (CHR 0x09)" "\<not> is_lower_hex (CHR 0x0C)" "\<not> is_lower_hex (CHR 0x08)" by code_simp+
  assume c: "is_lower_hex c"
  then have "32 \<le> py_ord c" "py_ord c \<le> 126" by (auto simp: is_lower_hex_def is_digit_def)
  moreover have "c \<noteq> CHR 0x22" "c \<noteq> CHR 0x5C" "c \<noteq> CHR 0x0A" "c \<noteq> CHR 0x0D" "c \<noteq> CHR 0x09" "c \<noteq> CHR 0x0C" "c \<noteq> CHR 0x08"
    using c bad by blast+
  ultimately show ?thesis unfolding json_escape_def by (simp only: if_False if_True simp_thms)
qed

lemma digest_dump_length:
  assumes "is_sha256 v"
  shows "length (json_dumps (PStr v)) = 73"
proof -
  have v: "v = ''sha256:'' @ drop 7 v" "list_all is_lower_hex (drop 7 v)" "length v = 71"
    using assms append_take_drop_id [of 7 v] by (simp_all add: is_sha256_def del: append_take_drop_id)
  have hex: "concat (map json_escape h) = h" if "list_all is_lower_hex h" for h
    using that by (induction h) (simp_all add: hex_not_escaped)
  have "concat (map json_escape ''sha256:'') = ''sha256:''" by code_simp
  then have "concat (map json_escape (''sha256:'' @ drop 7 v)) = ''sha256:'' @ drop 7 v"
    unfolding map_append concat_append hex [OF v(2)] by (simp only:)
  then show ?thesis using v(3) unfolding json_dumps.simps json_string_def v(1) [symmetric] by simp
qed

lemma contract_clean_rebind:
  assumes "contract_clean c limits" "wf_contract c" "is_sha256 p" "is_sha256 a"
  shows "contract_clean (c\<lparr>ec_verification_profile_digest := p, ec_observation_adapter_digest := a\<rparr>) limits"
proof -
  have "is_sha256 (ec_verification_profile_digest c)" "is_sha256 (ec_observation_adapter_digest c)" using assms(2) by (simp_all add: wf_contract_def)
  then have "list_all2 same_length (contract_items (c\<lparr>ec_verification_profile_digest := p, ec_observation_adapter_digest := a\<rparr>)) (contract_items c)"
    using assms(3,4) digest_dump_length by (simp add: contract_items_def same_length_def del: json_dumps.simps)
  from dict_dump_length [OF py_dict_same_length [OF this]] assms(1) show ?thesis
    by (simp add: contract_clean_def lint_clean_def contract_payload_def)
qed

section \<open>Samples\<close>

text \<open>A verifier that answers the sample request with the sample result, and a contract and request bound to its profile.\<close>

definition sample_verifier :: verifier_port where
  "sample_verifier = \<lparr>vf_execution_identity = Inr sample_identity, vf_execute = (\<lambda>_. Inr final_result), vf_read_receipt = (\<lambda>_. Inr final_receipt)\<rparr>"

definition final_contract :: evidence_contract where
  "final_contract = verdict_contract\<lparr>ec_verification_profile_digest := profile_digest final_profile,
     ec_observation_adapter_digest := RECEIPT_OBSERVATION_ADAPTER_DIGEST\<rparr>"

definition sample_outcome_request :: task_outcome_request where
  "sample_outcome_request = \<lparr>oq_job_id = ''job-1'', oq_profile = final_profile, oq_contract = final_contract, oq_run_id = ''run-1'',
     oq_producer_authority = ''harness''\<rparr>"

lemma adapter_digest_form [simp]: "is_sha256 RECEIPT_OBSERVATION_ADAPTER_DIGEST"
  by (simp add: RECEIPT_OBSERVATION_ADAPTER_DIGEST_def)

lemma final_contract_ok: "wf_contract final_contract" "contract_clean final_contract DEFAULT_LIMITS"
proof -
  show "wf_contract final_contract" using verdict_contract_ok(1) by (simp add: final_contract_def wf_contract_def)
  show "contract_clean final_contract DEFAULT_LIMITS"
    unfolding final_contract_def by (rule contract_clean_rebind [OF verdict_contract_ok(2,1)]) simp_all
qed

lemma final_verdict: "fact_valuation final_contract facts = fact_valuation verdict_contract facts" "ec_task_success final_contract = ec_task_success verdict_contract"
  by (simp_all add: fact_valuation_def final_contract_def)

lemma sample_verifier_values: "verifier_values sample_verifier"
proof -
  have "wf_identity sample_identity" by code_simp
  then show ?thesis by (simp add: verifier_values_def sample_verifier_def final_result_wf)
qed

lemma sample_request_ok: "request_ok sample_outcome_request"
  using final_profile_wf final_contract_ok(1) float_ok_60 by (simp add: request_ok_def sample_outcome_request_def) (simp add: final_profile_def)

lemma sample_request_of: "final_request_of (adjudication_request_of sample_outcome_request sample_attempt) sample_identity = final_request"
  by (simp add: final_request_of_def adjudication_request_of_def sample_outcome_request_def final_request_def sample_attempt_def)

lemma final_fields:
  "bq_run_id final_request = ''run-1''" "bq_workspace_bundle final_request = sample_bundle" "bq_profile final_request = final_profile"
  "bq_execution_identity final_request = Some sample_identity" "bq_schema_version final_request = BUNDLE_REQUEST_V2"
  "sv_request_digest final_result = bundle_request_digest final_request" "sv_workspace_bundle_id final_result = wb_bundle_id sample_bundle"
  "sv_profile_digest final_result = profile_digest final_profile" "sv_receipt final_result = final_receipt" "sv_receipt_artifact final_result = final_artifact"
  "sv_execution_identity final_result = Some sample_identity" "sv_schema_version final_result = SERVICE_V2"
  "vr_run_id final_receipt = ''run-1''" "vr_schema_version final_receipt = RECEIPT_V3" "vr_request_digest final_receipt = bundle_request_digest final_request"
  "vr_workspace_bundle_id final_receipt = Some (wb_bundle_id sample_bundle)" "vr_profile_digest final_receipt = Some (profile_digest final_profile)"
  "vr_execution_identity_digest final_receipt = Some (identity_digest sample_identity)"
  "vr_verifier_asset_bundle_id final_receipt = Some (ab_bundle_id sample_assets)" "vr_commands final_receipt = [final_command]"
  "ec_observation_adapter_digest final_contract = RECEIPT_OBSERVATION_ADAPTER_DIGEST" "ec_verification_profile_digest final_contract = profile_digest final_profile"
  "vp_schema_version final_profile = PROFILE_V2" "vp_asset_bundle final_profile = Some sample_assets"
  by (simp add: final_request_def final_result_def final_receipt_def sample_receipt_def final_contract_def final_profile_def)+

lemma sample_attempt_fields:
  "fa_job_id sample_attempt = ''job-1''" "fa_attempt_id sample_attempt = ''job-1/attempt-0001''" "fa_attempt sample_attempt = 1"
  "fa_output_bundle sample_attempt = sample_bundle" "fa_source_bundle sample_attempt = sample_bundle" "ar_success (fa_agent_result sample_attempt) = True"
  by (simp_all add: sample_attempt_def sample_agent_result_def)

lemma evaluation_contract: "evaluate_evidence_contract c obs limits = Inr ev \<Longrightarrow> ce_contract_digest ev = contract_digest c"
proof -
  have "contract_evaluation_of c od lc res ps code = Inr ev \<Longrightarrow> ce_contract_digest ev = contract_digest c" for od lc res ps code
    unfolding contract_evaluation_of_def mk_contract_evaluation_def by (simp only: bindE_eq_Inr if_Inl_eq_Inr) auto
  then show "evaluate_evidence_contract c obs limits = Inr ev \<Longrightarrow> ce_contract_digest ev = contract_digest c"
    unfolding evaluate_evidence_contract_def by (auto simp: bindE_eq_Inr split: if_splits option.splits)
qed

lemma sample_adjudication:
  obtains adj where "evidence_adjudicate sample_verifier ReceiptObservationAdapter (adjudication_request_of sample_outcome_request sample_attempt) = Inr adj"
    "ce_lifecycle (jr_evaluation adj) = COMPLETED" "ce_logical_result (jr_evaluation adj) = Some PASS" "wf_evaluation (jr_evaluation adj)"
    "ce_contract_digest (jr_evaluation adj) = contract_digest final_contract" "jr_verification_request adj = final_request" "jr_verification_result adj = final_result"
    "jr_job_id adj = ''job-1''" "jr_attempt_id adj = ''job-1/attempt-0001''" "jr_output_bundle_id adj = wb_bundle_id sample_bundle"
proof -
  have token: "is_token ''harness''" by code_simp
  note cmds = final_fields(9,20)
  obtain obs where obs: "adapt final_request final_result ''harness'' = Inr obs" "list_all wf_observation obs" "distinct (map ob_observation_id obs)"
    using adapt_total [OF final_request_wf final_result_wf bindings_weaken [OF final_bindings] token final_range] by (auto simp: cmds)
  have "length obs = length (receipt_facts ''harness'' [final_command])" using adapt_sound [OF obs(1)] unfolding cmds by (metis length_map)
  then have "observations_ok obs DEFAULT_LIMITS"
    using obs(3) by (simp add: observations_ok_def DEFAULT_LIMITS_def receipt_facts_length COMMAND_FACT_TYPES_def)
  then obtain ev where ev: "evaluate_evidence_contract final_contract obs DEFAULT_LIMITS = Inr ev" "ce_lifecycle ev = COMPLETED"
    using evaluate_completed [OF final_contract_ok(1) obs(2) final_contract_ok(2)] by metis
  have valid: "validate_final_command_observations final_request final_result obs ''harness'' = Inr ()"
    using observations_exact [of final_result final_request obs "''harness''"] adapt_sound [OF obs(1)] by (simp add: cmds)
  have mk: "mk_bundle_request final_request = Inr final_request" "mk_service_result final_result = Inr final_result"
  proof -
    show "mk_bundle_request final_request = Inr final_request"
      using final_request_wf by (subst mk_bundle_request_eq) (auto simp: wf_bundle_request_def)
    show "mk_service_result final_result = Inr final_result"
      using final_result_wf by (subst mk_service_result_eq) (auto simp: wf_service_result_def)
  qed
  let ?adj = "\<lparr>jr_job_id = ''job-1'', jr_attempt_id = ''job-1/attempt-0001'', jr_output_bundle_id = wb_bundle_id sample_bundle,
    jr_agent_reported_success = True, jr_verification_request = final_request, jr_verification_result = final_result,
    jr_observations = obs, jr_evaluation = ev\<rparr>"
  have "wb_bundle_id sample_bundle \<noteq> []" by (simp add: sample_bundle_def)
  then have result: "mk_adjudication_result ?adj = Inr ?adj"
    by (simp add: mk_adjudication_result_def final_fields)
  let ?q = "adjudication_request_of sample_outcome_request sample_attempt"
  have q: "jq_contract ?q = final_contract" "jq_profile ?q = final_profile" "jq_producer_authority ?q = ''harness''" "jq_job_result ?q = sample_attempt"
    by (simp_all add: adjudication_request_of_def sample_outcome_request_def)
  have "evidence_adjudicate sample_verifier ReceiptObservationAdapter ?q = Inr ?adj"
    using sample_request_of unfolding evidence_adjudicate_def q sample_attempt_fields final_request_of_def
    by (simp add: final_fields(9,20-24) sample_verifier_def ReceiptObservationAdapter_def mk final_bindings
        service_result_eta [of final_result, unfolded final_fields(9)] obs valid ev result)
  moreover have "ce_logical_result ev = Some PASS"
    using verdict_of_facts [OF _ valid ev] verdict_value by (metis cmds distinct_singleton final_verdict Inr_inject list.simps(8,9))
  ultimately show thesis using evaluate_wf [OF ev(1)] evaluation_contract [OF ev(1)] by (intro that) (assumption | simp add: ev)+
qed

text \<open>The whole service on the finished sample job: the verifier's receipt passes, and the outcome is published.\<close>

abbreviation sample_service :: "evidence_adjudication_request \<Rightarrow> evidence_adjudication_result result" where
  "sample_service \<equiv> evidence_adjudicate sample_verifier ReceiptObservationAdapter"

lemma sample_outcome_built:
  obtains adj t where "sample_service (adjudication_request_of sample_outcome_request sample_attempt) = Inr adj"
    "ce_logical_result (jr_evaluation adj) = Some PASS" "build_outcome sample_outcome_request sample_attempt adj = Inr t"
    "to_decision t = PASSED" "validate_outcome_binding sample_attempt t = Inr ()" "to_attempt t = 1"
proof -
  obtain adj where adj: "sample_service (adjudication_request_of sample_outcome_request sample_attempt) = Inr adj"
    "ce_lifecycle (jr_evaluation adj) = COMPLETED" "ce_logical_result (jr_evaluation adj) = Some PASS" "wf_evaluation (jr_evaluation adj)"
    "ce_contract_digest (jr_evaluation adj) = contract_digest final_contract" "jr_verification_request adj = final_request"
    "jr_verification_result adj = final_result" "jr_job_id adj = ''job-1''" "jr_attempt_id adj = ''job-1/attempt-0001''"
    "jr_output_bundle_id adj = wb_bundle_id sample_bundle" by (rule sample_adjudication)
  have pass: "from_evaluation (jr_evaluation adj) = Inr PASSED" using adj by (simp add: from_evaluation_def)
  let ?t = "\<lparr>to_job_id = ''job-1'', to_attempt = 1, to_attempt_id = ''job-1/attempt-0001'',
     to_attempt_digest = attempt_digest sample_attempt, to_source_bundle_id = wb_bundle_id sample_bundle,
     to_output_bundle_id = wb_bundle_id sample_bundle, to_contract_digest = contract_digest final_contract,
     to_contract = final_contract, to_verification_run_id = ''run-1'',
     to_verification_request_digest = bundle_request_digest final_request, to_verification_profile_digest = profile_digest final_profile,
     to_verification_profile = final_profile, to_verification_receipt_digest = receipt_digest final_receipt,
     to_verification_receipt_artifact = final_artifact, to_producer_authority = ''harness'',
     to_observation_set_digest = ce_observation_set_digest (jr_evaluation adj), to_evaluation_digest = evaluation_digest (jr_evaluation adj),
     to_evaluation = jr_evaluation adj, to_decision = PASSED, to_evidence_finished_at = vr_finished_at final_receipt,
     to_verification_execution_identity_digest = Some (identity_digest sample_identity),
     to_verification_execution_identity = Some sample_identity, to_schema_version = OUTCOME_V2\<rparr>"
  have parts: "wf_identity sample_identity" "wf_artifact final_artifact" "af_artifact_id final_artifact = ''run-1/receipt.json''" "producer_ok ''harness''"
    "attempt_name ''job-1'' 1 = ''job-1/attempt-0001''" "text_ok (wb_bundle_id sample_bundle)" "text_ok ''job-1''" "text_ok ''run-1''" by code_simp+
  have time: "text_ok (vr_finished_at final_receipt)" using final_receipt_wf by (simp add: storable_receipt_def wf_receipt_def)
  have obs: "is_sha256 (ce_observation_set_digest (jr_evaluation adj))" using adj(4) by (simp add: wf_evaluation_def)
  have nested: "nested_ok ?t" using adj(4) by (simp add: nested_ok_def parts final_profile_wf final_contract_ok)
  have "wf_outcome ?t" unfolding wf_outcome_def
    by (simp add: nested parts time obs adj pass snapshots_ok_def identity_binding_ok_def final_fields)
  then have mk: "mk_task_outcome ?t = Inr ?t" by (simp add: mk_task_outcome_eq [OF nested])
  have built: "build_outcome sample_outcome_request sample_attempt adj = Inr ?t"
    using mk pass by (simp add: build_outcome_def adjudication_unbound_def adj Let_def sample_attempt_fields sample_outcome_request_def final_fields)
  show thesis by (rule that [OF adj(1,3) built]) (simp_all add: validate_outcome_binding_def sample_attempt_fields)
qed

lemma sample_adjudicated:
  obtains t s where "adjudicate (sqlite_authority noon) sample_service sample_outcome_request finished_db finished_db finished_db = (Inr t, s)"
    "to_decision t = PASSED" "control_step finished_db s"
proof -
  obtain adj t where adj: "sample_service (adjudication_request_of sample_outcome_request sample_attempt) = Inr adj"
    and t: "build_outcome sample_outcome_request sample_attempt adj = Inr t" "to_decision t = PASSED"
      "validate_outcome_binding sample_attempt t = Inr ()" "to_attempt t = 1" by (rule sample_outcome_built)
  have q: "oq_job_id sample_outcome_request = ''job-1''" by (simp add: sample_outcome_request_def)
  have att: "get_attempt_finished ''job-1'' finished_db = Inr (Some sample_attempt)"
    using sample_recorded get_attempt_iff [OF control_okD(1) [OF sample_control_ok] sample_attempt_storable] by (simp add: sample_attempt_fields)
  have out: "get_task_outcome ''job-1'' finished_db = Inr None" by (simp add: get_task_outcome_def select_outcome_def finished_rows)
  have tokens: "bounded_token ''harness''" "is_safe_id 127 ''run-1''" by code_simp+
  have mk: "mk_adjudication_request (adjudication_request_of sample_outcome_request sample_attempt) = Inr (adjudication_request_of sample_outcome_request sample_attempt)"
    by (simp add: mk_adjudication_request_def adjudication_request_of_def sample_outcome_request_def final_fields tokens)
  note vals = adjudication_values [OF sample_request_ok sample_attempt_wf evidence_adjudicate_values [OF sample_verifier_values] adj]
  have st: "storable_outcome t" using build_outcome_ok [OF t(1) sample_request_ok vals] by blast
  have "publish_task_outcome noon sample_attempt t finished_db = (Inr t, add_outcome (outcome_row_of t (utc_now noon)) finished_db)"
    using publish_eq [OF sample_control_ok sample_attempt_storable st t(3) _ sample_recorded, of noon] t(4) by (simp add: finished_rows select_outcome_def)
  with att out mk adj t have "adjudicate (sqlite_authority noon) sample_service sample_outcome_request finished_db finished_db finished_db =
      (Inr t, add_outcome (outcome_row_of t (utc_now noon)) finished_db)"
    by (simp add: adjudicate_def q adjudication_request_of_def)
  moreover have "control_step finished_db (add_outcome (outcome_row_of t (utc_now noon)) finished_db)"
    using control_publish [OF sample_attempt_wf st \<open>publish_task_outcome noon sample_attempt t finished_db = _\<close>] .
  ultimately show thesis using t(2) by (intro that)
qed

section \<open>Properties\<close>

text \<open>
  C35. What a returned adjudication rests on, whatever verifier and observation adapter are plugged in, as long as the values they answer with passed their
  constructors. The verification that was run is of the attempt's output bundle, under the requested profile and run and the
  verifier's own identity; its result passes the binding checks; its receipt is the one the verifier stores under the result's artifact reference; and
  when the evaluation completed, its logical result is the contract's success condition on the facts of that receipt.
\<close>

theorem adjudication_sound:
  assumes "evidence_adjudicate v adapter q = Inr adj" and "verifier_values v" and "wf_attempt (jq_job_result q)" and "wf_profile (jq_profile q)"
  shows "\<exists>x. vf_execution_identity v = Inr x \<and>
     jr_verification_request adj = \<lparr>bq_run_id = jq_run_id q, bq_workspace_bundle = fa_output_bundle (jq_job_result q), bq_profile = jq_profile q,
       bq_execution_identity = Some x, bq_schema_version = BUNDLE_REQUEST_V2\<rparr> \<and>
     vf_execute v (jr_verification_request adj) = Inr (jr_verification_result adj) \<and>
     validate_final_verification_bindings (jr_verification_request adj) (jr_verification_result adj) True = Inr () \<and>
     vf_read_receipt v (sv_receipt_artifact (jr_verification_result adj)) = Inr (sv_receipt (jr_verification_result adj)) \<and>
     (ce_lifecycle (jr_evaluation adj) = COMPLETED \<longrightarrow>
       (\<exists>root. evaluate_expression (ec_task_success (jq_contract q)) (fact_valuation (jq_contract q)
          (receipt_facts (jq_producer_authority q) (vr_commands (sv_receipt (jr_verification_result adj))))) = Inr root \<and>
        ce_logical_result (jr_evaluation adj) = Some root))"
  using assms(1)
proof (rule evidence_adjudicate_Inr)
  fix x res
  assume facts: "vf_execution_identity v = Inr x" "vf_execute v (final_request_of q x) = Inr res"
      "vf_read_receipt v (sv_receipt_artifact res) = Inr (sv_receipt res)" "jr_verification_request adj = final_request_of q x" "jr_verification_result adj = res"
    and bound: "validate_final_verification_bindings (final_request_of q x) res True = Inr ()"
    and obs: "validate_final_command_observations (final_request_of q x) res (jr_observations adj) (jq_producer_authority q) = Inr ()"
    and ev: "evaluate_evidence_contract (jq_contract q) (jr_observations adj) DEFAULT_LIMITS = Inr (jr_evaluation adj)"
    and mk: "mk_bundle_request (final_request_of q x) = Inr (final_request_of q x)"
  have "wf_bundle_request (final_request_of q x)" by (rule final_request_of_wf [OF assms(2-4) facts(1) mk])
  from verdict_of_facts [OF bindings_names [OF bound this] obs ev] facts bound show ?thesis
    by (intro exI [of _ x]) (auto simp: final_request_of_def)
qed

theorem adjudication_sound_witness:
  "\<exists>adj. evidence_adjudicate sample_verifier ReceiptObservationAdapter (adjudication_request_of sample_outcome_request sample_attempt) = Inr adj \<and>
     vf_execute sample_verifier (jr_verification_request adj) = Inr (jr_verification_result adj) \<and> ce_logical_result (jr_evaluation adj) = Some PASS"
proof -
  obtain adj where adj: "sample_service (adjudication_request_of sample_outcome_request sample_attempt) = Inr adj"
    "ce_logical_result (jr_evaluation adj) = Some PASS" by (rule sample_outcome_built)
  from adjudication_sound [OF adj(1) sample_verifier_values] sample_attempt_wf final_profile_wf adj show ?thesis
    by (auto simp: adjudication_request_of_def sample_outcome_request_def)
qed

text \<open>
  C36. The agent's own claims do not matter: replacing the agent result of the finished attempt by any other one changes nothing in the
  adjudication, whether it raises or returns, but the flag that repeats what the agent reported.
\<close>

theorem agent_claims_ignored:
  "evidence_adjudicate v adapter (q\<lparr>jq_job_result := (jq_job_result q)\<lparr>fa_agent_result := r\<rparr>\<rparr>) =
     map_sum id (\<lambda>adj. adj\<lparr>jr_agent_reported_success := ar_success r\<rparr>) (evidence_adjudicate v adapter q)"
  unfolding evidence_adjudicate_def by (simp add: map_sum_bindE if_distrib [of "map_sum id _"] mk_result_agent [symmetric] cong: if_cong)

text \<open>
  C37. The outcome service publishes what the adjudicator found. It reads the attempt, reads the outcome and publishes on three databases, each
  reached from the one before by any run of queue and store calls. If it raises, it has changed nothing. If it returns an outcome, the resulting database
  holds that outcome for the job, bound to the job's recorded attempt and to the contract, profile, run and
  producer of the request; and the outcome was there before or was built from the adjudicator's answer for that attempt.
\<close>

theorem adjudicate_publishes:
  assumes "control_ok s1" and "control_step\<^sup>*\<^sup>* s1 s2" and "control_step\<^sup>*\<^sup>* s2 s3" and "request_ok request" and "adjudicator_values adjudicator"
  shows "case adjudicate (sqlite_authority utc) adjudicator request s1 s2 s3 of
     (Inl e, s') \<Rightarrow> s' = s3
   | (Inr t, s') \<Rightarrow> control_ok s' \<and> get_task_outcome (oq_job_id request) s' = Inr (Some t) \<and>
       (\<exists>attempt. get_attempt_finished (oq_job_id request) s' = Inr (Some attempt) \<and> outcome_for request attempt t \<and>
          outcome_source (sqlite_authority utc) adjudicator request s2 attempt t)"
proof (cases "adjudicate (sqlite_authority utc) adjudicator request s1 s2 s3")
  case (Pair r s')
  show ?thesis
  proof (cases r)
    case (Inl e)
    with Pair show ?thesis using history.adjudicate_refused by (auto split: sum.split)
  next
    case (Inr t)
    with Pair have "adjudicate (sqlite_authority utc) adjudicator request s1 s2 s3 = (Inr t, s')" by simp
    from history.adjudicate_sound [OF assms this] show ?thesis unfolding Pair Inr by auto
  qed
qed

theorem adjudicate_publishes_witness:
  "\<exists>t s'. adjudicate (sqlite_authority noon) sample_service sample_outcome_request finished_db finished_db finished_db = (Inr t, s') \<and>
     to_decision t = PASSED \<and> get_task_outcome ''job-1'' s' = Inr (Some t)"
proof -
  obtain t s where run: "adjudicate (sqlite_authority noon) sample_service sample_outcome_request finished_db finished_db finished_db = (Inr t, s)"
    "to_decision t = PASSED" by (rule sample_adjudicated)
  have "oq_job_id sample_outcome_request = ''job-1''" by (simp add: sample_outcome_request_def)
  with adjudicate_publishes [OF sample_control_ok rtranclp.rtrancl_refl rtranclp.rtrancl_refl sample_request_ok
      evidence_adjudicate_values [OF sample_verifier_values], of noon ReceiptObservationAdapter] run show ?thesis by simp
qed

text \<open>
  C38. Adjudication is idempotent. After one adjudication of a request returned an outcome, every later adjudication of that request, at any later
  time, after and during any further run of queue and store calls, with whatever adjudicator and clock, returns the same outcome and
  changes nothing.
\<close>

theorem adjudicate_idempotent:
  assumes "control_ok s1" and "control_step\<^sup>*\<^sup>* s1 s2" and "control_step\<^sup>*\<^sup>* s2 s3" and "request_ok request" and "adjudicator_values adjudicator"
    and "adjudicate (sqlite_authority utc) adjudicator request s1 s2 s3 = (Inr t, s)"
    and "control_step\<^sup>*\<^sup>* s r1" and "control_step\<^sup>*\<^sup>* r1 r2" and "control_step\<^sup>*\<^sup>* r2 r3"
  shows "adjudicate (sqlite_authority utc') adjudicator' request r1 r2 r3 = (Inr t, r3)"
proof -
  obtain attempt where "control_ok s" "get_attempt_finished (oq_job_id request) s = Inr (Some attempt)"
    "get_task_outcome (oq_job_id request) s = Inr (Some t)" "outcome_for request attempt t"
    using history.adjudicate_sound [OF assms(1-6)] by auto
  with history.adjudicate_again [of s utc' request attempt t r1 r2 r3 adjudicator'] assms(7-9) show ?thesis by simp
qed

theorem adjudicate_idempotent_witness:
  "\<exists>t s. adjudicate (sqlite_authority noon) sample_service sample_outcome_request finished_db finished_db finished_db = (Inr t, s) \<and>
     to_decision t = PASSED \<and>
     adjudicate (sqlite_authority noon) (\<lambda>_. Inl (ValueError ''unavailable'')) sample_outcome_request s s s = (Inr t, s)"
proof -
  obtain t s where run: "adjudicate (sqlite_authority noon) sample_service sample_outcome_request finished_db finished_db finished_db = (Inr t, s)"
    "to_decision t = PASSED" by (rule sample_adjudicated)
  from adjudicate_idempotent [OF sample_control_ok rtranclp.rtrancl_refl rtranclp.rtrancl_refl sample_request_ok
      evidence_adjudicate_values [OF sample_verifier_values] run(1) rtranclp.rtrancl_refl rtranclp.rtrancl_refl rtranclp.rtrancl_refl]
  show ?thesis using run by blast
qed

end
