(* ===== verification/Agent_Protocol.thy ===== *)
theory Agent_Protocol
  imports Evidence_Contracts
begin

text \<open>
  The language model's side of the agent: what a response has to look like (\<^verbatim>\<open>protocol.py\<close>), the cadence and
  the limits of a run (\<^verbatim>\<open>contracts/policy.py\<close>, \<^verbatim>\<open>config.py\<close>), and the compaction of its transcript (\<^verbatim>\<open>compaction.py\<close>).
\<close>

section \<open>Decisions\<close>

record agent_decision =
  ad_kind :: string
  ad_tool :: "string option"
  ad_arguments :: pydict
  ad_reason :: string
  ad_summary :: "string option"

definition ALLOWED_TOOLS :: "string list" where
  "ALLOWED_TOOLS = [''list_files'', ''read_file'', ''search_text'', ''write_file'', ''replace_text'', ''delete_file'']"

text \<open>
  The pattern \<^verbatim>\<open>```(?:json)?\s*(.*?)\s*```\<close> on the whole text: its lazy group is the fenced text without the optional tag and
  without white space around it.
\<close>

definition unfence :: "string \<Rightarrow> string" where
  "unfence s = (case strip_prefix ''```'' s of
       Some r \<Rightarrow> if 3 \<le> length r \<and> drop (length r - 3) r = ''```''
         then let body = take (length r - 3) r in py_strip (case strip_prefix ''json'' body of Some b \<Rightarrow> b | None \<Rightarrow> body)
         else s
     | None \<Rightarrow> s)"

definition parse_json_object :: "string \<Rightarrow> pydict result" where
  "parse_json_object content =
     (case json_loads (unfence (py_strip content)) of
        Inl _ \<Rightarrow> Inl (ProtocolError ''response is not valid JSON'')
      | Inr (PDict d) \<Rightarrow> Inr d
      | Inr _ \<Rightarrow> Inl (ProtocolError ''response JSON must be an object''))"

definition reject_unknown :: "pydict \<Rightarrow> string list \<Rightarrow> unit result" where
  "reject_unknown payload allowed =
     (let unknown = sort (filter (\<lambda>k. k \<notin> set allowed) (py_keys payload))
      in if unknown \<noteq> [] then Inl (ProtocolError (''response contains unknown fields: '' @ join_sep '', '' unknown)) else Inr ())"

definition tool_decision :: "pydict \<Rightarrow> agent_decision result" where
  "tool_decision payload =
     bindE (reject_unknown payload [''type'', ''tool'', ''arguments'', ''reason'']) (\<lambda>_.
     case dict_get payload ''tool'' of
       PStr tool \<Rightarrow>
         if tool \<notin> set ALLOWED_TOOLS then Inl (ProtocolError (''unsupported tool: '' @ tool))
         else (case dict_get payload ''arguments'' of
             PDict arguments \<Rightarrow>
               (case (case map_of payload ''reason'' of None \<Rightarrow> PStr [] | Some r \<Rightarrow> r) of
                  PStr reason \<Rightarrow> Inr \<lparr>ad_kind = ''tool'', ad_tool = Some tool, ad_arguments = arguments, ad_reason = py_strip reason,
                    ad_summary = None\<rparr>
                | _ \<Rightarrow> Inl (ProtocolError ''tool reason must be a string''))
           | _ \<Rightarrow> Inl (ProtocolError ''tool arguments must be an object''))
     | _ \<Rightarrow> Inl (ProtocolError ''unsupported tool''))"

definition finish_decision :: "pydict \<Rightarrow> agent_decision result" where
  "finish_decision payload =
     bindE (reject_unknown payload [''type'', ''summary'']) (\<lambda>_.
     case dict_get payload ''summary'' of
       PStr summary \<Rightarrow> if py_strip summary = [] then Inl (ProtocolError ''finish summary must be a non-empty string'')
         else Inr \<lparr>ad_kind = ''finish'', ad_tool = None, ad_arguments = [], ad_reason = [], ad_summary = Some (py_strip summary)\<rparr>
     | _ \<Rightarrow> Inl (ProtocolError ''finish summary must be a non-empty string''))"

definition parse_agent_decision :: "string \<Rightarrow> agent_decision result" where
  "parse_agent_decision content =
     bindE (parse_json_object content) (\<lambda>outer.
     bindE (if py_keys outer = [''decision'']
            then (case dict_get outer ''decision'' of PDict nested \<Rightarrow> Inr nested
                  | _ \<Rightarrow> Inl (ProtocolError ''decision envelope must contain an object''))
            else Inr outer) (\<lambda>payload.
     if dict_get payload ''type'' = PStr ''tool'' then tool_decision payload
     else if dict_get payload ''type'' = PStr ''finish'' then finish_decision payload
     else Inl (ProtocolError (''response type must be '' @ py_repr ''tool'' @ '' or '' @ py_repr ''finish''))))"

section \<open>Cadence and limits\<close>

record cadence_policy =
  cp_compaction_interval_steps :: int
  cp_context_char_limit :: int
  cp_keep_recent_events :: int
  cp_reflection_interval_steps :: int
  cp_observation_interval_steps :: int
  cp_verification_interval_mutations :: int
  cp_stagnation_limit :: int

definition mk_cadence_policy :: "cadence_policy \<Rightarrow> cadence_policy result" where
  "mk_cadence_policy c =
     (if \<exists>v\<in>{cp_compaction_interval_steps c, cp_context_char_limit c, cp_keep_recent_events c, cp_reflection_interval_steps c,
          cp_observation_interval_steps c, cp_verification_interval_mutations c, cp_stagnation_limit c}. v \<le> 0
      then Inl (ValueError ''cadence values must be positive'')
      else if \<not> (1 \<le> cp_compaction_interval_steps c \<and> cp_compaction_interval_steps c \<le> 64)
      then Inl (ValueError ''compaction_interval_steps is outside the supported range'')
      else if \<not> (4000 \<le> cp_context_char_limit c \<and> cp_context_char_limit c \<le> 1000000)
      then Inl (ValueError ''context_char_limit is outside the supported range'')
      else if \<not> (1 \<le> cp_keep_recent_events c \<and> cp_keep_recent_events c \<le> 32)
      then Inl (ValueError ''keep_recent_events is outside the supported range'')
      else if \<not> (1 \<le> cp_reflection_interval_steps c \<and> cp_reflection_interval_steps c \<le> 64)
      then Inl (ValueError ''reflection_interval_steps is outside the supported range'')
      else if \<not> (1 \<le> cp_observation_interval_steps c \<and> cp_observation_interval_steps c \<le> 64)
      then Inl (ValueError ''observation_interval_steps is outside the supported range'')
      else if \<not> (1 \<le> cp_verification_interval_mutations c \<and> cp_verification_interval_mutations c \<le> 32)
      then Inl (ValueError ''verification_interval_mutations is outside the supported range'')
      else if \<not> (2 \<le> cp_stagnation_limit c \<and> cp_stagnation_limit c \<le> 32)
      then Inl (ValueError ''stagnation_limit is outside the supported range'')
      else Inr c)"

record agent_limits =
  al_max_steps :: int
  al_max_runtime_seconds :: pyfloat
  al_max_file_bytes :: int
  al_max_tool_output_chars :: int
  al_max_protocol_errors :: int
  al_max_compactions :: int

definition mk_agent_limits :: "agent_limits \<Rightarrow> agent_limits result" where
  "mk_agent_limits l =
     (if \<not> (1 \<le> al_max_steps l \<and> al_max_steps l \<le> 256) then Inl (ValueError ''max_steps must be between 1 and 256'')
      else if \<not> fl_isfinite (al_max_runtime_seconds l) \<or> fl_le (al_max_runtime_seconds l) (Finite 0)
      then Inl (ValueError ''max_runtime_seconds must be positive and finite'')
      else if \<not> (1024 \<le> al_max_file_bytes l \<and> al_max_file_bytes l \<le> 16777216)
      then Inl (ValueError ''max_file_bytes is outside the supported range'')
      else if \<not> (1000 \<le> al_max_tool_output_chars l \<and> al_max_tool_output_chars l \<le> 1000000)
      then Inl (ValueError ''agent byte and output limits are too small'')
      else if \<not> (0 \<le> al_max_protocol_errors l \<and> al_max_protocol_errors l \<le> 32)
      then Inl (ValueError ''max_protocol_errors is outside the supported range'')
      else if \<not> (0 \<le> al_max_compactions l \<and> al_max_compactions l \<le> 64)
      then Inl (ValueError ''agent error and compaction limits must be non-negative'')
      else Inr l)"

section \<open>Compaction\<close>

text \<open>Whether a value counts as true.\<close>

fun py_truthy :: "pyobj \<Rightarrow> bool" where
  "py_truthy PNone = False"
| "py_truthy (PBool b) = b"
| "py_truthy (PInt i) = (i \<noteq> 0)"
| "py_truthy (PFloat f) = (f \<noteq> Finite 0)"
| "py_truthy (PStr s) = (s \<noteq> [])"
| "py_truthy (PList xs) = (xs \<noteq> [])"
| "py_truthy (PTuple xs) = (xs \<noteq> [])"
| "py_truthy (PDict d) = (d \<noteq> [])"
| "py_truthy POpaque = True"

definition transcript_size :: "pydict list \<Rightarrow> int" where
  "transcript_size events = int (length (json_dumps (PList (map PDict events))))"

text \<open>
  The summary of the events that were compacted away. A \<open>Counter\<close> is a dict, a set is the sorted list of its elements, which is what the summary shows
  of them.
\<close>

record compact_summary =
  ks_compacted_event_count :: int
  ks_tool_counts :: "(string \<times> int) list"
  ks_files_read :: "string list"
  ks_files_mutated :: "string list"
  ks_recent_errors :: "string list"
  ks_latest_verification :: "pydict option"

definition empty_summary :: compact_summary where
  "empty_summary = \<lparr>ks_compacted_event_count = 0, ks_tool_counts = [], ks_files_read = [], ks_files_mutated = [], ks_recent_errors = [],
     ks_latest_verification = None\<rparr>"

definition count_tool :: "string \<Rightarrow> (string \<times> int) list \<Rightarrow> (string \<times> int) list" where
  "count_tool tool tools = dict_set tool ((case map_of tools tool of None \<Rightarrow> 0 | Some n \<Rightarrow> n) + 1) tools"

definition note_tool :: "pydict \<Rightarrow> compact_summary \<Rightarrow> compact_summary" where
  "note_tool event s = (case dict_get event ''tool'' of PStr tool \<Rightarrow> s\<lparr>ks_tool_counts := count_tool tool (ks_tool_counts s)\<rparr> | _ \<Rightarrow> s)"

definition note_file :: "pydict \<Rightarrow> compact_summary \<Rightarrow> compact_summary" where
  "note_file event s = (case dict_get event ''output'' of
       PDict output \<Rightarrow>
         (case dict_get output ''path'' of
            PStr path \<Rightarrow> if py_truthy (dict_get event ''mutated'')
              then s\<lparr>ks_files_mutated := insort_insert path (ks_files_mutated s)\<rparr>
              else s\<lparr>ks_files_read := insort_insert path (ks_files_read s)\<rparr>
          | _ \<Rightarrow> s)
     | _ \<Rightarrow> s)"

definition note_error :: "pydict \<Rightarrow> compact_summary \<Rightarrow> compact_summary" where
  "note_error event s = (case dict_get event ''error'' of PStr error \<Rightarrow> s\<lparr>ks_recent_errors := ks_recent_errors s @ [error]\<rparr> | _ \<Rightarrow> s)"

definition note_verification :: "pydict \<Rightarrow> compact_summary \<Rightarrow> compact_summary" where
  "note_verification event s = (if dict_get event ''kind'' = PStr ''verification''
     then s\<lparr>ks_latest_verification := Some (py_dict [(''passed'', dict_get event ''passed''), (''run_id'', dict_get event ''run_id''),
       (''criteria'', dict_get event ''criteria'')])\<rparr>
     else s)"

text \<open>The body of the loop over the events.\<close>

definition compact_event :: "pydict \<Rightarrow> compact_summary \<Rightarrow> compact_summary" where
  "compact_event event s = note_verification event (note_error event (note_file event (note_tool event s)))"

definition last5 :: "'a list \<Rightarrow> 'a list" where
  "last5 xs = drop (length xs - 5) xs"

text \<open>\<open>events[:-k]\<close> and \<open>events[-k:]\<close>; for \<open>k = 0\<close> the first is empty and the second everything.\<close>

definition compact_events :: "compact_summary option \<Rightarrow> pydict list \<Rightarrow> int \<Rightarrow> compact_summary \<times> pydict list" where
  "compact_events previous_summary events keep_recent =
     (let split = (if keep_recent = 0 then 0 else length events - nat keep_recent);
          compacted = take split events;
          recent = drop split events;
          start = (case previous_summary of None \<Rightarrow> empty_summary | Some p \<Rightarrow> p);
          s = fold compact_event compacted start
      in (s\<lparr>ks_compacted_event_count := ks_compacted_event_count start + int (length compacted), ks_recent_errors := last5 (ks_recent_errors s)\<rparr>, recent))"

section \<open>What a decision looks like\<close>

definition decision_ok :: "agent_decision \<Rightarrow> bool" where
  "decision_ok d \<longleftrightarrow>
     ad_kind d = ''tool'' \<and> (\<exists>t\<in>set ALLOWED_TOOLS. ad_tool d = Some t) \<and> py_strip (ad_reason d) = ad_reason d \<and> ad_summary d = None \<or>
     ad_kind d = ''finish'' \<and> ad_tool d = None \<and> ad_arguments d = [] \<and> ad_reason d = [] \<and>
       (\<exists>s. ad_summary d = Some s \<and> s \<noteq> [] \<and> py_strip s = s)"

definition protocol_result :: "('a \<Rightarrow> bool) \<Rightarrow> 'a result \<Rightarrow> bool" where
  "protocol_result P r \<longleftrightarrow> (case r of Inl e \<Rightarrow> \<exists>message. e = ProtocolError message | Inr x \<Rightarrow> P x)"

lemma protocol_result_simps [simp]:
  "protocol_result P (Inl (ProtocolError m))" "protocol_result P (Inr x) = P x"
  by (simp_all add: protocol_result_def)








section \<open>Compaction in parts\<close>

text \<open>The summary of a transcript, and what an event adds to the errors of one.\<close>

definition event_errors :: "pydict \<Rightarrow> string list" where
  "event_errors event = (case dict_get event ''error'' of PStr error \<Rightarrow> [error] | _ \<Rightarrow> [])"

definition summarize :: "pydict list \<Rightarrow> compact_summary" where
  "summarize events = (let s = fold compact_event events empty_summary
     in s\<lparr>ks_compacted_event_count := int (length events), ks_recent_errors := last5 (ks_recent_errors s)\<rparr>)"

lemma last5_append: "last5 (last5 xs @ ys) = last5 (xs @ ys)"
  by (cases "length xs \<le> 5") (auto simp: last5_def intro!: arg_cong2 [where f = drop])

lemma note_simps:
  "note_tool e (s\<lparr>ks_compacted_event_count := n\<rparr>) = (note_tool e s)\<lparr>ks_compacted_event_count := n\<rparr>"
  "note_tool e (s\<lparr>ks_recent_errors := xs\<rparr>) = (note_tool e s)\<lparr>ks_recent_errors := xs\<rparr>"
  "ks_recent_errors (note_tool e s) = ks_recent_errors s"
  "note_file e (s\<lparr>ks_compacted_event_count := n\<rparr>) = (note_file e s)\<lparr>ks_compacted_event_count := n\<rparr>"
  "note_file e (s\<lparr>ks_recent_errors := xs\<rparr>) = (note_file e s)\<lparr>ks_recent_errors := xs\<rparr>"
  "ks_recent_errors (note_file e s) = ks_recent_errors s"
  "note_error e (s\<lparr>ks_compacted_event_count := n\<rparr>) = (note_error e s)\<lparr>ks_compacted_event_count := n\<rparr>"
  "note_error e (s\<lparr>ks_recent_errors := xs\<rparr>) = (note_error e s)\<lparr>ks_recent_errors := xs @ event_errors e\<rparr>"
  "ks_recent_errors (note_error e s) = ks_recent_errors s @ event_errors e"
  "note_verification e (s\<lparr>ks_compacted_event_count := n\<rparr>) = (note_verification e s)\<lparr>ks_compacted_event_count := n\<rparr>"
  "note_verification e (s\<lparr>ks_recent_errors := xs\<rparr>) = (note_verification e s)\<lparr>ks_recent_errors := xs\<rparr>"
  "ks_recent_errors (note_verification e s) = ks_recent_errors s"
  by (simp_all add: note_tool_def note_file_def note_error_def note_verification_def event_errors_def split: pyobj.split)

lemma compact_event_count: "compact_event e (s\<lparr>ks_compacted_event_count := n\<rparr>) = (compact_event e s)\<lparr>ks_compacted_event_count := n\<rparr>"
  by (simp add: compact_event_def note_simps)

lemma compact_event_errors:
  "compact_event e (s\<lparr>ks_recent_errors := xs\<rparr>) = (compact_event e s)\<lparr>ks_recent_errors := xs @ event_errors e\<rparr>"
  by (simp add: compact_event_def note_simps)

lemma compact_event_own: "ks_recent_errors (compact_event e s) = ks_recent_errors s @ event_errors e"
  by (simp add: compact_event_def note_simps)

lemma fold_count: "fold compact_event es (s\<lparr>ks_compacted_event_count := n\<rparr>) = (fold compact_event es s)\<lparr>ks_compacted_event_count := n\<rparr>"
  by (induction es arbitrary: s) (simp_all add: compact_event_count)

lemma fold_errors:
  "fold compact_event es (s\<lparr>ks_recent_errors := xs\<rparr>) = (fold compact_event es s)\<lparr>ks_recent_errors := xs @ concat (map event_errors es)\<rparr>"
  by (induction es arbitrary: s xs) (simp_all add: compact_event_errors)

lemma fold_own_errors: "ks_recent_errors (fold compact_event es s) = ks_recent_errors s @ concat (map event_errors es)"
  by (induction es arbitrary: s) (simp_all add: compact_event_own)

lemma summarize_append:
  "(let t = fold compact_event ys (summarize xs)
    in t\<lparr>ks_compacted_event_count := ks_compacted_event_count (summarize xs) + int (length ys), ks_recent_errors := last5 (ks_recent_errors t)\<rparr>) =
   summarize (xs @ ys)"
  by (simp add: summarize_def Let_def fold_errors fold_count fold_own_errors last5_append)

lemma summarize_Nil: "summarize [] = empty_summary"
  by (simp add: summarize_def empty_summary_def last5_def)

definition compact_point :: "int \<Rightarrow> nat \<Rightarrow> nat" where
  "compact_point k n = (if k = 0 then 0 else n - nat k)"

lemma compact_events_summarize:
  assumes "(case p of None \<Rightarrow> [] = xs | Some s \<Rightarrow> s = summarize xs)"
  shows "compact_events p es k = (summarize (xs @ take (compact_point k (length es)) es), drop (compact_point k (length es)) es)"
proof -
  have start: "(case p of None \<Rightarrow> empty_summary | Some q \<Rightarrow> q) = summarize xs"
    using assms by (auto simp: summarize_Nil split: option.splits)
  show ?thesis using summarize_append [of "take (compact_point k (length es)) es" xs]
    by (simp add: compact_events_def start Let_def compact_point_def)
qed

text \<open>Compaction after each of several chunks of events.\<close>

definition compact_chunk :: "int \<Rightarrow> pydict list \<Rightarrow> compact_summary option \<times> pydict list \<Rightarrow> compact_summary option \<times> pydict list" where
  "compact_chunk k chunk acc = (case compact_events (fst acc) (snd acc @ chunk) k of (s, recent) \<Rightarrow> (Some s, recent))"

lemma compact_chunks_prefix:
  assumes "0 \<le> k"
  shows "chunks \<noteq> [] \<Longrightarrow> fold (compact_chunk k) chunks (None, []) =
     (let total = concat chunks; n = compact_point k (length total) in (Some (summarize (take n total)), drop n total))"
proof (induction chunks rule: rev_induct)
  case (snoc chunk chunks)
  define total n m where "total = concat chunks" and "n = compact_point k (length total)" and "m = compact_point k (length total - n + length chunk)"
  have acc: "fold (compact_chunk k) chunks (None, []) = (if chunks = [] then (None, []) else (Some (summarize (take n total)), drop n total))"
    using snoc.IH by (auto simp: total_def n_def Let_def)
  have step: "compact_chunk k chunk (fold (compact_chunk k) chunks (None, [])) =
      (Some (summarize (take n total @ take m (drop n total @ chunk))), drop m (drop n total @ chunk))"
    using compact_events_summarize [where p = "fst (fold (compact_chunk k) chunks (None, []))" and xs = "take n total"
        and es = "drop n total @ chunk" and k = k]
    by (auto simp: compact_chunk_def acc m_def total_def)
  have m: "n + m = compact_point k (length (total @ chunk))" "n \<le> length total"
    using assms by (auto simp: n_def m_def compact_point_def)
  have "take n total @ take m (drop n total @ chunk) = take (n + m) (total @ chunk)" "drop m (drop n total @ chunk) = drop (n + m) (total @ chunk)"
    using m(2) by (simp_all only: take_add drop_append drop_drop take_append) (simp_all add: add.commute)
  with step m(1) show ?case by (simp add: total_def Let_def)
qed simp

section \<open>Properties\<close>


definition decision_payload :: "agent_decision \<Rightarrow> pydict" where
  "decision_payload d = py_dict (if ad_kind d = ''tool''
     then [(''type'', PStr ''tool''), (''tool'', opt_str (ad_tool d)), (''arguments'', PDict (ad_arguments d)), (''reason'', PStr (ad_reason d))]
     else [(''type'', PStr ''finish''), (''summary'', opt_str (ad_summary d))])"

definition response_texts :: "agent_decision \<Rightarrow> string set" where
  "response_texts d = (let bare = json_dumps (PDict (decision_payload d));
       envelope = json_dumps (PDict [(''decision'', PDict (decision_payload d))]);
       fence = (\<lambda>text. ''```json'' @ [CHR 0x0A] @ text @ [CHR 0x0A] @ ''```'')
     in {bare, envelope, fence bare, fence envelope})"

lemma decision_payload_wire: "decision_ok d \<Longrightarrow> wire_ok (PDict (ad_arguments d)) \<Longrightarrow> wire_ok (PDict (decision_payload d))"
  unfolding decision_payload_def by (rule wire_ok_py_dict) (auto simp: decision_ok_def opt_str_def)

lemma strip_ends: "\<not> py_isspace a \<Longrightarrow> \<not> py_isspace b \<Longrightarrow> py_strip (a # s @ [b]) = a # s @ [b]"
  by (simp add: py_strip_def)

lemma object_text: "json_dumps (PDict d) = CHR ''{'' # tl (butlast (json_dumps (PDict d))) @ [CHR ''}'']"
  by (simp add: butlast_append)

lemma parse_json_object_text:
  assumes "wire_ok (PDict d)"
  shows "parse_json_object (json_dumps (PDict d)) = Inr d"
    and "parse_json_object (''```json'' @ [CHR 0x0A] @ json_dumps (PDict d) @ [CHR 0x0A] @ ''```'') = Inr d"
proof -
  obtain s where s: "json_dumps (PDict d) = CHR ''{'' # s @ [CHR ''}'']" using object_text by blast
  have brace: "\<not> py_isspace (CHR ''{'')" "\<not> py_isspace (CHR ''}'')" "\<not> py_isspace (CHR 0x60)" "py_isspace (CHR 0x0A)" by code_simp+
  have "unfence (py_strip (json_dumps (PDict d))) = json_dumps (PDict d)"
    unfolding s by (simp add: strip_ends brace unfence_def)
  then show "parse_json_object (json_dumps (PDict d)) = Inr d"
    using json_loads_dumps [OF assms] by (simp add: parse_json_object_def del: json_dumps.simps)
  have "py_strip (CHR 0x0A # json_dumps (PDict d) @ [CHR 0x0A]) = json_dumps (PDict d)"
    unfolding s by (simp add: py_strip_def brace)
  then have "unfence (py_strip (''```json'' @ [CHR 0x0A] @ json_dumps (PDict d) @ [CHR 0x0A] @ ''```'')) = json_dumps (PDict d)"
    using strip_ends [OF brace(3,3), of "''``json'' @ [CHR 0x0A] @ json_dumps (PDict d) @ [CHR 0x0A] @ ''``''"]
    by (simp add: unfence_def del: json_dumps.simps)
  then show "parse_json_object (''```json'' @ [CHR 0x0A] @ json_dumps (PDict d) @ [CHR 0x0A] @ ''```'') = Inr d"
    using json_loads_dumps [OF assms] by (simp add: parse_json_object_def del: json_dumps.simps append.simps append_Cons)
qed

lemma parse_payload:
  assumes "decision_ok d"
  shows "(if dict_get (decision_payload d) ''type'' = PStr ''tool'' then tool_decision (decision_payload d)
     else if dict_get (decision_payload d) ''type'' = PStr ''finish'' then finish_decision (decision_payload d) else Inl e) = Inr d"
    and "py_keys (decision_payload d) \<noteq> [''decision'']"
proof -
  have keys: "set (py_keys (py_dict xs)) = fst ` set xs" for xs :: pydict by (simp add: py_keys_def keys_py_dict)
  have sub: "reject_unknown p allowed = Inr ()" if "set (py_keys p) \<subseteq> set allowed" for p allowed
    using that by (auto simp: reject_unknown_def filter_empty_conv)
  have m: "map_of (py_dict xs) k = map_of xs k" if "distinct (map fst xs)" for xs :: pydict and k using that by (simp add: map_of_py_dict_distinct)
  show "(if dict_get (decision_payload d) ''type'' = PStr ''tool'' then tool_decision (decision_payload d)
     else if dict_get (decision_payload d) ''type'' = PStr ''finish'' then finish_decision (decision_payload d) else Inl e) = Inr d"
    using assms unfolding decision_ok_def
    by (elim disjE conjE bexE exE)
      (simp_all add: decision_payload_def dict_get_def m tool_decision_def finish_decision_def sub keys opt_str_def)
  have "''type'' \<in> set (py_keys (decision_payload d))" by (simp add: decision_payload_def keys)
  then show "py_keys (decision_payload d) \<noteq> [''decision'']" by auto
qed

text \<open>
  C4. Every well-formed decision can be said: written as the JSON object the prompt asks for, bare, in the decision envelope, or
  fenced as a code block, it is read back as that very decision.
\<close>

theorem decision_round_trip:
  assumes "decision_ok d" and "wire_ok (PDict (ad_arguments d))" and "text \<in> response_texts d"
  shows "parse_agent_decision text = Inr d"
proof -
  have wire: "wire_ok (PDict (decision_payload d))" "wire_ok (PDict [(''decision'', PDict (decision_payload d))])"
    using decision_payload_wire [OF assms(1,2)] by (simp_all add: dict_ok_def)
  have outer: "parse_json_object text = Inr (decision_payload d) \<or> parse_json_object text = Inr [(''decision'', PDict (decision_payload d))]"
    using assms(3) parse_json_object_text [OF wire(1)] parse_json_object_text [OF wire(2)]
    unfolding response_texts_def Let_def by blast
  then show ?thesis
  proof
    assume "parse_json_object text = Inr (decision_payload d)"
    then show ?thesis using parse_payload [OF assms(1)] by (simp add: parse_agent_decision_def)
  next
    assume "parse_json_object text = Inr [(''decision'', PDict (decision_payload d))]"
    then show ?thesis using parse_payload(1) [OF assms(1)] by (simp add: parse_agent_decision_def py_keys_def dict_get_def)
  qed
qed

definition sample_decision :: agent_decision where
  "sample_decision = \<lparr>ad_kind = ''tool'', ad_tool = Some ''read_file'', ad_arguments = [(''path'', PStr ''a.py'')], ad_reason = ''look'', ad_summary = None\<rparr>"

theorem decision_round_trip_witness:
  "parse_agent_decision (json_dumps (PDict (decision_payload sample_decision))) = Inr sample_decision"
proof -
  have "py_strip ''look'' = ''look''" by code_simp
  then have "decision_ok sample_decision" by (simp add: decision_ok_def sample_decision_def ALLOWED_TOOLS_def)
  moreover have "wire_ok (PDict (ad_arguments sample_decision))" by (simp add: sample_decision_def dict_ok_def)
  moreover have "json_dumps (PDict (decision_payload sample_decision)) \<in> response_texts sample_decision" by (simp add: response_texts_def Let_def)
  ultimately show ?thesis by (rule decision_round_trip)
qed

text \<open>
  C26. Compacting a transcript piece by piece loses nothing against compacting it at once: however the events arrive in chunks,
  each followed by a compaction, the summary and the retained events are those of a single compaction of the whole transcript, and the summary
  counts every event that is not retained.
\<close>

theorem compaction_incremental:
  assumes "0 \<le> k" and "chunks \<noteq> []"
  shows "fold (compact_chunk k) chunks (None, []) =
     (case compact_events None (concat chunks) k of (s, recent) \<Rightarrow> (Some s, recent)) \<and>
   (case compact_events None (concat chunks) k of (s, recent) \<Rightarrow>
      ks_compacted_event_count s + int (length recent) = int (length (concat chunks)) \<and> (\<exists>old. concat chunks = old @ recent) \<and>
      (0 < k \<longrightarrow> int (length recent) \<le> k))"
proof -
  have once: "compact_events None es k = (summarize (take (compact_point k (length es)) es), drop (compact_point k (length es)) es)" for es
    using compact_events_summarize [where p = None and xs = "[]" and es = es and k = k] by simp
  have count: "ks_compacted_event_count (summarize xs) = int (length xs)" for xs by (simp add: summarize_def Let_def)
  let ?total = "concat chunks" and ?n = "compact_point k (length (concat chunks))"
  have n: "?n \<le> length ?total" by (simp add: compact_point_def)
  have "int (length (take ?n ?total)) + int (length (drop ?n ?total)) = int (length ?total)"
    by (metis append_take_drop_id length_append of_nat_add)
  moreover have "0 < k \<longrightarrow> int (length (drop ?n ?total)) \<le> k" by (auto simp: compact_point_def simp del: length_concat)
  moreover have "\<exists>old. ?total = old @ drop ?n ?total" by (metis append_take_drop_id)
  ultimately show ?thesis unfolding compact_chunks_prefix [OF assms] once Let_def by (simp only: prod.case count simp_thms)
qed

theorem compaction_incremental_witness:
  "fold (compact_chunk 1) [[[(''tool'', PStr ''read_file'')]], [[(''error'', PStr ''x'')]]] (None, []) =
     (Some (summarize [[(''tool'', PStr ''read_file'')]]), [[(''error'', PStr ''x'')]])"
  using compaction_incremental [of 1 "[[[(''tool'', PStr ''read_file'')]], [[(''error'', PStr ''x'')]]]"]
  by (simp add: compact_events_def summarize_def Let_def)

end
