(* ===== verification/Agent_State.thy ===== *)
theory Agent_State
  imports Agent_Protocol Run_Contracts Verification_Contracts
begin

text \<open>
  The state of an agent run (\<^verbatim>\<open>agent_state.py\<close>), what it remembers of the files it has seen
  (\<open>update_known_file_state\<close> of \<^verbatim>\<open>agent_context.py\<close>), and the two handlers that change it (\<^verbatim>\<open>agent_transitions.py\<close>). An event
  is a dict. A handler returns the new state; where the code changes an event that is already in the transcript, the transcript has the
  changed event.
\<close>

section \<open>Substrings\<close>

text \<open>\<open>s.count(old)\<close>, without overlaps, and \<open>s.replace(old, new, 1)\<close>.\<close>

function occurrences :: "string \<Rightarrow> string \<Rightarrow> nat" where
  "occurrences old s = (if old = [] then Suc (length s)
     else case strip_prefix old s of
       Some r \<Rightarrow> Suc (occurrences old r)
     | None \<Rightarrow> (case s of [] \<Rightarrow> 0 | c # r \<Rightarrow> occurrences old r))"
  by pat_completeness auto

lemma strip_prefix_append: "strip_prefix p s = Some r \<longleftrightarrow> s = p @ r"
  by (induction p s rule: strip_prefix.induct) auto

termination occurrences
  by (relation "measure (\<lambda>(old, s). length s)") (auto simp: strip_prefix_append)

fun replace_first :: "string \<Rightarrow> string \<Rightarrow> string \<Rightarrow> string" where
  "replace_first old new s = (case strip_prefix old s of
       Some r \<Rightarrow> new @ r
     | None \<Rightarrow> (case s of [] \<Rightarrow> [] | c # r \<Rightarrow> c # replace_first old new r))"

section \<open>The state of a run\<close>

record workspace_snapshot =
  sn_commit_sha :: string
  sn_state_hash :: string
  sn_changed_paths :: "string list"

record agent_termination =
  tm_success :: bool
  tm_reason :: string
  tm_steps :: int

record working_file =
  wk_path :: string
  wk_sha256 :: string
  wk_content :: "string option"
  wk_content_truncated :: bool

type_synonym state_criterion_key = "string \<times> (string \<times> string) list"

record agent_run_state =
  st_events :: "pydict list"
  st_compact_summary :: "compact_summary option"
  st_compactions :: int
  st_verifications :: int
  st_verification_artifacts :: "artifact_ref list"
  st_protocol_errors :: int
  st_mutations_since_verify :: int
  st_last_failed_verification_state :: "string option"
  st_known_file_hashes :: "(string \<times> string) list"
  st_working_file :: "working_file option"
  st_criterion_status :: "(string \<times> string) list"
  st_state_visits :: "state_criterion_key \<rightharpoonup> int"
  st_workspace_cycle_streak :: int
  st_last_fingerprint :: "string option"
  st_repeated_fingerprint :: int
  st_final_summary :: "string option"

text \<open>The items of a dict are in key order, so they are their own sorted tuple.\<close>

definition state_criterion_key :: "string \<Rightarrow> (string \<times> string) list \<Rightarrow> state_criterion_key" where
  "state_criterion_key state_hash criterion_status = (state_hash, criterion_status)"

definition start_state :: "agent_task \<Rightarrow> workspace_snapshot \<Rightarrow> agent_run_state" where
  "start_state task initial =
     (let criterion_status = py_dict (map (\<lambda>criterion. (criterion, ''not_run'')) (at_acceptance_criteria task))
      in \<lparr>st_events = [], st_compact_summary = None, st_compactions = 0, st_verifications = 0, st_verification_artifacts = [],
          st_protocol_errors = 0, st_mutations_since_verify = 0, st_last_failed_verification_state = None, st_known_file_hashes = [],
          st_working_file = None, st_criterion_status = criterion_status,
          st_state_visits = [state_criterion_key (sn_state_hash initial) criterion_status \<mapsto> 0], st_workspace_cycle_streak = 0,
          st_last_fingerprint = None, st_repeated_fingerprint = 0, st_final_summary = None\<rparr>)"

definition should_compact :: "agent_run_state \<Rightarrow> int \<Rightarrow> cadence_policy \<Rightarrow> int \<Rightarrow> bool" where
  "should_compact s step cadence max_compactions \<longleftrightarrow>
     \<not> max_compactions \<le> st_compactions s \<and> \<not> int (length (st_events s)) \<le> cp_keep_recent_events cadence \<and>
     (step mod cp_compaction_interval_steps cadence = 0 \<or> cp_context_char_limit cadence < transcript_size (st_events s))"

definition compact :: "cadence_policy \<Rightarrow> agent_run_state \<Rightarrow> agent_run_state" where
  "compact cadence s =
     (case compact_events (st_compact_summary s) (st_events s) (cp_keep_recent_events cadence) of
        (summary, recent) \<Rightarrow> s\<lparr>st_compact_summary := Some summary, st_events := recent, st_compactions := st_compactions s + 1\<rparr>)"

definition decision_fingerprint :: "agent_decision \<Rightarrow> string" where
  "decision_fingerprint d = sha256_hexdigest (json_dumps (PDict (py_dict ((''type'', PStr (ad_kind d)) #
     (if ad_kind d = ''tool'' then [(''tool'', opt_str (ad_tool d)), (''arguments'', PDict (ad_arguments d))] else [])))))"

definition observe_decision :: "agent_decision \<Rightarrow> int \<Rightarrow> agent_run_state \<Rightarrow> string \<times> bool \<times> agent_run_state" where
  "observe_decision d stagnation_limit s =
     (let fingerprint = decision_fingerprint d;
          s' = (if st_last_fingerprint s = Some fingerprint then s\<lparr>st_repeated_fingerprint := st_repeated_fingerprint s + 1\<rparr>
                else s\<lparr>st_repeated_fingerprint := 1, st_last_fingerprint := Some fingerprint\<rparr>)
      in (fingerprint, stagnation_limit \<le> st_repeated_fingerprint s', s'))"

definition remember_verification_state :: "string \<Rightarrow> int \<Rightarrow> agent_run_state \<Rightarrow> agent_run_state" where
  "remember_verification_state state_hash step s =
     (let key = state_criterion_key state_hash (st_criterion_status s)
      in if st_state_visits s key = None then s\<lparr>st_state_visits := (st_state_visits s)(key \<mapsto> step)\<rparr> else s)"

definition criterion_item :: "pyobj \<Rightarrow> (string \<times> string) list \<Rightarrow> (string \<times> string) list" where
  "criterion_item item status = (case item of
       PDict d \<Rightarrow> (case (dict_get d ''criterion'', dict_get d ''passed'') of
           (PStr criterion, PBool passed) \<Rightarrow> dict_set criterion (if passed then ''passed'' else ''failed'') status
         | _ \<Rightarrow> status)
     | _ \<Rightarrow> status)"

definition update_criterion_status :: "pydict \<Rightarrow> agent_run_state \<Rightarrow> agent_run_state" where
  "update_criterion_status verification_event s = (case dict_get verification_event ''criteria'' of
       PList criteria \<Rightarrow> s\<lparr>st_criterion_status := fold criterion_item criteria (st_criterion_status s)\<rparr>
     | _ \<Rightarrow> s)"

definition cycle_feedback :: string where
  "cycle_feedback = ''This mutation returned the workspace to an earlier state without changing criterion outcomes. Do not toggle or reorder the same implementation. Inspect the current file and make a criterion-specific semantic repair.''"

definition observe_workspace_state :: "string \<Rightarrow> int \<Rightarrow> pydict \<Rightarrow> int \<Rightarrow> agent_run_state \<Rightarrow> bool \<times> pydict \<times> agent_run_state" where
  "observe_workspace_state state_hash step event stagnation_limit s =
     (let key = state_criterion_key state_hash (st_criterion_status s)
      in case st_state_visits s key of
         None \<Rightarrow> (False, event, s\<lparr>st_workspace_cycle_streak := 0, st_state_visits := (st_state_visits s)(key \<mapsto> step)\<rparr>)
       | Some previous_step \<Rightarrow>
           let streak = st_workspace_cycle_streak s + 1 in
           (stagnation_limit \<le> streak,
            dict_set ''workspace_cycle'' (PDict (py_dict [(''detected'', PBool True), (''previous_step'', PInt previous_step),
              (''repeat_count'', PInt streak), (''feedback'', PStr cycle_feedback)])) event,
            s\<lparr>st_workspace_cycle_streak := streak\<rparr>))"

section \<open>Known files\<close>

definition argument_text :: "pydict \<Rightarrow> string \<Rightarrow> string \<Rightarrow> string option" where
  "argument_text arguments text_field lines_field = (case dict_get arguments text_field of
       PStr text \<Rightarrow> Some text
     | _ \<Rightarrow> (case dict_get arguments lines_field of
         PList lines \<Rightarrow> if \<forall>line\<in>set lines. \<exists>t. line = PStr t
           then Some (join_sep [CHR 0x0A] (map (\<lambda>line. case line of PStr t \<Rightarrow> t | _ \<Rightarrow> []) lines)) else None
       | _ \<Rightarrow> None))"

definition file_path :: "pydict \<Rightarrow> pydict \<Rightarrow> string option" where
  "file_path arguments output = (case dict_get output ''path'' of
       PStr path \<Rightarrow> Some path
     | _ \<Rightarrow> (case dict_get arguments ''path'' of PStr path \<Rightarrow> Some path | _ \<Rightarrow> None))"

text \<open>The content the working file has after the call, when it is known, and whether it was already cut.\<close>

definition known_content :: "working_file option \<Rightarrow> string \<Rightarrow> string \<Rightarrow> pydict \<Rightarrow> pydict \<Rightarrow> string option \<times> bool" where
  "known_content working_file path tool arguments output =
     (if tool = ''read_file''
      then (case dict_get output ''content'' of PStr raw_content \<Rightarrow> (Some raw_content, dict_get output ''truncated'' = PBool True)
            | _ \<Rightarrow> (None, False))
      else if tool = ''write_file'' then (argument_text arguments ''content'' ''content_lines'', False)
      else (case working_file of
          Some w \<Rightarrow> (case (wk_content w, argument_text arguments ''old'' ''old_lines'', argument_text arguments ''new'' ''new_lines'') of
              (Some current, Some old, Some new) \<Rightarrow>
                if tool = ''replace_text'' \<and> wk_path w = path \<and> \<not> wk_content_truncated w \<and> occurrences old current = 1
                then (Some (replace_first old new current), False) else (None, False)
            | _ \<Rightarrow> (None, False))
        | None \<Rightarrow> (None, False)))"

definition update_known_file_state :: "(string \<times> string) list \<Rightarrow> working_file option \<Rightarrow> string \<Rightarrow> pydict \<Rightarrow> pydict \<Rightarrow>
    (string \<times> string) list \<times> working_file option" where
  "update_known_file_state known working_file tool arguments output =
     (case file_path arguments output of
        None \<Rightarrow> (known, working_file)
      | Some path \<Rightarrow>
          if tool = ''delete_file''
          then (filter (\<lambda>kv. fst kv \<noteq> path) known,
                (case working_file of Some w \<Rightarrow> if wk_path w = path then None else Some w | None \<Rightarrow> None))
          else (case dict_get output ''sha256'' of
              PStr digest \<Rightarrow>
                if tool \<in> {''read_file'', ''write_file'', ''replace_text''}
                then (dict_set path digest known,
                  (case known_content working_file path tool arguments output of
                     (None, _) \<Rightarrow> Some \<lparr>wk_path = path, wk_sha256 = digest, wk_content = None, wk_content_truncated = True\<rparr>
                   | (Some content, truncated) \<Rightarrow> Some \<lparr>wk_path = path, wk_sha256 = digest, wk_content = Some (take 4000 content),
                       wk_content_truncated = (truncated \<or> 4000 < length content)\<rparr>))
                else (known, working_file)
            | _ \<Rightarrow> (known, working_file)))"

end
