(* ===== verification/Agent_Loop.thy ===== *)
theory Agent_Loop
  imports Agent_State
begin

text \<open>
  The handlers of an agent step (\<^verbatim>\<open>agent_transitions.py\<close>), the loop (\<^verbatim>\<open>agent_loop.py\<close>), what it records
  (\<^verbatim>\<open>agent_artifacts.py\<close>) and the entry (\<^verbatim>\<open>agent.py\<close>). The provider, the tools, the verifier, the clock and the
  workspace are an environment: what each call of a step answers or raises. The text of the prompts, token counts
  and durations, which no decision depends on, are left out.
\<close>

section \<open>The environment\<close>

record tool_outcome =
  tc_output :: pydict
  tc_mutated :: bool

text \<open>
  The answers of the calls, by the step that makes them. \<open>en_clock\<close> is the clock when a step begins and \<open>en_clock_after\<close> after the response. \<open>en_complete\<close> is the provider's response text, and covers
  \<open>deadline.remaining()\<close>; \<open>en_before\<close>, \<open>en_after_tool\<close>, \<open>en_after_error\<close>, \<open>en_after_verify\<close> and \<open>en_final\<close> are the snapshots of the workspace;
  \<open>en_verify\<close> and \<open>en_reference\<close> are called with a verification run ID.
\<close>

record agent_env =
  en_clock :: "int \<Rightarrow> pyfloat"
  en_observe :: "int \<Rightarrow> pydict result"
  en_before :: "int \<Rightarrow> workspace_snapshot result"
  en_complete :: "int \<Rightarrow> string result"
  en_clock_after :: "int \<Rightarrow> pyfloat"
  en_tool :: "int \<Rightarrow> string \<Rightarrow> pydict \<Rightarrow> tool_outcome result"
  en_after_tool :: "int \<Rightarrow> workspace_snapshot result"
  en_after_error :: "int \<Rightarrow> workspace_snapshot result"
  en_verify :: "string \<Rightarrow> verification_receipt result"
  en_reference :: "string \<Rightarrow> artifact_ref result"
  en_after_verify :: "int \<Rightarrow> workspace_snapshot result"
  en_final :: "workspace_snapshot result"

text \<open>\<^verbatim>\<open>deadline.py\<close>: a deadline is the clock reading at which it expires.\<close>

definition deadline_after :: "pyfloat \<Rightarrow> pyfloat \<Rightarrow> pyfloat result" where
  "deadline_after seconds now =
     (if \<not> fl_isfinite seconds \<or> fl_le seconds (Finite 0) then Inl (ValueError ''deadline duration must be positive and finite'')
      else let expires_at = fl_add now seconds in
        if \<not> fl_isfinite expires_at then Inl (ValueError ''deadline must be finite'') else Inr expires_at)"

definition deadline_expired :: "pyfloat \<Rightarrow> pyfloat \<Rightarrow> bool" where
  "deadline_expired expires_at now \<longleftrightarrow> fl_le expires_at now"

record agent_turn =
  tu_step :: int
  tu_before :: workspace_snapshot
  tu_model_content :: string
  tu_decision :: "agent_decision option"

record step_transition =
  tr_event :: pydict
  tr_after :: workspace_snapshot
  tr_termination :: "agent_termination option"

definition failed :: "string \<Rightarrow> int \<Rightarrow> agent_termination" where
  "failed reason steps = \<lparr>tm_success = False, tm_reason = reason, tm_steps = steps\<rparr>"

section \<open>The tool handler\<close>

text \<open>The body of the \<open>try\<close>: the call, the snapshot and the check of the tool's own report.\<close>

definition tool_call :: "agent_env \<Rightarrow> agent_turn \<Rightarrow> string \<Rightarrow> pydict \<Rightarrow> (tool_outcome \<times> workspace_snapshot) result" where
  "tool_call env turn tool arguments =
     bindE (en_tool env (tu_step turn) tool arguments) (\<lambda>outcome.
     bindE (en_after_tool env (tu_step turn)) (\<lambda>after.
     if (sn_state_hash (tu_before turn) \<noteq> sn_state_hash after) \<noteq> tc_mutated outcome
     then Inl (ToolError ''tool mutation report does not match workspace state transition'')
     else Inr (outcome, after)))"

definition tool_event :: "int \<Rightarrow> string \<Rightarrow> agent_decision \<Rightarrow> tool_outcome \<Rightarrow> pydict" where
  "tool_event step tool d outcome = py_dict
     [(''kind'', PStr ''tool''), (''step'', PInt step), (''tool'', PStr tool), (''arguments'', PDict (ad_arguments d)),
      (''reason'', PStr (ad_reason d)), (''output'', PDict (tc_output outcome)), (''mutated'', PBool (tc_mutated outcome))]"

definition tool_error_event :: "int \<Rightarrow> string \<Rightarrow> agent_decision \<Rightarrow> string \<Rightarrow> bool \<Rightarrow> pydict" where
  "tool_error_event step tool d error mutated = py_dict
     [(''kind'', PStr ''tool_error''), (''step'', PInt step), (''tool'', PStr tool), (''arguments'', PDict (ad_arguments d)),
      (''error'', PStr error), (''mutated'', PBool mutated)]"

text \<open>The event of the call, the workspace after it, whether it failed, and the state with what the call taught.\<close>

definition tool_result :: "agent_env \<Rightarrow> agent_turn \<Rightarrow> agent_decision \<Rightarrow> string \<Rightarrow> agent_run_state \<Rightarrow>
    (pydict \<times> workspace_snapshot \<times> bool \<times> agent_run_state) result" where
  "tool_result env turn d tool s =
     (case tool_call env turn tool (ad_arguments d) of
        Inr (outcome, after) \<Rightarrow>
          (case update_known_file_state (st_known_file_hashes s) (st_working_file s) tool (ad_arguments d) (tc_output outcome) of
             (known, working) \<Rightarrow>
               Inr (tool_event (tu_step turn) tool d outcome, after, False,
                 s\<lparr>st_known_file_hashes := known, st_working_file := working,
                   st_mutations_since_verify := st_mutations_since_verify s + (if tc_mutated outcome then 1 else 0)\<rparr>))
      | Inl (ToolError error) \<Rightarrow>
          bindE (en_after_error env (tu_step turn)) (\<lambda>after.
          Inr (tool_error_event (tu_step turn) tool d error (sn_state_hash (tu_before turn) \<noteq> sn_state_hash after), after, True, s))
      | Inl e \<Rightarrow> Inl e)"

definition is_mutated :: "pydict \<Rightarrow> bool" where
  "is_mutated event \<longleftrightarrow> py_truthy (dict_get event ''mutated'')"

definition append_event :: "pydict \<Rightarrow> agent_run_state \<Rightarrow> agent_run_state" where
  "append_event event s = s\<lparr>st_events := st_events s @ [event]\<rparr>"

definition tool_execute :: "agent_env \<Rightarrow> int \<Rightarrow> agent_turn \<Rightarrow> agent_run_state \<Rightarrow> (step_transition \<times> agent_run_state) result" where
  "tool_execute env stagnation_limit turn s =
     (case tu_decision turn of
        Some d \<Rightarrow>
          (case ad_tool d of
             Some tool \<Rightarrow>
               if ad_kind d \<noteq> ''tool'' then Inl (TypeError ''tool transition requires a parsed tool decision'')
               else
                 bindE (tool_result env turn d tool s) (\<lambda>(event, after, tool_failed, s).
                 if tool_failed \<and> is_mutated event
                 then Inr (\<lparr>tr_event = event, tr_after = after,
                   tr_termination = Some (failed ''tool failed after mutating workspace'' (tu_step turn))\<rparr>, append_event event s)
                 else if is_mutated event
                 then (case observe_workspace_state (sn_state_hash after) (tu_step turn) event stagnation_limit s of
                     (cyclic, event, s) \<Rightarrow>
                       Inr (\<lparr>tr_event = event, tr_after = after,
                         tr_termination = (if cyclic then Some (failed ''workspace state cycle threshold reached'' (tu_step turn)) else None)\<rparr>,
                         append_event event s))
                 else Inr (\<lparr>tr_event = event, tr_after = after, tr_termination = None\<rparr>, append_event event s))
           | None \<Rightarrow> Inl (TypeError ''tool transition requires a parsed tool decision''))
      | None \<Rightarrow> Inl (TypeError ''tool transition requires a parsed tool decision''))"

section \<open>The verification handler\<close>

definition verification_run_id :: "string \<Rightarrow> bool \<Rightarrow> int \<Rightarrow> string" where
  "verification_run_id run_id final step = run_id @ (if final then ''-final-'' else ''-intermediate-'') @ show_int step"

definition verify_workspace :: "agent_env \<Rightarrow> string \<Rightarrow> bool \<Rightarrow> int \<Rightarrow> agent_run_state \<Rightarrow> (verification_receipt \<times> agent_run_state) result" where
  "verify_workspace env run_id final step s =
     bindE (en_verify env (verification_run_id run_id final step)) (\<lambda>receipt.
     bindE (en_reference env (vr_run_id receipt)) (\<lambda>artifact.
     Inr (receipt, s\<lparr>st_verifications := st_verifications s + 1, st_verification_artifacts := st_verification_artifacts s @ [artifact]\<rparr>)))"

definition command_feedback :: "command_result \<Rightarrow> string" where
  "command_feedback c =
     (if cr_failure_category c = Some ''execution_error''
      then ''Verification could not complete its assertions normally. Inspect syntax, imports, referenced names, and runtime-valid control flow, then make a concrete repair before verification.''
      else if cr_failure_category c = Some ''timeout''
      then ''Verification timed out. Inspect termination conditions and bounded work, then make a concrete repair before verification.''
      else ''Verification failed. Inspect the current workspace, compare the implementation with every acceptance criterion, and make a concrete repair before requesting verification again.'')"

definition rendered_command :: "command_result \<Rightarrow> pyobj" where
  "rendered_command c = PDict (py_dict
     ([(''name'', PStr (cr_name c)), (''criteria'', PList (map PStr (cr_criteria c))), (''passed'', PBool (cr_passed c)),
       (''timed_out'', PBool (cr_timed_out c)), (''exit_code'', (case cr_exit_code c of None \<Rightarrow> PNone | Some i \<Rightarrow> PInt i)),
       (''stdout_path'', PStr (cr_stdout_path c)), (''stderr_path'', PStr (cr_stderr_path c)),
       (''failure_category'', opt_str (cr_failure_category c))] @
      (if cr_passed c then [] else [(''feedback'', PStr (command_feedback c))])))"

definition verification_event :: "verification_receipt \<Rightarrow> bool \<Rightarrow> pydict" where
  "verification_event receipt final = py_dict
     [(''kind'', PStr ''verification''), (''final'', PBool final), (''run_id'', PStr (vr_run_id receipt)), (''passed'', PBool (vr_passed receipt)),
      (''workspace_unchanged'', PBool (vr_workspace_unchanged receipt)), (''criteria'', criteria_payload (vr_commands receipt)),
      (''commands'', PList (map rendered_command (vr_commands receipt)))]"

definition rejected_event :: "string \<Rightarrow> pydict" where
  "rejected_event state_hash = py_dict
     [(''kind'', PStr ''verification_rejected''), (''final'', PBool True), (''workspace_state'', PStr state_hash),
      (''error'', PStr ''Verification already failed on this unchanged workspace. Inspect or modify the implementation before requesting verification again.'')]"

text \<open>What follows from the receipt of a final verification.\<close>

definition settle_final :: "agent_turn \<Rightarrow> verification_receipt \<Rightarrow> workspace_snapshot \<Rightarrow> agent_run_state \<Rightarrow> step_transition \<times> agent_run_state" where
  "settle_final turn receipt after s =
     (let event = verification_event receipt True;
          s = append_event event (remember_verification_state (sn_state_hash after) (tu_step turn) (update_criterion_status event s))
      in if \<not> vr_workspace_unchanged receipt
         then (\<lparr>tr_event = event, tr_after = after,
           tr_termination = Some (failed ''verification command mutated the workspace'' (tu_step turn))\<rparr>, s)
         else if vr_passed receipt
         then (\<lparr>tr_event = event, tr_after = after, tr_termination =
           Some \<lparr>tm_success = True, tm_reason = ''final verification passed'', tm_steps = tu_step turn\<rparr>\<rparr>, s)
         else (\<lparr>tr_event = event, tr_after = after, tr_termination = None\<rparr>,
           s\<lparr>st_last_failed_verification_state := Some (sn_state_hash after), st_mutations_since_verify := 0\<rparr>))"

definition finish_turn :: "agent_env \<Rightarrow> string \<Rightarrow> agent_turn \<Rightarrow> agent_run_state \<Rightarrow> (step_transition \<times> agent_run_state) result" where
  "finish_turn env run_id turn s =
     (case tu_decision turn of
        Some d \<Rightarrow>
          if ad_kind d \<noteq> ''finish'' then Inl (TypeError ''final verification requires a parsed finish decision'')
          else
            let s = s\<lparr>st_final_summary := ad_summary d\<rparr> in
            if st_last_failed_verification_state s = Some (sn_state_hash (tu_before turn))
            then let event = rejected_event (sn_state_hash (tu_before turn)) in
              Inr (\<lparr>tr_event = event, tr_after = tu_before turn, tr_termination = None\<rparr>, append_event event s)
            else
              bindE (verify_workspace env run_id True (tu_step turn) s) (\<lambda>(receipt, s).
              bindE (en_after_verify env (tu_step turn)) (\<lambda>after.
              Inr (settle_final turn receipt after s)))
      | None \<Rightarrow> Inl (TypeError ''final verification requires a parsed finish decision''))"

text \<open>
  The event of the transition is the last one of the transcript; the follow-up is added to it after the verification has
  been appended.
\<close>

definition note_followup :: "agent_turn \<Rightarrow> verification_receipt \<Rightarrow> step_transition \<Rightarrow> agent_run_state \<Rightarrow> pydict \<times> agent_run_state" where
  "note_followup turn receipt transition s =
     (let verification = verification_event receipt False;
          s = remember_verification_state (sn_state_hash (tr_after transition)) (tu_step turn)
            (update_criterion_status verification (s\<lparr>st_mutations_since_verify := 0\<rparr>));
          event = dict_set ''followup_verification'' (PDict verification) (tr_event transition)
      in (event, s\<lparr>st_events := butlast (st_events s) @ [event, verification]\<rparr>))"

definition after_tool :: "agent_env \<Rightarrow> string \<Rightarrow> int \<Rightarrow> agent_turn \<Rightarrow> agent_run_state \<Rightarrow> step_transition \<Rightarrow>
    (step_transition \<times> agent_run_state) result" where
  "after_tool env run_id verification_interval_mutations turn s transition =
     (if \<not> is_mutated (tr_event transition) \<or> st_mutations_since_verify s < verification_interval_mutations
      then Inr (transition, s)
      else
        bindE (verify_workspace env run_id False (tu_step turn) s) (\<lambda>(receipt, s).
        case note_followup turn receipt transition s of (event, s) \<Rightarrow>
          if \<not> vr_workspace_unchanged receipt
          then bindE (en_after_verify env (tu_step turn)) (\<lambda>after.
            Inr (\<lparr>tr_event = event, tr_after = after,
              tr_termination = Some (failed ''verification command mutated the workspace'' (tu_step turn))\<rparr>, s))
          else Inr (transition\<lparr>tr_event := event\<rparr>,
            s\<lparr>st_last_failed_verification_state := (if vr_passed receipt then None else Some (sn_state_hash (tr_after transition)))\<rparr>)))"

section \<open>The loop\<close>

text \<open>What the recorder writes: one file for each step and for each compaction.\<close>

datatype run_artifact =
    StepArtifact agent_turn workspace_snapshot pydict
  | CompactionArtifact int int "compact_summary option" "pydict list"

record agent_config =
  ac_run_id :: string
  ac_artifact_path :: string
  ac_limits :: agent_limits
  ac_cadence :: cadence_policy
  ac_deadline :: pyfloat

type_synonym step_result = "agent_termination option \<times> agent_run_state \<times> run_artifact list"

definition compact_if_due :: "agent_config \<Rightarrow> int \<Rightarrow> agent_run_state \<Rightarrow> agent_run_state \<times> run_artifact list" where
  "compact_if_due c step s =
     (if should_compact s step (ac_cadence c) (al_max_compactions (ac_limits c))
      then let s = compact (ac_cadence c) s in (s, [CompactionArtifact (st_compactions s) step (st_compact_summary s) (st_events s)])
      else (s, []))"

definition model_turn :: "agent_config \<Rightarrow> agent_env \<Rightarrow> int \<Rightarrow> string result" where
  "model_turn c env step = bindE (en_complete env step) (\<lambda>content.
     if deadline_expired (ac_deadline c) (en_clock_after env step) then Inl (DeadlineExceeded ''global execution deadline exceeded'') else Inr content)"

definition decide :: "agent_config \<Rightarrow> agent_env \<Rightarrow> agent_turn \<Rightarrow> agent_decision \<Rightarrow> agent_run_state \<Rightarrow> step_result result" where
  "decide c env turn d s =
     (case observe_decision d (cp_stagnation_limit (ac_cadence c)) s of (fingerprint, stagnant, s) \<Rightarrow>
      if stagnant
      then Inr (Some (failed ''stagnation threshold reached'' (tu_step turn)), s,
        [StepArtifact turn (tu_before turn) (py_dict [(''kind'', PStr ''stagnation''), (''step'', PInt (tu_step turn)),
          (''fingerprint'', PStr fingerprint), (''repeat_count'', PInt (st_repeated_fingerprint s))])])
      else
        bindE (if ad_kind d = ''finish'' then finish_turn env (ac_run_id c) turn s
               else bindE (tool_execute env (cp_stagnation_limit (ac_cadence c)) turn s) (\<lambda>(transition, s).
                 if tr_termination transition = None
                 then after_tool env (ac_run_id c) (cp_verification_interval_mutations (ac_cadence c)) turn s transition
                 else Inr (transition, s))) (\<lambda>(transition, s).
        Inr (tr_termination transition, s, [StepArtifact turn (tr_after transition) (tr_event transition)])))"

definition protocol_failure :: "agent_config \<Rightarrow> agent_turn \<Rightarrow> string \<Rightarrow> agent_run_state \<Rightarrow> step_result" where
  "protocol_failure c turn error s =
     (let event = py_dict [(''kind'', PStr ''protocol_error''), (''step'', PInt (tu_step turn)), (''error'', PStr error),
            (''model_content'', PStr (tu_model_content turn))];
          s = append_event event (s\<lparr>st_protocol_errors := st_protocol_errors s + 1\<rparr>)
      in (if al_max_protocol_errors (ac_limits c) < st_protocol_errors s
          then Some (failed ''model protocol error budget exhausted'' (tu_step turn)) else None,
          s, [StepArtifact turn (tu_before turn) event]))"

definition run_step :: "agent_config \<Rightarrow> agent_env \<Rightarrow> int \<Rightarrow> agent_run_state \<Rightarrow> step_result result" where
  "run_step c env step s =
     (case compact_if_due c step s of (s, compacted) \<Rightarrow>
      bindE (if step = 1 \<or> step mod cp_observation_interval_steps (ac_cadence c) = 0
             then bindE (en_observe env step) (\<lambda>_. Inr ()) else Inr ()) (\<lambda>_.
      bindE (en_before env step) (\<lambda>before.
      bindE (case model_turn c env step of
          Inl (DeadlineExceeded _) \<Rightarrow> Inr (Some (failed ''runtime budget exhausted'' (step - 1)), s, [])
        | Inl (ProviderError error) \<Rightarrow>
            Inr (Some (failed (''provider failure: '' @ error) (step - 1)), s,
              [StepArtifact \<lparr>tu_step = step, tu_before = before, tu_model_content = [], tu_decision = None\<rparr> before
                (py_dict [(''kind'', PStr ''provider_error''), (''step'', PInt step), (''error'', PStr error)])])
        | Inl e \<Rightarrow> Inl e
        | Inr content \<Rightarrow>
            (case parse_agent_decision content of
               Inl (ProtocolError error) \<Rightarrow>
                 Inr (protocol_failure c \<lparr>tu_step = step, tu_before = before, tu_model_content = content, tu_decision = None\<rparr> error s)
             | Inl e \<Rightarrow> Inl e
             | Inr d \<Rightarrow> decide c env \<lparr>tu_step = step, tu_before = before, tu_model_content = content, tu_decision = Some d\<rparr> d s))
        (\<lambda>(termination, s, written). Inr (termination, s, compacted @ written)))))"

fun run_steps :: "agent_config \<Rightarrow> agent_env \<Rightarrow> int list \<Rightarrow> agent_run_state \<Rightarrow> (agent_termination \<times> agent_run_state \<times> run_artifact list) result" where
  "run_steps c env [] s = Inr (failed ''step budget exhausted'' (al_max_steps (ac_limits c)), s, [])"
| "run_steps c env (step # steps) s =
     (if deadline_expired (ac_deadline c) (en_clock env step) then Inr (failed ''runtime budget exhausted'' (step - 1), s, [])
      else bindE (run_step c env step s) (\<lambda>(termination, s, written).
        case termination of
          Some t \<Rightarrow> Inr (t, s, written)
        | None \<Rightarrow> bindE (run_steps c env steps s) (\<lambda>(t, s, more). Inr (t, s, written @ more))))"

definition finish_run :: "agent_config \<Rightarrow> agent_env \<Rightarrow> workspace_snapshot \<Rightarrow> agent_run_state \<Rightarrow> agent_termination \<Rightarrow> agent_result result" where
  "finish_run c env initial s t =
     bindE (en_final env) (\<lambda>final.
     mk_agent_result \<lparr>ar_run_id = ac_run_id c, ar_success = tm_success t, ar_reason = tm_reason t, ar_steps = tm_steps t,
       ar_compactions = st_compactions s, ar_verifications = st_verifications s, ar_workspace_state_before = sn_state_hash initial,
       ar_workspace_state_after = sn_state_hash final, ar_changed_paths = sn_changed_paths final, ar_artifact_path = ac_artifact_path c,
       ar_verification_artifacts = st_verification_artifacts s, ar_summary = st_final_summary s, ar_schema_version = AGENT_RUN_V2\<rparr>)"

definition run_loop :: "agent_config \<Rightarrow> agent_env \<Rightarrow> workspace_snapshot \<Rightarrow> agent_run_state \<Rightarrow> (agent_result \<times> run_artifact list) result" where
  "run_loop c env initial s =
     bindE (run_steps c env [1..al_max_steps (ac_limits c)] s) (\<lambda>(t, s, written).
     bindE (finish_run c env initial s t) (\<lambda>res. Inr (res, written)))"

section \<open>The entry\<close>

definition require_criterion_coverage :: "agent_task \<Rightarrow> command_spec list \<Rightarrow> unit result" where
  "require_criterion_coverage task commands =
     (let verified = map py_strip (concat (map cs_criteria commands));
          missing = filter (\<lambda>criterion. criterion \<notin> set verified) (at_acceptance_criteria task)
      in if missing \<noteq> [] then Inl (ValueError (''verification commands do not cover acceptance criteria: '' @ join_sep '', '' missing))
         else Inr ())"

text \<open>
  \<open>LocalCodingAgent.run\<close> with a run ID given; the deadline is checked when it is set, and the run store refuses an unsafe ID or one that is taken.
\<close>

definition agent_run :: "agent_limits \<Rightarrow> cadence_policy \<Rightarrow> agent_env \<Rightarrow> pyfloat \<Rightarrow> workspace_snapshot result \<Rightarrow> string \<Rightarrow> bool \<Rightarrow> string \<Rightarrow> agent_task \<Rightarrow>
    command_spec list \<Rightarrow> (agent_result \<times> run_artifact list) result" where
  "agent_run limits cadence env now first_snapshot artifact_path run_exists run_id task commands =
     (if commands = [] then Inl (ValueError ''agent run requires verification commands'')
      else
        bindE (require_criterion_coverage task commands) (\<lambda>_.
        bindE (deadline_after (al_max_runtime_seconds limits) now) (\<lambda>deadline.
        bindE first_snapshot (\<lambda>initial.
        if \<not> is_safe_id 95 run_id \<or> run_id \<in> {''.'', ''..''} then Inl (RunStoreError ''agent run ID contains unsafe characters'')
        else if run_exists then Inl (RunStoreError (''agent run already exists: '' @ run_id))
        else run_loop \<lparr>ac_run_id = run_id, ac_artifact_path = artifact_path, ac_limits = limits, ac_cadence = cadence, ac_deadline = deadline\<rparr>
          env initial (start_state task initial)))))"

section \<open>What a step can change\<close>

lemma failed_fields [simp]: "\<not> tm_success (failed r n)" "tm_reason (failed r n) = r" "tm_steps (failed r n) = n"
  by (simp_all add: failed_def)

text \<open>The part of the state that the result reports: compactions, verifications and their artifacts.\<close>

definition counters :: "agent_run_state \<Rightarrow> int \<times> int \<times> artifact_ref list" where
  "counters s = (st_compactions s, st_verifications s, st_verification_artifacts s)"

lemma counters_keep [simp]:
  "counters (append_event e s) = counters s" "counters (update_criterion_status v s) = counters s"
  "counters (remember_verification_state h n s) = counters s" "counters (s\<lparr>st_final_summary := x\<rparr>) = counters s"
  "counters (s\<lparr>st_events := es\<rparr>) = counters s" "counters (s\<lparr>st_last_failed_verification_state := f\<rparr>) = counters s"
  "counters (s\<lparr>st_mutations_since_verify := m\<rparr>) = counters s" "counters (s\<lparr>st_protocol_errors := p\<rparr>) = counters s"
  by (simp_all add: counters_def append_event_def update_criterion_status_def remember_verification_state_def Let_def split: pyobj.split)

lemma counter_fields_keep [simp]:
  "st_compactions (append_event e s) = st_compactions s" "st_verifications (append_event e s) = st_verifications s"
  "st_compactions (update_criterion_status v s) = st_compactions s" "st_verifications (update_criterion_status v s) = st_verifications s"
  "st_compactions (remember_verification_state h n s) = st_compactions s" "st_verifications (remember_verification_state h n s) = st_verifications s"
  using counters_keep(1) [of e s] counters_keep(2) [of v s] counters_keep(3) [of h n s] by (simp_all add: counters_def)

lemma observe_decision_counters: "observe_decision d n s = (f, b, s') \<Longrightarrow> counters s' = counters s \<and> st_final_summary s' = st_final_summary s"
  by (auto simp: observe_decision_def counters_def Let_def split: if_splits)

lemma observe_workspace_counters: "observe_workspace_state h n e k s = (b, e', s') \<Longrightarrow> counters s' = counters s"
  by (auto simp: observe_workspace_state_def counters_def Let_def split: option.splits)

lemma tool_result_counters: "tool_result env turn d tool s = Inr (e, a, b, s') \<Longrightarrow> counters s' = counters s"
  by (auto simp: tool_result_def counters_def bindE_eq_Inr split: sum.splits py_error.splits prod.splits)

lemma tool_execute_effect:
  assumes "tool_execute env k turn s = Inr (tr, s')"
  shows "counters s' = counters s \<and> (\<forall>t. tr_termination tr = Some t \<longrightarrow> \<not> tm_success t \<and> tm_reason t \<noteq> [] \<and> tm_steps t = tu_step turn)"
  using assms tool_result_counters observe_workspace_counters
  by (fastforce simp: tool_execute_def bindE_eq_Inr split: option.splits if_splits prod.splits)

text \<open>A verification counts once and leaves one artifact.\<close>

lemma verify_effect:
  "verify_workspace env run_id final step s = Inr (r, s') \<Longrightarrow> \<exists>a. en_verify env (verification_run_id run_id final step) = Inr r \<and>
     en_reference env (vr_run_id r) = Inr a \<and> counters s' = (st_compactions s, st_verifications s + 1, st_verification_artifacts s @ [a]) \<and>
     st_final_summary s' = st_final_summary s"
  by (auto simp: verify_workspace_def bindE_eq_Inr counters_def)

definition verified_at_most_once :: "agent_run_state \<Rightarrow> agent_run_state \<Rightarrow> bool" where
  "verified_at_most_once s s' \<longleftrightarrow> counters s' = counters s \<or>
     (\<exists>a. counters s' = (st_compactions s, st_verifications s + 1, st_verification_artifacts s @ [a]))"

lemma final_summary_keep [simp]:
  "st_final_summary (append_event e s) = st_final_summary s" "st_final_summary (update_criterion_status v s) = st_final_summary s"
  "st_final_summary (remember_verification_state h n s) = st_final_summary s"
  by (simp_all add: append_event_def update_criterion_status_def remember_verification_state_def Let_def split: pyobj.split)

text \<open>The evidence behind a success: the final verification of the step passed and left the workspace unchanged, and its artifact is the last one.\<close>

definition final_evidence :: "agent_env \<Rightarrow> string \<Rightarrow> int \<Rightarrow> agent_run_state \<Rightarrow> bool" where
  "final_evidence env run_id step s \<longleftrightarrow> (\<exists>r a. en_verify env (verification_run_id run_id True step) = Inr r \<and> vr_passed r \<and>
     vr_workspace_unchanged r \<and> en_reference env (vr_run_id r) = Inr a \<and> st_verification_artifacts s \<noteq> [] \<and> last (st_verification_artifacts s) = a)"

lemma settle_final_effect:
  assumes "settle_final turn r after s = (tr, s')"
  shows "counters s' = counters s" "st_final_summary s' = st_final_summary s"
    and "tr_termination tr = Some t \<Longrightarrow> tm_reason t \<noteq> [] \<and> tm_steps t = tu_step turn \<and> (tm_success t \<longrightarrow> vr_passed r \<and> vr_workspace_unchanged r)"
  using assms by (auto simp: settle_final_def Let_def split: if_splits)

lemma finish_turn_effect:
  assumes "finish_turn env run_id turn s = Inr (tr, s')"
  shows "\<exists>d. tu_decision turn = Some d \<and> ad_kind d = ''finish'' \<and> st_final_summary s' = ad_summary d \<and> verified_at_most_once s s' \<and>
     (\<forall>t. tr_termination tr = Some t \<longrightarrow> tm_reason t \<noteq> [] \<and> tm_steps t = tu_step turn \<and> (tm_success t \<longrightarrow> final_evidence env run_id (tu_step turn) s'))"
proof -
  from assms obtain d where d: "tu_decision turn = Some d" "ad_kind d = ''finish''" by (auto simp: finish_turn_def split: option.splits if_splits)
  define s0 where "s0 = s\<lparr>st_final_summary := ad_summary d\<rparr>"
  have s0: "st_compactions s0 = st_compactions s" "st_verifications s0 = st_verifications s" "st_verification_artifacts s0 = st_verification_artifacts s"
    "counters s0 = counters s" "st_final_summary s0 = ad_summary d" by (simp_all add: s0_def)
  show ?thesis
  proof (cases "st_last_failed_verification_state s0 = Some (sn_state_hash (tu_before turn))")
    case True
    with assms d have "s' = append_event (rejected_event (sn_state_hash (tu_before turn))) s0" "tr_termination tr = None"
      by (auto simp: finish_turn_def Let_def s0_def)
    then show ?thesis using d s0 by (simp add: verified_at_most_once_def)
  next
    case False
    with assms d obtain r s1 after where v: "verify_workspace env run_id True (tu_step turn) s0 = Inr (r, s1)"
      and rest: "settle_final turn r after s1 = (tr, s')"
      by (auto simp: finish_turn_def Let_def s0_def bindE_eq_Inr)
    from verify_effect [OF v] obtain a where a: "en_verify env (verification_run_id run_id True (tu_step turn)) = Inr r"
      "en_reference env (vr_run_id r) = Inr a" "counters s1 = (st_compactions s, st_verifications s + 1, st_verification_artifacts s @ [a])"
      "st_final_summary s1 = ad_summary d" by (auto simp: s0)
    note settled = settle_final_effect [OF rest]
    have fin: "counters s' = counters s1" "st_final_summary s' = ad_summary d" using settled a(4) by simp_all
    have "st_verification_artifacts s' = st_verification_artifacts s @ [a]" using fin(1) a(3) by (simp add: counters_def)
    with d fin a settled show ?thesis unfolding verified_at_most_once_def final_evidence_def by fastforce
  qed
qed

lemma after_tool_effect:
  assumes "after_tool env run_id k turn s tr = Inr (tr', s')" "tr_termination tr = None"
  shows "verified_at_most_once s s' \<and> (\<forall>t. tr_termination tr' = Some t \<longrightarrow> \<not> tm_success t \<and> tm_reason t \<noteq> [] \<and> tm_steps t = tu_step turn)"
proof (cases "\<not> is_mutated (tr_event tr) \<or> st_mutations_since_verify s < k")
  case True
  with assms show ?thesis by (auto simp: after_tool_def verified_at_most_once_def)
next
  case False
  from False assms(1) obtain r s1 where v: "verify_workspace env run_id False (tu_step turn) s = Inr (r, s1)"
    by (auto simp: after_tool_def bindE_eq_Inr simp del: not_less)
  obtain event s2 where n: "note_followup turn r tr s1 = (event, s2)" by (rule prod.exhaust)
  have fin: "counters s' = counters s2" and ended: "tr_termination tr' = None \<or>
      tr_termination tr' = Some (failed ''verification command mutated the workspace'' (tu_step turn))"
    using assms False v n by (auto simp: after_tool_def bindE_eq_Inr split: if_splits)
  from n have "counters s2 = counters s1" by (auto simp: note_followup_def Let_def)
  with verify_effect [OF v] fin ended show ?thesis unfolding verified_at_most_once_def by auto
qed

lemma verified_cong: "counters s1 = counters s \<Longrightarrow> verified_at_most_once s1 s' \<longleftrightarrow> verified_at_most_once s s'"
  by (auto simp: verified_at_most_once_def counters_def)

lemma verified_trans: "counters s' = counters s1 \<Longrightarrow> verified_at_most_once s s' \<longleftrightarrow> verified_at_most_once s s1"
  by (simp add: verified_at_most_once_def)

lemma decide_effect:
  assumes "decide c env turn d s = Inr (t, s', w)" "tu_decision turn = Some d"
  shows "verified_at_most_once s s' \<and> length w = 1 \<and> (\<forall>x. t = Some x \<longrightarrow> tm_reason x \<noteq> [] \<and> tm_steps x = tu_step turn \<and>
     (tm_success x \<longrightarrow> ad_kind d = ''finish'' \<and> st_final_summary s' = ad_summary d \<and> final_evidence env (ac_run_id c) (tu_step turn) s'))"
proof -
  obtain f b s1 where o: "observe_decision d (cp_stagnation_limit (ac_cadence c)) s = (f, b, s1)" by (metis prod_cases3)
  have c1: "counters s1 = counters s" using observe_decision_counters [OF o] by simp
  show ?thesis
  proof (cases b)
    case True
    with assms o c1 show ?thesis by (auto simp: decide_def verified_at_most_once_def)
  next
    case not_b: False
    show ?thesis
    proof (cases "ad_kind d = ''finish''")
      case True
      with assms o not_b obtain tr where "finish_turn env (ac_run_id c) turn s1 = Inr (tr, s')" "t = tr_termination tr" "length w = 1"
        by (auto simp: decide_def bindE_eq_Inr)
      with finish_turn_effect [of env "ac_run_id c" turn s1 tr s'] assms(2) True show ?thesis by (auto simp: verified_cong [OF c1])
    next
      case False
      with assms o not_b obtain tr s2 tr' where x: "tool_execute env (cp_stagnation_limit (ac_cadence c)) turn s1 = Inr (tr, s2)"
        and rest: "(if tr_termination tr = None
          then after_tool env (ac_run_id c) (cp_verification_interval_mutations (ac_cadence c)) turn s2 tr else Inr (tr, s2)) = Inr (tr', s')"
        and t: "t = tr_termination tr'" "length w = 1"
        by (auto simp: decide_def bindE_eq_Inr)
      note x = tool_execute_effect [OF x]
      have c2: "counters s2 = counters s" using x c1 by simp
      show ?thesis
      proof (cases "tr_termination tr")
        case None
        with rest have "after_tool env (ac_run_id c) (cp_verification_interval_mutations (ac_cadence c)) turn s2 tr = Inr (tr', s')" by simp
        from after_tool_effect [OF this None] t show ?thesis by (simp add: verified_cong [OF c2])
      next
        case (Some y)
        with rest x t c2 show ?thesis by (auto simp: verified_at_most_once_def)
      qed
    qed
  qed
qed

section \<open>Runs\<close>

definition counters_ok :: "agent_config \<Rightarrow> int \<Rightarrow> agent_run_state \<Rightarrow> bool" where
  "counters_ok c n s \<longleftrightarrow> 0 \<le> st_compactions s \<and> st_compactions s \<le> al_max_compactions (ac_limits c) \<and>
     st_verifications s = int (length (st_verification_artifacts s)) \<and> st_verifications s \<le> n"

definition finish_evidence :: "agent_config \<Rightarrow> agent_env \<Rightarrow> int \<Rightarrow> agent_run_state \<Rightarrow> bool" where
  "finish_evidence c env step s \<longleftrightarrow> (\<exists>content d. en_complete env step = Inr content \<and> \<not> deadline_expired (ac_deadline c) (en_clock_after env step) \<and>
     parse_agent_decision content = Inr d \<and> ad_kind d = ''finish'' \<and> st_final_summary s = ad_summary d \<and> final_evidence env (ac_run_id c) step s)"

lemma counters_ok_cong: "counters s' = counters s \<Longrightarrow> counters_ok c n s' \<longleftrightarrow> counters_ok c n s"
  by (simp add: counters_ok_def counters_def)

lemma counters_ok_mono: "counters_ok c n s \<Longrightarrow> n \<le> m \<Longrightarrow> counters_ok c m s"
  by (simp add: counters_ok_def)

lemma counters_ok_verified: "counters_ok c n s \<Longrightarrow> verified_at_most_once s s' \<Longrightarrow> counters_ok c (n + 1) s'"
  by (auto simp: verified_at_most_once_def counters_ok_def counters_def)

lemma compact_counters_ok:
  assumes "compact_if_due c step s = (s', w)" "counters_ok c n s"
  shows "counters_ok c n s' \<and> length w \<le> 1"
  using assms by (auto simp: compact_if_due_def should_compact_def compact_def counters_ok_def Let_def split: if_splits prod.splits)

lemma run_step_effect:
  assumes run: "run_step c env step s = Inr (t, s', w)" and ok: "counters_ok c (step - 1) s"
  shows "counters_ok c step s' \<and> (\<forall>x. t = Some x \<longrightarrow> tm_reason x \<noteq> [] \<and> step - 1 \<le> tm_steps x \<and> tm_steps x \<le> step \<and>
     counters_ok c (tm_steps x) s' \<and> (tm_success x \<longrightarrow> tm_steps x = step \<and> finish_evidence c env step s'))"
proof -
  obtain s1 w1 where k: "compact_if_due c step s = (s1, w1)" by (rule prod.exhaust)
  note s1 = conjunct1 [OF compact_counters_ok [OF k ok]]
  have mono: "counters_ok c step s1" using counters_ok_mono [OF s1] by simp
  from run k obtain before w2 where eq: "(case model_turn c env step of
          Inl (DeadlineExceeded _) \<Rightarrow> Inr (Some (failed ''runtime budget exhausted'' (step - 1)), s1, [])
        | Inl (ProviderError error) \<Rightarrow>
            Inr (Some (failed (''provider failure: '' @ error) (step - 1)), s1,
              [StepArtifact \<lparr>tu_step = step, tu_before = before, tu_model_content = [], tu_decision = None\<rparr> before
                (py_dict [(''kind'', PStr ''provider_error''), (''step'', PInt step), (''error'', PStr error)])])
        | Inl e \<Rightarrow> Inl e
        | Inr content \<Rightarrow>
            (case parse_agent_decision content of
               Inl (ProtocolError error) \<Rightarrow>
                 Inr (protocol_failure c \<lparr>tu_step = step, tu_before = before, tu_model_content = content, tu_decision = None\<rparr> error s1)
             | Inl e \<Rightarrow> Inl e
             | Inr d \<Rightarrow> decide c env \<lparr>tu_step = step, tu_before = before, tu_model_content = content, tu_decision = Some d\<rparr> d s1)) = Inr (t, s', w2)"
    unfolding run_step_def by (auto simp: bindE_eq_Inr)
  show ?thesis
  proof (cases "model_turn c env step")
    case (Inl e)
    with eq have "s' = s1" "\<exists>reason. t = Some (failed reason (step - 1)) \<and> reason \<noteq> []" by (auto split: py_error.splits)
    with s1 mono show ?thesis by auto
  next
    case (Inr content)
    then have content: "en_complete env step = Inr content" "\<not> deadline_expired (ac_deadline c) (en_clock_after env step)"
      by (auto simp: model_turn_def bindE_eq_Inr split: if_splits)
    show ?thesis
    proof (cases "parse_agent_decision content")
      case (Inl e)
      with eq Inr obtain error where p: "protocol_failure c \<lparr>tu_step = step, tu_before = before, tu_model_content = content, tu_decision = None\<rparr> error s1 = (t, s', w2)"
        by (auto split: py_error.splits)
      then have c: "counters s' = counters s1" "t = None \<or> t = Some (failed ''model protocol error budget exhausted'' step)"
        by (auto simp: protocol_failure_def Let_def split: if_splits)
      then show ?thesis using mono by (auto simp: counters_ok_cong [OF c(1)])
    next
      case (Inr d)
      with eq \<open>model_turn c env step = Inr content\<close>
      have "decide c env \<lparr>tu_step = step, tu_before = before, tu_model_content = content, tu_decision = Some d\<rparr> d s1 = Inr (t, s', w2)" by simp
      from decide_effect [OF this] have eff: "verified_at_most_once s1 s'" "\<And>x. t = Some x \<Longrightarrow> tm_reason x \<noteq> [] \<and> tm_steps x = step \<and>
         (tm_success x \<longrightarrow> ad_kind d = ''finish'' \<and> st_final_summary s' = ad_summary d \<and> final_evidence env (ac_run_id c) step s')" by simp_all
      have "counters_ok c step s'" using counters_ok_verified [OF s1 eff(1)] by simp
      with eff(2) content Inr show ?thesis unfolding finish_evidence_def by fastforce
    qed
  qed
qed

lemma upto_Cons: "[m..n] = x # xs \<Longrightarrow> x = m \<and> xs = [m + 1..n] \<and> m \<le> n"
  by (cases "m \<le> n") (auto simp: upto.simps [of m n])

lemma run_steps_effect:
  assumes "run_steps c env steps s = Inr (t, s', w)" "steps = [m..al_max_steps (ac_limits c)]" "m \<le> al_max_steps (ac_limits c) + 1"
    and "counters_ok c (m - 1) s"
  shows "counters_ok c (tm_steps t) s' \<and> m - 1 \<le> tm_steps t \<and> tm_steps t \<le> al_max_steps (ac_limits c) \<and> tm_reason t \<noteq> [] \<and>
     (tm_success t \<longrightarrow> m \<le> tm_steps t \<and> finish_evidence c env (tm_steps t) s')"
  using assms
proof (induction steps arbitrary: m s t s' w)
  case Nil
  then have "\<not> m \<le> al_max_steps (ac_limits c)" by (metis upto_Nil2 not_less)
  with Nil have "m - 1 = al_max_steps (ac_limits c)" by simp
  with Nil show ?case by auto
next
  case (Cons step steps)
  note m = upto_Cons [OF Cons.prems(2) [symmetric]]
  show ?case
  proof (cases "deadline_expired (ac_deadline c) (en_clock env step)")
    case True
    with Cons.prems(1,4) m show ?thesis by auto
  next
    case False
    with Cons.prems(1) obtain t1 s1 w1 where r: "run_step c env step s = Inr (t1, s1, w1)"
      and rest: "(case t1 of Some t \<Rightarrow> Inr (t, s1, w1) | None \<Rightarrow> bindE (run_steps c env steps s1) (\<lambda>(t, s, more). Inr (t, s, w1 @ more))) = Inr (t, s', w)"
      by (auto simp: bindE_eq_Inr)
    have ok: "counters_ok c (step - 1) s" using Cons.prems(4) m by simp
    note eff = run_step_effect [OF r ok]
    show ?thesis
    proof (cases t1)
      case None
      with rest obtain more where "run_steps c env steps s1 = Inr (t, s', more)" by (auto simp: bindE_eq_Inr)
      from Cons.IH [OF this, of "m + 1"] m eff show ?thesis by auto
    next
      case (Some x)
      with rest eff m show ?thesis by auto
    qed
  qed
qed

section \<open>Answered environments\<close>

text \<open>
  An environment that raises nothing but what the loop handles: the provider fails with its own error or the deadline, a tool with a tool error, and
  snapshots, the verifier and its store answer.
\<close>

definition answers :: "'a result \<Rightarrow> bool" where
  "answers r \<longleftrightarrow> (\<exists>x. r = Inr x)"


lemma answers_simps [simp]: "answers (Inr x)" "\<not> answers (Inl e)"
  by (simp_all add: answers_def)










section \<open>A sample run\<close>

text \<open>The model finishes at once and the verification passes.\<close>

definition sample_snapshot :: workspace_snapshot where
  "sample_snapshot = \<lparr>sn_commit_sha = replicate 40 (CHR ''a''), sn_state_hash = ''sha256:'' @ replicate 64 (CHR ''b''), sn_changed_paths = []\<rparr>"

definition sample_done :: agent_decision where
  "sample_done = \<lparr>ad_kind = ''finish'', ad_tool = None, ad_arguments = [], ad_reason = [], ad_summary = Some ''done''\<rparr>"

definition sample_response :: string where
  "sample_response = json_dumps (PDict (decision_payload sample_done))"

definition sample_env :: agent_env where
  "sample_env = \<lparr>en_clock = (\<lambda>_. Finite 1), en_observe = (\<lambda>_. Inr []), en_before = (\<lambda>_. Inr sample_snapshot),
     en_complete = (\<lambda>_. Inr sample_response), en_clock_after = (\<lambda>_. Finite 1),
     en_tool = (\<lambda>_ _ _. Inl (ToolError ''no tools'')), en_after_tool = (\<lambda>_. Inr sample_snapshot), en_after_error = (\<lambda>_. Inr sample_snapshot),
     en_verify = (\<lambda>_. Inr sample_receipt),
     en_reference = (\<lambda>_. Inr \<lparr>af_artifact_id = ''run/receipt.json'', af_sha256 = ''sha256:'' @ replicate 64 (CHR ''f''), af_size_bytes = 2, af_media_type = ''application/json'', af_schema_version = ''sisyphus_harness.artifact_ref.v1''\<rparr>),
     en_after_verify = (\<lambda>_. Inr sample_snapshot), en_final = Inr sample_snapshot\<rparr>"

definition sample_limits :: agent_limits where
  "sample_limits = \<lparr>al_max_steps = 1, al_max_runtime_seconds = Finite 60, al_max_file_bytes = 1024, al_max_tool_output_chars = 1000,
     al_max_protocol_errors = 0, al_max_compactions = 0\<rparr>"

definition sample_cadence :: cadence_policy where
  "sample_cadence = \<lparr>cp_compaction_interval_steps = 6, cp_context_char_limit = 48000, cp_keep_recent_events = 4, cp_reflection_interval_steps = 4,
     cp_observation_interval_steps = 3, cp_verification_interval_mutations = 3, cp_stagnation_limit = 4\<rparr>"

definition sample_agent_task :: agent_task where
  "sample_agent_task = \<lparr>at_instruction = ''fix'', at_acceptance_criteria = [''tests pass'']\<rparr>"

definition sample_commands :: "command_spec list" where
  "sample_commands = [\<lparr>cs_name = ''unit'', cs_argv = [''pytest''], cs_timeout_seconds = Finite 60, cs_criteria = [''tests pass'']\<rparr>]"

lemma sample_run_inputs:
  "mk_agent_limits sample_limits = Inr sample_limits" "require_criterion_coverage sample_agent_task sample_commands = Inr ()"
  "deadline_after (al_max_runtime_seconds sample_limits) (Finite 0) = Inr (Finite 60)" "is_safe_id 95 ''run''" "sample_commands \<noteq> []"
  by code_simp+


lemma sample_parse: "parse_agent_decision sample_response = Inr sample_done"
  by code_simp

lemma sample_fields:
  "ad_kind sample_done = ''finish''" "al_max_steps sample_limits = 1" "al_max_compactions sample_limits = 0" "cp_stagnation_limit sample_cadence = 4"
  "en_clock sample_env n = Finite 1" "en_observe sample_env n = Inr []" "en_before sample_env n = Inr sample_snapshot"
  "en_complete sample_env n = Inr sample_response" "en_clock_after sample_env n = Finite 1" "en_verify sample_env r = Inr sample_receipt"
  "\<exists>a. en_reference sample_env r = Inr a" "en_after_verify sample_env n = Inr sample_snapshot" "en_final sample_env = Inr sample_snapshot"
  "vr_workspace_unchanged sample_receipt" "vr_passed sample_receipt"
  by (simp_all add: sample_done_def sample_limits_def sample_cadence_def sample_env_def sample_receipt_def)

lemma sample_agent_run:
  obtains res written where
    "agent_run sample_limits sample_cadence sample_env (Finite 0) (Inr sample_snapshot) ''runs/run'' False ''run'' sample_agent_task sample_commands = Inr (res, written)"
    "ar_success res" "ar_steps res = 1"
proof -
  have live: "\<not> deadline_expired (Finite 60) (Finite 1)" by code_simp
  obtain a where a: "en_reference sample_env (vr_run_id sample_receipt) = Inr a" using sample_fields(11) by blast
  have "\<exists>res written. agent_run sample_limits sample_cadence sample_env (Finite 0) (Inr sample_snapshot) ''runs/run'' False ''run''
      sample_agent_task sample_commands = Inr (res, written) \<and> ar_success res \<and> ar_steps res = 1"
    by (simp add: agent_run_def run_loop_def run_step_def compact_if_due_def should_compact_def start_state_def model_turn_def decide_def
        observe_decision_def finish_turn_def verify_workspace_def settle_final_def finish_run_def mk_agent_result_def Let_def upto.simps
        sample_run_inputs sample_parse live a sample_fields)
  then show thesis using that by blast
qed

section \<open>Properties\<close>

lemma agent_run_Inr:
  assumes "agent_run limits cadence env now first_snapshot artifact_path run_exists run_id task commands = Inr (res, written)" "mk_agent_limits limits = Inr limits"
  obtains c s where "ac_limits c = limits" "ac_run_id c = run_id" "counters_ok c (ar_steps res) s" "0 \<le> ar_steps res" "ar_steps res \<le> al_max_steps limits"
    "ar_success res \<longrightarrow> 1 \<le> ar_steps res \<and> finish_evidence c env (ar_steps res) s" "ar_compactions res = st_compactions s"
    "ar_verifications res = st_verifications s" "ar_verification_artifacts res = st_verification_artifacts s" "ar_summary res = st_final_summary s"
    "deadline_after (al_max_runtime_seconds limits) now = Inr (ac_deadline c)"
proof -
  from assms(1) obtain deadline initial c where c: "c = \<lparr>ac_run_id = run_id, ac_artifact_path = artifact_path, ac_limits = limits, ac_cadence = cadence, ac_deadline = deadline\<rparr>"
    and deadline: "deadline_after (al_max_runtime_seconds limits) now = Inr deadline"
    and loop: "run_loop c env initial (start_state task initial) = Inr (res, written)"
    unfolding agent_run_def by (auto simp: bindE_eq_Inr split: if_splits)
  from loop c obtain t s where run: "run_steps c env [1..al_max_steps limits] (start_state task initial) = Inr (t, s, written)"
    and fin: "finish_run c env initial s t = Inr res" by (auto simp: run_loop_def bindE_eq_Inr)
  have lim: "0 \<le> al_max_compactions limits" "1 \<le> al_max_steps limits" using assms(2) by (auto simp: mk_agent_limits_def split: if_splits)
  have start: "counters_ok c (1 - 1) (start_state task initial)" using lim c by (simp add: counters_ok_def start_state_def Let_def)
  have "counters_ok c (tm_steps t) s \<and> 1 - 1 \<le> tm_steps t \<and> tm_steps t \<le> al_max_steps (ac_limits c) \<and> tm_reason t \<noteq> [] \<and>
     (tm_success t \<longrightarrow> 1 \<le> tm_steps t \<and> finish_evidence c env (tm_steps t) s)"
    by (rule run_steps_effect [OF run]) (use lim c start in simp_all)
  moreover from fin have "ar_steps res = tm_steps t" "ar_success res = tm_success t" "ar_compactions res = st_compactions s"
    "ar_verifications res = st_verifications s" "ar_verification_artifacts res = st_verification_artifacts s" "ar_summary res = st_final_summary s"
    by (auto simp: finish_run_def mk_agent_result_def bindE_eq_Inr split: if_splits)
  ultimately show thesis using c deadline by (intro that [of c s]) auto
qed

text \<open>
  C40. The agent cannot declare success. Whatever the provider, the tools and the workspace do, a run that reports success ended with a response that
  asked to finish, in time, and with a final verification under the run's own identity for that step which the verifier reports as
  passed with the workspace unchanged; that verification's receipt is the last artifact of the result.
\<close>

theorem agent_success_verified:
  assumes "agent_run limits cadence env now first_snapshot artifact_path run_exists run_id task commands = Inr (res, written)"
    and "mk_agent_limits limits = Inr limits" and "ar_success res"
  shows "1 \<le> ar_steps res \<and> ar_steps res \<le> al_max_steps limits \<and>
    (\<exists>content d r. en_complete env (ar_steps res) = Inr content \<and> parse_agent_decision content = Inr d \<and> ad_kind d = ''finish'' \<and>
       ar_summary res = ad_summary d \<and> en_verify env (run_id @ ''-final-'' @ show_int (ar_steps res)) = Inr r \<and> vr_passed r \<and> vr_workspace_unchanged r \<and>
       ar_verification_artifacts res \<noteq> [] \<and> en_reference env (vr_run_id r) = Inr (last (ar_verification_artifacts res)))"
proof -
  obtain c s where c: "ac_run_id c = run_id" "ar_steps res \<le> al_max_steps limits"
    and ev: "1 \<le> ar_steps res" "finish_evidence c env (ar_steps res) s"
    and res: "ar_verification_artifacts res = st_verification_artifacts s" "ar_summary res = st_final_summary s"
    using agent_run_Inr [OF assms(1,2)] assms(3) by metis
  then show ?thesis unfolding finish_evidence_def final_evidence_def verification_run_id_def by fastforce
qed

theorem agent_success_verified_witness:
  "\<exists>res written. agent_run sample_limits sample_cadence sample_env (Finite 0) (Inr sample_snapshot) ''runs/run'' False ''run'' sample_agent_task
       sample_commands = Inr (res, written) \<and> ar_success res \<and> en_verify sample_env ''run-final-1'' = Inr sample_receipt \<and>
     ar_verification_artifacts res \<noteq> []"
proof -
  obtain res written where run: "agent_run sample_limits sample_cadence sample_env (Finite 0) (Inr sample_snapshot) ''runs/run'' False ''run''
      sample_agent_task sample_commands = Inr (res, written)" "ar_success res" "ar_steps res = 1" by (rule sample_agent_run)
  from agent_success_verified [OF run(1) sample_run_inputs(1) run(2)] run show ?thesis by (auto simp: sample_fields)
qed



end
