(* ===== verification/Knowledge_Contracts.thy ===== *)
theory Knowledge_Contracts
  imports Evidence_Contracts "HOL-Library.Product_Lexorder"
begin

text \<open>
  \<^verbatim>\<open>contracts/knowledge.py\<close>: the nodes and edges of the knowledge graph with their provenance, their
  content digests and their wire forms, the lexical terms of a text, and the field checks they share. Each
  dataclass is a record, its \<^verbatim>\<open>__post_init__\<close> the constructor \<open>mk_\<dots>\<close>. An enumeration field reaches the
  constructor as its string value, the way \<^verbatim>\<open>from_dict\<close> passes it, and leaves it as the member. The lemmas show that
  decoding inverts encoding, that a recorded digest is accepted only when it is the digest of the content, and that case
  folding and splitting into terms commute.
\<close>

section \<open>Field checks\<close>

definition DERIVED_CANDIDATE_AUTHORITY :: string where
  "DERIVED_CANDIDATE_AUTHORITY = ''derived_candidate_only''"

definition MAX_GRAPH_TRAVERSAL_DEPTH :: int where
  "MAX_GRAPH_TRAVERSAL_DEPTH = 3"

text \<open>The regular expression \<^verbatim>\<open>[A-Za-z0-9][A-Za-z0-9._:/-]{0,255}\<close>, matched in full.\<close>

definition is_identifier :: "string \<Rightarrow> bool" where
  "is_identifier s = (case s of [] \<Rightarrow> False
     | c # cs \<Rightarrow> is_ascii_alnum c \<and> length cs \<le> 255 \<and> list_all (\<lambda>d. is_ascii_alnum d \<or> d \<in> set ''._:/-'') cs)"

definition validate_identifier :: "string \<Rightarrow> string \<Rightarrow> unit result" where
  "validate_identifier v label = (if \<not> is_identifier v then Inl (ValueError (label @ '' is invalid'')) else Inr ())"

definition validate_candidate_authority :: "string \<Rightarrow> string \<Rightarrow> unit result" where
  "validate_candidate_authority authority label =
     (if authority \<noteq> DERIVED_CANDIDATE_AUTHORITY then Inl (ValueError (label @ '' authority must remain candidate-only'')) else Inr ())"

definition validate_max_depth :: "int \<Rightarrow> unit result" where
  "validate_max_depth max_depth = (if \<not> (0 \<le> max_depth \<and> max_depth \<le> MAX_GRAPH_TRAVERSAL_DEPTH)
     then Inl (ValueError (''graph traversal depth must be between 0 and '' @ show_int MAX_GRAPH_TRAVERSAL_DEPTH)) else Inr ())"

definition validate_positive_rank :: "int \<Rightarrow> unit result" where
  "validate_positive_rank rank = (if \<not> (1 \<le> rank \<and> rank \<le> 1000)
     then Inl (ValueError ''next-step candidate rank must be between 1 and 1000'') else Inr ())"

definition strict_bounded_strings :: "string list \<Rightarrow> string \<Rightarrow> nat \<Rightarrow> string list result" where
  "strict_bounded_strings values label max_items =
     (if max_items < length values \<or> (\<exists>v\<in>set values. v = [] \<or> CHR 0x00 \<in> set v \<or> 1024 < length v)
      then Inl (ValueError (label @ '' contains an invalid value'')) else Inr values)"

text \<open>\<open>_enum\<close>: the member whose value the string is.\<close>

definition enum_member :: "('a \<Rightarrow> string) \<Rightarrow> 'a list \<Rightarrow> string \<Rightarrow> string \<Rightarrow> 'a result" where
  "enum_member value members v label = (case find (\<lambda>m. value m = v) members of Some m \<Rightarrow> Inr m
     | None \<Rightarrow> Inl (ValueError (label @ '' is unsupported'')))"

text \<open>\<open>_freeze_metadata\<close> on the items of a raw mapping.\<close>

definition freeze_item :: "string \<Rightarrow> string \<times> pyobj \<Rightarrow> (string \<times> string) result" where
  "freeze_item label kv = (let key = fst kv in
     if py_strip key = [] \<or> py_strip key \<noteq> key \<or> CHR 0x00 \<in> set key \<or> 128 < length key
     then Inl (ValueError (label @ '' contains an invalid key''))
     else (case snd kv of
         PStr v \<Rightarrow> if CHR 0x00 \<in> set v \<or> 4096 < length v
           then Inl (ValueError (label @ '' contains an invalid value for '' @ py_repr key)) else Inr (key, v)
       | _ \<Rightarrow> Inl (ValueError (label @ '' contains an invalid value for '' @ py_repr key))))"

definition freeze_metadata :: "pydict \<Rightarrow> string \<Rightarrow> (string \<times> string) list result" where
  "freeze_metadata raw label = bindE (mapE (freeze_item label) raw) (\<lambda>items. Inr (py_dict items))"

text \<open>\<open>_validate_recorded_digests\<close>: a digest that is present must have the form of one and be the expected one.\<close>

definition check_recorded :: "pydict \<Rightarrow> string \<Rightarrow> string \<Rightarrow> string \<Rightarrow> string \<Rightarrow> unit result" where
  "check_recorded raw key expected digest_label mismatch = (case dict_get raw key of
       PNone \<Rightarrow> Inr ()
     | PStr recorded \<Rightarrow> bindE (validate_digest recorded digest_label) (\<lambda>_.
         if recorded \<noteq> expected then Inl (ValueError mismatch) else Inr ())
     | _ \<Rightarrow> Inl (ValueError (digest_label @ '' must be SHA-256'')))"

definition validate_recorded_digests :: "pydict \<Rightarrow> (string \<times> string) list \<Rightarrow> string \<Rightarrow> unit result" where
  "validate_recorded_digests raw expected label = checkE (\<lambda>(key, v).
     check_recorded raw key v (label @ '' '' @ key) (label @ '' '' @ key @ '' does not match content'')) expected"

section \<open>Enumerations\<close>

datatype knowledge_node_type = TASK | KNOWLEDGE

fun node_type_value :: "knowledge_node_type \<Rightarrow> string" where
  "node_type_value TASK = ''task''"
| "node_type_value KNOWLEDGE = ''knowledge''"

definition knowledge_node_types :: "knowledge_node_type list" where
  "knowledge_node_types = [TASK, KNOWLEDGE]"

datatype candidate_task_status = STATUS_COMPLETED | STATUS_READY | STATUS_BLOCKED

fun task_status_value :: "candidate_task_status \<Rightarrow> string" where
  "task_status_value STATUS_COMPLETED = ''completed''"
| "task_status_value STATUS_READY = ''ready''"
| "task_status_value STATUS_BLOCKED = ''blocked''"

definition candidate_task_statuses :: "candidate_task_status list" where
  "candidate_task_statuses = [STATUS_COMPLETED, STATUS_READY, STATUS_BLOCKED]"

datatype dependency_edge_write_result = INSERTED | UNCHANGED | CYCLE

datatype knowledge_edge_type =
  DEPENDS_ON | REQUIRES | SUPPORTS | CONTRADICTS | RELATES_TO | REFINES | SUPERSEDES | DERIVED_FROM | MENTIONS

fun edge_type_value :: "knowledge_edge_type \<Rightarrow> string" where
  "edge_type_value DEPENDS_ON = ''depends_on''"
| "edge_type_value REQUIRES = ''requires''"
| "edge_type_value SUPPORTS = ''supports''"
| "edge_type_value CONTRADICTS = ''contradicts''"
| "edge_type_value RELATES_TO = ''relates_to''"
| "edge_type_value REFINES = ''refines''"
| "edge_type_value SUPERSEDES = ''supersedes''"
| "edge_type_value DERIVED_FROM = ''derived_from''"
| "edge_type_value MENTIONS = ''mentions''"

definition knowledge_edge_types :: "knowledge_edge_type list" where
  "knowledge_edge_types = [DEPENDS_ON, REQUIRES, SUPPORTS, CONTRADICTS, RELATES_TO, REFINES, SUPERSEDES, DERIVED_FROM, MENTIONS]"

definition DEPENDENCY_EDGE_TYPES :: "knowledge_edge_type list" where
  "DEPENDENCY_EDGE_TYPES = [DEPENDS_ON, REQUIRES]"

section \<open>Provenance\<close>

record knowledge_provenance =
  kp_source_id :: string
  kp_source_kind :: string
  kp_source_digest :: string
  kp_producer :: string
  kp_revision :: string
  kp_schema_version :: string

definition mk_provenance :: "knowledge_provenance \<Rightarrow> knowledge_provenance result" where
  "mk_provenance p =
     bindE (validate_identifier (kp_source_id p) ''knowledge provenance source ID'') (\<lambda>_.
     bindE (validate_identifier (kp_source_kind p) ''knowledge provenance source kind'') (\<lambda>_.
     bindE (validate_digest (kp_source_digest p) ''knowledge provenance source digest'') (\<lambda>_.
     if py_strip (kp_producer p) = [] \<or> CHR 0x00 \<in> set (kp_producer p)
     then Inl (ValueError ''knowledge provenance producer must be non-empty'')
     else if py_strip (kp_revision p) = [] \<or> CHR 0x00 \<in> set (kp_revision p)
     then Inl (ValueError ''knowledge provenance revision must be non-empty'')
     else if kp_schema_version p \<noteq> ''sisyphus_harness.knowledge_provenance.v1''
     then Inl (ValueError ''unsupported knowledge provenance schema'') else Inr p)))"

definition provenance_to_dict :: "knowledge_provenance \<Rightarrow> pyobj" where
  "provenance_to_dict p = PDict (py_dict
     [(''source_id'', PStr (kp_source_id p)), (''source_kind'', PStr (kp_source_kind p)),
      (''source_digest'', PStr (kp_source_digest p)), (''producer'', PStr (kp_producer p)),
      (''revision'', PStr (kp_revision p)), (''schema_version'', PStr (kp_schema_version p))])"

definition provenance_digest :: "knowledge_provenance \<Rightarrow> string" where
  "provenance_digest p = wire_digest (provenance_to_dict p)"

definition provenance_from_dict :: "pyobj \<Rightarrow> knowledge_provenance result" where
  "provenance_from_dict raw =
     bindE (strict_object raw [''source_id'', ''source_kind'', ''source_digest'', ''producer'', ''revision'', ''schema_version'']
       [''provenance_digest''] ''knowledge provenance'' ValueError) (\<lambda>d.
     bindE (field d ''source_id'' as_string ''knowledge provenance source_id'') (\<lambda>source_id.
     bindE (field d ''source_kind'' as_string ''knowledge provenance source_kind'') (\<lambda>source_kind.
     bindE (field d ''source_digest'' as_string ''knowledge provenance source_digest'') (\<lambda>source_digest.
     bindE (field d ''producer'' as_string ''knowledge provenance producer'') (\<lambda>producer.
     bindE (field d ''revision'' as_string ''knowledge provenance revision'') (\<lambda>revision.
     bindE (field d ''schema_version'' as_string ''knowledge provenance schema_version'') (\<lambda>schema_version.
     bindE (mk_provenance \<lparr>kp_source_id = source_id, kp_source_kind = source_kind, kp_source_digest = source_digest,
       kp_producer = producer, kp_revision = revision, kp_schema_version = schema_version\<rparr>) (\<lambda>result.
     bindE (check_recorded d ''provenance_digest'' (provenance_digest result) ''knowledge provenance digest''
       ''knowledge provenance digest does not match content'') (\<lambda>_. Inr result)))))))))"

section \<open>Nodes\<close>

record knowledge_node =
  kn_node_id :: string
  kn_node_type :: knowledge_node_type
  kn_title :: string
  kn_content :: string
  kn_provenance :: knowledge_provenance
  kn_task_status :: "candidate_task_status option"
  kn_metadata :: "(string \<times> string) list"
  kn_authority :: string
  kn_schema_version :: string

definition optional_status :: "string option \<Rightarrow> candidate_task_status option result" where
  "optional_status raw = (case raw of None \<Rightarrow> Inr None
     | Some s \<Rightarrow> bindE (enum_member task_status_value candidate_task_statuses s ''candidate task status'') (\<lambda>m. Inr (Some m)))"

definition mk_knowledge_node ::
  "string \<Rightarrow> string \<Rightarrow> string \<Rightarrow> string \<Rightarrow> knowledge_provenance \<Rightarrow> string option \<Rightarrow> pydict \<Rightarrow> string \<Rightarrow> string \<Rightarrow> knowledge_node result"
where
  "mk_knowledge_node node_id type_raw title content provenance status_raw metadata authority schema_version =
     bindE (validate_identifier node_id ''knowledge node ID'') (\<lambda>_.
     bindE (enum_member node_type_value knowledge_node_types type_raw ''knowledge node type'') (\<lambda>node_type.
     if py_strip title = [] \<or> CHR 0x00 \<in> set title \<or> 512 < length title then Inl (ValueError ''knowledge node title is invalid'')
     else if py_strip content = [] \<or> CHR 0x00 \<in> set content then Inl (ValueError ''knowledge node content must be non-empty'')
     else if 1000000 < length content then Inl (ValueError ''knowledge node content exceeds the supported size'')
     else bindE (optional_status status_raw) (\<lambda>status.
     if node_type = TASK \<and> status = None then Inl (ValueError ''task knowledge node requires a candidate task status'')
     else if node_type = KNOWLEDGE \<and> status \<noteq> None then Inl (ValueError ''non-task knowledge node cannot have a task status'')
     else bindE (freeze_metadata metadata ''knowledge node metadata'') (\<lambda>frozen.
     if authority \<noteq> DERIVED_CANDIDATE_AUTHORITY then Inl (ValueError ''knowledge nodes are derived candidates only'')
     else if schema_version \<noteq> ''sisyphus_harness.knowledge_node.v1'' then Inl (ValueError ''unsupported knowledge node schema'')
     else Inr \<lparr>kn_node_id = node_id, kn_node_type = node_type, kn_title = title, kn_content = content,
       kn_provenance = provenance, kn_task_status = status, kn_metadata = frozen, kn_authority = authority,
       kn_schema_version = schema_version\<rparr>))))"

definition metadata_items :: "(string \<times> string) list \<Rightarrow> pydict" where
  "metadata_items m = map (\<lambda>(k, v). (k, PStr v)) m"

definition node_content_digest :: "knowledge_node \<Rightarrow> string" where
  "node_content_digest n = wire_digest (PDict (py_dict [(''title'', PStr (kn_title n)), (''content'', PStr (kn_content n))]))"

definition metadata_digest :: "(string \<times> string) list \<Rightarrow> string" where
  "metadata_digest m = wire_digest (PDict (metadata_items m))"

definition status_wire :: "candidate_task_status option \<Rightarrow> pyobj" where
  "status_wire s = (case s of None \<Rightarrow> PNone | Some m \<Rightarrow> PStr (task_status_value m))"

definition node_payload :: "knowledge_node \<Rightarrow> pydict" where
  "node_payload n =
     [(''node_id'', PStr (kn_node_id n)), (''node_type'', PStr (node_type_value (kn_node_type n))),
      (''title'', PStr (kn_title n)), (''content'', PStr (kn_content n)), (''provenance'', provenance_to_dict (kn_provenance n)),
      (''task_status'', status_wire (kn_task_status n)), (''metadata'', PDict (metadata_items (kn_metadata n))),
      (''authority'', PStr (kn_authority n)), (''schema_version'', PStr (kn_schema_version n))]"

definition node_digest :: "knowledge_node \<Rightarrow> string" where
  "node_digest n = wire_digest (PDict (py_dict (node_payload n)))"

definition node_digests :: "knowledge_node \<Rightarrow> (string \<times> string) list" where
  "node_digests n = [(''content_digest'', node_content_digest n), (''metadata_digest'', metadata_digest (kn_metadata n)),
     (''provenance_digest'', provenance_digest (kn_provenance n)), (''node_digest'', node_digest n)]"

definition node_to_dict :: "knowledge_node \<Rightarrow> pyobj" where
  "node_to_dict n = PDict (py_dict (node_payload n @ map (\<lambda>(k, v). (k, PStr v)) (node_digests n)))"

definition status_field :: "pyobj \<Rightarrow> string \<Rightarrow> string option result" where
  "status_field raw label = (case raw of PNone \<Rightarrow> Inr None | PStr s \<Rightarrow> Inr (Some s)
     | _ \<Rightarrow> Inl (ValueError (label @ '' must be a string or null'')))"

definition metadata_field :: "pyobj \<Rightarrow> string \<Rightarrow> pydict result" where
  "metadata_field raw label = (case raw of PDict d \<Rightarrow> Inr d | _ \<Rightarrow> Inl (ValueError (label @ '' must be an object'')))"

definition node_from_dict :: "pyobj \<Rightarrow> knowledge_node result" where
  "node_from_dict raw =
     bindE (strict_object raw [''node_id'', ''node_type'', ''title'', ''content'', ''provenance'', ''task_status'', ''metadata'',
       ''authority'', ''schema_version''] [''content_digest'', ''metadata_digest'', ''provenance_digest'', ''node_digest'']
       ''knowledge node'' ValueError) (\<lambda>d.
     bindE (field d ''metadata'' metadata_field ''knowledge node metadata'') (\<lambda>metadata.
     bindE (field d ''task_status'' status_field ''candidate task status'') (\<lambda>status_raw.
     bindE (field d ''node_id'' as_string ''knowledge node ID'') (\<lambda>node_id.
     bindE (field d ''node_type'' as_string ''knowledge node type'') (\<lambda>node_type.
     bindE (field d ''title'' as_string ''knowledge node title'') (\<lambda>title.
     bindE (field d ''content'' as_string ''knowledge node content'') (\<lambda>content.
     bindE (bindE (dict_item d ''provenance'') provenance_from_dict) (\<lambda>provenance.
     bindE (field d ''authority'' as_string ''knowledge node authority'') (\<lambda>authority.
     bindE (field d ''schema_version'' as_string ''knowledge node schema'') (\<lambda>schema_version.
     bindE (mk_knowledge_node node_id node_type title content provenance status_raw metadata authority schema_version) (\<lambda>result.
     bindE (validate_recorded_digests d (node_digests result) ''knowledge node'') (\<lambda>_. Inr result))))))))))))"

section \<open>Edges\<close>

record knowledge_edge =
  ke_source_node_id :: string
  ke_target_node_id :: string
  ke_edge_type :: knowledge_edge_type
  ke_provenance :: knowledge_provenance
  ke_metadata :: "(string \<times> string) list"
  ke_authority :: string
  ke_schema_version :: string

definition mk_knowledge_edge ::
  "string \<Rightarrow> string \<Rightarrow> string \<Rightarrow> knowledge_provenance \<Rightarrow> pydict \<Rightarrow> string \<Rightarrow> string \<Rightarrow> knowledge_edge result" where
  "mk_knowledge_edge source target type_raw provenance metadata authority schema_version =
     bindE (validate_identifier source ''knowledge edge source ID'') (\<lambda>_.
     bindE (validate_identifier target ''knowledge edge target ID'') (\<lambda>_.
     if source = target then Inl (ValueError ''knowledge edge cannot be a self-edge'')
     else bindE (enum_member edge_type_value knowledge_edge_types type_raw ''knowledge edge type'') (\<lambda>edge_type.
     bindE (freeze_metadata metadata ''knowledge edge metadata'') (\<lambda>frozen.
     if authority \<noteq> DERIVED_CANDIDATE_AUTHORITY then Inl (ValueError ''knowledge edges are derived candidates only'')
     else if schema_version \<noteq> ''sisyphus_harness.knowledge_edge.v1'' then Inl (ValueError ''unsupported knowledge edge schema'')
     else Inr \<lparr>ke_source_node_id = source, ke_target_node_id = target, ke_edge_type = edge_type, ke_provenance = provenance,
       ke_metadata = frozen, ke_authority = authority, ke_schema_version = schema_version\<rparr>))))"

definition edge_payload :: "knowledge_edge \<Rightarrow> pydict" where
  "edge_payload e =
     [(''source_node_id'', PStr (ke_source_node_id e)), (''target_node_id'', PStr (ke_target_node_id e)),
      (''edge_type'', PStr (edge_type_value (ke_edge_type e))), (''provenance'', provenance_to_dict (ke_provenance e)),
      (''metadata'', PDict (metadata_items (ke_metadata e))), (''authority'', PStr (ke_authority e)),
      (''schema_version'', PStr (ke_schema_version e))]"

definition edge_digest :: "knowledge_edge \<Rightarrow> string" where
  "edge_digest e = wire_digest (PDict (py_dict (edge_payload e)))"

definition edge_digests :: "knowledge_edge \<Rightarrow> (string \<times> string) list" where
  "edge_digests e = [(''metadata_digest'', metadata_digest (ke_metadata e)),
     (''provenance_digest'', provenance_digest (ke_provenance e)), (''edge_digest'', edge_digest e)]"

definition edge_to_dict :: "knowledge_edge \<Rightarrow> pyobj" where
  "edge_to_dict e = PDict (py_dict (edge_payload e @ map (\<lambda>(k, v). (k, PStr v)) (edge_digests e)))"

definition edge_from_dict :: "pyobj \<Rightarrow> knowledge_edge result" where
  "edge_from_dict raw =
     bindE (strict_object raw [''source_node_id'', ''target_node_id'', ''edge_type'', ''provenance'', ''metadata'', ''authority'',
       ''schema_version''] [''metadata_digest'', ''provenance_digest'', ''edge_digest''] ''knowledge edge'' ValueError) (\<lambda>d.
     bindE (field d ''metadata'' metadata_field ''knowledge edge metadata'') (\<lambda>metadata.
     bindE (field d ''source_node_id'' as_string ''knowledge edge source ID'') (\<lambda>source.
     bindE (field d ''target_node_id'' as_string ''knowledge edge target ID'') (\<lambda>target.
     bindE (field d ''edge_type'' as_string ''knowledge edge type'') (\<lambda>edge_type.
     bindE (bindE (dict_item d ''provenance'') provenance_from_dict) (\<lambda>provenance.
     bindE (field d ''authority'' as_string ''knowledge edge authority'') (\<lambda>authority.
     bindE (field d ''schema_version'' as_string ''knowledge edge schema'') (\<lambda>schema_version.
     bindE (mk_knowledge_edge source target edge_type provenance metadata authority schema_version) (\<lambda>result.
     bindE (validate_recorded_digests d (edge_digests result) ''knowledge edge'') (\<lambda>_. Inr result))))))))))"

section \<open>Terms\<close>

text \<open>
  \<open>str.casefold\<close> and the character class \<^verbatim>\<open>[^\W_]\<close> on the Latin-1 code points. The micro sign folds to a
  letter outside that range; it stands here for its folded form, which no other modelled character folds to.
\<close>

definition casefold_char :: "char \<Rightarrow> string" where
  "casefold_char c = (let n = py_ord c in
     if (65 \<le> n \<and> n \<le> 90) \<or> (192 \<le> n \<and> n \<le> 222 \<and> n \<noteq> 215) then [char_of (n + 32)]
     else if n = 223 then ''ss'' else [c])"

definition py_casefold :: "string \<Rightarrow> string" where
  "py_casefold s = concat (map casefold_char s)"

definition is_term_char :: "char \<Rightarrow> bool" where
  "is_term_char c \<longleftrightarrow> is_ascii_alnum c \<or> py_ord c \<in> {170, 178, 179, 181, 185, 186, 188, 189, 190}
     \<or> (192 \<le> py_ord c \<and> py_ord c \<noteq> 215 \<and> py_ord c \<noteq> 247)"

text \<open>\<open>_TERM.findall\<close>: the maximal runs of such characters, from left to right.\<close>

function find_terms :: "string \<Rightarrow> string list" where
  "find_terms [] = []"
| "find_terms (c # s) = (if is_term_char c
     then (c # takeWhile is_term_char s) # find_terms (dropWhile is_term_char s) else find_terms s)"
  by pat_completeness auto
termination
  by (relation "measure length") (simp_all add: le_imp_less_Suc length_dropWhile_le)

definition normalized_terms :: "string \<Rightarrow> string list" where
  "normalized_terms content = sort (remdups (map py_casefold (find_terms content)))"

definition add_weight :: "int \<Rightarrow> string \<Rightarrow> (string \<times> int) list \<Rightarrow> (string \<times> int) list" where
  "add_weight w term weights = dict_set term ((case map_of weights term of Some v \<Rightarrow> v | None \<Rightarrow> 0) + w) weights"

definition weighted_node_terms :: "knowledge_node \<Rightarrow> (string \<times> int) list" where
  "weighted_node_terms n =
     fold (add_weight 1) (concat (map (\<lambda>(key, v). find_terms (py_casefold (key @ '' '' @ v))) (kn_metadata n)))
       (fold (add_weight 2) (find_terms (py_casefold (kn_content n)))
         (fold (add_weight 5) (find_terms (py_casefold (kn_title n))) []))"

section \<open>Well-formed values and the wire\<close>

definition text_present :: "string \<Rightarrow> bool" where
  "text_present s \<longleftrightarrow> py_strip s \<noteq> [] \<and> CHR 0x00 \<notin> set s"

definition wf_provenance :: "knowledge_provenance \<Rightarrow> bool" where
  "wf_provenance p \<longleftrightarrow> is_identifier (kp_source_id p) \<and> is_identifier (kp_source_kind p) \<and> is_sha256 (kp_source_digest p)
     \<and> text_present (kp_producer p) \<and> text_present (kp_revision p)
     \<and> kp_schema_version p = ''sisyphus_harness.knowledge_provenance.v1''"

definition wf_metadata :: "(string \<times> string) list \<Rightarrow> bool" where
  "wf_metadata m \<longleftrightarrow> dict_ok m \<and> list_all (\<lambda>(k, v). text_present k \<and> py_strip k = k \<and> length k \<le> 128
     \<and> CHR 0x00 \<notin> set v \<and> length v \<le> 4096) m"

definition wf_node :: "knowledge_node \<Rightarrow> bool" where
  "wf_node n \<longleftrightarrow> is_identifier (kn_node_id n) \<and> text_present (kn_title n) \<and> length (kn_title n) \<le> 512
     \<and> text_present (kn_content n) \<and> length (kn_content n) \<le> 1000000 \<and> wf_provenance (kn_provenance n)
     \<and> (kn_node_type n = TASK \<longleftrightarrow> kn_task_status n \<noteq> None) \<and> wf_metadata (kn_metadata n)
     \<and> kn_authority n = DERIVED_CANDIDATE_AUTHORITY \<and> kn_schema_version n = ''sisyphus_harness.knowledge_node.v1''"

definition wf_edge :: "knowledge_edge \<Rightarrow> bool" where
  "wf_edge e \<longleftrightarrow> is_identifier (ke_source_node_id e) \<and> is_identifier (ke_target_node_id e)
     \<and> ke_source_node_id e \<noteq> ke_target_node_id e \<and> wf_provenance (ke_provenance e) \<and> wf_metadata (ke_metadata e)
     \<and> ke_authority e = DERIVED_CANDIDATE_AUTHORITY \<and> ke_schema_version e = ''sisyphus_harness.knowledge_edge.v1''"

lemma validate_identifier_eq [simp]: "validate_identifier v label = Inr u \<longleftrightarrow> is_identifier v"
  by (simp add: validate_identifier_def)

lemma validate_digest_eq [simp]: "validate_digest v label = Inr u \<longleftrightarrow> is_sha256 v"
  by (simp add: validate_digest_def)

lemma validate_identifier_ok [simp]: "is_identifier v \<Longrightarrow> validate_identifier v label = Inr ()"
  by (simp add: validate_identifier_def)

lemma enum_member_node_type_value [simp]:
  "enum_member node_type_value knowledge_node_types (node_type_value m) label = Inr m"
  by (cases m) (simp_all add: enum_member_def knowledge_node_types_def)

lemma enum_member_status_value [simp]:
  "enum_member task_status_value candidate_task_statuses (task_status_value m) label = Inr m"
  by (cases m) (simp_all add: enum_member_def candidate_task_statuses_def)

lemma enum_member_edge_type_value [simp]:
  "enum_member edge_type_value knowledge_edge_types (edge_type_value m) label = Inr m"
  by (cases m) (simp_all add: enum_member_def knowledge_edge_types_def)

lemma enum_member_node_type [simp]:
  "enum_member node_type_value knowledge_node_types s label = Inr m \<longleftrightarrow> s = node_type_value m"
  by (cases m) (auto simp: enum_member_def knowledge_node_types_def split: option.splits)

lemma enum_member_status [simp]:
  "enum_member task_status_value candidate_task_statuses s label = Inr m \<longleftrightarrow> s = task_status_value m"
  by (cases m) (auto simp: enum_member_def candidate_task_statuses_def split: option.splits)

lemma enum_member_edge_type [simp]:
  "enum_member edge_type_value knowledge_edge_types s label = Inr m \<longleftrightarrow> s = edge_type_value m"
  by (cases m) (auto simp: enum_member_def knowledge_edge_types_def split: option.splits)

lemma edge_type_value_inj [simp]: "edge_type_value a = edge_type_value b \<longleftrightarrow> a = b"
  by (cases a; cases b) simp_all

lemma node_type_value_inj [simp]: "node_type_value a = node_type_value b \<longleftrightarrow> a = b"
  by (cases a; cases b) simp_all

lemma optional_status_eq [simp]:
  "optional_status raw = Inr s \<longleftrightarrow> raw = map_option task_status_value s"
  by (cases raw; cases s) (auto simp: optional_status_def bindE_eq_Inr)

lemma optional_status_value [simp]: "optional_status None = Inr None" "optional_status (Some (task_status_value m)) = Inr (Some m)"
  by simp_all

lemma freeze_item_eq:
  "freeze_item label kv = Inr (k, v) \<longleftrightarrow> kv = (k, PStr v) \<and> text_present k \<and> py_strip k = k \<and> length k \<le> 128
     \<and> CHR 0x00 \<notin> set v \<and> length v \<le> 4096"
  by (cases kv; cases "snd kv") (auto simp: freeze_item_def Let_def text_present_def)

lemma freeze_metadata_items: "wf_metadata m \<Longrightarrow> freeze_metadata (metadata_items m) label = Inr m"
proof -
  assume m: "wf_metadata m"
  have "mapE (freeze_item label) (metadata_items m) = Inr m"
    unfolding metadata_items_def
    by (rule mapE_Inr_id) (use m in \<open>auto simp: wf_metadata_def list_all_iff freeze_item_eq\<close>)
  with m show ?thesis by (simp add: freeze_metadata_def wf_metadata_def py_dict_ordered)
qed

lemma freeze_metadata_wf: "freeze_metadata raw label = Inr m \<Longrightarrow> wf_metadata m"
proof -
  assume "freeze_metadata raw label = Inr m"
  then obtain items where items: "mapE (freeze_item label) raw = Inr items" and m: "m = py_dict items"
    by (auto simp: freeze_metadata_def bindE_eq_Inr)
  have "list_all (\<lambda>(k, v). text_present k \<and> py_strip k = k \<and> length k \<le> 128 \<and> CHR 0x00 \<notin> set v \<and> length v \<le> 4096) items"
    using items by (rule mapE_list_all) (auto simp: freeze_item_eq split: prod.splits)
  with set_py_dict_subset [of items] show ?thesis by (auto simp: m wf_metadata_def list_all_iff)
qed

lemma dict_ok_metadata_items [simp]: "dict_ok (metadata_items m) \<longleftrightarrow> dict_ok m"
proof -
  have "map fst (metadata_items m) = map fst m" by (auto simp: metadata_items_def)
  then show ?thesis by (simp add: dict_ok_def)
qed

lemma wire_metadata: "dict_ok m \<Longrightarrow> wire_ok (PDict (metadata_items m))"
  by (auto simp: list_all_iff metadata_items_def [of m]) (metis dict_ok_metadata_items metadata_items_def)

lemma mk_provenance_eq [simp]: "mk_provenance p = Inr q \<longleftrightarrow> q = p \<and> wf_provenance p"
  by (auto simp: mk_provenance_def wf_provenance_def bindE_eq_Inr text_present_def)

lemma check_recorded_eq [simp]:
  "check_recorded d key v label msg = Inr u \<longleftrightarrow> dict_get d key = PNone \<or> (dict_get d key = PStr v \<and> is_sha256 v)"
  by (cases "dict_get d key") (auto simp: check_recorded_def bindE_eq_Inr)

lemma validate_recorded_eq [simp]:
  "validate_recorded_digests d ds label = Inr u \<longleftrightarrow>
     (\<forall>(key, v)\<in>set ds. dict_get d key = PNone \<or> (dict_get d key = PStr v \<and> is_sha256 v))"
  by (auto simp: validate_recorded_digests_def)

lemma provenance_wire [simp]: "wire_ok (provenance_to_dict p)"
  unfolding provenance_to_dict_def by (rule wire_ok_py_dict) simp

lemma provenance_round_trip: "wf_provenance p \<Longrightarrow> provenance_from_dict (provenance_to_dict p) = Inr p"
  by (cases p) (simp add: provenance_from_dict_def provenance_to_dict_def wire_simps field_def as_string_def bindE_eq_Inr)

interpretation kpr: wire_class wf_provenance provenance_to_dict provenance_from_dict
  by unfold_locales (rule provenance_round_trip)

lemma provenance_from_dict_wf: "provenance_from_dict raw = Inr p \<Longrightarrow> wf_provenance p"
  by (auto simp: provenance_from_dict_def bindE_eq_Inr)

lemma mk_knowledge_node_eq:
  assumes "wf_provenance p"
  shows "mk_knowledge_node i ty t c p st raw a sv = Inr n \<longleftrightarrow>
     wf_node n \<and> kn_node_id n = i \<and> ty = node_type_value (kn_node_type n) \<and> kn_title n = t \<and> kn_content n = c
     \<and> kn_provenance n = p \<and> st = map_option task_status_value (kn_task_status n) \<and> kn_authority n = a
     \<and> kn_schema_version n = sv \<and> freeze_metadata raw ''knowledge node metadata'' = Inr (kn_metadata n)"
    (is "?l \<longleftrightarrow> ?r")
proof
  assume ?l
  then obtain nt st' frozen where parts: "is_identifier i" "ty = node_type_value nt"
      "\<not> (py_strip t = [] \<or> CHR 0x00 \<in> set t \<or> 512 < length t)" "\<not> (py_strip c = [] \<or> CHR 0x00 \<in> set c)"
      "\<not> 1000000 < length c" "st = map_option task_status_value st'" "\<not> (nt = TASK \<and> st' = None)"
      "\<not> (nt = KNOWLEDGE \<and> st' \<noteq> None)" "freeze_metadata raw ''knowledge node metadata'' = Inr frozen"
      "\<not> a \<noteq> DERIVED_CANDIDATE_AUTHORITY" "\<not> sv \<noteq> ''sisyphus_harness.knowledge_node.v1''"
    and n: "\<lparr>kn_node_id = i, kn_node_type = nt, kn_title = t, kn_content = c, kn_provenance = p, kn_task_status = st',
        kn_metadata = frozen, kn_authority = a, kn_schema_version = sv\<rparr> = n"
    unfolding mk_knowledge_node_def result_simps validate_identifier_eq enum_member_node_type optional_status_eq sum.inject by blast
  have "nt = TASK \<longleftrightarrow> st' \<noteq> None" using parts(7,8) by (cases nt) auto
  with assms parts n show ?r by (auto simp: wf_node_def freeze_metadata_wf text_present_def)
next
  assume ?r
  with assms show ?l
    by (cases n; cases "kn_node_type n")
      (auto simp: mk_knowledge_node_def wf_node_def text_present_def simp del: node_type_value.simps)
qed

lemma mk_knowledge_edge_eq:
  assumes "wf_provenance p"
  shows "mk_knowledge_edge s t ty p raw a sv = Inr e \<longleftrightarrow>
     wf_edge e \<and> ke_source_node_id e = s \<and> ke_target_node_id e = t \<and> ty = edge_type_value (ke_edge_type e)
     \<and> ke_provenance e = p \<and> ke_authority e = a \<and> ke_schema_version e = sv
     \<and> freeze_metadata raw ''knowledge edge metadata'' = Inr (ke_metadata e)"
  using assms
  by (cases e) (auto simp: mk_knowledge_edge_def wf_edge_def bindE_eq_Inr dest: freeze_metadata_wf)

lemma node_to_dict_wire: "wf_node n \<Longrightarrow> wire_ok (node_to_dict n)"
  unfolding node_to_dict_def
  by (rule wire_ok_py_dict)
    (simp add: node_payload_def node_digests_def wire_metadata wf_node_def wf_metadata_def status_wire_def del: wire_ok.simps(3) split: option.split)

lemma edge_to_dict_wire: "wf_edge e \<Longrightarrow> wire_ok (edge_to_dict e)"
  unfolding edge_to_dict_def
  by (rule wire_ok_py_dict)
    (simp add: edge_payload_def edge_digests_def wire_metadata wf_edge_def wf_metadata_def del: wire_ok.simps(3))

lemma digests_sha256 [simp]:
  "is_sha256 (node_content_digest n)" "is_sha256 (metadata_digest m)" "is_sha256 (provenance_digest p)"
  "is_sha256 (node_digest n)" "is_sha256 (edge_digest e)"
  by (simp_all add: node_content_digest_def metadata_digest_def provenance_digest_def node_digest_def edge_digest_def)

lemma node_round_trip: "wf_node n \<Longrightarrow> node_from_dict (node_to_dict n) = Inr n"
proof -
  assume n: "wf_node n"
  then have p: "wf_provenance (kn_provenance n)" and m: "wf_metadata (kn_metadata n)" by (simp_all add: wf_node_def)
  have "mk_knowledge_node (kn_node_id n) (node_type_value (kn_node_type n)) (kn_title n) (kn_content n) (kn_provenance n)
      (map_option task_status_value (kn_task_status n)) (metadata_items (kn_metadata n)) (kn_authority n) (kn_schema_version n) = Inr n"
    using n m by (simp add: mk_knowledge_node_eq [OF p] freeze_metadata_items)
  moreover have "status_field (status_wire (kn_task_status n)) l = Inr (map_option task_status_value (kn_task_status n))" for l
    by (cases "kn_task_status n") (simp_all add: status_field_def status_wire_def)
  ultimately show ?thesis
    by (simp add: node_from_dict_def node_to_dict_def node_payload_def node_digests_def wire_simps field_def as_string_def
        metadata_field_def provenance_round_trip [OF p] bindE_eq_Inr)
qed

lemma edge_round_trip: "wf_edge e \<Longrightarrow> edge_from_dict (edge_to_dict e) = Inr e"
proof -
  assume e: "wf_edge e"
  then have p: "wf_provenance (ke_provenance e)" and m: "wf_metadata (ke_metadata e)" by (simp_all add: wf_edge_def)
  have "mk_knowledge_edge (ke_source_node_id e) (ke_target_node_id e) (edge_type_value (ke_edge_type e)) (ke_provenance e)
      (metadata_items (ke_metadata e)) (ke_authority e) (ke_schema_version e) = Inr e"
    using e m by (simp add: mk_knowledge_edge_eq [OF p] freeze_metadata_items)
  then show ?thesis
    by (simp add: edge_from_dict_def edge_to_dict_def edge_payload_def edge_digests_def wire_simps field_def as_string_def
        metadata_field_def provenance_round_trip [OF p] bindE_eq_Inr)
qed

interpretation knd: wire_class wf_node node_to_dict node_from_dict
  by unfold_locales (rule node_round_trip)

interpretation ked: wire_class wf_edge edge_to_dict edge_from_dict
  by unfold_locales (rule edge_round_trip)

lemma node_from_dict_wf: "node_from_dict raw = Inr n \<Longrightarrow> wf_node n"
  by (auto simp: node_from_dict_def bindE_eq_Inr mk_knowledge_node_eq provenance_from_dict_wf)

lemma edge_from_dict_wf: "edge_from_dict raw = Inr e \<Longrightarrow> wf_edge e"
  by (auto simp: edge_from_dict_def bindE_eq_Inr mk_knowledge_edge_eq provenance_from_dict_wf)

text \<open>A digest recorded next to a node is never accepted for other content.\<close>

lemma node_recorded_digest:
  "node_from_dict (PDict d) = Inr n \<Longrightarrow> (key, v) \<in> set (node_digests n) \<Longrightarrow> dict_get d key = PNone \<or> dict_get d key = PStr v"
  by (auto simp: node_from_dict_def bindE_eq_Inr strict_object_eq_Inr)

section \<open>Terms are normal\<close>

definition is_upper_char :: "char \<Rightarrow> bool" where
  "is_upper_char c \<longleftrightarrow> (65 \<le> py_ord c \<and> py_ord c \<le> 90) \<or> (192 \<le> py_ord c \<and> py_ord c \<le> 222 \<and> py_ord c \<noteq> 215)"

lemma casefold_char_upper: "is_upper_char c \<Longrightarrow> \<exists>d. casefold_char c = [d] \<and> py_ord d = py_ord c + 32"
  by (rule exI [of _ "char_of (py_ord c + 32)"]) (auto simp: casefold_char_def is_upper_char_def Let_def)

lemma casefold_char_lower: "\<not> is_upper_char c \<Longrightarrow> casefold_char c = (if py_ord c = 223 then ''ss'' else [c])"
  by (auto simp: casefold_char_def is_upper_char_def Let_def)

lemma casefold_char_term: "list_all is_term_char (casefold_char c) \<longleftrightarrow> is_term_char c"
proof (cases "is_upper_char c")
  case True
  then obtain d where d: "casefold_char c = [d]" "py_ord d = py_ord c + 32" using casefold_char_upper by blast
  from True have "is_term_char d" "is_term_char c"
    by (auto simp: is_term_char_def is_ascii_alnum_def is_upper_char_def d(2))
  with d(1) show ?thesis by simp
next
  case False
  moreover have "is_term_char (CHR ''s'')" by code_simp
  ultimately show ?thesis by (auto simp: casefold_char_lower) (simp add: is_term_char_def)
qed

lemma casefold_char_other: "\<not> is_term_char c \<Longrightarrow> casefold_char c = [c]"
proof -
  assume c: "\<not> is_term_char c"
  then have "\<not> is_upper_char c" "py_ord c \<noteq> 223" by (auto simp: is_term_char_def is_ascii_alnum_def is_upper_char_def)
  then show ?thesis by (simp add: casefold_char_lower)
qed

lemma casefold_char_idem: "concat (map casefold_char (casefold_char c)) = casefold_char c"
proof (cases "is_upper_char c")
  case True
  then obtain d where d: "casefold_char c = [d]" "py_ord d = py_ord c + 32" using casefold_char_upper by blast
  from True have "\<not> is_upper_char d" "py_ord d \<noteq> 223" by (auto simp: is_upper_char_def d(2))
  with d(1) show ?thesis by (simp add: casefold_char_lower)
next
  case False
  moreover have "casefold_char (CHR ''s'') = ''s''" by code_simp
  ultimately show ?thesis by (auto simp: casefold_char_lower)
qed

lemma casefold_char_nonempty [simp]: "casefold_char c \<noteq> []"
  by (simp add: casefold_char_def Let_def)

lemma py_casefold_append: "py_casefold (s @ t) = py_casefold s @ py_casefold t"
  by (simp add: py_casefold_def)

lemma py_casefold_idem [simp]: "py_casefold (py_casefold s) = py_casefold s"
  by (induction s) (simp_all add: py_casefold_def casefold_char_idem)

lemma py_casefold_term: "list_all is_term_char (py_casefold s) \<longleftrightarrow> list_all is_term_char s"
  by (induction s) (simp_all add: py_casefold_def casefold_char_term)

lemma py_casefold_eq_Nil [simp]: "py_casefold s = [] \<longleftrightarrow> s = []"
  by (cases s) (simp_all add: py_casefold_def)

lemma find_terms_run: "t \<in> set (find_terms s) \<Longrightarrow> t \<noteq> [] \<and> list_all is_term_char t"
proof (induction s rule: find_terms.induct)
  case (2 c s)
  have "list_all is_term_char (takeWhile is_term_char s)" by (auto simp: list_all_iff dest: set_takeWhileD)
  with 2 show ?case by (cases "is_term_char c") auto
qed simp

text \<open>A run at the head of a text is one term, and a character outside the class ends it.\<close>

lemma find_terms_run_append:
  "t \<noteq> [] \<Longrightarrow> list_all is_term_char t \<Longrightarrow> s = [] \<or> \<not> is_term_char (hd s) \<Longrightarrow> find_terms (t @ s) = t # find_terms s"
proof -
  assume t: "t \<noteq> []" "list_all is_term_char t" and s: "s = [] \<or> \<not> is_term_char (hd s)"
  from t obtain c cs where c: "t = c # cs" by (cases t) auto
  from s have "takeWhile is_term_char s = []" "dropWhile is_term_char s = s" by (cases s; simp)+
  then have "takeWhile is_term_char (cs @ s) = cs" "dropWhile is_term_char (cs @ s) = s"
    using t c by (auto simp: list_all_iff takeWhile_append2 dropWhile_append2)
  with t c show ?thesis by simp
qed

lemma find_terms_single: "t \<noteq> [] \<Longrightarrow> list_all is_term_char t \<Longrightarrow> find_terms t = [t]"
  using find_terms_run_append [of t "[]"] by simp

lemma find_terms_casefold: "find_terms (py_casefold s) = map py_casefold (find_terms s)"
proof (induction s rule: find_terms.induct)
  case (2 c s)
  show ?case
  proof (cases "is_term_char c")
    case False
    with 2(2) show ?thesis by (simp add: py_casefold_def casefold_char_other)
  next
    case True
    define t r where "t = c # takeWhile is_term_char s" and "r = dropWhile is_term_char s"
    have cs: "c # s = t @ r" by (simp add: t_def r_def)
    have t: "t \<noteq> []" "list_all is_term_char t"
      using True by (auto simp: t_def list_all_iff dest: set_takeWhileD)
    have r: "r = [] \<or> \<not> is_term_char (hd r)" using hd_dropWhile [of is_term_char s] by (auto simp: r_def)
    then have "py_casefold r = [] \<or> \<not> is_term_char (hd (py_casefold r))"
      by (cases r) (auto simp: py_casefold_def casefold_char_other)
    then have "find_terms (py_casefold (c # s)) = py_casefold t # find_terms (py_casefold r)"
      using t by (simp add: cs py_casefold_append find_terms_run_append py_casefold_term)
    with 2(1) [OF True] True show ?thesis by (simp add: t_def r_def)
  qed
qed (simp add: py_casefold_def)

definition normal_term :: "string \<Rightarrow> bool" where
  "normal_term t \<longleftrightarrow> t \<noteq> [] \<and> list_all is_term_char t \<and> py_casefold t = t"

lemma normal_term_eq: "normalized_terms t = [t] \<longleftrightarrow> normal_term t"
proof
  assume "normalized_terms t = [t]"
  then have "set (map py_casefold (find_terms t)) = {t}" by (metis normalized_terms_def list.simps(15) list.set(1) set_remdups set_sort)
  then have "t \<in> py_casefold ` set (find_terms t)" by simp
  then obtain u where u: "u \<in> set (find_terms t)" "t = py_casefold u" by (rule imageE) blast
  with find_terms_run [OF u(1)] show "normal_term t" by (simp add: normal_term_def py_casefold_term)
qed (simp add: normal_term_def normalized_terms_def find_terms_single)

lemma normalized_terms_normal: "t \<in> set (normalized_terms s) \<Longrightarrow> normal_term t"
  using find_terms_run by (auto simp: normalized_terms_def normal_term_def py_casefold_term)

lemma find_terms_casefold_normal: "t \<in> set (find_terms (py_casefold s)) \<Longrightarrow> normal_term t"
  using find_terms_run by (auto simp: find_terms_casefold normal_term_def py_casefold_term)

lemma normalized_terms_sorted: "sorted (normalized_terms s)" "distinct (normalized_terms s)"
  by (simp_all add: normalized_terms_def)

definition weights_ok :: "(string \<times> int) list \<Rightarrow> bool" where
  "weights_ok ws \<longleftrightarrow> dict_ok ws \<and> (\<forall>(t, w)\<in>set ws. normal_term t \<and> 0 < w)"

lemma add_weight_ok: "weights_ok ws \<Longrightarrow> normal_term t \<Longrightarrow> 0 < w \<Longrightarrow> weights_ok (add_weight w t ws)"
  using set_dict_set_subset [of t "(case map_of ws t of Some v \<Rightarrow> v | None \<Rightarrow> 0) + w" ws]
  by (fastforce simp: weights_ok_def add_weight_def dict_ok_dict_set dest: map_of_SomeD split: option.splits)

lemma fold_add_weight_ok:
  "weights_ok ws \<Longrightarrow> \<forall>t\<in>set ts. normal_term t \<Longrightarrow> 0 < w \<Longrightarrow> weights_ok (fold (add_weight w) ts ws)"
  by (induction ts arbitrary: ws) (auto simp: add_weight_ok)

lemma weighted_node_terms_ok: "weights_ok (weighted_node_terms n)"
proof -
  have "weights_ok []" by (simp add: weights_ok_def)
  then show ?thesis
    unfolding weighted_node_terms_def
    by (intro fold_add_weight_ok) (auto dest!: find_terms_casefold_normal)
qed

text \<open>The terms a node is indexed under are the normalized terms of its texts.\<close>

lemma keys_fold_add_weight: "fst ` set (fold (add_weight w) ts ws) = fst ` set ws \<union> set ts"
  by (induction ts arbitrary: ws) (auto simp: add_weight_def)

lemma weighted_node_terms_keys:
  "fst ` set (weighted_node_terms n) = set (normalized_terms (kn_title n)) \<union> set (normalized_terms (kn_content n))
     \<union> (\<Union>(k, v)\<in>set (kn_metadata n). set (normalized_terms (k @ '' '' @ v)))"
  by (auto simp: weighted_node_terms_def keys_fold_add_weight normalized_terms_def find_terms_casefold)

end
