(* ===== verification/Knowledge_Results.thy ===== *)
theory Knowledge_Results
  imports Knowledge_Contracts
begin

text \<open>
  The second half of \<^verbatim>\<open>contracts/knowledge.py\<close>: the results a graph read returns (search hits, dependency inspections,
  next-step candidates and their context) with the checks their constructors make, and the explanations they carry. Each
  constructor recomputes what the result claims: the path against its endpoints, the scores against the node, the reasons
  against the dependencies, the order against the sort key.
\<close>

section \<open>Paths\<close>

record graph_path_step =
  gs_source_node_id :: string
  gs_target_node_id :: string
  gs_edge_type :: knowledge_edge_type
  gs_edge_digest :: string
  gs_traversed_forward :: bool

definition mk_graph_path_step :: "graph_path_step \<Rightarrow> graph_path_step result" where
  "mk_graph_path_step s =
     bindE (validate_identifier (gs_source_node_id s) ''graph path source node ID'') (\<lambda>_.
     bindE (validate_identifier (gs_target_node_id s) ''graph path target node ID'') (\<lambda>_.
     if gs_source_node_id s = gs_target_node_id s then Inl (ValueError ''graph path step cannot be a self-edge'')
     else bindE (validate_digest (gs_edge_digest s) ''graph path edge digest'') (\<lambda>_. Inr s)))"

definition validate_path_step :: "bool \<Rightarrow> string \<Rightarrow> string \<times> string \<times> graph_path_step \<Rightarrow> unit result" where
  "validate_path_step dependency_only label = (\<lambda>(current, following, step).
     if (gs_source_node_id step, gs_target_node_id step) \<noteq>
       (if gs_traversed_forward step then (current, following) else (following, current))
     then Inl (ValueError (label @ '' step endpoints are disconnected''))
     else if dependency_only \<and> (\<not> gs_traversed_forward step \<or> gs_edge_type step \<notin> set DEPENDENCY_EDGE_TYPES)
     then Inl (ValueError (label @ '' contains a non-dependency step'')) else Inr ())"

definition validate_graph_path ::
  "string option \<Rightarrow> string \<Rightarrow> int \<Rightarrow> string list \<Rightarrow> graph_path_step list \<Rightarrow> string \<Rightarrow> bool \<Rightarrow> unit result" where
  "validate_graph_path start_node_id terminal_node_id depth node_ids steps label dependency_only =
     (if \<not> (1 \<le> depth \<and> depth \<le> MAX_GRAPH_TRAVERSAL_DEPTH) then Inl (ValueError (label @ '' depth must be between 1 and 3''))
      else if int (length node_ids) \<noteq> depth + 1 \<or> int (length steps) \<noteq> depth
      then Inl (ValueError (label @ '' length does not match its depth''))
      else bindE (checkE (\<lambda>i. validate_identifier i (label @ '' node ID'')) node_ids) (\<lambda>_.
      if \<not> distinct node_ids then Inl (ValueError (label @ '' cannot repeat a node''))
      else if (start_node_id \<noteq> None \<and> Some (hd node_ids) \<noteq> start_node_id) \<or> last node_ids \<noteq> terminal_node_id
      then Inl (ValueError (label @ '' endpoints do not match its result''))
      else checkE (validate_path_step dependency_only label) (zip (butlast node_ids) (zip (tl node_ids) steps))))"

section \<open>Scores and explanations\<close>

definition knowledge_graph_score :: "int \<Rightarrow> int result" where
  "knowledge_graph_score depth = (if \<not> (1 \<le> depth \<and> depth \<le> MAX_GRAPH_TRAVERSAL_DEPTH)
     then Inl (ValueError ''knowledge score depth must be between 1 and 3'') else Inr ((MAX_GRAPH_TRAVERSAL_DEPTH + 1 - depth) * 10))"

definition knowledge_score_explanation ::
  "int \<Rightarrow> graph_path_step list \<Rightarrow> string list \<Rightarrow> int \<Rightarrow> int \<Rightarrow> int \<Rightarrow> string" where
  "knowledge_score_explanation depth steps matched_terms lexical_score graph_score total_score =
     (let relations = join_with '', '' (map (\<lambda>s. edge_type_value (gs_edge_type s) @ '':'' @
            (if gs_traversed_forward s then ''forward'' else ''reverse'')) steps)
      in ''matched terms ['' @ join_with '', '' matched_terms @ '']; depth='' @ show_int depth @ ''; edges=['' @ relations @
         '']; lexical='' @ show_int lexical_score @ ''; graph='' @ show_int graph_score @ ''; total='' @ show_int total_score @
         ''; authority='' @ DERIVED_CANDIDATE_AUTHORITY)"

text \<open>\<open>task.task_status.value\<close>; a task node always has a status.\<close>

definition status_text :: "knowledge_node \<Rightarrow> string" where
  "status_text n = (case kn_task_status n of Some s \<Rightarrow> task_status_value s | None \<Rightarrow> [])"

definition next_step_candidate_explanation ::
  "knowledge_node \<Rightarrow> int \<Rightarrow> graph_path_step list \<Rightarrow> string list \<Rightarrow> int \<Rightarrow> int \<Rightarrow> int \<Rightarrow> bool \<Rightarrow> string list \<Rightarrow> string" where
  "next_step_candidate_explanation task depth steps matched_terms lexical_score graph_score total_score eligible unmet_reasons =
     (let score = knowledge_score_explanation depth steps matched_terms lexical_score graph_score total_score;
          disposition = (if eligible then ''eligible'' else ''ineligible: '' @ join_with ''; '' unmet_reasons)
      in ''task_status='' @ status_text task @ ''; '' @ disposition @ ''; '' @ score)"

definition validate_terms :: "string list \<Rightarrow> bool \<Rightarrow> string \<Rightarrow> string list result" where
  "validate_terms terms allow_empty label =
     (if 128 < length terms \<or> (\<not> allow_empty \<and> terms = []) then Inl (ValueError (label @ '' has an invalid count''))
      else if \<exists>t\<in>set terms. normalized_terms t \<noteq> [t] then Inl (ValueError (label @ '' must contain normalized terms''))
      else if terms \<noteq> sort (remdups terms) then Inl (ValueError (label @ '' must be sorted and unique''))
      else Inr terms)"

definition validate_scored_projection ::
  "knowledge_node \<Rightarrow> int \<Rightarrow> string list \<Rightarrow> int \<Rightarrow> int \<Rightarrow> int \<Rightarrow> bool \<Rightarrow> string \<Rightarrow> unit result" where
  "validate_scored_projection node depth matched_terms lexical_score graph_score total_score allow_empty_terms label =
     bindE (validate_terms matched_terms allow_empty_terms (label @ '' matched terms'')) (\<lambda>terms.
     let weights = weighted_node_terms node in
     if \<exists>t\<in>set terms. map_of weights t = None then Inl (ValueError (label @ '' contains a term absent from its node''))
     else if lexical_score < 0 then Inl (ValueError (label @ '' lexical score is invalid''))
     else if graph_score < 0 then Inl (ValueError (label @ '' graph score is invalid''))
     else if total_score < 0 then Inl (ValueError (label @ '' total score is invalid''))
     else bindE (knowledge_graph_score depth) (\<lambda>expected_graph.
     if lexical_score \<noteq> sum_list (map (\<lambda>t. the (map_of weights t)) terms)
     then Inl (ValueError (label @ '' lexical score does not match its terms''))
     else if graph_score \<noteq> expected_graph then Inl (ValueError (label @ '' graph score does not match its depth''))
     else if total_score \<noteq> lexical_score * 100 + graph_score
     then Inl (ValueError (label @ '' total score does not match its components'')) else Inr ()))"

section \<open>Search hits\<close>

record knowledge_search_hit =
  sh_anchor_id :: string
  sh_index_revision_digest :: string
  sh_node :: knowledge_node
  sh_depth :: int
  sh_path_node_ids :: "string list"
  sh_path_steps :: "graph_path_step list"
  sh_matched_terms :: "string list"
  sh_lexical_score :: int
  sh_graph_score :: int
  sh_total_score :: int
  sh_explanation :: string
  sh_authority :: string

definition mk_search_hit :: "knowledge_search_hit \<Rightarrow> knowledge_search_hit result" where
  "mk_search_hit h =
     bindE (validate_identifier (sh_anchor_id h) ''knowledge search anchor ID'') (\<lambda>_.
     bindE (validate_digest (sh_index_revision_digest h) ''knowledge search index revision digest'') (\<lambda>_.
     bindE (validate_graph_path (Some (sh_anchor_id h)) (kn_node_id (sh_node h)) (sh_depth h) (sh_path_node_ids h) (sh_path_steps h)
       ''knowledge search path'' False) (\<lambda>_.
     bindE (validate_scored_projection (sh_node h) (sh_depth h) (sh_matched_terms h) (sh_lexical_score h) (sh_graph_score h)
       (sh_total_score h) False ''knowledge search hit'') (\<lambda>_.
     if sh_explanation h \<noteq> knowledge_score_explanation (sh_depth h) (sh_path_steps h) (sh_matched_terms h) (sh_lexical_score h)
       (sh_graph_score h) (sh_total_score h)
     then Inl (ValueError ''knowledge search explanation does not match its score'')
     else bindE (validate_candidate_authority (sh_authority h) ''knowledge search hit'') (\<lambda>_. Inr h)))))"

section \<open>Dependency inspections\<close>

record dependency_state =
  ds_node_id :: string
  ds_task_status :: candidate_task_status
  ds_depth :: int
  ds_path_node_ids :: "string list"
  ds_path_steps :: "graph_path_step list"
  ds_satisfied :: bool

definition mk_dependency_state :: "dependency_state \<Rightarrow> dependency_state result" where
  "mk_dependency_state s =
     bindE (validate_identifier (ds_node_id s) ''dependency node ID'') (\<lambda>_.
     bindE (validate_graph_path None (ds_node_id s) (ds_depth s) (ds_path_node_ids s) (ds_path_steps s) ''dependency path'' True) (\<lambda>_.
     if ds_satisfied s \<noteq> (ds_task_status s = STATUS_COMPLETED)
     then Inl (ValueError ''dependency satisfaction does not match its candidate task status'') else Inr s))"

record dependency_inspection =
  di_task_id :: string
  di_max_depth :: int
  di_index_revision_digest :: string
  di_dependencies :: "dependency_state list"
  di_all_satisfied :: bool
  di_truncated :: bool
  di_unmet_reasons :: "string list"
  di_authority :: string

text \<open>The reasons both the service and the constructor derive from the dependencies.\<close>

definition unmet_dependency_reasons :: "dependency_state list \<Rightarrow> bool \<Rightarrow> int \<Rightarrow> string list" where
  "unmet_dependency_reasons dependencies truncated max_depth =
     map (\<lambda>s. ''dependency '' @ ds_node_id s @ '' is '' @ task_status_value (ds_task_status s))
       (filter (\<lambda>s. \<not> ds_satisfied s) dependencies) @
     (if truncated then [''dependency traversal truncated at depth '' @ show_int max_depth] else [])"

definition mk_dependency_inspection :: "dependency_inspection \<Rightarrow> dependency_inspection result" where
  "mk_dependency_inspection i =
     bindE (validate_identifier (di_task_id i) ''dependency inspection task ID'') (\<lambda>_.
     bindE (validate_max_depth (di_max_depth i)) (\<lambda>_.
     bindE (validate_digest (di_index_revision_digest i) ''dependency inspection index revision digest'') (\<lambda>_.
     if 1000 < length (di_dependencies i) then Inl (ValueError ''dependency inspection dependencies are invalid'')
     else if \<exists>s\<in>set (di_dependencies i). hd (ds_path_node_ids s) \<noteq> di_task_id i \<or> di_max_depth i < ds_depth s
     then Inl (ValueError ''dependency inspection paths exceed or do not start at the task'')
     else if di_dependencies i \<noteq> sort_key (\<lambda>s. (ds_depth s, ds_node_id s)) (di_dependencies i) \<or> \<not> distinct (map ds_node_id (di_dependencies i))
     then Inl (ValueError ''dependency inspection dependencies must be unique and ordered'')
     else bindE (strict_bounded_strings (di_unmet_reasons i) ''dependency inspection unmet reasons'' 1001) (\<lambda>reasons.
     let expected_reasons = unmet_dependency_reasons (di_dependencies i) (di_truncated i) (di_max_depth i) in
     if reasons \<noteq> expected_reasons then Inl (ValueError ''dependency inspection unmet reasons do not match its state'')
     else if di_all_satisfied i \<noteq> (expected_reasons = []) then Inl (ValueError ''dependency inspection satisfaction does not match its reasons'')
     else bindE (validate_candidate_authority (di_authority i) ''dependency inspection'') (\<lambda>_. Inr i)))))"

section \<open>Next steps\<close>

record next_step_candidate =
  nc_rank :: int
  nc_anchor_id :: string
  nc_task :: knowledge_node
  nc_depth :: int
  nc_path_node_ids :: "string list"
  nc_path_steps :: "graph_path_step list"
  nc_matched_terms :: "string list"
  nc_lexical_score :: int
  nc_graph_score :: int
  nc_total_score :: int
  nc_dependency_inspection :: dependency_inspection
  nc_eligible :: bool
  nc_unmet_dependency_reasons :: "string list"
  nc_explanation :: string
  nc_authority :: string

definition status_reasons :: "knowledge_node \<Rightarrow> string list" where
  "status_reasons task = (if kn_task_status task = Some STATUS_READY then [] else [''task status is '' @ status_text task])"

definition mk_next_step_candidate :: "next_step_candidate \<Rightarrow> next_step_candidate result" where
  "mk_next_step_candidate c =
     bindE (validate_positive_rank (nc_rank c)) (\<lambda>_.
     bindE (validate_identifier (nc_anchor_id c) ''next-step candidate anchor ID'') (\<lambda>_.
     if kn_node_type (nc_task c) \<noteq> TASK then Inl (ValueError ''next-step candidate requires a task node'')
     else bindE (validate_graph_path (Some (nc_anchor_id c)) (kn_node_id (nc_task c)) (nc_depth c) (nc_path_node_ids c) (nc_path_steps c)
       ''next-step candidate path'' False) (\<lambda>_.
     bindE (validate_scored_projection (nc_task c) (nc_depth c) (nc_matched_terms c) (nc_lexical_score c) (nc_graph_score c)
       (nc_total_score c) True ''next-step candidate'') (\<lambda>_.
     if di_task_id (nc_dependency_inspection c) \<noteq> kn_node_id (nc_task c)
     then Inl (ValueError ''next-step candidate dependency inspection does not match its task'')
     else bindE (strict_bounded_strings (nc_unmet_dependency_reasons c) ''next-step candidate unmet reasons'' 1002) (\<lambda>reasons.
     let expected_reasons = status_reasons (nc_task c) @ di_unmet_reasons (nc_dependency_inspection c) in
     if reasons \<noteq> expected_reasons then Inl (ValueError ''next-step candidate unmet reasons do not match its state'')
     else if nc_eligible c \<noteq> (expected_reasons = []) then Inl (ValueError ''next-step candidate eligibility does not match its reasons'')
     else if nc_explanation c \<noteq> next_step_candidate_explanation (nc_task c) (nc_depth c) (nc_path_steps c) (nc_matched_terms c)
       (nc_lexical_score c) (nc_graph_score c) (nc_total_score c) (nc_eligible c) (nc_unmet_dependency_reasons c)
     then Inl (ValueError ''next-step candidate explanation does not match its decision data'')
     else bindE (validate_candidate_authority (nc_authority c) ''next-step candidate'') (\<lambda>_. Inr c))))))"

record next_step_context =
  nx_anchor_id :: string
  nx_query_terms :: "string list"
  nx_candidate_max_depth :: int
  nx_dependency_max_depth :: int
  nx_index_revision_digest :: string
  nx_candidates :: "next_step_candidate list"
  nx_authority :: string
  nx_schema_version :: string

definition candidate_key :: "next_step_candidate \<Rightarrow> bool \<times> int \<times> int \<times> string \<times> string" where
  "candidate_key c = (\<not> nc_eligible c, - nc_total_score c, nc_depth c, kn_node_id (nc_task c), node_digest (nc_task c))"

definition mk_next_step_context :: "next_step_context \<Rightarrow> next_step_context result" where
  "mk_next_step_context x =
     bindE (validate_identifier (nx_anchor_id x) ''next-step context anchor ID'') (\<lambda>_.
     bindE (validate_terms (nx_query_terms x) True ''next-step context query terms'') (\<lambda>terms.
     bindE (validate_max_depth (nx_candidate_max_depth x)) (\<lambda>_.
     bindE (validate_max_depth (nx_dependency_max_depth x)) (\<lambda>_.
     bindE (validate_digest (nx_index_revision_digest x) ''next-step context index revision digest'') (\<lambda>_.
     if 1000 < length (nx_candidates x) then Inl (ValueError ''next-step context candidates are invalid'')
     else if map nc_rank (nx_candidates x) \<noteq> map int [1..<length (nx_candidates x) + 1]
     then Inl (ValueError ''next-step context candidate ranks are not contiguous'')
     else if \<not> distinct (map (\<lambda>c. kn_node_id (nc_task c)) (nx_candidates x))
     then Inl (ValueError ''next-step context candidate tasks must be unique'')
     else if \<exists>c\<in>set (nx_candidates x). nc_anchor_id c \<noteq> nx_anchor_id x \<or> nx_candidate_max_depth x < nc_depth c
       \<or> \<not> set (nc_matched_terms c) \<subseteq> set terms \<or> di_max_depth (nc_dependency_inspection c) \<noteq> nx_dependency_max_depth x
       \<or> di_index_revision_digest (nc_dependency_inspection c) \<noteq> nx_index_revision_digest x
     then Inl (ValueError ''next-step candidate does not match its context budgets or revision'')
     else if nx_candidates x \<noteq> sort_key candidate_key (nx_candidates x)
     then Inl (ValueError ''next-step context candidates are not deterministically ordered'')
     else bindE (validate_candidate_authority (nx_authority x) ''next-step context'') (\<lambda>_.
     if nx_schema_version x \<noteq> ''sisyphus_harness.next_step_context.v2''
     then Inl (ValueError ''unsupported next-step context schema'') else Inr x))))))"

end
