(* ===== verification/Dependency_Graphs.thy ===== *)
theory Dependency_Graphs
  imports Knowledge_Contracts "HOL-Library.Multiset"
begin

text \<open>
  The two graph algorithms that guard the dependency edges of the knowledge index:
  \<^verbatim>\<open>SQLiteKnowledgeProjection._dependency_reaches\<close> (\<^verbatim>\<open>infra/knowledge_projection.py\<close>), a breadth-first search, and
  \<^verbatim>\<open>dependency_edges_contain_cycle\<close> (\<^verbatim>\<open>infra/knowledge_integrity.py\<close>), a topological sort by Kahn's algorithm.
  Both are shown to decide the relation they are named after: reachability and the existence of a cycle.
\<close>

section \<open>Dependency edges as pairs\<close>

definition is_dependency :: "knowledge_edge \<Rightarrow> bool" where
  "is_dependency e \<longleftrightarrow> ke_edge_type e \<in> set DEPENDENCY_EDGE_TYPES"

definition dependency_pairs :: "knowledge_edge list \<Rightarrow> (string \<times> string) list" where
  "dependency_pairs edges = map (\<lambda>e. (ke_source_node_id e, ke_target_node_id e)) (filter is_dependency edges)"

text \<open>The list a node has in the dict \<open>outgoing\<close> once the loop over the edges has filled it.\<close>

definition outgoing :: "('a \<times> 'a) list \<Rightarrow> 'a \<Rightarrow> 'a list" where
  "outgoing pairs v = map snd (filter (\<lambda>p. fst p = v) pairs)"

section \<open>Reachability\<close>

lemma outgoing_Nil: "v \<notin> fst ` set pairs \<Longrightarrow> outgoing pairs v = []"
  by (auto simp: outgoing_def filter_empty_conv)

lemma set_outgoing [simp]: "set (outgoing pairs v) = {t. (v, t) \<in> set pairs}"
  by (force simp: outgoing_def)

function reaches_loop :: "('a \<times> 'a) list \<Rightarrow> 'a \<Rightarrow> 'a list \<Rightarrow> 'a list \<Rightarrow> bool" where
  "reaches_loop pairs target [] visited = False"
| "reaches_loop pairs target (current # pending) visited =
     (if current = target then True
      else if current \<in> set visited then reaches_loop pairs target pending visited
      else reaches_loop pairs target
        (pending @ filter (\<lambda>v. v \<notin> set (current # visited)) (outgoing pairs current)) (current # visited))"
  by pat_completeness auto

termination
proof (relation "measures [\<lambda>(pairs, t, pending, visited). card (fst ` set pairs - set visited), \<lambda>(pairs, t, pending, visited). length pending]")
  fix pairs :: "('a \<times> 'a) list" and target current :: 'a and pending visited :: "'a list"
  assume new: "current \<notin> set visited"
  let ?rest = "filter (\<lambda>v. v \<notin> set (current # visited)) (outgoing pairs current)"
  have "fst ` set pairs - set (current # visited) \<subset> fst ` set pairs - set visited" if "current \<in> fst ` set pairs"
    using that new by auto
  then have "card (fst ` set pairs - set (current # visited)) < card (fst ` set pairs - set visited)"
    if "current \<in> fst ` set pairs" using that by (intro psubset_card_mono) auto
  moreover have "card (fst ` set pairs - set (current # visited)) \<le> card (fst ` set pairs - set visited)"
    by (intro card_mono) auto
  moreover have "?rest = []" if "current \<notin> fst ` set pairs" using that by (simp add: outgoing_Nil)
  ultimately show "((pairs, target, pending @ ?rest, current # visited), pairs, target, current # pending, visited)
      \<in> measures [\<lambda>(pairs, t, pending, visited). card (fst ` set pairs - set visited), \<lambda>(pairs, t, pending, visited). length pending]"
    by (cases "current \<in> fst ` set pairs") (auto simp: le_less)
qed auto

definition dependency_reaches :: "(string \<times> string) list \<Rightarrow> string \<Rightarrow> string \<Rightarrow> bool" where
  "dependency_reaches rows start_id target_id = reaches_loop rows target_id [start_id] []"

lemma reaches_loop_iff:
  assumes "target \<notin> set visited" and "set pairs `` set visited \<subseteq> set visited \<union> set pending"
  shows "reaches_loop pairs target pending visited \<longleftrightarrow> (\<exists>v\<in>set pending \<union> set visited. (v, target) \<in> (set pairs)\<^sup>*)"
  using assms
proof (induction pairs target pending visited rule: reaches_loop.induct)
  case (1 pairs target visited)
  have "w \<in> set visited" if "(v, w) \<in> (set pairs)\<^sup>*" "v \<in> set visited" for v w
    using that by induction (use 1 in auto)
  with 1 show ?case by auto
next
  case (2 pairs target current pending visited)
  show ?case
  proof (cases "current = target")
    case False
    show ?thesis
    proof (cases "current \<in> set visited")
      case True
      with 2 False show ?thesis by (auto simp: insert_absorb)
    next
      case fresh: False
      let ?rest = "filter (\<lambda>v. v \<notin> set (current # visited)) (outgoing pairs current)"
      have "reaches_loop pairs target (pending @ ?rest) (current # visited) \<longleftrightarrow>
          (\<exists>v\<in>set (pending @ ?rest) \<union> set (current # visited). (v, target) \<in> (set pairs)\<^sup>*)"
        using "2.prems" False fresh by (intro "2.IH"(2)) auto
      also have "\<dots> \<longleftrightarrow> (\<exists>v\<in>set (current # pending) \<union> set visited. (v, target) \<in> (set pairs)\<^sup>*)"
        by (auto intro: converse_rtrancl_into_rtrancl)
      finally show ?thesis using False fresh by simp
    qed
  qed auto
qed

lemma dependency_reaches_iff: "dependency_reaches rows s t \<longleftrightarrow> (s, t) \<in> (set rows)\<^sup>*"
  by (simp add: dependency_reaches_def reaches_loop_iff del: reaches_loop.simps)

section \<open>Cycle detection\<close>

text \<open>
  The loop of Kahn's algorithm. \<open>incoming_count\<close> is a function from the node IDs; the heap \<open>ready\<close> is the sorted
  list of its elements, from which \<open>heappop\<close> takes the least.
\<close>

definition release :: "'a::linorder \<Rightarrow> 'a list \<times> ('a \<Rightarrow> int) \<Rightarrow> 'a list \<times> ('a \<Rightarrow> int)" where
  "release target = (\<lambda>(ready, incoming). let left = incoming target - 1 in
     (if left = 0 then insort target ready else ready, incoming(target := left)))"

definition pending_work :: "('a \<times> 'a) list \<Rightarrow> 'a list \<Rightarrow> ('a \<Rightarrow> int) \<Rightarrow> nat" where
  "pending_work pairs ready incoming = length ready + (\<Sum>t\<in>snd ` set pairs. nat (incoming t))"

lemma release_work:
  assumes "t \<in> snd ` set pairs" and "release t (ready, incoming) = (ready', incoming')"
  shows "pending_work pairs ready' incoming' \<le> pending_work pairs ready incoming"
proof -
  have "(\<Sum>u\<in>snd ` set pairs. nat (f u)) = nat (f t) + (\<Sum>u\<in>snd ` set pairs - {t}. nat (f u))" for f :: "_ \<Rightarrow> int"
    using assms(1) by (simp add: sum.remove)
  moreover have "(\<Sum>u\<in>snd ` set pairs - {t}. nat (incoming' u)) = (\<Sum>u\<in>snd ` set pairs - {t}. nat (incoming u))"
    using assms(2) by (intro sum.cong) (auto simp: release_def Let_def)
  moreover have "length ready' + nat (incoming' t) \<le> length ready + nat (incoming t)"
    using assms(2) by (auto simp: release_def Let_def split: if_splits)
  ultimately show ?thesis by (simp add: pending_work_def)
qed

lemma fold_release_work:
  "set ts \<subseteq> snd ` set pairs \<Longrightarrow> fold release ts (ready, incoming) = (ready', incoming') \<Longrightarrow>
     pending_work pairs ready' incoming' \<le> pending_work pairs ready incoming"
proof (induction ts arbitrary: ready incoming)
  case (Cons t ts)
  obtain r i where step: "release t (ready, incoming) = (r, i)" by (cases "release t (ready, incoming)")
  with Cons have "pending_work pairs ready' incoming' \<le> pending_work pairs r i" by simp
  also have "\<dots> \<le> pending_work pairs ready incoming" using Cons.prems(1) step by (intro release_work) auto
  finally show ?case .
qed simp

function kahn_loop :: "('a::linorder \<times> 'a) list \<Rightarrow> 'a list \<Rightarrow> ('a \<Rightarrow> int) \<Rightarrow> nat \<Rightarrow> nat" where
  "kahn_loop pairs [] incoming visited = visited"
| "kahn_loop pairs (current # ready) incoming visited =
     (case fold release (sort (outgoing pairs current)) (ready, incoming) of
        (ready', incoming') \<Rightarrow> kahn_loop pairs ready' incoming' (visited + 1))"
  by pat_completeness auto

termination
proof (relation "measure (\<lambda>(pairs, ready, incoming, visited). pending_work pairs ready incoming)", goal_cases)
  case (2 pairs current ready incoming visited ready' incoming')
  have "pending_work pairs ready' incoming' \<le> pending_work pairs ready incoming"
    by (rule fold_release_work [of "sort (outgoing pairs current)"]) (use 2 in force)+
  then show ?case by (simp add: pending_work_def)
qed simp

definition node_ids_of :: "('a::linorder \<times> 'a) list \<Rightarrow> 'a list" where
  "node_ids_of pairs = sort (remdups (concat (map (\<lambda>(s, t). [s, t]) pairs)))"

definition incoming_count :: "('a \<times> 'a) list \<Rightarrow> 'a \<Rightarrow> int" where
  "incoming_count pairs = fold (\<lambda>(s, t) incoming. incoming(t := incoming t + 1)) pairs (\<lambda>_. 0)"

definition dependency_edges_contain_cycle :: "knowledge_edge list \<Rightarrow> bool" where
  "dependency_edges_contain_cycle edges =
     (let pairs = dependency_pairs edges in
      if pairs = [] then False
      else let node_ids = node_ids_of pairs;
               incoming = incoming_count pairs;
               ready = sort (filter (\<lambda>v. incoming v = 0) node_ids)
           in kahn_loop pairs ready incoming 0 \<noteq> length node_ids)"

section \<open>The topological sort decides acyclicity\<close>

lemma fold_incoming: "fold (\<lambda>(s, t) incoming. incoming(t := incoming t + 1)) pairs f v = f v + int (count_list (map snd pairs) v)"
  by (induction pairs arbitrary: f) auto

lemma incoming_count_eq: "incoming_count pairs v = int (length (filter (\<lambda>(s, t). t = v) pairs))"
proof -
  have "count_list (map snd pairs) v = length (filter (\<lambda>(s, t). t = v) pairs)" by (induction pairs) auto
  then show ?thesis by (simp add: incoming_count_def fold_incoming)
qed

lemma count_list_sort [simp]: "count_list (sort xs) v = count_list xs v"
  by (metis count_mset mset_sort)

lemma count_outgoing: "count_list (outgoing pairs v) t = length (filter (\<lambda>p. p = (v, t)) pairs)"
  by (induction pairs) (auto simp: outgoing_def)

lemma fold_release:
  assumes "\<forall>t\<in>set ts. int (count_list ts t) \<le> incoming t" and "distinct ready" and "\<forall>r\<in>set ready. incoming r = 0"
    and "fold release ts (ready, incoming) = (ready', incoming')"
  shows "incoming' = (\<lambda>t. incoming t - int (count_list ts t)) \<and> distinct ready'
     \<and> set ready' = set ready \<union> {t \<in> set ts. incoming t = int (count_list ts t)}"
  using assms
proof (induction ts arbitrary: ready incoming)
  case (Cons t ts)
  define r i where "r = fst (release t (ready, incoming))" and "i = snd (release t (ready, incoming))"
  have i: "i = incoming(t := incoming t - 1)" and r: "r = (if incoming t = 1 then insort t ready else ready)"
    by (auto simp: i_def r_def release_def Let_def)
  from Cons.prems(1) have t: "1 + int (count_list ts t) \<le> incoming t" by simp
  then have "incoming t \<noteq> 0" by linarith
  then have fresh: "t \<notin> set ready" using Cons.prems(3) by auto
  have last: "t \<notin> set ts" if "incoming t = 1" using t that by (metis add_le_same_cancel1 count_list_0_iff le_zero_eq of_nat_le_0_iff)
  have "incoming' = (\<lambda>u. i u - int (count_list ts u)) \<and> distinct ready'
     \<and> set ready' = set r \<union> {u \<in> set ts. i u = int (count_list ts u)}"
  proof (rule Cons.IH)
    show "\<forall>u\<in>set ts. int (count_list ts u) \<le> i u" using Cons.prems(1) t by (auto simp: i split: if_splits)
    show "distinct r" using Cons.prems(2) fresh by (simp add: r distinct_insort)
    show "\<forall>u\<in>set r. i u = 0" using Cons.prems(3) fresh by (auto simp: r i set_insort_key split: if_splits)
    show "fold release ts (r, i) = (ready', incoming')" using Cons.prems(4) by (simp add: r_def i_def)
  qed
  with t last show ?case
    by (auto simp: i r set_insort_key fun_eq_iff split: if_splits)
qed simp

lemma acyclic_sink:
  assumes "acyclic r" and "c \<notin> Domain r" and "c \<notin> S"
  shows "acyclic (r \<union> S \<times> {c})"
proof (rule acyclicI, intro allI notI)
  fix x assume cycle: "(x, x) \<in> (r \<union> S \<times> {c})\<^sup>+"
  have c: "c \<notin> Domain (r \<union> S \<times> {c})" using assms by auto
  have "(x, y) \<in> r\<^sup>+ \<or> y = c" if "(x, y) \<in> (r \<union> S \<times> {c})\<^sup>+" for y
    using that by induction (use c in \<open>auto intro: trancl_into_trancl\<close>)
  with cycle assms(1) have "x = c" by (auto simp: acyclic_def)
  with cycle c show False by (metis DomainI tranclD)
qed

definition kahn_inv :: "('a \<times> 'a) list \<Rightarrow> 'a set \<Rightarrow> 'a set \<Rightarrow> 'a list \<Rightarrow> ('a \<Rightarrow> int) \<Rightarrow> bool" where
  "kahn_inv pairs N P ready incoming \<longleftrightarrow> P \<subseteq> N \<and> distinct ready \<and> set ready = {v \<in> N - P. incoming v = 0}
     \<and> (\<forall>v. incoming v = int (length (filter (\<lambda>(s, t). t = v \<and> s \<notin> P) pairs)))
     \<and> (\<forall>(s, t)\<in>set pairs. t \<in> P \<longrightarrow> s \<in> P) \<and> acyclic (set pairs \<inter> P \<times> P)"

lemma kahn_step:
  assumes inv: "kahn_inv pairs N P (current # ready) incoming" and N: "Field (set pairs) \<subseteq> N"
    and run: "fold release (sort (outgoing pairs current)) (ready, incoming) = (ready', incoming')"
  shows "kahn_inv pairs N (insert current P) ready' incoming'"
proof -
  let ?ts = "sort (outgoing pairs current)"
  from inv have P: "P \<subseteq> N" and closed: "\<And>s t. (s, t) \<in> set pairs \<Longrightarrow> t \<in> P \<Longrightarrow> s \<in> P" and acyc: "acyclic (set pairs \<inter> P \<times> P)"
    and cur: "current \<in> N" "current \<notin> P" "incoming current = 0" "current \<notin> set ready"
    and ready: "insert current (set ready) = {v \<in> N - P. incoming v = 0}" and dist: "distinct ready"
    and inc: "\<And>v. incoming v = int (length (filter (\<lambda>(s, t). t = v \<and> s \<notin> P) pairs))"
    by (auto simp: kahn_inv_def)
  have preds: "s \<in> P" if "(s, current) \<in> set pairs" for s
    using cur(3) that unfolding inc by (auto simp: filter_empty_conv)
  have split: "length (filter (\<lambda>(s, t). t = v \<and> s \<notin> P) pairs) =
      count_list ?ts v + length (filter (\<lambda>(s, t). t = v \<and> s \<notin> insert current P) pairs)" for v
    unfolding count_list_sort count_outgoing using cur(2) by (induction pairs) auto
  have "\<forall>t\<in>set ?ts. int (count_list ?ts t) \<le> incoming t" by (auto simp: inc split)
  moreover have "\<forall>r\<in>set ready. incoming r = 0" using ready by auto
  ultimately have res: "incoming' = (\<lambda>t. incoming t - int (count_list ?ts t))" "distinct ready'"
      "set ready' = set ready \<union> {t \<in> set ?ts. incoming t = int (count_list ?ts t)}"
    using fold_release [OF _ dist _ run] by blast+
  have inc': "incoming' v = int (length (filter (\<lambda>(s, t). t = v \<and> s \<notin> insert current P) pairs))" for v
    unfolding res(1) inc split by simp
  have out: "t \<in> N" "t \<notin> insert current P" if "t \<in> set ?ts" for t
    using that N closed [of current t] preds [of current] cur(2) by (auto simp: Field_def)
  have "set ready' = {v \<in> N - insert current P. incoming' v = 0}" (is "_ = ?R")
  proof
    have "incoming' v = 0 \<and> v \<in> N - insert current P" if v: "v \<in> set ready" for v
    proof -
      have "v \<in> N" "v \<notin> P" "incoming v = 0" "v \<noteq> current" using v ready cur(4) by auto
      moreover from this(3) have "incoming' v = 0" unfolding inc inc' split by (simp flip: of_nat_add)
      ultimately show ?thesis by blast
    qed
    then show "set ready' \<subseteq> ?R" using out by (auto simp: res(1,3))
    have "v \<in> set ready'" if "v \<in> ?R" for v
    proof (cases "incoming v = 0")
      case True
      with that ready show ?thesis by (auto simp: res(3))
    next
      case False
      with that have "incoming v = int (count_list ?ts v)" by (simp add: res(1))
      with False show ?thesis by (auto simp: res(3))
    qed
    then show "?R \<subseteq> set ready'" by blast
  qed
  moreover have "set pairs \<inter> insert current P \<times> insert current P = (set pairs \<inter> P \<times> P) \<union> {s \<in> P. (s, current) \<in> set pairs} \<times> {current}"
    using closed preds cur(2) by auto
  then have "acyclic (set pairs \<inter> insert current P \<times> insert current P)"
    using acyc cur(2) by (simp add: acyclic_sink Domain_iff)
  ultimately show ?thesis
    unfolding kahn_inv_def using P cur(1) closed preds inc' res(2) by auto
qed

lemma kahn_loop_iff:
  assumes "kahn_inv pairs N P ready incoming" and "finite N" and "Field (set pairs) \<subseteq> N"
  shows "kahn_loop pairs ready incoming (card P) = card N \<longleftrightarrow> acyclic (set pairs)"
  using assms
proof (induction pairs ready incoming "card P" arbitrary: P rule: kahn_loop.induct)
  case (1 pairs incoming)
  then have P: "P \<subseteq> N" "finite P" by (auto simp: kahn_inv_def intro: finite_subset)
  have left: "\<exists>s. (s, v) \<in> set pairs \<and> s \<in> N - P" if "v \<in> N - P" for v
  proof -
    have "incoming v \<noteq> 0" using 1(1) that by (auto simp: kahn_inv_def)
    then have "filter (\<lambda>(s, t). t = v \<and> s \<notin> P) pairs \<noteq> []" using 1(1) by (auto simp: kahn_inv_def)
    with 1(3) show ?thesis by (auto simp: filter_empty_conv Field_def)
  qed
  show ?case
  proof (cases "P = N")
    case True
    then have "set pairs \<inter> P \<times> P = set pairs" using 1(3) by (auto simp: Field_def)
    with 1(1) True show ?thesis by (simp add: kahn_inv_def)
  next
    case False
    then have "card P < card N" using P 1(2) by (intro psubset_card_mono) auto
    moreover have "\<not> acyclic (set pairs)"
    proof
      assume "acyclic (set pairs)"
      then have "wf (set pairs)" by (simp add: finite_acyclic_wf)
      moreover from False P obtain v where "v \<in> N - P" by blast
      ultimately obtain z where "z \<in> N - P" "\<And>y. (y, z) \<in> set pairs \<Longrightarrow> y \<notin> N - P" by (metis wfE_min)
      with left show False by blast
    qed
    ultimately show ?thesis by simp
  qed
next
  case (2 pairs current ready incoming)
  obtain ready' incoming' where run: "fold release (sort (outgoing pairs current)) (ready, incoming) = (ready', incoming')"
    by (cases "fold release (sort (outgoing pairs current)) (ready, incoming)")
  note inv = kahn_step [OF 2(2) 2(4) run]
  have "P \<subseteq> N" "current \<notin> P" using 2(2) by (auto simp: kahn_inv_def)
  then have "card (insert current P) = card P + 1" using 2(3) by (simp add: finite_subset)
  with 2(1) [OF run [symmetric] _ inv 2(3,4)] run show ?case by simp
qed

text \<open>The relation the dependency edges of an edge list form.\<close>

definition dependency_rel :: "knowledge_edge list \<Rightarrow> (string \<times> string) set" where
  "dependency_rel edges = set (dependency_pairs edges)"

lemma dependency_cycle_iff: "dependency_edges_contain_cycle edges \<longleftrightarrow> \<not> acyclic (dependency_rel edges)"
proof (cases "dependency_pairs edges = []")
  case True
  then show ?thesis by (simp add: dependency_edges_contain_cycle_def dependency_rel_def acyclic_def)
next
  case False
  let ?pairs = "dependency_pairs edges"
  let ?N = "set (node_ids_of ?pairs)"
  have N: "?N = Field (set ?pairs)"
    by (auto simp: node_ids_of_def Field_def Domain_iff Range_iff)
  have "length (node_ids_of ?pairs) = card ?N" by (simp add: node_ids_of_def distinct_card [symmetric])
  moreover have "kahn_inv ?pairs ?N {} (sort (filter (\<lambda>v. incoming_count ?pairs v = 0) (node_ids_of ?pairs))) (incoming_count ?pairs)"
    by (auto simp: kahn_inv_def incoming_count_eq node_ids_of_def acyclic_def)
  ultimately show ?thesis
    using kahn_loop_iff [of ?pairs ?N "{}"] N False finite_set [of "node_ids_of ?pairs"] by (simp add: dependency_edges_contain_cycle_def dependency_rel_def Let_def)
qed

end
