(* ===== verification/Knowledge_Index.thy ===== *)
theory Knowledge_Index
  imports Dependency_Graphs Job_Store Step_Systems
begin

text \<open>
  The knowledge index: the SQLite file of \<^verbatim>\<open>infra/knowledge_database.py\<close> with its schema and constraints, the integrity
  check and row readers of \<^verbatim>\<open>infra/knowledge_integrity.py\<close>, the transactional writes of
  \<^verbatim>\<open>infra/knowledge_projection.py\<close>, the queries of \<^verbatim>\<open>infra/knowledge_queries.py\<close> and the mutation service of
  \<^verbatim>\<open>knowledge_mutations.py\<close>. A table is the list of its rows in the order of its primary key, which is the order every
  query asks for. The lemmas relate the file to the graph it stores: each write is the update of that graph, and the graph
  keeps its dependency edges between tasks and acyclic.
\<close>

section \<open>Tables\<close>

record node_row =
  nr_node_id :: string
  nr_node_type :: string
  nr_task_status :: "string option"
  nr_title :: string
  nr_content_digest :: string
  nr_metadata_digest :: string
  nr_provenance_digest :: string
  nr_node_digest :: string
  nr_authority :: string
  nr_payload_json :: string

record edge_row =
  er_source_node_id :: string
  er_target_node_id :: string
  er_edge_type :: string
  er_metadata_digest :: string
  er_provenance_digest :: string
  er_edge_digest :: string
  er_authority :: string
  er_payload_json :: string

record kdb =
  kd_tables :: "string list"
  kd_metadata :: "(string \<times> string) list"
  kd_nodes :: "(string \<times> node_row) list"
  kd_terms :: "((string \<times> string) \<times> int) list"
  kd_edges :: "((string \<times> string \<times> string) \<times> edge_row) list"

definition KNOWLEDGE_INDEX_SCHEMA_VERSION :: int where
  "KNOWLEDGE_INDEX_SCHEMA_VERSION = 1"

definition KNOWLEDGE_TABLES :: "string list" where
  "KNOWLEDGE_TABLES = [''knowledge_index_metadata'', ''knowledge_nodes'', ''knowledge_edges'', ''knowledge_terms'']"

definition empty_kdb :: kdb where
  "empty_kdb = \<lparr>kd_tables = [], kd_metadata = [], kd_nodes = [], kd_terms = [], kd_edges = []\<rparr>"

text \<open>A statement on a table that does not exist raises.\<close>

definition require_table :: "string \<Rightarrow> kdb \<Rightarrow> unit result" where
  "require_table name d = (if name \<in> set (kd_tables d) then Inr () else Inl (RuntimeError (''no such table: '' @ name)))"

text \<open>The insert statements, with the constraints of the schema.\<close>

definition insert_node_row :: "node_row \<Rightarrow> kdb \<Rightarrow> kdb result" where
  "insert_node_row r d =
     (if nr_node_id r \<in> fst ` set (kd_nodes d) then Inl (IntegrityError ''UNIQUE constraint failed: knowledge_nodes.node_id'')
      else if nr_node_type r \<notin> {''task'', ''knowledge''} then Inl (IntegrityError ''CHECK constraint failed: node_type'')
      else if nr_task_status r \<notin> {None, Some ''completed'', Some ''ready'', Some ''blocked''}
      then Inl (IntegrityError ''CHECK constraint failed: task_status'')
      else if nr_node_digest r \<in> nr_node_digest ` snd ` set (kd_nodes d)
      then Inl (IntegrityError ''UNIQUE constraint failed: knowledge_nodes.node_digest'')
      else if nr_authority r \<noteq> DERIVED_CANDIDATE_AUTHORITY then Inl (IntegrityError ''CHECK constraint failed: authority'')
      else if \<not> (nr_node_type r = ''task'' \<and> nr_task_status r \<noteq> None \<or> nr_node_type r = ''knowledge'' \<and> nr_task_status r = None)
      then Inl (IntegrityError ''CHECK constraint failed: knowledge_nodes'')
      else Inr (d\<lparr>kd_nodes := dict_set (nr_node_id r) r (kd_nodes d)\<rparr>))"

definition insert_term_row :: "string \<Rightarrow> string \<times> int \<Rightarrow> kdb \<Rightarrow> kdb result" where
  "insert_term_row node_id = (\<lambda>(term, weight) d.
     if node_id \<notin> fst ` set (kd_nodes d) then Inl (IntegrityError ''FOREIGN KEY constraint failed'')
     else if weight \<le> 0 then Inl (IntegrityError ''CHECK constraint failed: weight > 0'')
     else if (node_id, term) \<in> fst ` set (kd_terms d)
     then Inl (IntegrityError ''UNIQUE constraint failed: knowledge_terms.node_id, knowledge_terms.term'')
     else Inr (d\<lparr>kd_terms := dict_set (node_id, term) weight (kd_terms d)\<rparr>))"

definition edge_key :: "edge_row \<Rightarrow> string \<times> string \<times> string" where
  "edge_key r = (er_source_node_id r, er_target_node_id r, er_edge_type r)"

definition insert_edge_row :: "edge_row \<Rightarrow> kdb \<Rightarrow> kdb result" where
  "insert_edge_row r d =
     (if edge_key r \<in> fst ` set (kd_edges d) then Inl (IntegrityError ''UNIQUE constraint failed: knowledge_edges'')
      else if er_edge_digest r \<in> er_edge_digest ` snd ` set (kd_edges d)
      then Inl (IntegrityError ''UNIQUE constraint failed: knowledge_edges.edge_digest'')
      else if er_authority r \<noteq> DERIVED_CANDIDATE_AUTHORITY then Inl (IntegrityError ''CHECK constraint failed: authority'')
      else if er_source_node_id r = er_target_node_id r then Inl (IntegrityError ''CHECK constraint failed: knowledge_edges'')
      else if er_source_node_id r \<notin> fst ` set (kd_nodes d) \<or> er_target_node_id r \<notin> fst ` set (kd_nodes d)
      then Inl (IntegrityError ''FOREIGN KEY constraint failed'')
      else Inr (d\<lparr>kd_edges := dict_set (edge_key r) r (kd_edges d)\<rparr>))"

text \<open>\<open>for x in xs: s = f(x, s)\<close>, stopping at the first exception; \<open>executemany\<close> is this loop.\<close>

fun foldE :: "('a \<Rightarrow> 's \<Rightarrow> 'e + 's) \<Rightarrow> 'a list \<Rightarrow> 's \<Rightarrow> 'e + 's" where
  "foldE f [] s = Inr s"
| "foldE f (x # xs) s = bindE (f x s) (foldE f xs)"

section \<open>Reading rows back\<close>

definition as_index_error :: "'a result \<Rightarrow> 'a result" where
  "as_index_error m = (case m of Inl (ValueError msg) \<Rightarrow> Inl (KnowledgeIndexError msg) | _ \<Rightarrow> m)"

definition parse_node :: "string \<Rightarrow> knowledge_node result" where
  "parse_node payload = as_index_error (bindE (loads_strict_json payload ''stored knowledge node'') node_from_dict)"

definition parse_edge :: "string \<Rightarrow> knowledge_edge result" where
  "parse_edge payload = as_index_error (bindE (loads_strict_json payload ''stored knowledge edge'') edge_from_dict)"

text \<open>The columns a node and an edge are stored under.\<close>

definition node_row_of :: "knowledge_node \<Rightarrow> string \<Rightarrow> node_row" where
  "node_row_of n payload = \<lparr>nr_node_id = kn_node_id n, nr_node_type = node_type_value (kn_node_type n),
     nr_task_status = map_option task_status_value (kn_task_status n), nr_title = kn_title n,
     nr_content_digest = node_content_digest n, nr_metadata_digest = metadata_digest (kn_metadata n),
     nr_provenance_digest = provenance_digest (kn_provenance n), nr_node_digest = node_digest n,
     nr_authority = kn_authority n, nr_payload_json = payload\<rparr>"

definition edge_row_of :: "knowledge_edge \<Rightarrow> string \<Rightarrow> edge_row" where
  "edge_row_of e payload = \<lparr>er_source_node_id = ke_source_node_id e, er_target_node_id = ke_target_node_id e,
     er_edge_type = edge_type_value (ke_edge_type e), er_metadata_digest = metadata_digest (ke_metadata e),
     er_provenance_digest = provenance_digest (ke_provenance e), er_edge_digest = edge_digest e,
     er_authority = ke_authority e, er_payload_json = payload\<rparr>"

definition node_from_row :: "node_row \<Rightarrow> knowledge_node result" where
  "node_from_row row = bindE (parse_node (nr_payload_json row)) (\<lambda>node.
     if row \<noteq> node_row_of node (nr_payload_json row)
     then Inl (KnowledgeIndexError ''stored knowledge node columns do not match its payload'') else Inr node)"

definition edge_from_row :: "edge_row \<Rightarrow> knowledge_edge result" where
  "edge_from_row row = bindE (parse_edge (er_payload_json row)) (\<lambda>edge.
     if row \<noteq> edge_row_of edge (er_payload_json row)
     then Inl (KnowledgeIndexError ''stored knowledge edge columns do not match its payload'') else Inr edge)"

section \<open>The integrity check\<close>

definition expected_metadata :: "int \<Rightarrow> (string \<times> string) list" where
  "expected_metadata version = [(''authority'', DERIVED_CANDIDATE_AUTHORITY), (''schema_version'', show_int version)]"

definition check_endpoints :: "knowledge_node list \<Rightarrow> knowledge_edge \<Rightarrow> unit result" where
  "check_endpoints nodes edge =
     (let nodes_by_id = map_of (py_dict (map (\<lambda>n. (kn_node_id n, n)) nodes)) in
      case (nodes_by_id (ke_source_node_id edge), nodes_by_id (ke_target_node_id edge)) of
        (Some source, Some target) \<Rightarrow>
          if is_dependency edge \<and> (kn_node_type source \<noteq> TASK \<or> kn_node_type target \<noteq> TASK)
          then Inl (KnowledgeIndexError ''dependency edge endpoints are not stored task nodes'') else Inr ()
      | _ \<Rightarrow> Inl (KnowledgeIndexError ''knowledge edge endpoints do not reference stored nodes''))"

definition node_term_rows :: "knowledge_node \<Rightarrow> ((string \<times> string) \<times> int) list" where
  "node_term_rows n = map (\<lambda>(term, weight). ((kn_node_id n, term), weight)) (weighted_node_terms n)"

definition expected_terms :: "knowledge_node list \<Rightarrow> ((string \<times> string) \<times> int) list" where
  "expected_terms nodes = concat (map node_term_rows nodes)"

text \<open>The value whose digest names a revision of the index.\<close>

definition revision_value :: "(string \<times> string) list \<Rightarrow> knowledge_node list \<Rightarrow> knowledge_edge list \<Rightarrow> ((string \<times> string) \<times> int) list \<Rightarrow> pyobj" where
  "revision_value stored_metadata nodes edges stored_terms = PDict (py_dict
     [(''metadata'', PList (map (\<lambda>(k, v). PList [PStr k, PStr v]) stored_metadata)),
      (''nodes'', PList (map (\<lambda>n. PList [PStr (kn_node_id n), PStr (node_digest n)]) nodes)),
      (''edges'', PList (map (\<lambda>e. PList [PStr (ke_source_node_id e), PStr (ke_target_node_id e),
         PStr (edge_type_value (ke_edge_type e)), PStr (edge_digest e)]) edges)),
      (''terms'', PList (map (\<lambda>((i, t), w). PList [PStr i, PStr t, PInt w]) stored_terms))])"

definition revision_digest_from_connection :: "kdb \<Rightarrow> int \<Rightarrow> string result" where
  "revision_digest_from_connection d version =
     bindE (checkE (\<lambda>name. require_table name d) KNOWLEDGE_TABLES) (\<lambda>_.
     if kd_metadata d \<noteq> expected_metadata version
     then Inl (KnowledgeIndexError ''knowledge index metadata does not match the supported schema'')
     else bindE (mapE node_from_row (map snd (kd_nodes d))) (\<lambda>nodes.
     bindE (mapE edge_from_row (map snd (kd_edges d))) (\<lambda>edges.
     bindE (checkE (check_endpoints nodes) edges) (\<lambda>_.
     if dependency_edges_contain_cycle edges then Inl (KnowledgeIndexError ''knowledge dependency edges contain a cycle'')
     else if kd_terms d \<noteq> expected_terms nodes
     then Inl (KnowledgeIndexError ''knowledge term index does not match stored node payloads'')
     else sha256_digest (revision_value (kd_metadata d) nodes edges (kd_terms d))))))"

section \<open>Opening the index\<close>

definition parse_schema_version :: "string \<Rightarrow> int result" where
  "parse_schema_version raw = (case py_int_of_string raw of
       None \<Rightarrow> Inl (KnowledgeIndexError (''invalid knowledge index schema version: '' @ raw))
     | Some v \<Rightarrow> if v < 0 then Inl (KnowledgeIndexError (''invalid knowledge index schema version: '' @ raw)) else Inr v)"

definition create_table :: "string \<Rightarrow> kdb \<Rightarrow> kdb" where
  "create_table name d = (if name \<in> set (kd_tables d) then d else d\<lparr>kd_tables := kd_tables d @ [name]\<rparr>)"

definition create_schema :: "kdb \<Rightarrow> kdb" where
  "create_schema d = fold create_table [''knowledge_nodes'', ''knowledge_terms'', ''knowledge_edges''] d"

definition initialize_index :: "kdb \<Rightarrow> unit result \<times> kdb" where
  "initialize_index = transaction (\<lambda>d.
     let existing_tables = filter (\<lambda>t. t \<in> set KNOWLEDGE_TABLES) (kd_tables d);
         d1 = create_table ''knowledge_index_metadata'' d;
         current = map_of (kd_metadata d1) ''schema_version''
     in bindE (case current of None \<Rightarrow> Inr 0 | Some raw \<Rightarrow> parse_schema_version raw) (\<lambda>current_version.
     if KNOWLEDGE_INDEX_SCHEMA_VERSION < current_version
     then Inl (KnowledgeIndexError (''knowledge index schema version '' @ show_int current_version @
       '' is newer than supported version '' @ show_int KNOWLEDGE_INDEX_SCHEMA_VERSION))
     else bindE
       (if current = None then
          if kd_metadata d1 \<noteq> [] \<or> existing_tables \<noteq> []
          then Inl (KnowledgeIndexError ''knowledge index metadata is incomplete or corrupt'')
          else Inr ((create_schema d1)\<lparr>kd_metadata := py_dict [(''authority'', DERIVED_CANDIDATE_AUTHORITY),
            (''schema_version'', show_int KNOWLEDGE_INDEX_SCHEMA_VERSION)]\<rparr>)
        else if current_version < 1
        then Inl (KnowledgeIndexError (''unsupported knowledge index schema version '' @ show_int current_version))
        else Inr d1) (\<lambda>d2.
     bindE (revision_digest_from_connection d2 KNOWLEDGE_INDEX_SCHEMA_VERSION) (\<lambda>_. Inr ((), d2)))))"

section \<open>Writes\<close>

definition canonical_node :: "knowledge_node \<Rightarrow> knowledge_node result" where
  "canonical_node node = node_from_dict (node_to_dict node)"

definition canonical_edge :: "knowledge_edge \<Rightarrow> knowledge_edge result" where
  "canonical_edge edge = edge_from_dict (edge_to_dict edge)"

definition require_integrity :: "kdb \<Rightarrow> string result" where
  "require_integrity d = revision_digest_from_connection d KNOWLEDGE_INDEX_SCHEMA_VERSION"

definition put_node :: "knowledge_node \<Rightarrow> kdb \<Rightarrow> bool result \<times> kdb" where
  "put_node node0 = with_input (canonical_node node0) (\<lambda>node. with_input (canonical_json_bytes (node_to_dict node)) (\<lambda>payload.
     transaction (\<lambda>d.
     bindE (require_integrity d) (\<lambda>_.
     case map_of (kd_nodes d) (kn_node_id node) of
       Some existing \<Rightarrow> if nr_node_digest existing = node_digest node then Inr (False, d)
         else Inl (KnowledgeIndexConflict (''knowledge node '' @ py_repr (kn_node_id node) @ '' already has different content''))
     | None \<Rightarrow>
         bindE (insert_node_row (node_row_of node payload) d) (\<lambda>d1.
         bindE (foldE (insert_term_row (kn_node_id node)) (weighted_node_terms node) d1) (\<lambda>d2.
         bindE (require_integrity d2) (\<lambda>_. Inr (True, d2))))))))"

definition existing_edge :: "kdb \<Rightarrow> knowledge_edge \<Rightarrow> bool option result" where
  "existing_edge d edge = (case map_of (kd_edges d) (ke_source_node_id edge, ke_target_node_id edge, edge_type_value (ke_edge_type edge)) of
       None \<Rightarrow> Inr None
     | Some existing \<Rightarrow> if er_edge_digest existing = edge_digest edge then Inr (Some False)
         else Inl (KnowledgeIndexConflict ''knowledge edge already has different metadata or provenance''))"

definition insert_edge :: "knowledge_edge \<Rightarrow> string \<Rightarrow> kdb \<Rightarrow> kdb result" where
  "insert_edge edge payload d = (case insert_edge_row (edge_row_of edge payload) d of
       Inl (IntegrityError _) \<Rightarrow> Inl (KnowledgeIndexError ''knowledge edge endpoints must reference stored nodes'')
     | r \<Rightarrow> r)"

definition put_edge :: "knowledge_edge \<Rightarrow> kdb \<Rightarrow> bool result \<times> kdb" where
  "put_edge edge0 = with_input (canonical_edge edge0) (\<lambda>edge. with_input
     (if is_dependency edge then Inl (KnowledgeIndexError ''dependency edges must use the atomic dependency writer'')
      else canonical_json_bytes (edge_to_dict edge)) (\<lambda>payload.
     transaction (\<lambda>d.
     bindE (require_integrity d) (\<lambda>_.
     bindE (existing_edge d edge) (\<lambda>existing.
     case existing of Some result \<Rightarrow> Inr (result, d)
     | None \<Rightarrow> bindE (insert_edge edge payload d) (\<lambda>d1. bindE (require_integrity d1) (\<lambda>_. Inr (True, d1))))))))"

definition require_task_endpoints :: "kdb \<Rightarrow> knowledge_edge \<Rightarrow> unit result" where
  "require_task_endpoints d edge =
     (let type_of = (\<lambda>i. map_option nr_node_type (map_of (kd_nodes d) i)) in
      if type_of (ke_source_node_id edge) \<noteq> Some ''task'' \<or> type_of (ke_target_node_id edge) \<noteq> Some ''task''
      then Inl (KnowledgeIndexError ''dependency edge endpoints must reference stored task nodes'') else Inr ())"

text \<open>\<open>SELECT source_node_id, target_node_id \<dots> WHERE edge_type IN (\<dots>) ORDER BY source_node_id, target_node_id\<close>.\<close>

definition dependency_rows :: "kdb \<Rightarrow> (string \<times> string) list" where
  "dependency_rows d = map (\<lambda>(k, r). (er_source_node_id r, er_target_node_id r))
     (filter (\<lambda>(k, r). er_edge_type r \<in> set (map edge_type_value DEPENDENCY_EDGE_TYPES)) (kd_edges d))"

definition put_dependency_edge :: "knowledge_edge \<Rightarrow> kdb \<Rightarrow> dependency_edge_write_result result \<times> kdb" where
  "put_dependency_edge edge0 = with_input (canonical_edge edge0) (\<lambda>edge. with_input
     (if \<not> is_dependency edge then Inl (ValueError ''atomic dependency write requires a dependency edge'')
      else canonical_json_bytes (edge_to_dict edge)) (\<lambda>payload.
     transaction (\<lambda>d.
     bindE (require_integrity d) (\<lambda>_.
     bindE (require_task_endpoints d edge) (\<lambda>_.
     bindE (existing_edge d edge) (\<lambda>existing.
     if existing \<noteq> None then Inr (UNCHANGED, d)
     else if dependency_reaches (dependency_rows d) (ke_target_node_id edge) (ke_source_node_id edge) then Inr (CYCLE, d)
     else bindE (insert_edge edge payload d) (\<lambda>d1. bindE (require_integrity d1) (\<lambda>_. Inr (INSERTED, d1)))))))))"

section \<open>Queries\<close>

definition get_node :: "string \<Rightarrow> kdb \<Rightarrow> knowledge_node option result" where
  "get_node node_id d = bindE (require_table ''knowledge_nodes'' d) (\<lambda>_.
     case map_of (kd_nodes d) node_id of None \<Rightarrow> Inr None | Some row \<Rightarrow> bindE (node_from_row row) (\<lambda>n. Inr (Some n)))"

definition list_nodes :: "kdb \<Rightarrow> knowledge_node list result" where
  "list_nodes d = bindE (require_table ''knowledge_nodes'' d) (\<lambda>_. mapE node_from_row (map snd (kd_nodes d)))"

definition edges_for :: "string \<Rightarrow> kdb \<Rightarrow> knowledge_edge list result" where
  "edges_for node_id d = bindE (require_table ''knowledge_edges'' d) (\<lambda>_.
     mapE edge_from_row (filter (\<lambda>r. er_source_node_id r = node_id \<or> er_target_node_id r = node_id) (map snd (kd_edges d))))"

definition SQLITE_SAFE_PARAMETER_LIMIT :: nat where
  "SQLITE_SAFE_PARAMETER_LIMIT = 900"

function chunks :: "'a list \<Rightarrow> nat \<Rightarrow> 'a list list" where
  "chunks values n = (if values = [] \<or> n = 0 then [] else take n values # chunks (drop n values) n)"
  by pat_completeness auto
termination
  by (relation "measure (\<lambda>(values, n). length values)") auto

declare chunks.simps [simp del]

text \<open>\<open>scores.setdefault(node_id, []).append((term, weight))\<close>.\<close>

definition add_score :: "(string \<times> string) \<times> int \<Rightarrow> (string \<times> (string \<times> int) list) list \<Rightarrow> (string \<times> (string \<times> int) list) list" where
  "add_score = (\<lambda>((node_id, term), weight) scores.
     dict_set node_id ((case map_of scores node_id of Some items \<Rightarrow> items | None \<Rightarrow> []) @ [(term, weight)]) scores)"

definition term_scores :: "string list \<Rightarrow> string list \<Rightarrow> kdb \<Rightarrow> (string \<times> (string \<times> int) list) list result" where
  "term_scores terms node_ids d =
     (if terms = [] \<or> node_ids = [] then Inr []
      else if 128 < length terms then Inl (ValueError ''knowledge search supports at most 128 unique terms'')
      else if \<exists>t\<in>set terms. normalized_terms t \<noteq> [t] then Inl (ValueError ''knowledge search terms must be normalized'')
      else bindE (require_table ''knowledge_terms'' d) (\<lambda>_. bindE (require_table ''knowledge_nodes'' d) (\<lambda>_.
      let allowed_node_ids = sort (remdups node_ids);
          pieces = chunks allowed_node_ids (SQLITE_SAFE_PARAMETER_LIMIT - length terms);
          rows = concat (map (\<lambda>piece. filter (\<lambda>((i, t), w). t \<in> set terms \<and> i \<in> set piece) (kd_terms d)) pieces);
          node_rows = concat (map (\<lambda>piece. filter (\<lambda>(i, r). i \<in> set piece) (kd_nodes d)) pieces);
          result = fold add_score (filter (\<lambda>((i, t), w). i \<in> set allowed_node_ids) rows) []
      in bindE (mapE node_from_row (map snd node_rows)) (\<lambda>nodes.
      let matches = (\<lambda>n. filter (\<lambda>(t, w). t \<in> set terms) (weighted_node_terms n));
          expected = py_dict (map (\<lambda>n. (kn_node_id n, matches n)) (filter (\<lambda>n. matches n \<noteq> []) nodes))
      in if result \<noteq> expected then Inl (KnowledgeIndexError ''knowledge term index does not match stored node payloads'')
         else Inr result))))"

definition revision_digest :: "kdb \<Rightarrow> string result" where
  "revision_digest d = revision_digest_from_connection d KNOWLEDGE_INDEX_SCHEMA_VERSION"

section \<open>The mutation service\<close>

definition mutation_required_node :: "string \<Rightarrow> kdb \<Rightarrow> knowledge_node result" where
  "mutation_required_node node_id d = bindE (get_node node_id d) (\<lambda>node. case node of Some n \<Rightarrow> Inr n
     | None \<Rightarrow> Inl (KnowledgeGraphError (''knowledge node '' @ py_repr node_id @ '' does not exist'')))"

definition add_node :: "knowledge_node \<Rightarrow> kdb \<Rightarrow> bool result \<times> kdb" where
  "add_node node d = put_node node d"

definition add_edge :: "knowledge_edge \<Rightarrow> kdb \<Rightarrow> bool result \<times> kdb" where
  "add_edge edge d =
     with_input (mutation_required_node (ke_source_node_id edge) d) (\<lambda>source.
     with_input (mutation_required_node (ke_target_node_id edge) d) (\<lambda>target d.
     if is_dependency edge then
       if kn_node_type source \<noteq> TASK \<or> kn_node_type target \<noteq> TASK
       then (Inl (KnowledgeGraphError ''dependency edges must connect task candidate nodes''), d)
       else returning (put_dependency_edge edge d) (\<lambda>result.
         if result = CYCLE then Inl (KnowledgeGraphError ''dependency edge would create a cycle'') else Inr (result = INSERTED))
     else put_edge edge d)) d"

section \<open>Rows and what they store\<close>

lemma as_index_error_eq [simp]: "as_index_error m = Inr x \<longleftrightarrow> m = Inr x"
  by (auto simp: as_index_error_def split: sum.splits py_error.splits)

lemma node_from_row_of: "wf_node n \<Longrightarrow> node_from_row (node_row_of n (json_dumps (node_to_dict n))) = Inr n"
  by (simp add: node_from_row_def parse_node_def node_row_of_def loads_json_dumps node_to_dict_wire node_round_trip
      as_index_error_def del: json_dumps.simps)

lemma edge_from_row_of: "wf_edge e \<Longrightarrow> edge_from_row (edge_row_of e (json_dumps (edge_to_dict e))) = Inr e"
  by (simp add: edge_from_row_def parse_edge_def edge_row_of_def loads_json_dumps edge_to_dict_wire edge_round_trip
      as_index_error_def del: json_dumps.simps)

lemma node_from_rowD: "node_from_row r = Inr n \<Longrightarrow> wf_node n \<and> r = node_row_of n (nr_payload_json r)"
  by (auto simp: node_from_row_def parse_node_def result_simps dest: node_from_dict_wf)

lemma edge_from_rowD: "edge_from_row r = Inr e \<Longrightarrow> wf_edge e \<and> r = edge_row_of e (er_payload_json r)"
  by (auto simp: edge_from_row_def parse_edge_def result_simps dest: edge_from_dict_wf)

text \<open>Two dicts with the same keys whose values are related.\<close>

definition dict_rel :: "('v \<Rightarrow> 'w \<Rightarrow> bool) \<Rightarrow> ('k \<times> 'v) list \<Rightarrow> ('k \<times> 'w) list \<Rightarrow> bool" where
  "dict_rel P = list_all2 (\<lambda>(k, v) (k', w). k = k' \<and> P v w)"

lemma dict_rel_Nil [simp]: "dict_rel P [] e \<longleftrightarrow> e = []" "dict_rel P d [] \<longleftrightarrow> d = []"
  by (simp_all add: dict_rel_def)

lemma dict_rel_keys: "dict_rel P d e \<Longrightarrow> map fst d = map fst e"
  unfolding dict_rel_def by (induction rule: list_all2_induct) auto

lemma dict_rel_dict_ok: "dict_rel P d e \<Longrightarrow> dict_ok d \<longleftrightarrow> dict_ok e"
  by (simp add: dict_ok_def dict_rel_keys)

lemma dict_rel_image: "dict_rel P d e \<Longrightarrow> fst ` set d = fst ` set e"
  by (metis dict_rel_keys set_map)

lemma dict_rel_set: "dict_rel P d e \<Longrightarrow> P v w \<Longrightarrow> dict_rel P (dict_set k v d) (dict_set k w e)"
  unfolding dict_rel_def by (induction rule: list_all2_induct) auto

lemma dict_rel_map_of:
  assumes "dict_rel P d e"
  shows "rel_option P (map_of d k) (map_of e k)"
  using assms unfolding dict_rel_def by (induction rule: list_all2_induct) auto

lemma dict_rel_member: "dict_rel P d e \<Longrightarrow> (k, v) \<in> set d \<Longrightarrow> \<exists>w. (k, w) \<in> set e \<and> P v w"
  unfolding dict_rel_def by (induction rule: list_all2_induct) auto

lemma dict_rel_member': "dict_rel P d e \<Longrightarrow> (k, w) \<in> set e \<Longrightarrow> \<exists>v. (k, v) \<in> set d \<and> P v w"
  unfolding dict_rel_def by (induction rule: list_all2_induct) auto

lemma dict_rel_values: "dict_rel P d e \<Longrightarrow> (\<And>v w. P v w \<Longrightarrow> f v = g w) \<Longrightarrow> f ` snd ` set d = g ` snd ` set e"
  unfolding dict_rel_def by (induction rule: list_all2_induct) auto

lemma mapE_dict_rel: "mapE f (map snd d) = Inr ws \<longleftrightarrow> (\<exists>e. dict_rel (\<lambda>v w. f v = Inr w) d e \<and> ws = map snd e)"
proof
  assume "mapE f (map snd d) = Inr ws"
  then have "list_all2 (\<lambda>x y. f (snd x) = Inr y) d ws" by (simp add: mapE_eq_Inr list.rel_map)
  then have "dict_rel (\<lambda>v w. f v = Inr w) d (zip (map fst d) ws) \<and> ws = map snd (zip (map fst d) ws)"
    unfolding dict_rel_def by (induction rule: list_all2_induct) auto
  then show "\<exists>e. dict_rel (\<lambda>v w. f v = Inr w) d e \<and> ws = map snd e" by blast
next
  assume "\<exists>e. dict_rel (\<lambda>v w. f v = Inr w) d e \<and> ws = map snd e"
  then show "mapE f (map snd d) = Inr ws"
    by (auto simp: mapE_eq_Inr list.rel_map dict_rel_def case_prod_unfold elim!: list_all2_mono)
qed

lemma dict_rel_unique: "dict_rel (\<lambda>v w. f v = Inr w) d e \<Longrightarrow> dict_rel (\<lambda>v w. f v = Inr w) d e' \<Longrightarrow> e = e'"
  unfolding dict_rel_def
proof (induction d arbitrary: e e')
  case (Cons p d)
  then show ?case by (cases e; cases e') auto
qed simp

lemma dict_unique: "dict_ok d \<Longrightarrow> dict_ok e \<Longrightarrow> set d = set e \<Longrightarrow> d = e"
  by (rule map_sorted_distinct_set_unique [of fst])
    (auto simp: dict_ok_def strict_sorted_iff distinct_map)

lemma set_dict_set_fresh: "k \<notin> fst ` set d \<Longrightarrow> set (dict_set k v d) = insert (k, v) (set d)"
  by (induction k v d rule: dict_set.induct) auto

section \<open>The stored graph\<close>

text \<open>The graph of an index: its nodes under their IDs, its edges under source, target and type.\<close>

definition edge_ident :: "knowledge_edge \<Rightarrow> string \<times> string \<times> string" where
  "edge_ident e = (ke_source_node_id e, ke_target_node_id e, edge_type_value (ke_edge_type e))"

definition is_task :: "knowledge_node option \<Rightarrow> bool" where
  "is_task m = (case m of Some n \<Rightarrow> kn_node_type n = TASK | None \<Rightarrow> False)"

definition edge_grounded :: "(string \<times> knowledge_node) list \<Rightarrow> knowledge_edge \<Rightarrow> bool" where
  "edge_grounded ns e \<longleftrightarrow> ke_source_node_id e \<in> fst ` set ns \<and> ke_target_node_id e \<in> fst ` set ns
     \<and> (is_dependency e \<longrightarrow> is_task (map_of ns (ke_source_node_id e)) \<and> is_task (map_of ns (ke_target_node_id e)))"

definition graph_ok :: "(string \<times> knowledge_node) list \<Rightarrow> ((string \<times> string \<times> string) \<times> knowledge_edge) list \<Rightarrow> bool" where
  "graph_ok ns es \<longleftrightarrow> dict_ok ns \<and> dict_ok es \<and> (\<forall>(k, n)\<in>set ns. k = kn_node_id n \<and> wf_node n)
     \<and> (\<forall>(k, e)\<in>set es. k = edge_ident e \<and> wf_edge e \<and> edge_grounded ns e) \<and> acyclic (dependency_rel (map snd es))"

text \<open>What SQLite keeps of the tables: the order of the primary keys, and each row under its own key.\<close>

definition rows_ok :: "kdb \<Rightarrow> bool" where
  "rows_ok d \<longleftrightarrow> dict_ok (kd_nodes d) \<and> dict_ok (kd_terms d) \<and> dict_ok (kd_edges d)
     \<and> (\<forall>(k, r)\<in>set (kd_nodes d). nr_node_id r = k) \<and> (\<forall>(k, r)\<in>set (kd_edges d). edge_key r = k)"

definition stores :: "kdb \<Rightarrow> (string \<times> knowledge_node) list \<Rightarrow> ((string \<times> string \<times> string) \<times> knowledge_edge) list \<Rightarrow> bool" where
  "stores d ns es \<longleftrightarrow> rows_ok d \<and> set KNOWLEDGE_TABLES \<subseteq> set (kd_tables d)
     \<and> kd_metadata d = expected_metadata KNOWLEDGE_INDEX_SCHEMA_VERSION
     \<and> dict_rel (\<lambda>r n. node_from_row r = Inr n) (kd_nodes d) ns \<and> dict_rel (\<lambda>r e. edge_from_row r = Inr e) (kd_edges d) es
     \<and> graph_ok ns es \<and> kd_terms d = expected_terms (map snd ns)"

lemma revision_value_wire: "wire_ok (revision_value m ns es ts)"
  unfolding revision_value_def by (rule wire_ok_py_dict) (simp add: list_all_iff case_prod_unfold)

lemma node_lookup:
  assumes "dict_ok ns" and "\<forall>(k, n)\<in>set ns. k = kn_node_id n"
  shows "map_of (py_dict (map (\<lambda>n. (kn_node_id n, n)) (map snd ns))) = map_of ns"
proof -
  have "map (\<lambda>n. (kn_node_id n, n)) (map snd ns) = ns"
    by (rule nth_equalityI) (use assms(2) in \<open>auto simp: prod_eq_iff dest!: nth_mem split: prod.splits\<close>)
  with assms(1) show ?thesis by (simp add: py_dict_ordered)
qed

lemma check_endpoints_eq:
  assumes "dict_ok ns" and "\<forall>(k, n)\<in>set ns. k = kn_node_id n"
  shows "check_endpoints (map snd ns) e = Inr u \<longleftrightarrow> edge_grounded ns e"
proof -
  have "i \<in> fst ` set ns \<longleftrightarrow> (\<exists>n. map_of ns i = Some n)" for i by (metis map_of_eq_None_iff not_None_eq)
  then show ?thesis
    unfolding check_endpoints_def node_lookup [OF assms] Let_def edge_grounded_def is_task_def
    by (auto split: option.splits)
qed

lemma rows_node_ids:
  assumes "rows_ok d" and "dict_rel (\<lambda>r n. node_from_row r = Inr n) (kd_nodes d) ns"
  shows "dict_ok ns \<and> (\<forall>(k, n)\<in>set ns. k = kn_node_id n \<and> wf_node n)"
proof (intro conjI ballI)
  show "dict_ok ns" using assms by (simp add: rows_ok_def flip: dict_rel_dict_ok)
  fix p assume "p \<in> set ns"
  then obtain k n r where p: "p = (k, n)" "(k, r) \<in> set (kd_nodes d)" "node_from_row r = Inr n"
    using dict_rel_member' [OF assms(2)] by (metis surj_pair)
  from node_from_rowD [OF p(3)] have n: "wf_node n" "r = node_row_of n (nr_payload_json r)" by auto
  from this(2) have "nr_node_id r = kn_node_id n" by (metis node_row_of_def node_row.select_convs(1))
  with p assms(1) n(1) show "case p of (k, n) \<Rightarrow> k = kn_node_id n \<and> wf_node n" by (auto simp: rows_ok_def)
qed

lemma rows_edge_ids:
  assumes "rows_ok d" and "dict_rel (\<lambda>r e. edge_from_row r = Inr e) (kd_edges d) es"
  shows "dict_ok es \<and> (\<forall>(k, e)\<in>set es. k = edge_ident e \<and> wf_edge e)"
proof (intro conjI ballI)
  show "dict_ok es" using assms by (simp add: rows_ok_def flip: dict_rel_dict_ok)
  fix p assume "p \<in> set es"
  then obtain k e r where p: "p = (k, e)" "(k, r) \<in> set (kd_edges d)" "edge_from_row r = Inr e"
    using dict_rel_member' [OF assms(2)] by (metis surj_pair)
  from edge_from_rowD [OF p(3)] have e: "wf_edge e" "r = edge_row_of e (er_payload_json r)" by auto
  from this(2) have "edge_key r = edge_ident e" by (metis edge_key_def edge_ident_def edge_row_of_def edge_row.select_convs(1-3))
  with p assms(1) e(1) show "case p of (k, e) \<Rightarrow> k = edge_ident e \<and> wf_edge e" by (auto simp: rows_ok_def)
qed

text \<open>The integrity check accepts a file exactly when it stores a well-formed graph, and its digest is that of the graph.\<close>

lemma require_integrity_iff:
  assumes "rows_ok d"
  shows "require_integrity d = Inr r \<longleftrightarrow> (\<exists>ns es. stores d ns es \<and>
     r = wire_digest (revision_value (kd_metadata d) (map snd ns) (map snd es) (kd_terms d)))" (is "?l \<longleftrightarrow> ?r")
proof
  assume ?l
  then obtain ns es where parts: "\<forall>name\<in>set KNOWLEDGE_TABLES. name \<in> set (kd_tables d)"
      "kd_metadata d = expected_metadata KNOWLEDGE_INDEX_SCHEMA_VERSION"
      "dict_rel (\<lambda>r n. node_from_row r = Inr n) (kd_nodes d) ns" "dict_rel (\<lambda>r e. edge_from_row r = Inr e) (kd_edges d) es"
      "\<forall>e\<in>set (map snd es). check_endpoints (map snd ns) e = Inr ()" "acyclic (dependency_rel (map snd es))"
      "kd_terms d = expected_terms (map snd ns)"
    and r: "r = wire_digest (revision_value (kd_metadata d) (map snd ns) (map snd es) (kd_terms d))"
    unfolding require_integrity_def revision_digest_from_connection_def require_table_def result_simps mapE_dict_rel
      dependency_cycle_iff checkE_eq_Inr sha256_digest_wire [OF revision_value_wire] sum.inject not_not
    by blast
  note ns = rows_node_ids [OF assms parts(3)] and es = rows_edge_ids [OF assms parts(4)]
  have "edge_grounded ns e" if "e \<in> set (map snd es)" for e
    using that parts(5) check_endpoints_eq [of ns e "()"] ns by fastforce
  with ns es parts(6) have "graph_ok ns es" by (fastforce simp: graph_ok_def)
  with parts assms r show ?r by (auto simp: stores_def)
next
  assume ?r
  then obtain ns es where st: "stores d ns es"
    and r: "r = wire_digest (revision_value (kd_metadata d) (map snd ns) (map snd es) (kd_terms d))" by blast
  then have g: "graph_ok ns es" by (simp add: stores_def)
  then have "check_endpoints (map snd ns) e = Inr ()" if "e \<in> set (map snd es)" for e
    using that by (subst check_endpoints_eq) (auto simp: graph_ok_def)
  moreover have "mapE node_from_row (map snd (kd_nodes d)) = Inr (map snd ns)" "mapE edge_from_row (map snd (kd_edges d)) = Inr (map snd es)"
    using st by (auto simp: stores_def mapE_dict_rel)
  moreover have "checkE (\<lambda>name. require_table name d) KNOWLEDGE_TABLES = Inr ()"
    using st by (auto simp: stores_def require_table_def)
  ultimately show ?l
    using st g r unfolding require_integrity_def revision_digest_from_connection_def
    by (simp add: stores_def graph_ok_def dependency_cycle_iff revision_value_wire bindE_eq_Inr)
qed

lemma stores_integrity: "stores d ns es \<Longrightarrow> \<exists>r. require_integrity d = Inr r"
  by (auto simp: require_integrity_iff stores_def)

lemma stores_unique: "stores d ns es \<Longrightarrow> stores d ns' es' \<Longrightarrow> ns = ns' \<and> es = es'"
  by (auto simp: stores_def intro: dict_rel_unique)

section \<open>Every write keeps a well-formed index and only adds to it\<close>

definition index_ok :: "kdb \<Rightarrow> bool" where
  "index_ok d \<longleftrightarrow> (\<exists>ns es. stores d ns es)"

definition grows :: "kdb \<Rightarrow> kdb \<Rightarrow> bool" where
  "grows d d' \<longleftrightarrow> map_of (kd_nodes d) \<subseteq>\<^sub>m map_of (kd_nodes d') \<and> map_of (kd_edges d) \<subseteq>\<^sub>m map_of (kd_edges d')
     \<and> map_of (kd_terms d) \<subseteq>\<^sub>m map_of (kd_terms d') \<and> kd_tables d' = kd_tables d \<and> kd_metadata d' = kd_metadata d"

lemma grows_refl [simp]: "grows d d"
  by (simp add: grows_def)

lemma grows_trans: "grows d1 d2 \<Longrightarrow> grows d2 d3 \<Longrightarrow> grows d1 d3"
  by (auto simp: grows_def intro: map_le_trans)

lemma index_ok_iff: "index_ok d \<longleftrightarrow> rows_ok d \<and> (\<exists>r. require_integrity d = Inr r)"
  unfolding index_ok_def by (metis require_integrity_iff stores_def stores_integrity)

lemma map_le_dict_set: "dict_ok d \<Longrightarrow> k \<notin> fst ` set d \<Longrightarrow> map_of d \<subseteq>\<^sub>m map_of (dict_set k v d)"
  by (auto simp: map_of_dict_set map_le_def map_of_eq_None_iff domIff)

definition row_step :: "kdb \<Rightarrow> kdb \<Rightarrow> bool" where
  "row_step d d' \<longleftrightarrow> (rows_ok d \<longrightarrow> rows_ok d' \<and> grows d d')"

lemma row_step_refl: "row_step d d"
  by (simp add: row_step_def)

lemma row_step_trans: "row_step d1 d2 \<Longrightarrow> row_step d2 d3 \<Longrightarrow> row_step d1 d3"
  by (auto simp: row_step_def intro: grows_trans)

lemma insert_node_row_step: "insert_node_row r d = Inr d' \<Longrightarrow> row_step d d'"
  using set_dict_set_subset [of "nr_node_id r" r "kd_nodes d"]
  by (auto simp: insert_node_row_def result_simps row_step_def rows_ok_def dict_ok_dict_set grows_def map_le_dict_set)

lemma insert_term_row_step: "insert_term_row i tw d = Inr d' \<Longrightarrow> row_step d d'"
  by (cases tw) (auto simp: insert_term_row_def result_simps row_step_def rows_ok_def dict_ok_dict_set grows_def map_le_dict_set)

lemma insert_edge_row_step: "insert_edge_row r d = Inr d' \<Longrightarrow> row_step d d'"
  using set_dict_set_subset [of "edge_key r" r "kd_edges d"]
  by (auto simp: insert_edge_row_def result_simps row_step_def rows_ok_def dict_ok_dict_set grows_def map_le_dict_set)

lemma insert_edge_eq: "insert_edge e p d = Inr d' \<longleftrightarrow> insert_edge_row (edge_row_of e p) d = Inr d'"
  by (auto simp: insert_edge_def split: sum.splits py_error.splits)

lemma foldE_step:
  assumes "\<And>x s s'. f x s = Inr s' \<Longrightarrow> row_step s s'"
  shows "foldE f xs s = Inr s' \<Longrightarrow> row_step s s'"
proof (induction xs arbitrary: s)
  case (Cons x xs)
  then obtain t where "f x s = Inr t" "foldE f xs t = Inr s'" by (auto simp: bindE_eq_Inr)
  with Cons.IH assms show ?case by (blast intro: row_step_trans)
qed (simp add: row_step_refl)

text \<open>The calls that write, by any caller: each is one transaction on the file.\<close>

inductive index_step :: "kdb \<Rightarrow> kdb \<Rightarrow> bool" where
  initialize: "initialize_index d = (r, d') \<Longrightarrow> index_step d d'"
| node: "put_node n d = (r, d') \<Longrightarrow> index_step d d'"
| edge: "put_edge e d = (r, d') \<Longrightarrow> index_step d d'"
| dependency: "put_dependency_edge e d = (r, d') \<Longrightarrow> index_step d d'"

inductive_cases index_stepE: "index_step d d'"

definition kept :: "kdb \<Rightarrow> kdb \<Rightarrow> bool" where
  "kept d d' \<longleftrightarrow> d' = d \<or> (row_step d d' \<and> (\<exists>r. require_integrity d' = Inr r))"

lemma kept_refl [simp]: "kept d d"
  by (simp add: kept_def)

lemma put_node_kept: "put_node n d = (r, d') \<Longrightarrow> kept d d'"
  by (auto simp: put_node_def with_input_eq transaction_eq kept_def result_simps split: option.splits if_splits
      intro: row_step_trans [OF insert_node_row_step foldE_step [OF insert_term_row_step]])

lemma put_edge_kept: "put_edge e d = (r, d') \<Longrightarrow> kept d d'"
  by (auto simp: put_edge_def with_input_eq transaction_eq kept_def result_simps insert_edge_eq insert_edge_row_step
      split: option.splits if_splits)

lemma put_dependency_edge_kept: "put_dependency_edge e d = (r, d') \<Longrightarrow> kept d d'"
  by (auto simp: put_dependency_edge_def with_input_eq transaction_eq kept_def result_simps insert_edge_eq insert_edge_row_step
      split: if_splits)

lemma expected_version: "map_of (expected_metadata 1) ''schema_version'' = Some ''1''"
  "parse_schema_version ''1'' = Inr 1"
  by code_simp+

text \<open>Opening an index that is well-formed changes nothing.\<close>

lemma initialize_ok: "index_ok d \<Longrightarrow> initialize_index d = (Inr (), d)"
proof -
  assume d: "index_ok d"
  then obtain r where "require_integrity d = Inr r" by (auto simp: index_ok_iff)
  moreover from d have "''knowledge_index_metadata'' \<in> set (kd_tables d)" and m: "kd_metadata d = expected_metadata KNOWLEDGE_INDEX_SCHEMA_VERSION"
    by (auto simp: index_ok_def stores_def KNOWLEDGE_TABLES_def)
  ultimately show ?thesis
    by (simp add: initialize_index_def transaction_def create_table_def expected_version Let_def require_integrity_def
        KNOWLEDGE_INDEX_SCHEMA_VERSION_def)
qed

lemma index_step_kept: "index_ok d \<Longrightarrow> index_step d d' \<Longrightarrow> kept d d'"
  by (erule index_stepE) (auto simp: initialize_ok dest: put_node_kept put_edge_kept put_dependency_edge_kept)

interpretation kix: monotone_system index_step index_ok grows
proof
  fix d d' assume d: "index_ok d" "index_step d d'"
  from index_step_kept [OF this] d(1) show "index_ok d'" "grows d d'"
    by (auto simp: kept_def row_step_def index_ok_iff)
qed (auto intro: grows_trans)

section \<open>What each write does to the graph\<close>

lemma stores_rel:
  assumes "stores d ns es"
  shows "dict_rel (\<lambda>r n. node_from_row r = Inr n) (kd_nodes d) ns" and "dict_rel (\<lambda>r e. edge_from_row r = Inr e) (kd_edges d) es"
  using assms by (auto simp: stores_def)

lemma stores_node_row:
  assumes "stores d ns es" and "map_of ns i = Some m"
  shows "\<exists>r. map_of (kd_nodes d) i = Some r \<and> node_from_row r = Inr m \<and> r = node_row_of m (nr_payload_json r)"
  using dict_rel_map_of [of _ "kd_nodes d" ns i] assms node_from_rowD
  by (fastforce simp: stores_def option_rel_Some2)

lemma stores_edge_row:
  assumes "stores d ns es" and "map_of es k = Some e"
  shows "\<exists>r. map_of (kd_edges d) k = Some r \<and> edge_from_row r = Inr e \<and> r = edge_row_of e (er_payload_json r)"
  using dict_rel_map_of [of _ "kd_edges d" es k] assms edge_from_rowD
  by (fastforce simp: stores_def option_rel_Some2)

lemma stores_keys:
  assumes "stores d ns es"
  shows "fst ` set (kd_nodes d) = fst ` set ns" and "fst ` set (kd_edges d) = fst ` set es"
  using stores_rel [OF assms] by (auto dest!: dict_rel_image)

lemma stores_none:
  assumes "stores d ns es"
  shows "map_of ns i = None \<Longrightarrow> map_of (kd_nodes d) i = None" and "map_of es k = None \<Longrightarrow> map_of (kd_edges d) k = None"
  using stores_keys [OF assms] by (simp_all add: map_of_eq_None_iff)

lemma stores_digests:
  assumes "stores d ns es"
  shows "nr_node_digest ` snd ` set (kd_nodes d) = node_digest ` snd ` set ns"
    and "er_edge_digest ` snd ` set (kd_edges d) = edge_digest ` snd ` set es"
proof -
  have n: "nr_node_digest r = node_digest n" if "node_from_row r = Inr n" for r n
    using node_from_rowD [OF that] by (metis node_row_of_def node_row.select_convs(8))
  have e: "er_edge_digest r = edge_digest e" if "edge_from_row r = Inr e" for r e
    using edge_from_rowD [OF that] by (metis edge_row_of_def edge_row.select_convs(6))
  note rel = stores_rel [OF assms]
  show "nr_node_digest ` snd ` set (kd_nodes d) = node_digest ` snd ` set ns" by (rule dict_rel_values [OF rel(1) n])
  show "er_edge_digest ` snd ` set (kd_edges d) = edge_digest ` snd ` set es" by (rule dict_rel_values [OF rel(2) e])
qed

subsection \<open>Nodes\<close>

lemma dict_ok_append: "dict_ok a \<Longrightarrow> dict_ok b \<Longrightarrow> (\<And>x y. x \<in> fst ` set a \<Longrightarrow> y \<in> fst ` set b \<Longrightarrow> x < y) \<Longrightarrow> dict_ok (a @ b)"
  by (auto simp: dict_ok_def sorted_wrt_append)

lemma node_term_rows_ok: "dict_ok (node_term_rows n)"
proof -
  have "dict_ok (weighted_node_terms n)" using weighted_node_terms_ok [of n] by (simp add: weights_ok_def)
  then show ?thesis
    by (auto simp: dict_ok_def node_term_rows_def sorted_wrt_map case_prod_unfold less_prod_def' elim!: sorted_wrt_mono_rel [rotated])
qed

lemma expected_terms_ok: "dict_ok ns \<Longrightarrow> \<forall>(k, n)\<in>set ns. k = kn_node_id n \<Longrightarrow> dict_ok (expected_terms (map snd ns))"
proof (induction ns)
  case (Cons p ns)
  obtain k n where p: "p = (k, n)" by (cases p)
  have "dict_ok (node_term_rows n @ expected_terms (map snd ns))"
  proof (rule dict_ok_append)
    show "dict_ok (expected_terms (map snd ns))" using Cons by (auto simp: dict_ok_def)
    fix x y assume x: "x \<in> fst ` set (node_term_rows n)" and y: "y \<in> fst ` set (expected_terms (map snd ns))"
    from y obtain k' m where m: "(k', m) \<in> set ns" "fst y = kn_node_id m"
      by (auto simp: expected_terms_def node_term_rows_def)
    then have "k < kn_node_id m" using Cons.prems p by (force simp: dict_ok_def)
    then have "kn_node_id n < fst y" using Cons.prems(2) p m by simp
    moreover have "fst x = kn_node_id n" using x by (auto simp: node_term_rows_def)
    ultimately show "x < y" by (cases x; cases y) simp
  qed (rule node_term_rows_ok)
  then show ?case by (simp add: p expected_terms_def)
qed (simp add: expected_terms_def)

lemma expected_terms_ids: "k \<in> fst ` set (expected_terms ms) \<Longrightarrow> \<exists>m\<in>set ms. fst k = kn_node_id m"
  by (auto simp: expected_terms_def node_term_rows_def)

lemma insert_terms:
  assumes "i \<in> fst ` set (kd_nodes d)" and "distinct (map fst ts)" and "\<forall>(t, w)\<in>set ts. 0 < w \<and> (i, t) \<notin> fst ` set (kd_terms d)"
  shows "\<exists>ws. foldE (insert_term_row i) ts d = Inr (d\<lparr>kd_terms := ws\<rparr>) \<and> set ws = set (kd_terms d) \<union> (\<lambda>(t, w). ((i, t), w)) ` set ts"
  using assms
proof (induction ts arbitrary: d)
  case Nil
  then show ?case by (intro exI [of _ "kd_terms d"]) simp
next
  case (Cons tw ts)
  obtain t w where tw: "tw = (t, w)" by (cases tw)
  let ?d = "d\<lparr>kd_terms := dict_set (i, t) w (kd_terms d)\<rparr>"
  have step: "insert_term_row i tw d = Inr ?d" using Cons.prems by (auto simp: insert_term_row_def tw)
  have fresh: "(i, t) \<notin> fst ` set (kd_terms d)" using Cons.prems by (auto simp: tw)
  have "u \<noteq> t" if "(u, v) \<in> set ts" for u v using that by (metis Cons.prems(2) distinct.simps(2) fst_conv image_eqI list.set_map list.simps(9) tw)
  then have "\<forall>(u, v)\<in>set ts. 0 < v \<and> (i, u) \<notin> fst ` set (kd_terms ?d)" using Cons.prems(3) by (simp add: tw) blast
  then obtain ws where "foldE (insert_term_row i) ts ?d = Inr (?d\<lparr>kd_terms := ws\<rparr>)"
      "set ws = set (kd_terms ?d) \<union> (\<lambda>(t, w). ((i, t), w)) ` set ts"
    using Cons.IH [of ?d] Cons.prems(1,2) by auto
  then show ?case using fresh by (auto simp: step [unfolded tw] tw set_dict_set_fresh)
qed

lemma edge_grounded_mono: "edge_grounded ns e \<Longrightarrow> dict_ok ns \<Longrightarrow> i \<notin> fst ` set ns \<Longrightarrow> edge_grounded (dict_set i n ns) e"
  by (auto simp: edge_grounded_def map_of_dict_set)

lemma put_node_new:
  assumes st: "stores d ns es" and n: "wf_node n" and fresh: "map_of ns (kn_node_id n) = None"
    and digest: "node_digest n \<notin> node_digest ` snd ` set ns"
  shows "\<exists>d'. put_node n d = (Inr True, d') \<and> stores d' (dict_set (kn_node_id n) n ns) es"
proof -
  let ?i = "kn_node_id n" and ?row = "node_row_of n (json_dumps (node_to_dict n))"
  let ?d1 = "d\<lparr>kd_nodes := dict_set ?i ?row (kd_nodes d)\<rparr>"
  obtain rev where rev: "require_integrity d = Inr rev" using stores_integrity [OF st] by blast
  have g: "graph_ok ns es" and rows: "rows_ok d" and terms: "kd_terms d = expected_terms (map snd ns)" using st by (auto simp: stores_def)
  have i: "?i \<notin> fst ` set (kd_nodes d)" "?i \<notin> fst ` set ns" using fresh stores_keys [OF st] by (auto simp: map_of_eq_None_iff)
  have "node_type_value (kn_node_type n) \<in> {''task'', ''knowledge''}" by (cases "kn_node_type n") auto
  moreover have "map_option task_status_value (kn_task_status n) \<in> {None, Some ''completed'', Some ''ready'', Some ''blocked''}"
    by (cases "kn_task_status n"; cases "the (kn_task_status n)") simp_all
  ultimately have ins: "insert_node_row ?row d = Inr ?d1"
    using n i(1) digest unfolding insert_node_row_def stores_digests(1) [OF st]
    by (cases "kn_node_type n"; cases "kn_task_status n") (simp_all add: node_row_of_def wf_node_def)
  have ws: "distinct (map fst (weighted_node_terms n))" "\<forall>(t, w)\<in>set (weighted_node_terms n). 0 < w"
    using weighted_node_terms_ok [of n] dict_ok_distinct by (auto simp: weights_ok_def)
  have "kn_node_id m \<in> fst ` set ns" if "m \<in> set (map snd ns)" for m
    using that g by (fastforce simp: graph_ok_def intro: rev_image_eqI)
  then have "(?i, t) \<notin> fst ` set (kd_terms d)" for t
    using i(2) expected_terms_ids [of "(?i, t)"] unfolding terms by force
  with ws obtain ws' where ts: "foldE (insert_term_row ?i) (weighted_node_terms n) ?d1 = Inr (?d1\<lparr>kd_terms := ws'\<rparr>)"
      "set ws' = set (kd_terms d) \<union> set (node_term_rows n)"
    using insert_terms [of ?i ?d1 "weighted_node_terms n"] by (auto simp: node_term_rows_def)
  let ?d2 = "?d1\<lparr>kd_terms := ws'\<rparr>" and ?ns = "dict_set ?i n ns"
  have rows2: "rows_ok ?d2"
    using row_step_trans [OF insert_node_row_step [OF ins] foldE_step [OF insert_term_row_step ts(1)]] rows by (auto simp: row_step_def)
  have g2: "graph_ok ?ns es"
    using g n i(2) set_dict_set_fresh [OF i(2), of n] by (auto simp: graph_ok_def dict_ok_dict_set edge_grounded_mono)
  have "ws' = expected_terms (map snd ?ns)"
  proof (rule dict_unique)
    show "dict_ok (expected_terms (map snd ?ns))" using g2 by (intro expected_terms_ok) (auto simp: graph_ok_def)
    show "set ws' = set (expected_terms (map snd ?ns))"
      using set_dict_set_fresh [OF i(2), of n] by (auto simp: ts(2) terms expected_terms_def)
  qed (use rows2 in \<open>simp add: rows_ok_def\<close>)
  with st rows2 g2 have st2: "stores ?d2 ?ns es"
    by (simp add: stores_def dict_rel_set node_from_row_of [OF n])
  then obtain rev2 where rev2: "require_integrity ?d2 = Inr rev2" using stores_integrity by blast
  have "put_node n d = (Inr True, ?d2)"
    using stores_none(1) [OF st fresh]
    by (simp add: put_node_def canonical_node_def node_round_trip [OF n] node_to_dict_wire [OF n] transaction_def rev ins ts(1) rev2
        del: json_dumps.simps)
  with st2 show ?thesis by blast
qed

lemma put_node_known:
  assumes st: "stores d ns es" and n: "wf_node n" and m: "map_of ns (kn_node_id n) = Some m"
  shows "put_node n d = (if node_digest m = node_digest n then Inr False
     else Inl (KnowledgeIndexConflict (''knowledge node '' @ py_repr (kn_node_id n) @ '' already has different content'')), d)"
proof -
  obtain rev where rev: "require_integrity d = Inr rev" using stores_integrity [OF st] by blast
  from stores_node_row [OF st m] obtain r where r: "map_of (kd_nodes d) (kn_node_id n) = Some r" "r = node_row_of m (nr_payload_json r)" by blast
  from r(2) have "nr_node_digest r = node_digest m" by (metis node_row_of_def node_row.select_convs(8))
  then show ?thesis
    by (simp add: put_node_def canonical_node_def node_round_trip [OF n] node_to_dict_wire [OF n] transaction_def rev r(1))
qed

subsection \<open>Edges\<close>

lemma edge_key_row [simp]: "edge_key (edge_row_of e p) = edge_ident e"
  by (simp add: edge_key_def edge_row_of_def edge_ident_def)

lemma dependency_rel_iff: "(s, t) \<in> dependency_rel es \<longleftrightarrow> (\<exists>e\<in>set es. is_dependency e \<and> ke_source_node_id e = s \<and> ke_target_node_id e = t)"
  by (auto simp: dependency_rel_def dependency_pairs_def)

lemma dependency_type_value: "edge_type_value (ke_edge_type e) \<in> set (map edge_type_value DEPENDENCY_EDGE_TYPES) \<longleftrightarrow> is_dependency e"
  by (auto simp: is_dependency_def)

lemma dependency_rows_rel: "stores d ns es \<Longrightarrow> set (dependency_rows d) = dependency_rel (map snd es)"
proof -
  assume "stores d ns es"
  note rel = stores_rel(2) [OF this]
  have cols: "er_source_node_id r = ke_source_node_id e \<and> er_target_node_id r = ke_target_node_id e
      \<and> (er_edge_type r \<in> set (map edge_type_value DEPENDENCY_EDGE_TYPES) \<longleftrightarrow> is_dependency e)" if "edge_from_row r = Inr e" for r e
    using edge_from_rowD [OF that] dependency_type_value [of e] by (metis edge_row_of_def edge_row.select_convs(1-3))
  have "map (\<lambda>(k, r). (er_source_node_id r, er_target_node_id r))
      (filter (\<lambda>(k, r). er_edge_type r \<in> set (map edge_type_value DEPENDENCY_EDGE_TYPES)) rs) = dependency_pairs (map snd es)"
    if "dict_rel (\<lambda>r e. edge_from_row r = Inr e) rs es" for rs
    using that unfolding dict_rel_def
    by (induction rule: list_all2_induct) (auto simp: dependency_pairs_def dest!: cols simp del: set_map)
  from this [OF rel] show ?thesis by (simp add: dependency_rows_def dependency_rel_def)
qed

lemma dependency_rel_insert:
  assumes "edge_ident e \<notin> fst ` set es"
  shows "dependency_rel (map snd (dict_set (edge_ident e) e es)) =
     (if is_dependency e then insert (ke_source_node_id e, ke_target_node_id e) (dependency_rel (map snd es)) else dependency_rel (map snd es))"
  using set_dict_set_fresh [OF assms, of e] by (auto simp: dependency_rel_iff)

lemma existing_edge_known:
  "stores d ns es \<Longrightarrow> map_of es (edge_ident e) = Some e' \<Longrightarrow> existing_edge d e = (if edge_digest e' = edge_digest e then Inr (Some False)
     else Inl (KnowledgeIndexConflict ''knowledge edge already has different metadata or provenance''))"
proof -
  assume "stores d ns es" "map_of es (edge_ident e) = Some e'"
  from stores_edge_row [OF this] obtain r where r: "map_of (kd_edges d) (edge_ident e) = Some r" "r = edge_row_of e' (er_payload_json r)" by blast
  from r(2) have "er_edge_digest r = edge_digest e'" by (metis edge_row_of_def edge_row.select_convs(6))
  with r(1) show ?thesis by (simp add: existing_edge_def edge_ident_def)
qed

lemma existing_edge_new: "stores d ns es \<Longrightarrow> map_of es (edge_ident e) = None \<Longrightarrow> existing_edge d e = Inr None"
  using stores_none(2) [of d ns es "edge_ident e"] by (simp add: existing_edge_def edge_ident_def)

text \<open>Inserting an edge whose endpoints are stored, under a key and a digest that are not.\<close>

lemma insert_edge_new:
  assumes st: "stores d ns es" and e: "wf_edge e" and fresh: "map_of es (edge_ident e) = None"
    and digest: "edge_digest e \<notin> edge_digest ` snd ` set es" and grounded: "edge_grounded ns e"
    and acyc: "is_dependency e \<Longrightarrow> (ke_target_node_id e, ke_source_node_id e) \<notin> (dependency_rel (map snd es))\<^sup>*"
  shows "\<exists>d' rev. insert_edge e (json_dumps (edge_to_dict e)) d = Inr d' \<and> stores d' ns (dict_set (edge_ident e) e es) \<and> require_integrity d' = Inr rev"
proof -
  let ?k = "edge_ident e" and ?row = "edge_row_of e (json_dumps (edge_to_dict e))"
  let ?d = "d\<lparr>kd_edges := dict_set ?k ?row (kd_edges d)\<rparr>" and ?es = "dict_set ?k e es"
  have g: "graph_ok ns es" and rows: "rows_ok d" using st by (auto simp: stores_def)
  have k: "?k \<notin> fst ` set (kd_edges d)" "?k \<notin> fst ` set es" using fresh stores_keys(2) [OF st] by (auto simp: map_of_eq_None_iff)
  have cols: "er_edge_digest ?row = edge_digest e" "er_authority ?row = ke_authority e"
    "er_source_node_id ?row = ke_source_node_id e" "er_target_node_id ?row = ke_target_node_id e"
    by (simp_all add: edge_row_of_def)
  have ins: "insert_edge_row ?row d = Inr ?d"
    using e k(1) digest grounded unfolding insert_edge_row_def stores_digests(2) [OF st] stores_keys(1) [OF st] cols edge_key_row
    by (simp add: wf_edge_def edge_grounded_def)
  have "acyclic (dependency_rel (map snd ?es))"
    using g acyc by (simp add: dependency_rel_insert [OF k(2)] graph_ok_def acyclic_insert)
  then have "graph_ok ns ?es"
    using g e grounded set_dict_set_fresh [OF k(2), of e] by (auto simp: graph_ok_def dict_ok_dict_set)
  moreover have "rows_ok ?d" using insert_edge_row_step [OF ins] rows by (simp add: row_step_def)
  ultimately have "stores ?d ns ?es" using st by (simp add: stores_def dict_rel_set edge_from_row_of [OF e])
  with ins stores_integrity [OF this] show ?thesis unfolding insert_edge_eq by blast
qed

lemma put_dependency_edge_new:
  assumes st: "stores d ns es" and e: "wf_edge e" and dep: "is_dependency e" and fresh: "map_of es (edge_ident e) = None"
    and digest: "edge_digest e \<notin> edge_digest ` snd ` set es" and grounded: "edge_grounded ns e"
  shows "if acyclic (insert (ke_source_node_id e, ke_target_node_id e) (dependency_rel (map snd es)))
     then \<exists>d'. put_dependency_edge e d = (Inr INSERTED, d') \<and> stores d' ns (dict_set (edge_ident e) e es)
     else put_dependency_edge e d = (Inr CYCLE, d)"
proof -
  obtain rev where rev: "require_integrity d = Inr rev" using stores_integrity [OF st] by blast
  have g: "acyclic (dependency_rel (map snd es))" using st by (simp add: stores_def graph_ok_def)
  have "\<exists>r. map_of (kd_nodes d) i = Some r \<and> nr_node_type r = ''task''" if "is_task (map_of ns i)" for i
  proof -
    from that obtain m where m: "map_of ns i = Some m" "kn_node_type m = TASK" by (auto simp: is_task_def split: option.splits)
    from stores_node_row [OF st m(1)] obtain r where r: "map_of (kd_nodes d) i = Some r" "r = node_row_of m (nr_payload_json r)" by blast
    from r(2) m(2) have "nr_node_type r = ''task''" by (metis node_row_of_def node_row.select_convs(2) node_type_value.simps(1))
    with r(1) show ?thesis by blast
  qed
  then have ends: "require_task_endpoints d e = Inr ()"
    using grounded dep by (force simp: require_task_endpoints_def edge_grounded_def)
  have reach: "dependency_reaches (dependency_rows d) (ke_target_node_id e) (ke_source_node_id e) \<longleftrightarrow>
      \<not> acyclic (insert (ke_source_node_id e, ke_target_node_id e) (dependency_rel (map snd es)))"
    using g by (simp add: dependency_reaches_iff dependency_rows_rel [OF st] acyclic_insert)
  show ?thesis
  proof (cases "acyclic (insert (ke_source_node_id e, ke_target_node_id e) (dependency_rel (map snd es)))")
    case True
    then obtain d' rev' where "insert_edge e (json_dumps (edge_to_dict e)) d = Inr d'" "stores d' ns (dict_set (edge_ident e) e es)"
        "require_integrity d' = Inr rev'"
      using insert_edge_new [OF st e fresh digest grounded] by (auto simp: acyclic_insert)
    with True show ?thesis
      by (simp add: put_dependency_edge_def canonical_edge_def edge_round_trip [OF e] edge_to_dict_wire [OF e] transaction_def rev
          ends existing_edge_new [OF st fresh] reach dep del: json_dumps.simps)
  next
    case False
    then show ?thesis
      by (simp add: put_dependency_edge_def canonical_edge_def edge_round_trip [OF e] edge_to_dict_wire [OF e] transaction_def rev
          ends existing_edge_new [OF st fresh] reach dep del: json_dumps.simps acyclic_insert)
  qed
qed

lemma put_edge_new:
  assumes st: "stores d ns es" and e: "wf_edge e" and dep: "\<not> is_dependency e" and fresh: "map_of es (edge_ident e) = None"
    and digest: "edge_digest e \<notin> edge_digest ` snd ` set es" and grounded: "edge_grounded ns e"
  shows "\<exists>d'. put_edge e d = (Inr True, d') \<and> stores d' ns (dict_set (edge_ident e) e es)"
proof -
  obtain rev where rev: "require_integrity d = Inr rev" using stores_integrity [OF st] by blast
  obtain d' rev' where "insert_edge e (json_dumps (edge_to_dict e)) d = Inr d'" "stores d' ns (dict_set (edge_ident e) e es)"
      "require_integrity d' = Inr rev'"
    using insert_edge_new [OF st e fresh digest grounded] dep by auto
  then show ?thesis
    by (simp add: put_edge_def canonical_edge_def edge_round_trip [OF e] edge_to_dict_wire [OF e] transaction_def rev
        existing_edge_new [OF st fresh] dep del: json_dumps.simps)
qed

section \<open>What the queries return\<close>

lemma stores_table: "stores d ns es \<Longrightarrow> name \<in> set KNOWLEDGE_TABLES \<Longrightarrow> require_table name d = Inr ()"
  by (auto simp: stores_def require_table_def)

lemma get_node_stores: "stores d ns es \<Longrightarrow> get_node i d = Inr (map_of ns i)"
proof -
  assume st: "stores d ns es"
  have "require_table ''knowledge_nodes'' d = Inr ()" using st by (rule stores_table) (simp add: KNOWLEDGE_TABLES_def)
  moreover have "rel_option (\<lambda>r n. node_from_row r = Inr n) (map_of (kd_nodes d) i) (map_of ns i)"
    by (rule dict_rel_map_of [OF stores_rel(1) [OF st]])
  ultimately show ?thesis by (cases "map_of ns i") (auto simp: get_node_def option_rel_Some2)
qed

lemma dict_rel_filter: "dict_rel P d e \<Longrightarrow> (\<And>k v w. P v w \<Longrightarrow> p (k, v) = q (k, w)) \<Longrightarrow> dict_rel P (filter p d) (filter q e)"
  unfolding dict_rel_def by (induction rule: list_all2_induct) auto

lemma edges_for_stores:
  "stores d ns es \<Longrightarrow> edges_for i d = Inr (filter (\<lambda>e. ke_source_node_id e = i \<or> ke_target_node_id e = i) (map snd es))"
proof -
  assume st: "stores d ns es"
  have "require_table ''knowledge_edges'' d = Inr ()" using st by (rule stores_table) (simp add: KNOWLEDGE_TABLES_def)
  moreover have "dict_rel (\<lambda>r e. edge_from_row r = Inr e)
      (filter (\<lambda>(k, r). er_source_node_id r = i \<or> er_target_node_id r = i) (kd_edges d))
      (filter (\<lambda>(k, e). ke_source_node_id e = i \<or> ke_target_node_id e = i) es)"
  proof (rule dict_rel_filter [OF stores_rel(2) [OF st]])
    fix k r e assume "edge_from_row r = Inr e"
    from edge_from_rowD [OF this] have "er_source_node_id r = ke_source_node_id e" "er_target_node_id r = ke_target_node_id e"
      by (metis edge_row_of_def edge_row.select_convs(1-2))+
    then show "(case (k, r) of (k, r) \<Rightarrow> er_source_node_id r = i \<or> er_target_node_id r = i) =
        (case (k, e) of (k, e) \<Rightarrow> ke_source_node_id e = i \<or> ke_target_node_id e = i)" by simp
  qed
  ultimately show ?thesis
    unfolding edges_for_def filter_map o_def
    by (simp add: mapE_dict_rel case_prod_unfold) blast
qed

text \<open>The chunks of a sorted list of IDs select, one after the other, what the whole list selects.\<close>

lemma filter_split_sorted:
  fixes key :: "'a \<Rightarrow> 'k::linorder"
  assumes "sorted (map key xs)" and "\<And>a b. a \<in> A \<Longrightarrow> b \<in> B \<Longrightarrow> a < b"
  shows "filter (\<lambda>x. key x \<in> A \<and> Q x) xs @ filter (\<lambda>x. key x \<in> B \<and> Q x) xs = filter (\<lambda>x. key x \<in> A \<union> B \<and> Q x) xs"
  using assms(1)
proof (induction xs)
  case (Cons x xs)
  have "filter (\<lambda>x. key x \<in> A \<and> Q x) xs = []" if "key x \<in> B"
    using Cons.prems assms(2) that by (fastforce simp: filter_empty_conv)
  moreover have "key x \<notin> B" if "key x \<in> A" using assms(2) that by blast
  ultimately show ?case using Cons by auto
qed simp

lemma chunks_filter:
  fixes key :: "'a \<Rightarrow> 'k::linorder"
  assumes "sorted (map key xs)"
  shows "0 < n \<Longrightarrow> sorted_wrt (<) vs \<Longrightarrow> concat (map (\<lambda>p. filter (\<lambda>x. key x \<in> set p \<and> Q x) xs) (chunks vs n)) = filter (\<lambda>x. key x \<in> set vs \<and> Q x) xs"
proof (induction vs n rule: chunks.induct)
  case (1 vs n)
  show ?case
  proof (cases "vs = []")
    case False
    then have c: "chunks vs n = take n vs # chunks (drop n vs) n" using 1(2) by (subst chunks.simps) simp
    have vs: "sorted_wrt (<) (take n vs @ drop n vs)" using 1(3) by simp
    then have "sorted_wrt (<) (drop n vs)" and "\<And>a b. a \<in> set (take n vs) \<Longrightarrow> b \<in> set (drop n vs) \<Longrightarrow> a < b"
      unfolding sorted_wrt_append by blast+
    moreover have "set vs = set (take n vs) \<union> set (drop n vs)" by (metis append_take_drop_id set_append)
    ultimately show ?thesis
      using 1(1,2) False filter_split_sorted [OF assms(1), of "set (take n vs)" "set (drop n vs)" Q] by (simp add: c)
  qed (simp add: chunks.simps)
qed

definition term_matches :: "string list \<Rightarrow> knowledge_node \<Rightarrow> (string \<times> int) list" where
  "term_matches terms n = filter (\<lambda>(t, w). t \<in> set terms) (weighted_node_terms n)"

definition scored :: "string list \<Rightarrow> (string \<times> knowledge_node) list \<Rightarrow> (string \<times> (string \<times> int) list) list" where
  "scored terms ns = map (\<lambda>(i, n). (i, term_matches terms n)) (filter (\<lambda>(i, n). term_matches terms n \<noteq> []) ns)"

lemma fold_add_score:
  assumes "\<forall>k\<in>fst ` set acc. k < i" and "dict_ok acc"
  shows "fold add_score (map (\<lambda>(t, w). ((i, t), w)) ms) acc = (if ms = [] then acc else acc @ [(i, ms)])"
proof (induction ms rule: rev_induct)
  case (snoc m ms)
  have none: "map_of acc i = None" using assms(1) by (force simp: map_of_eq_None_iff)
  have "dict_set i v (acc @ [(i, ms)]) = acc @ [(i, v)]" for v
    using assms(1) by (induction acc) auto
  with snoc none show ?case
    by (cases m) (auto simp: add_score_def dict_set_above assms(1) map_add_def split: option.splits)
qed simp

lemma scored_keys: "fst ` set (scored terms ns) \<subseteq> fst ` set ns"
  by (force simp: scored_def)

lemma dict_ok_scored: "dict_ok ns \<Longrightarrow> dict_ok (scored terms ns)"
proof -
  have "map fst (scored terms ns) = map fst (filter (\<lambda>(i, n). term_matches terms n \<noteq> []) ns)" by (auto simp: scored_def)
  then show "dict_ok ns \<Longrightarrow> dict_ok (scored terms ns)" by (simp add: dict_ok_def sorted_wrt_map sorted_wrt_filter)
qed

lemma fold_scored:
  "dict_ok ns \<Longrightarrow> \<forall>(k, n)\<in>set ns. k = kn_node_id n \<Longrightarrow>
     fold add_score (concat (map (\<lambda>(k, n). map (\<lambda>(t, w). ((k, t), w)) (term_matches terms n)) ns)) [] = scored terms ns"
proof (induction ns rule: rev_induct)
  case (snoc p ns)
  obtain k n where p: "p = (k, n)" by (cases p)
  from snoc.prems have ns: "dict_ok ns" "\<forall>j\<in>fst ` set ns. j < k" by (auto simp: dict_ok_def sorted_wrt_append p)
  then have "\<forall>j\<in>fst ` set (scored terms ns). j < k" using scored_keys [of terms ns] by blast
  from fold_add_score [OF this dict_ok_scored [OF ns(1)]] snoc ns show ?case by (auto simp: p scored_def)
qed (simp add: scored_def)

lemma filter_expected_terms:
  "filter (\<lambda>((i, t), w). i \<in> A \<and> t \<in> set terms) (expected_terms (map snd ns)) =
     concat (map (\<lambda>(k, n). map (\<lambda>(t, w). ((k, t), w)) (term_matches terms n)) (filter (\<lambda>(k, n). k \<in> A) ns))"
  if "\<forall>(k, n)\<in>set ns. k = kn_node_id n"
  using that
proof (induction ns)
  case (Cons p ns)
  obtain k n where p: "p = (k, n)" by (cases p)
  have "filter (\<lambda>((i, t), w). i \<in> A \<and> t \<in> set terms) (node_term_rows n) =
      (if k \<in> A then map (\<lambda>(t, w). ((k, t), w)) (term_matches terms n) else [])"
    using Cons.prems p by (auto simp: node_term_rows_def term_matches_def filter_map o_def case_prod_unfold)
  with Cons show ?case by (auto simp: p expected_terms_def)
qed (simp add: expected_terms_def)

lemma term_scores_stores:
  assumes st: "stores d ns es" and terms: "length terms \<le> 128" "\<forall>t\<in>set terms. normal_term t"
  shows "term_scores terms ids d = Inr (scored terms (filter (\<lambda>(i, n). i \<in> set ids) ns))"
proof (cases "terms = [] \<or> ids = []")
  case True
  then show ?thesis by (auto simp: term_scores_def scored_def term_matches_def)
next
  case False
  let ?ids = "sort (remdups ids)" and ?n = "SQLITE_SAFE_PARAMETER_LIMIT - length terms" and ?ns = "filter (\<lambda>(i, n). i \<in> set ids) ns"
  have g: "graph_ok ns es" and rows: "rows_ok d" and tm: "kd_terms d = expected_terms (map snd ns)" using st by (auto simp: stores_def)
  then have keys: "\<forall>(k, n)\<in>set ns. k = kn_node_id n" "dict_ok ns" by (auto simp: graph_ok_def)
  then have keys': "\<forall>(k, n)\<in>set ?ns. k = kn_node_id n" "dict_ok ?ns" by (auto simp: dict_ok_def sorted_wrt_map sorted_wrt_filter)
  have ids: "sorted_wrt (<) ?ids" by (simp add: strict_sorted_iff)
  have n: "0 < ?n" using terms(1) by (simp add: SQLITE_SAFE_PARAMETER_LIMIT_def)
  have tabs: "require_table ''knowledge_terms'' d = Inr ()" "require_table ''knowledge_nodes'' d = Inr ()"
    using st by (auto intro!: stores_table simp: KNOWLEDGE_TABLES_def)
  have "sorted (map fst (kd_terms d))" "sorted (map fst (kd_nodes d))" using rows by (simp_all add: rows_ok_def dict_ok_def strict_sorted_iff)
  then have sorted_rows: "sorted (map (\<lambda>x. fst (fst x)) (kd_terms d))" "sorted (map fst (kd_nodes d))"
    by (auto simp: sorted_map less_eq_prod_def elim!: sorted_wrt_mono_rel [rotated])
  have trows: "concat (map (\<lambda>p. filter (\<lambda>((i, t), w). t \<in> set terms \<and> i \<in> set p) (kd_terms d)) (chunks ?ids ?n)) =
      filter (\<lambda>((i, t), w). i \<in> set ids \<and> t \<in> set terms) (kd_terms d)"
    using chunks_filter [OF sorted_rows(1) n ids, of "\<lambda>x. snd (fst x) \<in> set terms"] by (simp add: case_prod_unfold conj_commute)
  have nrows: "concat (map (\<lambda>p. filter (\<lambda>(i, r). i \<in> set p) (kd_nodes d)) (chunks ?ids ?n)) = filter (\<lambda>(i, r). i \<in> set ids) (kd_nodes d)"
    using chunks_filter [OF sorted_rows(2) n ids, of "\<lambda>_. True"] by (simp add: case_prod_unfold)
  have "dict_rel (\<lambda>r n. node_from_row r = Inr n) (filter (\<lambda>(i, r). i \<in> set ids) (kd_nodes d)) ?ns"
    by (rule dict_rel_filter [OF stores_rel(1) [OF st]]) simp
  then have nodes: "mapE node_from_row (map snd (filter (\<lambda>(i, r). i \<in> set ids) (kd_nodes d))) = Inr (map snd ?ns)"
    by (auto simp: mapE_dict_rel)
  have idem: "filter (\<lambda>((i, t), w). i \<in> set ids) (filter (\<lambda>((i, t), w). i \<in> set ids \<and> t \<in> set terms) (kd_terms d)) =
      filter (\<lambda>((i, t), w). i \<in> set ids \<and> t \<in> set terms) (kd_terms d)"
    unfolding filter_filter by (rule filter_cong) auto
  have res: "fold add_score (filter (\<lambda>((i, t), w). i \<in> set ids \<and> t \<in> set terms) (kd_terms d)) [] = scored terms ?ns"
    unfolding tm filter_expected_terms [OF keys(1)] by (rule fold_scored [OF keys'(2,1)])
  have "map (\<lambda>n. (kn_node_id n, term_matches terms n)) (filter (\<lambda>n. term_matches terms n \<noteq> []) (map snd ?ns)) = scored terms ?ns"
    using keys'(1) unfolding scored_def filter_map map_map o_def by (intro map_cong) (auto simp: case_prod_unfold)
  then have exp: "py_dict (map (\<lambda>n. (kn_node_id n, term_matches terms n)) (filter (\<lambda>n. term_matches terms n \<noteq> []) (map snd ?ns))) = scored terms ?ns"
    by (simp add: py_dict_ordered dict_ok_scored [OF keys'(2)])
  have "\<not> (\<exists>t\<in>set terms. normalized_terms t \<noteq> [t])" using terms(2) by (simp add: normal_term_eq)
  with False terms(1) show ?thesis
    unfolding term_scores_def Let_def tabs bindE_Inr trows nrows set_sort set_remdups idem nodes res
    using exp by (simp add: term_matches_def)
qed

end
