(* ===== verification/Knowledge_Reads.thy ===== *)
theory Knowledge_Reads
  imports Knowledge_Results Knowledge_Index
begin

text \<open>
  The graph reads: \<^verbatim>\<open>KnowledgeReadContext\<close> (\<^verbatim>\<open>knowledge_read_context.py\<close>) and the services of
  \<^verbatim>\<open>knowledge_search.py\<close>, \<^verbatim>\<open>knowledge_dependencies.py\<close>, \<^verbatim>\<open>knowledge_planning.py\<close> and \<^verbatim>\<open>knowledge_graph.py\<close>. A read
  makes many queries, each on its own connection, and other processes may write between them: a reader runs against the
  sequence of databases its queries see, counts its queries, and keeps the two caches of the context. The lemmas give the
  revision fence: a read that returns has seen one database throughout.
\<close>

section \<open>Readers\<close>

record read_context =
  rc_clock :: nat
  rc_revision :: string
  rc_node_cache :: "string \<Rightarrow> knowledge_node option"
  rc_edge_cache :: "string \<Rightarrow> knowledge_edge list option"

type_synonym index_history = "nat \<Rightarrow> kdb"
type_synonym 'a reader = "index_history \<Rightarrow> read_context \<Rightarrow> ('a \<times> read_context) result"

definition returnR :: "'a \<Rightarrow> 'a reader" where
  "returnR x = (\<lambda>history c. Inr (x, c))"

definition liftR :: "'a result \<Rightarrow> 'a reader" where
  "liftR m = (\<lambda>history c. bindE m (\<lambda>x. Inr (x, c)))"

definition bindR :: "'a reader \<Rightarrow> ('a \<Rightarrow> 'b reader) \<Rightarrow> 'b reader" where
  "bindR m f = (\<lambda>history c. bindE (m history c) (\<lambda>(x, c'). f x history c'))"

text \<open>One query of the index.\<close>

definition queryR :: "(kdb \<Rightarrow> 'a result) \<Rightarrow> 'a reader" where
  "queryR q = (\<lambda>history c. bindE (q (history (rc_clock c))) (\<lambda>x. Inr (x, c\<lparr>rc_clock := Suc (rc_clock c)\<rparr>)))"

definition revisionR :: "string reader" where
  "revisionR = (\<lambda>history c. Inr (rc_revision c, c))"

fun foldR :: "('a \<Rightarrow> 's \<Rightarrow> 's reader) \<Rightarrow> 'a list \<Rightarrow> 's \<Rightarrow> 's reader" where
  "foldR f [] s = returnR s"
| "foldR f (x # xs) s = bindR (f x s) (foldR f xs)"

definition mapR :: "('a \<Rightarrow> 'b reader) \<Rightarrow> 'a list \<Rightarrow> 'b list reader" where
  "mapR f xs = foldR (\<lambda>x ys. bindR (f x) (\<lambda>y. returnR (ys @ [y]))) xs []"

text \<open>\<open>any(p(x) for x in xs)\<close>, stopping at the first hit.\<close>

fun anyR :: "('a \<Rightarrow> bool reader) \<Rightarrow> 'a list \<Rightarrow> bool reader" where
  "anyR p [] = returnR False"
| "anyR p (x # xs) = bindR (p x) (\<lambda>b. if b then returnR True else anyR p xs)"

section \<open>The read context\<close>

record graph_path =
  gp_depth :: int
  gp_node_ids :: "string list"
  gp_steps :: "graph_path_step list"

definition deterministic_key :: "graph_path \<Rightarrow> string list \<times> string list" where
  "deterministic_key p = (gp_node_ids p, map (\<lambda>s. edge_type_value (gs_edge_type s) @ '':'' @
     (if gs_traversed_forward s then ''1'' else ''0'') @ '':'' @ gs_edge_digest s) (gp_steps p))"

definition open_context :: "read_context reader" where
  "open_context = bindR (queryR revision_digest) (\<lambda>revision history c.
     let c' = c\<lparr>rc_revision := revision, rc_node_cache := (\<lambda>_. None), rc_edge_cache := (\<lambda>_. None)\<rparr> in Inr (c', c'))"

definition required_node :: "string \<Rightarrow> knowledge_node reader" where
  "required_node node_id = (\<lambda>history c. case rc_node_cache c node_id of Some n \<Rightarrow> Inr (n, c)
     | None \<Rightarrow> bindR (queryR (get_node node_id)) (\<lambda>node. case node of
         None \<Rightarrow> liftR (Inl (KnowledgeGraphError (''knowledge node '' @ py_repr node_id @ '' does not exist'')))
       | Some n \<Rightarrow> (\<lambda>history c. Inr (n, c\<lparr>rc_node_cache := (rc_node_cache c)(node_id \<mapsto> n)\<rparr>))) history c)"

definition edges_for_cached :: "string \<Rightarrow> knowledge_edge list reader" where
  "edges_for_cached node_id = (\<lambda>history c. case rc_edge_cache c node_id of Some es \<Rightarrow> Inr (es, c)
     | None \<Rightarrow> bindR (queryR (edges_for node_id)) (\<lambda>es history c.
         Inr (es, c\<lparr>rc_edge_cache := (rc_edge_cache c)(node_id \<mapsto> es)\<rparr>)) history c)"

definition step_of :: "bool \<Rightarrow> knowledge_edge \<Rightarrow> graph_path_step" where
  "step_of forward e = \<lparr>gs_source_node_id = ke_source_node_id e, gs_target_node_id = ke_target_node_id e,
     gs_edge_type = ke_edge_type e, gs_edge_digest = edge_digest e, gs_traversed_forward = forward\<rparr>"

definition neighbor_step :: "string \<Rightarrow> knowledge_edge \<Rightarrow> (string \<times> graph_path_step) result" where
  "neighbor_step node_id e =
     (let traversed_forward = (ke_source_node_id e = node_id);
          other_id = (if traversed_forward then ke_target_node_id e else ke_source_node_id e)
      in bindE (mk_graph_path_step (step_of traversed_forward e)) (\<lambda>step. Inr (other_id, step)))"

definition neighbor_steps :: "string \<Rightarrow> (string \<times> graph_path_step) list reader" where
  "neighbor_steps node_id = bindR (edges_for_cached node_id) (\<lambda>es.
     bindR (liftR (mapE (neighbor_step node_id) es)) (\<lambda>neighbors.
     returnR (sort_key (\<lambda>(other, s). (other, edge_type_value (gs_edge_type s), \<not> gs_traversed_forward s, gs_edge_digest s)) neighbors)))"

definition outgoing_dependency_steps :: "string \<Rightarrow> (string \<times> graph_path_step) list reader" where
  "outgoing_dependency_steps node_id = bindR (edges_for_cached node_id) (\<lambda>es.
     bindR (liftR (mapE (\<lambda>e. bindE (mk_graph_path_step (step_of True e)) (\<lambda>step. Inr (ke_target_node_id e, step)))
       (filter (\<lambda>e. \<not> (ke_source_node_id e \<noteq> node_id \<or> \<not> is_dependency e)) es))) (\<lambda>results.
     returnR (sort_key (\<lambda>(target, s). (target, edge_type_value (gs_edge_type s), gs_edge_digest s)) results)))"

text \<open>
  One step of either traversal: the path to the current node extended by a neighbor that is not yet visited, kept as the
  proposal for that neighbor when it is the first or precedes the one proposed so far; \<open>budget\<close> is what is left of the
  expansion limit.
\<close>

definition propose ::
  "(string \<Rightarrow> bool) \<Rightarrow> nat \<Rightarrow> string \<Rightarrow> int \<Rightarrow> graph_path \<Rightarrow> string \<times> graph_path_step \<Rightarrow> (string \<times> graph_path) list \<Rightarrow>
     (string \<times> graph_path) list result" where
  "propose seen budget overflow depth current_path = (\<lambda>(other_id, step) proposals.
     if seen other_id then Inr proposals
     else
       let candidate = \<lparr>gp_depth = depth, gp_node_ids = gp_node_ids current_path @ [other_id], gp_steps = gp_steps current_path @ [step]\<rparr>;
           existing = map_of proposals other_id
       in if existing = None \<and> budget \<le> length proposals then Inl (KnowledgeGraphError overflow)
          else if existing = None \<or> deterministic_key candidate < deterministic_key (the existing)
          then Inr (dict_set other_id candidate proposals) else Inr proposals)"

definition path_at :: "(string \<times> graph_path) list \<Rightarrow> string \<Rightarrow> graph_path" where
  "path_at paths node_id = (case map_of paths node_id of Some p \<Rightarrow> p | None \<Rightarrow> \<lparr>gp_depth = 0, gp_node_ids = [], gp_steps = []\<rparr>)"

definition merge_paths :: "(string \<times> graph_path) list \<Rightarrow> (string \<times> graph_path) list \<Rightarrow> (string \<times> graph_path) list" where
  "merge_paths proposals paths = fold (\<lambda>(node_id, path). dict_set node_id path) proposals paths"

text \<open>The loop over the depths that are left, with the paths found so far and the frontier of the last depth.\<close>

fun reachable_loop :: "nat \<Rightarrow> nat \<Rightarrow> int \<Rightarrow> (string \<times> graph_path) list \<Rightarrow> string list \<Rightarrow> (string \<times> graph_path) list reader" where
  "reachable_loop 0 limit depth paths frontier = returnR paths"
| "reachable_loop (Suc rounds) limit depth paths frontier =
     bindR (foldR (\<lambda>current_id proposals. bindR (neighbor_steps current_id) (\<lambda>neighbors.
         liftR (foldE (propose (\<lambda>v. v \<in> fst ` set paths) (limit - length paths)
           ''graph traversal expansion exceeds the supported limit'' depth (path_at paths current_id)) neighbors proposals)))
       (sort_key (\<lambda>node_id. deterministic_key (path_at paths node_id)) frontier) []) (\<lambda>proposals.
     if proposals = [] then returnR paths
     else reachable_loop rounds limit (depth + 1) (merge_paths proposals paths) (map fst proposals))"

definition reachable_paths :: "nat \<Rightarrow> string \<Rightarrow> int \<Rightarrow> (string \<times> graph_path) list reader" where
  "reachable_paths limit anchor_id max_depth =
     reachable_loop (nat max_depth) limit 1 [(anchor_id, \<lparr>gp_depth = 0, gp_node_ids = [anchor_id], gp_steps = []\<rparr>)] [anchor_id]"

fun dependency_loop ::
  "nat \<Rightarrow> nat \<Rightarrow> int \<Rightarrow> string list \<Rightarrow> (string \<times> graph_path) list \<Rightarrow> (string \<times> graph_path) list \<Rightarrow>
     (string list \<times> (string \<times> graph_path) list \<times> (string \<times> graph_path) list) reader" where
  "dependency_loop 0 limit depth visited found frontier = returnR (visited, found, frontier)"
| "dependency_loop (Suc rounds) limit depth visited found frontier =
     bindR (foldR (\<lambda>(current_id, current_path) proposals. bindR (outgoing_dependency_steps current_id) (\<lambda>targets.
         liftR (foldE (propose (\<lambda>v. v \<in> set visited) (limit - length found)
           ''dependency expansion exceeds the supported limit'' depth current_path) targets proposals)))
       frontier []) (\<lambda>proposals.
     if proposals = [] then returnR (visited, found, [])
     else dependency_loop rounds limit (depth + 1) (visited @ map fst proposals) (merge_paths proposals found) proposals)"

definition dependency_paths :: "nat \<Rightarrow> string \<Rightarrow> int \<Rightarrow> ((string \<times> graph_path) list \<times> bool) reader" where
  "dependency_paths limit task_id max_depth =
     bindR (dependency_loop (nat max_depth) limit 1 [task_id] [] [(task_id, \<lparr>gp_depth = 0, gp_node_ids = [task_id], gp_steps = []\<rparr>)])
       (\<lambda>(visited, found, frontier).
     bindR (anyR (\<lambda>(current_id, path). bindR (outgoing_dependency_steps current_id) (\<lambda>targets.
       returnR (\<exists>(target, step)\<in>set targets. target \<notin> set visited))) frontier) (\<lambda>truncated.
     returnR (found, truncated)))"

definition require_stable_revision :: "string \<Rightarrow> unit reader" where
  "require_stable_revision operation = bindR (queryR revision_digest) (\<lambda>now. bindR revisionR (\<lambda>revision.
     if now \<noteq> revision
     then liftR (Inl (KnowledgeGraphError (''knowledge index changed during '' @ operation @ ''; retry from one revision'')))
     else returnR ()))"

definition validate_result_limit :: "int \<Rightarrow> unit result" where
  "validate_result_limit limit = (if \<not> (1 \<le> limit \<and> limit \<le> 1000)
     then Inl (ValueError ''knowledge result limit must be between 1 and 1000'') else Inr ())"

section \<open>Search\<close>

definition search_hit_key :: "knowledge_search_hit \<Rightarrow> int \<times> int \<times> string \<times> string" where
  "search_hit_key h = (- sh_total_score h, sh_depth h, kn_node_id (sh_node h), node_digest (sh_node h))"

definition build_hit :: "string \<Rightarrow> (string \<times> graph_path) list \<Rightarrow> string \<times> (string \<times> int) list \<Rightarrow> knowledge_search_hit reader" where
  "build_hit anchor_id paths = (\<lambda>(node_id, term_weights).
     let path = path_at paths node_id in
     bindR (required_node node_id) (\<lambda>node.
     let matched_terms = map fst term_weights; lexical_score = sum_list (map snd term_weights) in
     bindR (liftR (knowledge_graph_score (gp_depth path))) (\<lambda>graph_score.
     let total_score = lexical_score * 100 + graph_score in
     bindR revisionR (\<lambda>revision.
     liftR (mk_search_hit \<lparr>sh_anchor_id = anchor_id, sh_index_revision_digest = revision, sh_node = node, sh_depth = gp_depth path,
       sh_path_node_ids = gp_node_ids path, sh_path_steps = gp_steps path, sh_matched_terms = matched_terms,
       sh_lexical_score = lexical_score, sh_graph_score = graph_score, sh_total_score = total_score,
       sh_explanation = knowledge_score_explanation (gp_depth path) (gp_steps path) matched_terms lexical_score graph_score total_score,
       sh_authority = DERIVED_CANDIDATE_AUTHORITY\<rparr>)))))"

definition candidate_ids :: "string \<Rightarrow> (string \<times> graph_path) list \<Rightarrow> string list" where
  "candidate_ids anchor_id paths = filter (\<lambda>v. v \<noteq> anchor_id) (map fst paths)"

definition search :: "nat \<Rightarrow> string \<Rightarrow> string \<Rightarrow> int \<Rightarrow> int \<Rightarrow> knowledge_search_hit list reader" where
  "search max_graph_expansion_nodes anchor_id query max_depth limit =
     bindR (liftR (validate_max_depth max_depth)) (\<lambda>_.
     bindR (liftR (validate_result_limit limit)) (\<lambda>_.
     bindR open_context (\<lambda>_.
     bindR (required_node anchor_id) (\<lambda>_.
     let query_terms = normalized_terms query in
     if query_terms = [] then liftR (Inl (ValueError ''knowledge search query must contain at least one term''))
     else bindR (reachable_paths max_graph_expansion_nodes anchor_id max_depth) (\<lambda>paths.
     bindR (queryR (term_scores query_terms (candidate_ids anchor_id paths))) (\<lambda>scores.
     bindR (mapR (build_hit anchor_id paths) scores) (\<lambda>hits.
     bindR (require_stable_revision ''search'') (\<lambda>_.
     returnR (take (nat limit) (sort_key search_hit_key hits))))))))))"

section \<open>Dependency inspection\<close>

definition inspect_dependency :: "string \<times> graph_path \<Rightarrow> dependency_state reader" where
  "inspect_dependency = (\<lambda>(dependency_id, path).
     bindR (required_node dependency_id) (\<lambda>dependency.
     case kn_task_status dependency of None \<Rightarrow> liftR (Inl (KnowledgeGraphError ''dependency target is not a task node''))
     | Some status \<Rightarrow> liftR (mk_dependency_state \<lparr>ds_node_id = kn_node_id dependency, ds_task_status = status,
         ds_depth = gp_depth path, ds_path_node_ids = gp_node_ids path, ds_path_steps = gp_steps path,
         ds_satisfied = (status = STATUS_COMPLETED)\<rparr>)))"

definition inspect_in_context :: "nat \<Rightarrow> string \<Rightarrow> int \<Rightarrow> dependency_inspection reader" where
  "inspect_in_context max_dependency_states task_id max_depth =
     bindR (required_node task_id) (\<lambda>task.
     if kn_node_type task \<noteq> TASK then liftR (Inl (KnowledgeGraphError ''dependency inspection requires a task node''))
     else bindR (dependency_paths max_dependency_states task_id max_depth) (\<lambda>(paths, truncated).
     bindR (mapR inspect_dependency (sort_key (\<lambda>(dependency_id, path). (gp_depth path, dependency_id)) paths)) (\<lambda>dependencies.
     let unmet_reasons = unmet_dependency_reasons dependencies truncated max_depth in
     bindR revisionR (\<lambda>revision.
     liftR (mk_dependency_inspection \<lparr>di_task_id = task_id, di_max_depth = max_depth, di_index_revision_digest = revision,
       di_dependencies = dependencies, di_all_satisfied = (unmet_reasons = []), di_truncated = truncated,
       di_unmet_reasons = unmet_reasons, di_authority = DERIVED_CANDIDATE_AUTHORITY\<rparr>)))))"

definition inspect_dependencies :: "nat \<Rightarrow> string \<Rightarrow> int \<Rightarrow> dependency_inspection reader" where
  "inspect_dependencies max_dependency_states task_id max_depth =
     bindR (liftR (validate_max_depth max_depth)) (\<lambda>_.
     bindR open_context (\<lambda>_.
     bindR (inspect_in_context max_dependency_states task_id max_depth) (\<lambda>inspection.
     bindR (require_stable_revision ''dependency inspection'') (\<lambda>_. returnR inspection))))"

section \<open>Next steps\<close>

definition collect_task :: "nat \<Rightarrow> string \<Rightarrow> string list \<Rightarrow> string list reader" where
  "collect_task max_next_step_candidates node_id task_ids =
     bindR (required_node node_id) (\<lambda>node.
     if kn_node_type node \<noteq> TASK then returnR task_ids
     else if max_next_step_candidates \<le> length task_ids
     then liftR (Inl (KnowledgeGraphError ''next-step candidate expansion exceeds the supported limit''))
     else returnR (task_ids @ [node_id]))"

text \<open>A candidate before it is ranked; the rank is filled in once the drafts are sorted.\<close>

definition draft_candidate ::
  "nat \<Rightarrow> string \<Rightarrow> int \<Rightarrow> (string \<times> graph_path) list \<Rightarrow> (string \<times> (string \<times> int) list) list \<Rightarrow> string \<Rightarrow> next_step_candidate reader" where
  "draft_candidate max_dependency_states anchor_id dependency_max_depth paths scores task_id =
     bindR (required_node task_id) (\<lambda>task.
     let path = path_at paths task_id;
         weighted_terms = (case map_of scores task_id of Some ws \<Rightarrow> ws | None \<Rightarrow> []);
         matched_terms = map fst weighted_terms;
         lexical_score = sum_list (map snd weighted_terms) in
     bindR (liftR (knowledge_graph_score (gp_depth path))) (\<lambda>graph_score.
     let total_score = lexical_score * 100 + graph_score in
     bindR (inspect_in_context max_dependency_states task_id dependency_max_depth) (\<lambda>inspection.
     let unmet_reasons = status_reasons task @ di_unmet_reasons inspection;
         eligible = (unmet_reasons = []) in
     returnR \<lparr>nc_rank = 0, nc_anchor_id = anchor_id, nc_task = task, nc_depth = gp_depth path, nc_path_node_ids = gp_node_ids path,
       nc_path_steps = gp_steps path, nc_matched_terms = matched_terms, nc_lexical_score = lexical_score, nc_graph_score = graph_score,
       nc_total_score = total_score, nc_dependency_inspection = inspection, nc_eligible = eligible,
       nc_unmet_dependency_reasons = unmet_reasons,
       nc_explanation = next_step_candidate_explanation task (gp_depth path) (gp_steps path) matched_terms lexical_score graph_score
         total_score eligible unmet_reasons,
       nc_authority = DERIVED_CANDIDATE_AUTHORITY\<rparr>)))"

definition rank_drafts :: "int \<Rightarrow> next_step_candidate list \<Rightarrow> next_step_candidate list result" where
  "rank_drafts limit drafts = mapE (\<lambda>(rank, c). mk_next_step_candidate (c\<lparr>nc_rank := int rank\<rparr>))
     (enumerate 1 (take (nat limit) (sort_key candidate_key drafts)))"

definition next_step_context_of ::
  "nat \<Rightarrow> nat \<Rightarrow> nat \<Rightarrow> string \<Rightarrow> string option \<Rightarrow> int \<Rightarrow> int \<Rightarrow> int \<Rightarrow> next_step_context reader" where
  "next_step_context_of max_graph_expansion_nodes max_next_step_candidates max_dependency_states anchor_id query max_depth
     dependency_max_depth limit =
     bindR (liftR (validate_max_depth max_depth)) (\<lambda>_.
     bindR (liftR (validate_max_depth dependency_max_depth)) (\<lambda>_.
     bindR (liftR (validate_result_limit limit)) (\<lambda>_.
     bindR open_context (\<lambda>_.
     bindR (required_node anchor_id) (\<lambda>anchor.
     let query_source = (case query of Some q \<Rightarrow> if py_strip q \<noteq> [] then q else kn_title anchor @ '' '' @ kn_content anchor
           | None \<Rightarrow> kn_title anchor @ '' '' @ kn_content anchor);
         query_terms = take 128 (normalized_terms query_source) in
     bindR (reachable_paths max_graph_expansion_nodes anchor_id max_depth) (\<lambda>paths.
     bindR (foldR (collect_task max_next_step_candidates) (candidate_ids anchor_id paths) []) (\<lambda>task_ids.
     bindR (queryR (term_scores query_terms task_ids)) (\<lambda>scores.
     bindR (mapR (draft_candidate max_dependency_states anchor_id dependency_max_depth paths scores) task_ids) (\<lambda>drafts.
     bindR (liftR (rank_drafts limit drafts)) (\<lambda>ranked.
     bindR revisionR (\<lambda>revision.
     bindR (liftR (mk_next_step_context \<lparr>nx_anchor_id = anchor_id, nx_query_terms = query_terms, nx_candidate_max_depth = max_depth,
       nx_dependency_max_depth = dependency_max_depth, nx_index_revision_digest = revision, nx_candidates = ranked,
       nx_authority = DERIVED_CANDIDATE_AUTHORITY, nx_schema_version = ''sisyphus_harness.next_step_context.v2''\<rparr>)) (\<lambda>result.
     bindR (require_stable_revision ''next-step planning'') (\<lambda>_. returnR result)))))))))))))"

section \<open>The facade\<close>

text \<open>\<open>KnowledgeGraph\<close> runs each service with the limits of \<^verbatim>\<open>knowledge_graph.py\<close>, from a fresh context.\<close>

definition MAX_GRAPH_EXPANSION_NODES :: nat where "MAX_GRAPH_EXPANSION_NODES = 10000"
definition MAX_NEXT_STEP_CANDIDATES :: nat where "MAX_NEXT_STEP_CANDIDATES = 1000"
definition MAX_DEPENDENCY_STATES :: nat where "MAX_DEPENDENCY_STATES = 1000"

definition fresh_context :: read_context where
  "fresh_context = \<lparr>rc_clock = 0, rc_revision = [], rc_node_cache = (\<lambda>_. None), rc_edge_cache = (\<lambda>_. None)\<rparr>"

definition graph_search :: "string \<Rightarrow> string \<Rightarrow> int \<Rightarrow> int \<Rightarrow> index_history \<Rightarrow> (knowledge_search_hit list \<times> read_context) result" where
  "graph_search anchor_id query max_depth limit history =
     search MAX_GRAPH_EXPANSION_NODES anchor_id query max_depth limit history fresh_context"

definition graph_inspect_dependencies :: "string \<Rightarrow> int \<Rightarrow> index_history \<Rightarrow> (dependency_inspection \<times> read_context) result" where
  "graph_inspect_dependencies task_id max_depth history = inspect_dependencies MAX_DEPENDENCY_STATES task_id max_depth history fresh_context"

definition graph_next_step_context ::
  "string \<Rightarrow> string option \<Rightarrow> int \<Rightarrow> int \<Rightarrow> int \<Rightarrow> index_history \<Rightarrow> (next_step_context \<times> read_context) result" where
  "graph_next_step_context anchor_id query max_depth dependency_max_depth limit history =
     next_step_context_of MAX_GRAPH_EXPANSION_NODES MAX_NEXT_STEP_CANDIDATES MAX_DEPENDENCY_STATES anchor_id query max_depth
       dependency_max_depth limit history fresh_context"

section \<open>The revision fence\<close>

text \<open>
  A reader is local when it moves the query count forward, keeps the revision of its context and depends only on the
  databases its queries saw. Every piece of a graph read is, except for opening the context.
\<close>

definition local_read :: "'a reader \<Rightarrow> bool" where
  "local_read m \<longleftrightarrow> (\<forall>h c x c'. m h c = Inr (x, c') \<longrightarrow> rc_clock c \<le> rc_clock c' \<and> rc_revision c' = rc_revision c
     \<and> (\<forall>h'. (\<forall>i. rc_clock c \<le> i \<longrightarrow> i < rc_clock c' \<longrightarrow> h' i = h i) \<longrightarrow> m h' c = Inr (x, c')))"

named_theorems local_intros \<open>readers that are local\<close>

lemma local_readD:
  assumes "local_read m" and "m h c = Inr (x, c')"
  shows "rc_clock c \<le> rc_clock c'" and "rc_revision c' = rc_revision c"
    and "(\<And>i. rc_clock c \<le> i \<Longrightarrow> i < rc_clock c' \<Longrightarrow> h' i = h i) \<Longrightarrow> m h' c = Inr (x, c')"
  using assms unfolding local_read_def by blast+

lemma local_returnR [local_intros]: "local_read (returnR x)"
  by (simp add: local_read_def returnR_def)

lemma local_liftR [local_intros]: "local_read (liftR m)"
  by (auto simp: local_read_def liftR_def bindE_eq_Inr)

lemma local_revisionR [local_intros]: "local_read revisionR"
  by (simp add: local_read_def revisionR_def)

lemma local_queryR [local_intros]: "local_read (queryR q)"
  by (auto simp: local_read_def queryR_def bindE_eq_Inr)

lemma local_update: "(\<And>c. rc_clock (g c) = rc_clock c \<and> rc_revision (g c) = rc_revision c) \<Longrightarrow> local_read (\<lambda>h c. Inr (x, g c))"
  by (simp add: local_read_def)

lemma local_bindR [local_intros]:
  assumes m: "local_read m" and f: "\<And>x. local_read (f x)"
  shows "local_read (bindR m f)"
  unfolding local_read_def
proof (intro allI impI)
  fix h c x c' assume "bindR m f h c = Inr (x, c')"
  then obtain y c1 where y: "m h c = Inr (y, c1)" "f y h c1 = Inr (x, c')" by (auto simp: bindR_def bindE_eq_Inr)
  note d1 = local_readD [OF m y(1)] and d2 = local_readD [OF f y(2)]
  have "bindR m f h' c = Inr (x, c')" if "\<forall>i. rc_clock c \<le> i \<longrightarrow> i < rc_clock c' \<longrightarrow> h' i = h i" for h'
    using d1(3) [of h'] d2(3) [of h'] that d1(1) d2(1) by (simp add: bindR_def)
  then show "rc_clock c \<le> rc_clock c' \<and> rc_revision c' = rc_revision c
     \<and> (\<forall>h'. (\<forall>i. rc_clock c \<le> i \<longrightarrow> i < rc_clock c' \<longrightarrow> h' i = h i) \<longrightarrow> bindR m f h' c = Inr (x, c'))"
    using d1(1,2) d2(1,2) by auto
qed

lemma local_cached:
  assumes "local_read m"
  shows "local_read (\<lambda>h c. case f c of Some x \<Rightarrow> Inr (x, c) | None \<Rightarrow> m h c)"
  unfolding local_read_def
proof (intro allI impI)
  fix h c x c' assume r: "(case f c of Some x \<Rightarrow> Inr (x, c) | None \<Rightarrow> m h c) = Inr (x, c')"
  show "rc_clock c \<le> rc_clock c' \<and> rc_revision c' = rc_revision c \<and> (\<forall>h'. (\<forall>i. rc_clock c \<le> i \<longrightarrow> i < rc_clock c' \<longrightarrow> h' i = h i) \<longrightarrow>
      (case f c of Some x \<Rightarrow> Inr (x, c) | None \<Rightarrow> m h' c) = Inr (x, c'))"
  proof (cases "f c")
    case None
    with r have "m h c = Inr (x, c')" by simp
    from local_readD [OF assms this] None show ?thesis by simp
  qed (use r in simp)
qed

lemma local_if [local_intros]: "local_read a \<Longrightarrow> local_read b \<Longrightarrow> local_read (if p then a else b)"
  by simp

lemma local_foldR [local_intros]: "(\<And>x s. local_read (f x s)) \<Longrightarrow> local_read (foldR f xs s)"
  by (induction xs arbitrary: s) (auto intro: local_intros)

lemma local_mapR [local_intros]: "(\<And>x. local_read (f x)) \<Longrightarrow> local_read (mapR f xs)"
  unfolding mapR_def by (intro local_intros)

lemma local_anyR [local_intros]: "(\<And>x. local_read (p x)) \<Longrightarrow> local_read (anyR p xs)"
  by (induction xs) (auto intro: local_intros)

lemma local_required_node [local_intros]: "local_read (required_node i)"
  unfolding required_node_def
  by (rule local_cached, intro local_intros) (auto split: option.split intro: local_intros local_update)

lemma local_edges_for [local_intros]: "local_read (edges_for_cached i)"
  unfolding edges_for_cached_def by (rule local_cached, intro local_intros) (rule local_update, simp)

lemma local_case_prod: "(\<And>a b. local_read (f a b)) \<Longrightarrow> local_read (case p of (a, b) \<Rightarrow> f a b)"
  by (cases p) simp

lemma local_neighbor_steps [local_intros]: "local_read (neighbor_steps i)"
  unfolding neighbor_steps_def by (intro local_intros)

lemma local_outgoing [local_intros]: "local_read (outgoing_dependency_steps i)"
  unfolding outgoing_dependency_steps_def by (intro local_intros)

lemma local_reachable_loop [local_intros]: "local_read (reachable_loop n limit depth paths frontier)"
  by (induction n arbitrary: depth paths frontier) (simp_all, (intro local_intros | assumption)+)

lemma local_dependency_loop [local_intros]: "local_read (dependency_loop n limit depth visited found frontier)"
proof (induction n arbitrary: depth visited found frontier)
  case (Suc n)
  then show ?case by (auto intro!: local_intros local_case_prod)
qed (simp add: local_returnR)

lemma local_reachable_paths [local_intros]: "local_read (reachable_paths limit a k)"
  unfolding reachable_paths_def by (intro local_intros)

lemma local_dependency_paths [local_intros]: "local_read (dependency_paths limit a k)"
  unfolding dependency_paths_def by (auto intro!: local_intros local_case_prod)

lemma local_build_hit [local_intros]: "local_read (build_hit a paths p)"
  unfolding build_hit_def Let_def by (auto intro!: local_intros local_case_prod)

lemma local_inspect_dependency [local_intros]: "local_read (inspect_dependency p)"
  unfolding inspect_dependency_def by (auto intro!: local_intros local_case_prod split: option.split)

lemma local_inspect [local_intros]: "local_read (inspect_in_context limit i k)"
  unfolding inspect_in_context_def Let_def by (auto intro!: local_intros local_case_prod)

lemma local_collect [local_intros]: "local_read (collect_task limit i s)"
  unfolding collect_task_def by (intro local_intros)

lemma local_draft [local_intros]: "local_read (draft_candidate limit a k paths scores i)"
  unfolding draft_candidate_def Let_def by (intro local_intros)

text \<open>The shape of every read: open the context, work, check that the revision is still the same.\<close>

definition fenced :: "string \<Rightarrow> 'a reader \<Rightarrow> 'a reader" where
  "fenced operation body = bindR open_context (\<lambda>_. bindR body (\<lambda>r. bindR (require_stable_revision operation) (\<lambda>_. returnR r)))"

lemma bindR_assoc: "bindR (bindR m f) g = bindR m (\<lambda>x. bindR (f x) g)"
proof (intro ext)
  fix h c show "bindR (bindR m f) g h c = bindR m (\<lambda>x. bindR (f x) g) h c"
    by (cases "m h c") (auto simp: bindR_def split: prod.split)
qed

lemma bindR_returnR [simp]: "bindR (returnR x) f = f x"
  by (simp add: bindR_def returnR_def)

lemma bindR_Inl [simp]: "bindR (liftR (Inl e)) f = liftR (Inl e)"
  by (simp add: bindR_def liftR_def)

lemma bindR_if: "bindR (if b then m else n) f = (if b then bindR m f else bindR n f)"
  by simp

lemma fenced_run:
  assumes body: "local_read body" and run: "fenced operation body h c = Inr (x, c')"
  shows "\<exists>rev. rc_clock c < rc_clock c' \<and> revision_digest (h (rc_clock c)) = Inr rev \<and> revision_digest (h (rc_clock c' - 1)) = Inr rev
     \<and> (\<forall>h'. (\<forall>i. rc_clock c \<le> i \<longrightarrow> i < rc_clock c' \<longrightarrow> h' i = h i) \<longrightarrow> fenced operation body h' c = Inr (x, c'))"
proof -
  define c1 where "c1 = (\<lambda>rev. c\<lparr>rc_clock := Suc (rc_clock c), rc_revision := rev, rc_node_cache := (\<lambda>_. None), rc_edge_cache := (\<lambda>_. None)\<rparr>)"
  have eq: "fenced operation body g c = bindE (revision_digest (g (rc_clock c))) (\<lambda>rev.
      bindR body (\<lambda>r. bindR (require_stable_revision operation) (\<lambda>_. returnR r)) g (c1 rev))" for g
    by (cases "revision_digest (g (rc_clock c))")
      (simp_all add: fenced_def open_context_def bindR_def queryR_def Let_def c1_def)
  from run obtain rev where rev: "revision_digest (h (rc_clock c)) = Inr rev"
      "bindR body (\<lambda>r. bindR (require_stable_revision operation) (\<lambda>_. returnR r)) h (c1 rev) = Inr (x, c')"
    unfolding eq by (auto simp: bindE_eq_Inr)
  have loc: "local_read (bindR body (\<lambda>r. bindR (require_stable_revision operation) (\<lambda>_. returnR r)))"
    unfolding require_stable_revision_def by (intro local_intros body)
  note d = local_readD [OF loc rev(2)]
  from rev(2) obtain r c2 where b: "body h (c1 rev) = Inr (r, c2)" and s: "require_stable_revision operation h c2 = Inr ((), c')"
    by (auto simp: bindR_def bindE_eq_Inr returnR_def)
  from s local_readD(2) [OF body b] have "revision_digest (h (rc_clock c2)) = Inr rev" "rc_clock c' = Suc (rc_clock c2)"
    by (auto simp: require_stable_revision_def bindR_def queryR_def revisionR_def liftR_def returnR_def bindE_eq_Inr c1_def split: if_splits)
  moreover have "fenced operation body g c = Inr (x, c')" if "\<forall>i. rc_clock c \<le> i \<longrightarrow> i < rc_clock c' \<longrightarrow> g i = h i" for g
  proof -
    have "g (rc_clock c) = h (rc_clock c)" using that d(1) by (simp add: c1_def)
    moreover have "bindR body (\<lambda>r. bindR (require_stable_revision operation) (\<lambda>_. returnR r)) g (c1 rev) = Inr (x, c')"
      by (rule d(3)) (use that in \<open>simp add: c1_def\<close>)
    ultimately show ?thesis by (simp add: eq rev(1))
  qed
  ultimately show ?thesis using rev(1) d(1) by (auto simp: c1_def)
qed

text \<open>The text whose digest is the revision of an index.\<close>

definition revision_text :: "kdb \<Rightarrow> string" where
  "revision_text d = (case mapE node_from_row (map snd (kd_nodes d)) of Inl _ \<Rightarrow> [] | Inr nodes \<Rightarrow>
     (case mapE edge_from_row (map snd (kd_edges d)) of Inl _ \<Rightarrow> []
      | Inr edges \<Rightarrow> json_dumps (revision_value (kd_metadata d) nodes edges (kd_terms d))))"

lemma revision_text_stores:
  "stores d ns es \<Longrightarrow> revision_text d = json_dumps (revision_value (kd_metadata d) (map snd ns) (map snd es) (kd_terms d))"
proof -
  assume "stores d ns es"
  then have "mapE node_from_row (map snd (kd_nodes d)) = Inr (map snd ns)" "mapE edge_from_row (map snd (kd_edges d)) = Inr (map snd es)"
    by (auto simp: stores_def mapE_dict_rel)
  then show ?thesis by (simp add: revision_text_def)
qed

lemma revision_digest_stores: "stores d ns es \<Longrightarrow> revision_digest d = Inr (''sha256:'' @ sha256_hexdigest (revision_text d))"
proof -
  assume st: "stores d ns es"
  then have "rows_ok d" by (simp add: stores_def)
  from require_integrity_iff [OF this] st have "require_integrity d =
      Inr (wire_digest (revision_value (kd_metadata d) (map snd ns) (map snd es) (kd_terms d)))" by blast
  then show ?thesis by (simp add: revision_digest_def require_integrity_def wire_digest_def revision_text_stores [OF st])
qed

lemma dict_map_unique: "dict_ok a \<Longrightarrow> dict_ok b \<Longrightarrow> map_of a = map_of b \<Longrightarrow> a = b"
  by (rule dict_unique) (simp_all add: map_of_inject_set [symmetric] dict_ok_distinct)

lemma kdb_eqI:
  assumes "rows_ok d" and "rows_ok d'" and "grows d d'" and "map_of (kd_nodes d) = map_of (kd_nodes d')"
    and "map_of (kd_edges d) = map_of (kd_edges d')" and "map_of (kd_terms d) = map_of (kd_terms d')"
  shows "d = d'"
proof -
  have "kd_nodes d = kd_nodes d'" "kd_edges d = kd_edges d'" "kd_terms d = kd_terms d'"
    using assms by (simp_all add: rows_ok_def dict_map_unique)
  with assms(3) show ?thesis by (simp add: grows_def)
qed

lemma grows_antisym: "rows_ok d \<Longrightarrow> rows_ok d' \<Longrightarrow> grows d d' \<Longrightarrow> grows d' d \<Longrightarrow> d = d'"
  by (rule kdb_eqI) (auto simp: grows_def intro: map_le_antisym)

lemma map_le_same_keys: "map_of a \<subseteq>\<^sub>m map_of b \<Longrightarrow> fst ` set a = fst ` set b \<Longrightarrow> map_of a = map_of b"
  by (rule ext) (metis domIff map_le_def map_of_eq_None_iff)

lemma map_eq_map: "map f xs = map f ys \<Longrightarrow> (\<And>x y. f x = f y \<Longrightarrow> g x = g y) \<Longrightarrow> map g xs = map g ys"
proof (induction xs arbitrary: ys)
  case (Cons x xs)
  from Cons.prems(1) obtain y ys' where ys: "ys = y # ys'" and eq: "f x = f y" "map f xs = map f ys'" by (auto simp: Cons_eq_map_conv)
  from Cons.IH [OF eq(2) Cons.prems(2)] Cons.prems(2) [OF eq(1)] show ?case by (simp add: ys)
qed simp

lemma stores_fst:
  assumes "stores d ns es"
  shows "map fst (kd_nodes d) = map kn_node_id (map snd ns)" and "map fst (kd_edges d) = map edge_ident (map snd es)"
proof -
  have g: "graph_ok ns es" using assms by (simp add: stores_def)
  have "map fst (kd_nodes d) = map fst ns" "map fst (kd_edges d) = map fst es"
    using stores_rel [OF assms] dict_rel_keys by blast+
  moreover have "map fst ns = map kn_node_id (map snd ns)" "map fst es = map edge_ident (map snd es)"
    using g by (auto simp: graph_ok_def)
  ultimately show "map fst (kd_nodes d) = map kn_node_id (map snd ns)" "map fst (kd_edges d) = map edge_ident (map snd es)" by simp_all
qed

text \<open>An index that has only grown and still has the same revision text is the same index.\<close>

lemma same_revision:
  assumes st: "stores d ns es" "stores d' ns' es'" and grow: "grows d d'" and eq: "revision_text d = revision_text d'"
  shows "d = d'"
proof (rule kdb_eqI)
  let ?items = "\<lambda>d ns es. [(''metadata'', PList (map (\<lambda>(k, v). PList [PStr k, PStr v]) (kd_metadata d))),
      (''nodes'', PList (map (\<lambda>n. PList [PStr (kn_node_id n), PStr (node_digest n)]) (map snd ns))),
      (''edges'', PList (map (\<lambda>e. PList [PStr (ke_source_node_id e), PStr (ke_target_node_id e),
         PStr (edge_type_value (ke_edge_type e)), PStr (edge_digest e)]) (map snd es))),
      (''terms'', PList (map (\<lambda>((i, t), w). PList [PStr i, PStr t, PInt w]) (kd_terms d)))]"
  have "revision_value (kd_metadata d) (map snd ns) (map snd es) (kd_terms d) =
      revision_value (kd_metadata d') (map snd ns') (map snd es') (kd_terms d')"
    using eq unfolding revision_text_stores [OF st(1)] revision_text_stores [OF st(2)] json_dumps_inj [OF revision_value_wire revision_value_wire] .
  then have "py_dict (?items d ns es) = py_dict (?items d' ns' es')" unfolding revision_value_def by (simp only: pyobj.inject)
  then have items: "map_of (?items d ns es) k = map_of (?items d' ns' es') k" for k
    by (subst (1 2) map_of_py_dict_distinct [symmetric]) simp_all
  have "map kn_node_id (map snd ns) = map kn_node_id (map snd ns')"
    by (rule map_eq_map [of "\<lambda>n. PList [PStr (kn_node_id n), PStr (node_digest n)]"]) (use items [of "''nodes''"] in simp_all)
  then have "fst ` set (kd_nodes d) = fst ` set (kd_nodes d')"
    by (metis stores_fst(1) [OF st(1)] stores_fst(1) [OF st(2)] set_map)
  then show "map_of (kd_nodes d) = map_of (kd_nodes d')" using grow by (auto simp: grows_def intro: map_le_same_keys)
  have "map edge_ident (map snd es) = map edge_ident (map snd es')"
    by (rule map_eq_map [of "\<lambda>e. PList [PStr (ke_source_node_id e), PStr (ke_target_node_id e),
         PStr (edge_type_value (ke_edge_type e)), PStr (edge_digest e)]"]) (use items [of "''edges''"] in \<open>simp_all add: edge_ident_def\<close>)
  then have "fst ` set (kd_edges d) = fst ` set (kd_edges d')"
    by (metis stores_fst(2) [OF st(1)] stores_fst(2) [OF st(2)] set_map)
  then show "map_of (kd_edges d) = map_of (kd_edges d')" using grow by (auto simp: grows_def intro: map_le_same_keys)
  have "map id (kd_terms d) = map id (kd_terms d')"
    by (rule map_eq_map [of "\<lambda>((i, t), w). PList [PStr i, PStr t, PInt w]"]) (use items [of "''terms''"] in \<open>auto simp: case_prod_unfold prod_eq_iff\<close>)
  then show "map_of (kd_terms d) = map_of (kd_terms d')" by simp
qed (use st grow in \<open>auto simp: stores_def\<close>)

text \<open>The databases a reader may meet: any writes by anyone between its queries.\<close>

definition history_ok :: "index_history \<Rightarrow> bool" where
  "history_ok h \<longleftrightarrow> index_ok (h 0) \<and> (\<forall>i. index_step\<^sup>*\<^sup>* (h i) (h (Suc i)))"

lemma history_run: "history_ok h \<Longrightarrow> i \<le> j \<Longrightarrow> index_step\<^sup>*\<^sup>* (h i) (h j)"
  by (induction j) (auto simp: history_ok_def le_Suc_eq intro: rtranclp_trans)

lemma history_index_ok: "history_ok h \<Longrightarrow> index_ok (h i)"
  using history_run [of h 0 i] kix.inv_run by (auto simp: history_ok_def)

lemma history_grows: "history_ok h \<Longrightarrow> i \<le> j \<Longrightarrow> grows (h i) (h j)"
  using history_run history_index_ok kix.le_run by blast

text \<open>
  A fenced read that returns behaves as if the index had not changed since it began, provided SHA-256 does not collide on
  the revision texts of the history.
\<close>

lemma fenced_snapshot:
  assumes body: "local_read body" and h: "history_ok h" and inj: "inj_on sha256_hexdigest (range (\<lambda>i. revision_text (h i)))"
    and run: "fenced operation body h c = Inr (x, c')"
  shows "fenced operation body (\<lambda>_. h (rc_clock c)) c = Inr (x, c')"
proof -
  let ?i = "rc_clock c" and ?j = "rc_clock c' - 1"
  from fenced_run [OF body run] obtain rev where clock: "?i < rc_clock c'"
      and rev: "revision_digest (h ?i) = Inr rev" "revision_digest (h ?j) = Inr rev"
      and agree: "\<And>h'. (\<forall>i. ?i \<le> i \<longrightarrow> i < rc_clock c' \<longrightarrow> h' i = h i) \<Longrightarrow> fenced operation body h' c = Inr (x, c')" by blast
  obtain ns es ns' es' where st: "stores (h ?i) ns es" "stores (h ?j) ns' es'"
    using history_index_ok [OF h] unfolding index_ok_def by meson
  from rev have "sha256_hexdigest (revision_text (h ?i)) = sha256_hexdigest (revision_text (h ?j))"
    unfolding revision_digest_stores [OF st(1)] revision_digest_stores [OF st(2)] by auto
  with inj have "revision_text (h ?i) = revision_text (h ?j)" by (auto dest: inj_onD)
  moreover have "grows (h ?i) (h ?j)" using clock by (intro history_grows [OF h]) simp
  ultimately have ends: "h ?i = h ?j" by (intro same_revision [OF st])
  have "h i = h ?i" if "?i \<le> i" "i < rc_clock c'" for i
  proof (rule grows_antisym)
    show "rows_ok (h i)" "rows_ok (h ?i)" using history_index_ok [OF h] by (auto simp: index_ok_iff)
    have "grows (h i) (h ?j)" using that(2) by (intro history_grows [OF h]) simp
    then show "grows (h i) (h ?i)" by (simp add: ends)
    show "grows (h ?i) (h i)" by (rule history_grows [OF h that(1)])
  qed
  then show ?thesis by (intro agree allI impI) (rule sym)
qed

end
