(* ===== verification/Graph_Layers.thy ===== *)
theory Graph_Layers
  imports Knowledge_Reads
begin

text \<open>
  Breadth-first layers of a relation, the paths a traversal records, and what one round of proposals does: the
  facts both traversals of the read context rest on.
\<close>

section \<open>Layers\<close>

definition ball :: "('a \<times> 'a) set \<Rightarrow> 'a \<Rightarrow> nat \<Rightarrow> 'a set" where
  "ball R a k = {v. \<exists>j\<le>k. (a, v) \<in> R ^^ j}"

definition layer :: "('a \<times> 'a) set \<Rightarrow> 'a \<Rightarrow> nat \<Rightarrow> 'a set" where
  "layer R a k = {v. (a, v) \<in> R ^^ k \<and> (\<forall>j<k. (a, v) \<notin> R ^^ j)}"

lemma ball_0 [simp]: "ball R a 0 = {a}"
  by (simp add: ball_def)

lemma layer_0 [simp]: "layer R a 0 = {a}"
  by (simp add: layer_def)

lemma layer_ball: "layer R a k \<subseteq> ball R a k"
  by (auto simp: layer_def ball_def)

lemma ball_mono: "j \<le> k \<Longrightarrow> ball R a j \<subseteq> ball R a k"
  by (auto simp: ball_def intro: order_trans)

lemma ball_rtrancl: "ball R a k \<subseteq> R\<^sup>* `` {a}"
  by (auto simp: ball_def rtrancl_power)

lemma ball_layer: "v \<in> ball R a k \<Longrightarrow> \<exists>j\<le>k. v \<in> layer R a j"
proof -
  assume "v \<in> ball R a k"
  then obtain j where j: "j \<le> k" "(a, v) \<in> R ^^ j" by (auto simp: ball_def)
  let ?m = "LEAST i. (a, v) \<in> R ^^ i"
  have "v \<in> layer R a ?m" using LeastI [of "\<lambda>i. (a, v) \<in> R ^^ i", OF j(2)] not_less_Least by (auto simp: layer_def)
  moreover have "?m \<le> k" using Least_le [of "\<lambda>i. (a, v) \<in> R ^^ i", OF j(2)] j(1) by linarith
  ultimately show ?thesis by blast
qed

lemma layer_Suc: "layer R a (Suc k) = R `` layer R a k - ball R a k"
proof (intro equalityI subsetI)
  fix v assume v: "v \<in> layer R a (Suc k)"
  then obtain u where u: "(a, u) \<in> R ^^ k" "(u, v) \<in> R" by (auto simp: layer_def)
  have "(a, u) \<notin> R ^^ j" if "j < k" for j
  proof
    assume "(a, u) \<in> R ^^ j"
    with u(2) have "(a, v) \<in> R ^^ Suc j" by auto
    with v that show False by (auto simp: layer_def simp del: relpow.simps)
  qed
  with u v show "v \<in> R `` layer R a k - ball R a k" by (auto simp: layer_def ball_def less_Suc_eq_le)
next
  fix v assume "v \<in> R `` layer R a k - ball R a k"
  then show "v \<in> layer R a (Suc k)" by (auto simp: layer_def ball_def less_Suc_eq_le)
qed

lemma ball_Suc: "ball R a (Suc k) = ball R a k \<union> layer R a (Suc k)"
proof (intro equalityI subsetI)
  fix v assume "v \<in> ball R a (Suc k)"
  from ball_layer [OF this] obtain j where "j \<le> Suc k" "v \<in> layer R a j" by blast
  then show "v \<in> ball R a k \<union> layer R a (Suc k)" using layer_ball [of R a j] ball_mono [of j k R a] by (cases "j = Suc k") auto
qed (use layer_ball [of R a "Suc k"] ball_mono [of k "Suc k" R a] in auto)

text \<open>Once a layer is empty, the ball is everything reachable.\<close>

lemma layer_empty_stop: "layer R a (Suc k) = {} \<Longrightarrow> R `` ball R a k \<subseteq> ball R a k"
proof (intro subsetI)
  fix v assume empty: "layer R a (Suc k) = {}" and "v \<in> R `` ball R a k"
  then obtain u where edge: "(u, v) \<in> R" and "u \<in> ball R a k" by blast
  from ball_layer [OF this(2)] edge obtain j where u: "(u, v) \<in> R" "j \<le> k" "u \<in> layer R a j" by blast
  show "v \<in> ball R a k"
  proof (cases "j = k")
    case True
    with u empty show ?thesis by (auto simp: layer_Suc)
  next
    case False
    from u have "(a, v) \<in> R ^^ Suc j" by (auto simp: layer_def)
    then have "v \<in> ball R a (Suc j)" unfolding ball_def by blast
    with False u(2) ball_mono [of "Suc j" k R a] show ?thesis by auto
  qed
qed

lemma closed_rtrancl: "a \<in> S \<Longrightarrow> R `` S \<subseteq> S \<Longrightarrow> R\<^sup>* `` {a} \<subseteq> S"
proof (intro subsetI)
  fix v assume a: "a \<in> S" "R `` S \<subseteq> S" and "v \<in> R\<^sup>* `` {a}"
  then have "(a, v) \<in> R\<^sup>*" by simp
  then show "v \<in> S" by induction (use a in auto)
qed

lemma layer_empty_ball: "layer R a (Suc k) = {} \<Longrightarrow> k \<le> j \<Longrightarrow> ball R a j = ball R a k"
  using closed_rtrancl [OF _ layer_empty_stop, of a R a k] ball_rtrancl [of R a j] ball_mono [of k j R a] ball_mono [of 0 k R a] by auto

section \<open>Recorded paths\<close>

text \<open>
  A traversal is given by the list of neighbors of each node, with the step that leads to each. A recorded path starts at
  the root, follows listed steps, repeats no node, and ends at the node it is recorded for.
\<close>

type_synonym neighbors = "string \<Rightarrow> (string \<times> graph_path_step) list"

definition step_rel :: "neighbors \<Rightarrow> (string \<times> string) set" where
  "step_rel nb = {(u, v). \<exists>s. (v, s) \<in> set (nb u)}"

definition path_links :: "string list \<Rightarrow> graph_path_step list \<Rightarrow> (string \<times> string \<times> graph_path_step) list" where
  "path_links ids steps = zip (butlast ids) (zip (tl ids) steps)"

definition path_ok :: "neighbors \<Rightarrow> string \<Rightarrow> string \<Rightarrow> graph_path \<Rightarrow> bool" where
  "path_ok nb a v p \<longleftrightarrow> gp_depth p = int (length (gp_steps p)) \<and> length (gp_node_ids p) = Suc (length (gp_steps p))
     \<and> hd (gp_node_ids p) = a \<and> last (gp_node_ids p) = v \<and> distinct (gp_node_ids p)
     \<and> (\<forall>(u, w, s)\<in>set (path_links (gp_node_ids p) (gp_steps p)). (w, s) \<in> set (nb u))"

definition root_path :: "string \<Rightarrow> graph_path" where
  "root_path a = \<lparr>gp_depth = 0, gp_node_ids = [a], gp_steps = []\<rparr>"

definition extend :: "int \<Rightarrow> graph_path \<Rightarrow> string \<Rightarrow> graph_path_step \<Rightarrow> graph_path" where
  "extend depth p v s = \<lparr>gp_depth = depth, gp_node_ids = gp_node_ids p @ [v], gp_steps = gp_steps p @ [s]\<rparr>"

lemma path_ok_root [simp]: "path_ok nb a a (root_path a)"
  by (simp add: path_ok_def root_path_def path_links_def)

lemma path_links_snoc:
  assumes "length ids = Suc (length steps)"
  shows "path_links (ids @ [v]) (steps @ [s]) = path_links ids steps @ [(last ids, v, s)]"
proof -
  from assms obtain i js where ids: "ids = i # js" "length js = length steps" by (cases ids) auto
  have "length (butlast ids) = length (zip js steps)" unfolding length_butlast by (simp add: ids)
  then have "zip (butlast ids @ [last ids]) (zip js steps @ [(v, s)]) = zip (butlast ids) (zip js steps) @ [(last ids, v, s)]"
    by (subst zip_append) simp_all
  moreover have "butlast ids @ [last ids] = ids" using ids(1) by simp
  moreover have "zip js steps @ [(v, s)] = zip (js @ [v]) (steps @ [s])" using ids(2) by simp
  ultimately show ?thesis using ids(1) by (simp add: path_links_def butlast_append)
qed

lemma path_ok_extend:
  "path_ok nb a u p \<Longrightarrow> (v, s) \<in> set (nb u) \<Longrightarrow> v \<notin> set (gp_node_ids p) \<Longrightarrow> path_ok nb a v (extend (gp_depth p + 1) p v s)"
proof -
  assume p: "path_ok nb a u p" and s: "(v, s) \<in> set (nb u)" and fresh: "v \<notin> set (gp_node_ids p)"
  then have len: "length (gp_node_ids p) = Suc (length (gp_steps p))" by (simp add: path_ok_def)
  then have "hd (gp_node_ids p @ [v]) = hd (gp_node_ids p)" by (cases "gp_node_ids p") simp_all
  with p s fresh show "path_ok nb a v (extend (gp_depth p + 1) p v s)"
    by (auto simp: path_ok_def extend_def path_links_snoc [OF len])
qed

lemma path_ok_depth: "path_ok nb a v p \<Longrightarrow> 0 \<le> gp_depth p"
  by (simp add: path_ok_def)

section \<open>One round of proposals\<close>

lemma dict_set_length: "k \<notin> fst ` set d \<Longrightarrow> length (dict_set k v d) = Suc (length d)"
  by (induction k v d rule: dict_set.induct) auto

lemma dict_set_length_old: "dict_ok d \<Longrightarrow> k \<in> fst ` set d \<Longrightarrow> length (dict_set k v d) = length d"
  by (metis dict_ok_dict_set dict_ok_distinct distinct_card insert_absorb keys_dict_set length_map list.set_map)

lemma propose_cases:
  "propose seen budget overflow depth current (v, s) props = Inr props \<and> (seen v \<or> v \<in> fst ` set props)
     \<or> propose seen budget overflow depth current (v, s) props = Inl (KnowledgeGraphError overflow)
         \<and> \<not> seen v \<and> v \<notin> fst ` set props \<and> budget \<le> length props
     \<or> propose seen budget overflow depth current (v, s) props = Inr (dict_set v (extend depth current v s) props)
         \<and> \<not> seen v \<and> (v \<in> fst ` set props \<or> length props < budget)"
proof (cases "map_of props v")
  case None
  then have "v \<notin> fst ` set props" by (simp add: map_of_eq_None_iff)
  with None show ?thesis by (cases "seen v"; cases "budget \<le> length props") (simp_all add: propose_def extend_def Let_def)
next
  case (Some p)
  then have "v \<in> fst ` set props" by (force dest: map_of_SomeD)
  with Some show ?thesis by (simp add: propose_def extend_def Let_def)
qed

text \<open>What a dictionary of proposals may contain after some neighbors of the current node were offered.\<close>

definition proposed ::
  "(string \<Rightarrow> bool) \<Rightarrow> nat \<Rightarrow> (string \<Rightarrow> graph_path \<Rightarrow> bool) \<Rightarrow> string set \<Rightarrow> (string \<times> graph_path) list \<Rightarrow> bool" where
  "proposed seen budget good offered props \<longleftrightarrow> dict_ok props \<and> length props \<le> budget
     \<and> fst ` set props = {v \<in> offered. \<not> seen v} \<and> (\<forall>(v, p)\<in>set props. good v p)"

lemma foldE_propose:
  assumes "proposed seen budget good offered props"
    and "\<And>v s. (v, s) \<in> set nbrs \<Longrightarrow> \<not> seen v \<Longrightarrow> good v (extend depth current v s)"
  shows "foldE (propose seen budget overflow depth current) nbrs props = Inl (KnowledgeGraphError overflow)
       \<and> budget < card {v \<in> offered \<union> fst ` set nbrs. \<not> seen v}
     \<or> (\<exists>props'. foldE (propose seen budget overflow depth current) nbrs props = Inr props'
          \<and> proposed seen budget good (offered \<union> fst ` set nbrs) props')"
  using assms
proof (induction nbrs arbitrary: props offered)
  case Nil
  then show ?case by simp
next
  case (Cons vs nbrs)
  obtain v s where vs: "vs = (v, s)" by (cases vs)
  let ?q = "dict_set v (extend depth current v s) props"
  from propose_cases [of seen budget overflow depth current v s props] show ?case
  proof (elim disjE)
    assume p: "propose seen budget overflow depth current (v, s) props = Inl (KnowledgeGraphError overflow)
        \<and> \<not> seen v \<and> v \<notin> fst ` set props \<and> budget \<le> length props"
    have keys: "fst ` set props = {v \<in> offered. \<not> seen v}" and ok: "dict_ok props" using Cons.prems(1) by (auto simp: proposed_def)
    have "budget < card (insert v (fst ` set props))"
      using p distinct_card [OF dict_ok_distinct [OF ok]] by simp
    also have "\<dots> \<le> card {w \<in> offered \<union> fst ` set (vs # nbrs). \<not> seen w}"
    proof (rule card_mono)
      have "{w \<in> offered \<union> fst ` set (vs # nbrs). \<not> seen w} \<subseteq> fst ` set props \<union> fst ` set (vs # nbrs)" unfolding keys by blast
      then show "finite {w \<in> offered \<union> fst ` set (vs # nbrs). \<not> seen w}" by (rule finite_subset) simp
      show "insert v (fst ` set props) \<subseteq> {w \<in> offered \<union> fst ` set (vs # nbrs). \<not> seen w}" unfolding keys using p by (auto simp: vs)
    qed
    finally show ?thesis using p by (simp add: vs)
  next
    assume p: "propose seen budget overflow depth current (v, s) props = Inr props \<and> (seen v \<or> v \<in> fst ` set props)"
    with Cons.prems(1) have "proposed seen budget good (insert v offered) props" by (auto simp: proposed_def)
    from Cons.IH [OF this Cons.prems(2)] p show ?thesis by (simp add: vs)
  next
    assume p: "propose seen budget overflow depth current (v, s) props = Inr ?q \<and> \<not> seen v \<and> (v \<in> fst ` set props \<or> length props < budget)"
    have "length ?q \<le> budget" using p Cons.prems(1) dict_set_length [of v props] dict_set_length_old [of props v]
      by (cases "v \<in> fst ` set props") (auto simp: proposed_def)
    moreover have "\<forall>(w, r)\<in>set ?q. good w r"
    proof (clarify)
      fix w r assume "(w, r) \<in> set ?q"
      then have "(w, r) \<in> insert (v, extend depth current v s) (set props)" by (rule subsetD [OF set_dict_set_subset])
      then show "good w r" using Cons.prems p by (auto simp: proposed_def vs)
    qed
    ultimately have "proposed seen budget good (insert v offered) ?q"
      using Cons.prems(1) p by (auto simp: proposed_def dict_ok_dict_set)
    from Cons.IH [OF this Cons.prems(2)] p show ?thesis by (simp add: vs)
  qed
qed

lemma merge_paths_facts:
  assumes "dict_ok paths" and "dict_ok props" and "fst ` set props \<inter> fst ` set paths = {}"
  shows "dict_ok (merge_paths props paths)" and "set (merge_paths props paths) = set paths \<union> set props"
    and "length (merge_paths props paths) = length paths + length props"
proof -
  have "dict_ok (fold (\<lambda>(k, v). dict_set k v) props paths) \<and> set (fold (\<lambda>(k, v). dict_set k v) props paths) = set paths \<union> set props
      \<and> length (fold (\<lambda>(k, v). dict_set k v) props paths) = length paths + length props"
    using assms(1,3) dict_ok_distinct [OF assms(2)]
  proof (induction props arbitrary: paths)
    case (Cons p props)
    obtain k v where p: "p = (k, v)" by (cases p)
    have fresh: "k \<notin> fst ` set paths" using Cons.prems(2) by (auto simp: p)
    have "fst ` set props \<inter> fst ` set (dict_set k v paths) = {}" using Cons.prems(2,3) by (auto simp: p)
    from Cons.IH [OF dict_ok_dict_set [OF Cons.prems(1)] this] Cons.prems(3) show ?case
      by (simp add: p set_dict_set_fresh [OF fresh] dict_set_length [OF fresh])
  qed simp
  then show "dict_ok (merge_paths props paths)" and "set (merge_paths props paths) = set paths \<union> set props"
    and "length (merge_paths props paths) = length paths + length props" unfolding merge_paths_def by auto
qed

end
