(* ===== verification/Snapshot_Reads.thy ===== *)
theory Snapshot_Reads
  imports Graph_Layers
begin

text \<open>
  Total correctness of graph reads on an index nobody writes to. \<open>reads d rv E m P\<close> says of a reader, run against the
  database \<open>d\<close> from any context whose caches hold what \<open>d\<close> holds and whose revision is \<open>rv\<close>, that it either raises an
  error \<open>E\<close> allows or returns a value \<open>P\<close> accepts in such a context. The rules follow the reader's syntax; the queries are
  given on the nodes and edges a well-formed index stores, and the two breadth-first traversals are shown to return the
  layers of the stored graph.
\<close>

section \<open>Rules\<close>

definition ctx_ok :: "kdb \<Rightarrow> string \<Rightarrow> read_context \<Rightarrow> bool" where
  "ctx_ok d rv c \<longleftrightarrow> rc_revision c = rv \<and> (\<forall>i n. rc_node_cache c i = Some n \<longrightarrow> get_node i d = Inr (Some n))
     \<and> (\<forall>i es. rc_edge_cache c i = Some es \<longrightarrow> edges_for i d = Inr es)"

definition reads :: "kdb \<Rightarrow> string \<Rightarrow> (py_error \<Rightarrow> bool) \<Rightarrow> 'a reader \<Rightarrow> ('a \<Rightarrow> bool) \<Rightarrow> bool" where
  "reads d rv E m P \<longleftrightarrow> (\<forall>c. ctx_ok d rv c \<longrightarrow> (case m (\<lambda>_. d) c of Inl e \<Rightarrow> E e | Inr (x, c') \<Rightarrow> P x \<and> ctx_ok d rv c'))"

lemma reads_returnR: "P x \<Longrightarrow> reads d rv E (returnR x) P"
  by (simp add: reads_def returnR_def)

lemma reads_liftR: "(case m of Inl e \<Rightarrow> E e | Inr x \<Rightarrow> P x) \<Longrightarrow> reads d rv E (liftR m) P"
  by (cases m) (simp_all add: reads_def liftR_def)

lemma reads_revisionR: "P rv \<Longrightarrow> reads d rv E revisionR P"
  by (simp add: reads_def revisionR_def ctx_ok_def)

lemma reads_queryR: "(case q d of Inl e \<Rightarrow> E e | Inr x \<Rightarrow> P x) \<Longrightarrow> reads d rv E (queryR q) P"
  by (cases "q d") (simp_all add: reads_def queryR_def ctx_ok_def)

lemma reads_bindR: "reads d rv E m Q \<Longrightarrow> (\<And>x. Q x \<Longrightarrow> reads d rv E (f x) P) \<Longrightarrow> reads d rv E (bindR m f) P"
proof -
  assume m: "reads d rv E m Q" and f: "\<And>x. Q x \<Longrightarrow> reads d rv E (f x) P"
  have "case bindR m f (\<lambda>_. d) c of Inl e \<Rightarrow> E e | Inr (y, c') \<Rightarrow> P y \<and> ctx_ok d rv c'" if c: "ctx_ok d rv c" for c
  proof (cases "m (\<lambda>_. d) c")
    case (Inl e)
    with m c show ?thesis by (force simp: reads_def bindR_def)
  next
    case (Inr xc)
    obtain x c1 where xc: "xc = (x, c1)" by (cases xc)
    with m c Inr have "Q x" "ctx_ok d rv c1" by (force simp: reads_def)+
    with f [of x] show ?thesis by (simp add: reads_def bindR_def Inr xc)
  qed
  then show "reads d rv E (bindR m f) P" unfolding reads_def by blast
qed

lemma reads_weaken: "reads d rv E m Q \<Longrightarrow> (\<And>x. Q x \<Longrightarrow> P x) \<Longrightarrow> (\<And>e. E e \<Longrightarrow> E' e) \<Longrightarrow> reads d rv E' m P"
  unfolding reads_def by (fastforce split: sum.splits)

text \<open>A reader that returns exactly \<open>x\<close>.\<close>

lemma reads_bind_eq: "reads d rv E m (\<lambda>y. y = x) \<Longrightarrow> reads d rv E (f x) P \<Longrightarrow> reads d rv E (bindR m f) P"
  by (erule reads_bindR) simp

lemma reads_foldR:
  assumes "I [] s" and "\<And>pre x rest t. xs = pre @ x # rest \<Longrightarrow> I pre t \<Longrightarrow> reads d rv E (f x t) (I (pre @ [x]))"
  shows "reads d rv E (foldR f xs s) (I xs)"
proof -
  have "reads d rv E (foldR f rest t) (I xs)" if "xs = pre @ rest" "I pre t" for pre rest t
    using that
  proof (induction rest arbitrary: pre t)
    case (Cons x rest)
    from assms(2) [OF Cons.prems] show ?case
      by (simp, elim reads_bindR) (rule Cons.IH [of "pre @ [x]"], simp_all add: Cons.prems(1))
  qed (simp add: reads_returnR)
  from this [of "[]" xs s] assms(1) show ?thesis by simp
qed

lemma reads_mapR:
  assumes "\<And>x. x \<in> set xs \<Longrightarrow> reads d rv E (f x) (Q x)"
  shows "reads d rv E (mapR f xs) (list_all2 Q xs)"
  unfolding mapR_def
proof (rule reads_foldR)
  fix pre x rest ys assume "xs = pre @ x # rest" and ys: "list_all2 Q pre ys"
  then have "reads d rv E (f x) (Q x)" by (intro assms) simp
  then show "reads d rv E (bindR (f x) (\<lambda>y. returnR (ys @ [y]))) (list_all2 Q (pre @ [x]))"
    by (elim reads_bindR) (intro reads_returnR list_all2_appendI ys, simp)
qed simp

lemma reads_anyR:
  "(\<And>x. x \<in> set xs \<Longrightarrow> reads d rv E (p x) (\<lambda>b. b = q x)) \<Longrightarrow> reads d rv E (anyR p xs) (\<lambda>b. b = (\<exists>x\<in>set xs. q x))"
proof (induction xs)
  case (Cons x xs)
  have "reads d rv E (p x) (\<lambda>b. b = q x)" by (rule Cons.prems) simp
  then show ?case unfolding anyR.simps
  proof (rule reads_bind_eq)
    have "reads d rv E (anyR p xs) (\<lambda>b. b = (\<exists>x\<in>set xs. q x))" by (rule Cons.IH) (rule Cons.prems, simp)
    then show "reads d rv E (if q x then returnR True else anyR p xs) (\<lambda>b. b = (\<exists>y\<in>set (x # xs). q y))"
      by (cases "q x") (simp_all add: reads_returnR)
  qed
qed (simp add: reads_returnR)

section \<open>Queries of a well-formed index\<close>

lemma reads_required_node:
  assumes st: "stores d ns es" and n: "map_of ns i = Some n"
  shows "reads d rv E (required_node i) (\<lambda>x. x = n)"
proof -
  have "case required_node i (\<lambda>_. d) c of Inl e \<Rightarrow> E e | Inr (x, c') \<Rightarrow> x = n \<and> ctx_ok d rv c'" if "ctx_ok d rv c" for c
  proof (cases "rc_node_cache c i")
    case None
    with that show ?thesis by (simp add: required_node_def bindR_def queryR_def get_node_stores [OF st] n ctx_ok_def)
  next
    case (Some m)
    with that have "get_node i d = Inr (Some m)" by (simp add: ctx_ok_def)
    then have "m = n" by (simp add: get_node_stores [OF st] n)
    with that Some show ?thesis by (simp add: required_node_def)
  qed
  then show ?thesis unfolding reads_def by blast
qed

lemma reads_missing_node:
  assumes st: "stores d ns es" and n: "map_of ns i = None" and e: "E (KnowledgeGraphError (''knowledge node '' @ py_repr i @ '' does not exist''))"
  shows "reads d rv E (required_node i) P"
proof -
  have "case required_node i (\<lambda>_. d) c of Inl e \<Rightarrow> E e | Inr (x, c') \<Rightarrow> P x \<and> ctx_ok d rv c'" if "ctx_ok d rv c" for c
  proof (cases "rc_node_cache c i")
    case None
    with e show ?thesis by (simp add: required_node_def bindR_def queryR_def get_node_stores [OF st] n liftR_def)
  next
    case (Some m)
    with that have "get_node i d = Inr (Some m)" by (simp add: ctx_ok_def)
    then show ?thesis by (simp add: get_node_stores [OF st] n)
  qed
  then show ?thesis unfolding reads_def by blast
qed

definition edges_at :: "knowledge_edge list \<Rightarrow> string \<Rightarrow> knowledge_edge list" where
  "edges_at es i = filter (\<lambda>e. ke_source_node_id e = i \<or> ke_target_node_id e = i) es"

lemma reads_edges_for:
  assumes st: "stores d ns es"
  shows "reads d rv E (edges_for_cached i) (\<lambda>x. x = edges_at (map snd es) i)"
proof -
  have q: "edges_for i d = Inr (edges_at (map snd es) i)" by (simp add: edges_for_stores [OF st] edges_at_def)
  have "case edges_for_cached i (\<lambda>_. d) c of Inl e \<Rightarrow> E e | Inr (x, c') \<Rightarrow> x = edges_at (map snd es) i \<and> ctx_ok d rv c'" if "ctx_ok d rv c" for c
  proof (cases "rc_edge_cache c i")
    case None
    with that q show ?thesis by (simp add: edges_for_cached_def bindR_def queryR_def ctx_ok_def)
  next
    case (Some m)
    with that q have "m = edges_at (map snd es) i" by (simp add: ctx_ok_def)
    with that Some show ?thesis by (simp add: edges_for_cached_def)
  qed
  then show ?thesis unfolding reads_def by blast
qed

text \<open>The neighbors of a node with the steps that lead to them, and the dependencies of a task.\<close>

definition step_across :: "string \<Rightarrow> knowledge_edge \<Rightarrow> string \<times> graph_path_step" where
  "step_across i e = (if ke_source_node_id e = i then ke_target_node_id e else ke_source_node_id e, step_of (ke_source_node_id e = i) e)"

definition neighbors_of :: "knowledge_edge list \<Rightarrow> neighbors" where
  "neighbors_of es i = sort_key (\<lambda>(other, s). (other, edge_type_value (gs_edge_type s), \<not> gs_traversed_forward s, gs_edge_digest s))
     (map (step_across i) (edges_at es i))"

definition dependencies_of :: "knowledge_edge list \<Rightarrow> neighbors" where
  "dependencies_of es i = sort_key (\<lambda>(target, s). (target, edge_type_value (gs_edge_type s), gs_edge_digest s))
     (map (\<lambda>e. (ke_target_node_id e, step_of True e)) (filter (\<lambda>e. ke_source_node_id e = i \<and> is_dependency e) es))"

lemma stores_edge_wf: "stores d ns es \<Longrightarrow> e \<in> set (map snd es) \<Longrightarrow> wf_edge e"
  by (auto simp: stores_def graph_ok_def)

lemma validate_digest_ok [simp]: "is_sha256 v \<Longrightarrow> validate_digest v label = Inr ()"
  using validate_digest_eq [of v label "()"] by blast

lemma mk_step_of: "wf_edge e \<Longrightarrow> mk_graph_path_step (step_of b e) = Inr (step_of b e)"
  by (simp add: mk_graph_path_step_def step_of_def wf_edge_def)

lemma mapE_all: "(\<And>x. x \<in> set xs \<Longrightarrow> f x = Inr (g x)) \<Longrightarrow> mapE f xs = Inr (map g xs)"
  by (induction xs) auto

lemma reads_neighbor_steps:
  assumes st: "stores d ns es"
  shows "reads d rv E (neighbor_steps i) (\<lambda>x. x = neighbors_of (map snd es) i)"
proof -
  have "mapE (neighbor_step i) (edges_at (map snd es) i) = Inr (map (step_across i) (edges_at (map snd es) i))"
  proof (rule mapE_all)
    fix e assume "e \<in> set (edges_at (map snd es) i)"
    then have "wf_edge e" by (intro stores_edge_wf [OF st]) (auto simp: edges_at_def)
    then show "neighbor_step i e = Inr (step_across i e)" by (simp add: neighbor_step_def step_across_def mk_step_of Let_def)
  qed
  then show ?thesis
    unfolding neighbor_steps_def by (intro reads_bind_eq [OF reads_edges_for [OF st]] reads_bindR [OF reads_liftR] reads_returnR)
      (auto simp: neighbors_of_def)
qed

lemma reads_dependency_steps:
  assumes st: "stores d ns es"
  shows "reads d rv E (outgoing_dependency_steps i) (\<lambda>x. x = dependencies_of (map snd es) i)"
proof -
  let ?es = "filter (\<lambda>e. \<not> (ke_source_node_id e \<noteq> i \<or> \<not> is_dependency e)) (edges_at (map snd es) i)"
  have "mapE (\<lambda>e. bindE (mk_graph_path_step (step_of True e)) (\<lambda>step. Inr (ke_target_node_id e, step))) ?es =
      Inr (map (\<lambda>e. (ke_target_node_id e, step_of True e)) ?es)"
  proof (rule mapE_all)
    fix e assume "e \<in> set ?es"
    then have "wf_edge e" by (intro stores_edge_wf [OF st]) (auto simp: edges_at_def)
    then show "bindE (mk_graph_path_step (step_of True e)) (\<lambda>step. Inr (ke_target_node_id e, step)) = Inr (ke_target_node_id e, step_of True e)"
      by (simp add: mk_step_of)
  qed
  moreover have "?es = filter (\<lambda>e. ke_source_node_id e = i \<and> is_dependency e) (map snd es)"
    unfolding edges_at_def filter_filter by (rule filter_cong) auto
  ultimately show ?thesis
    unfolding outgoing_dependency_steps_def by (intro reads_bind_eq [OF reads_edges_for [OF st]] reads_bindR [OF reads_liftR] reads_returnR)
      (auto simp: dependencies_of_def)
qed

end
