(* ===== verification/Knowledge_Traversal.thy ===== *)
theory Knowledge_Traversal
  imports Snapshot_Reads
begin

text \<open>
  What the two traversals of the read context return on a stable index: the nodes within the depth limit, each with a
  shortest path to it, and for the dependencies whether the limit cut any off. The only error is the expansion limit.
\<close>

section \<open>One round\<close>

definition layer_path :: "neighbors \<Rightarrow> string \<Rightarrow> nat \<Rightarrow> string \<Rightarrow> graph_path \<Rightarrow> bool" where
  "layer_path nb a k v p \<longleftrightarrow> path_ok nb a v p \<and> gp_depth p = int k \<and> set (gp_node_ids p) \<subseteq> ball (step_rel nb) a k
     \<and> v \<in> layer (step_rel nb) a k"

lemma layer_unique: "v \<in> layer R a j \<Longrightarrow> v \<in> layer R a k \<Longrightarrow> j = k"
  by (rule ccontr) (auto simp: layer_def nat_neq_iff)

lemma layer_path_root: "layer_path nb a 0 a (root_path a)"
  by (simp add: layer_path_def) (simp add: root_path_def)

lemma layer_path_extend:
  assumes p: "layer_path nb a k u p" and s: "(v, s) \<in> set (nb u)" and v: "v \<notin> ball (step_rel nb) a k"
  shows "layer_path nb a (Suc k) v (extend (int k + 1) p v s)"
proof -
  have "path_ok nb a v (extend (gp_depth p + 1) p v s)" using p s v by (intro path_ok_extend) (auto simp: layer_path_def)
  moreover have "(u, v) \<in> step_rel nb" using s by (auto simp: step_rel_def)
  then have l: "v \<in> layer (step_rel nb) a (Suc k)" using p v by (auto simp: layer_Suc layer_path_def)
  moreover have "ball (step_rel nb) a k \<subseteq> ball (step_rel nb) a (Suc k)" by (rule ball_mono) simp
  ultimately show ?thesis using p layer_ball [of "step_rel nb" a "Suc k"] by (auto simp: layer_path_def extend_def)
qed

lemma step_rel_image: "step_rel nb `` S = (\<Union>u\<in>S. fst ` set (nb u))"
  by (force simp: step_rel_def)

lemma layer_finite: "(\<And>j. finite (layer R a j)) \<Longrightarrow> finite (ball R a k)"
  by (induction k) (auto simp: ball_Suc)

lemma step_layer_finite: "finite (layer (step_rel nb) a k)"
proof (induction k)
  case (Suc k)
  then have "finite (step_rel nb `` layer (step_rel nb) a k)" unfolding step_rel_image by (rule finite_UN_I) simp
  then show ?case by (simp add: layer_Suc)
qed simp

lemma step_ball_finite: "finite (ball (step_rel nb) a k)"
  by (rule layer_finite) (rule step_layer_finite)

lemma ball_card_Suc: "card (ball (step_rel nb) a (Suc k)) = card (ball (step_rel nb) a k) + card (layer (step_rel nb) a (Suc k))"
  unfolding ball_Suc by (rule card_Un_disjoint [OF step_ball_finite step_layer_finite]) (auto simp: layer_Suc)

lemma ball_card_mono: "j \<le> k \<Longrightarrow> card (ball (step_rel nb) a j) \<le> card (ball (step_rel nb) a k)"
  by (intro card_mono step_ball_finite ball_mono)

lemma dict_card: "dict_ok x \<Longrightarrow> fst ` set x = A \<Longrightarrow> length x = card A"
  by (metis dict_ok_distinct distinct_card length_map list.set_map)

lemma foldR_map: "foldR f (map g xs) s = foldR (\<lambda>x. f (g x)) xs s"
  by (induction xs arbitrary: s) (simp_all add: bindR_def)

lemma reads_round:
  assumes steps: "\<And>u. reads d rv E (nbR u) (\<lambda>x. x = nb u)"
    and overflow: "budget < card (layer (step_rel nb) a (Suc k)) \<Longrightarrow> E (KnowledgeGraphError overflow)"
    and seen: "\<And>v. seen v \<longleftrightarrow> v \<in> ball (step_rel nb) a k"
    and front: "fst ` set front = layer (step_rel nb) a k" "\<forall>(u, p)\<in>set front. layer_path nb a k u p"
  shows "reads d rv E (foldR (\<lambda>(u, p) props. bindR (nbR u) (\<lambda>nbrs. liftR (foldE (propose seen budget overflow (int k + 1) p) nbrs props))) front [])
     (proposed seen budget (layer_path nb a (Suc k)) (step_rel nb `` layer (step_rel nb) a k))"
proof -
  let ?off = "\<lambda>us. \<Union>u\<in>fst ` set us. fst ` set (nb u)"
  have all: "?off front = step_rel nb `` layer (step_rel nb) a k" unfolding front(1) step_rel_image ..
  have "layer (step_rel nb) a (Suc k) \<subseteq> ?off front" unfolding all layer_Suc by blast
  then have fin: "finite (layer (step_rel nb) a (Suc k))" by (rule finite_subset) simp
  have "reads d rv E (foldR (\<lambda>(u, p) props. bindR (nbR u) (\<lambda>nbrs. liftR (foldE (propose seen budget overflow (int k + 1) p) nbrs props))) front [])
     (proposed seen budget (layer_path nb a (Suc k)) (?off front))"
  proof (rule reads_foldR)
    show "proposed seen budget (layer_path nb a (Suc k)) (?off []) []" by (simp add: proposed_def)
  next
    fix pre x rest props assume xs: "front = pre @ x # rest" and props: "proposed seen budget (layer_path nb a (Suc k)) (?off pre) props"
    obtain u p where x: "x = (u, p)" by (cases x)
    have p: "layer_path nb a k u p" using front(2) by (auto simp: xs x)
    have off: "?off (pre @ [x]) = ?off pre \<union> fst ` set (nb u)" by (auto simp: x)
    have step: "foldE (propose seen budget overflow (int k + 1) p) (nb u) props = Inl (KnowledgeGraphError overflow)
         \<and> budget < card {v \<in> ?off (pre @ [x]). \<not> seen v}
       \<or> (\<exists>props'. foldE (propose seen budget overflow (int k + 1) p) (nb u) props = Inr props'
          \<and> proposed seen budget (layer_path nb a (Suc k)) (?off (pre @ [x])) props')"
      unfolding off
    proof (rule foldE_propose [OF props])
      fix v s assume "(v, s) \<in> set (nb u)" "\<not> seen v"
      then show "layer_path nb a (Suc k) v (extend (int k + 1) p v s)" using seen by (intro layer_path_extend [OF p]) auto
    qed
    have "{v \<in> ?off (pre @ [x]). \<not> seen v} \<subseteq> {v \<in> ?off front. \<not> seen v}" by (auto simp: xs)
    then have "{v \<in> ?off (pre @ [x]). \<not> seen v} \<subseteq> layer (step_rel nb) a (Suc k)" unfolding all layer_Suc seen by blast
    then have bound: "card {v \<in> ?off (pre @ [x]). \<not> seen v} \<le> card (layer (step_rel nb) a (Suc k))" by (rule card_mono [OF fin])
    have "case foldE (propose seen budget overflow (int k + 1) p) (nb u) props of Inl e \<Rightarrow> E e
        | Inr props' \<Rightarrow> proposed seen budget (layer_path nb a (Suc k)) (?off (pre @ [x])) props'"
      using step
    proof (elim disjE exE conjE)
      assume "budget < card {v \<in> ?off (pre @ [x]). \<not> seen v}"
      with bound have "E (KnowledgeGraphError overflow)" by (intro overflow) simp
      moreover assume "foldE (propose seen budget overflow (int k + 1) p) (nb u) props = Inl (KnowledgeGraphError overflow)"
      ultimately show ?thesis by simp
    qed simp
    then show "reads d rv E ((case x of (u, p) \<Rightarrow> \<lambda>props. bindR (nbR u) (\<lambda>nbrs.
        liftR (foldE (propose seen budget overflow (int k + 1) p) nbrs props))) props) (proposed seen budget (layer_path nb a (Suc k)) (?off (pre @ [x])))"
      unfolding x prod.case by (intro reads_bind_eq [OF steps] reads_liftR)
  qed
  then show ?thesis unfolding all .
qed

lemma proposed_layer:
  assumes "\<And>v. seen v \<longleftrightarrow> v \<in> ball (step_rel nb) a k"
    and "proposed seen budget (layer_path nb a (Suc k)) (step_rel nb `` layer (step_rel nb) a k) props"
  shows "dict_ok props" and "length props \<le> budget" and "fst ` set props = layer (step_rel nb) a (Suc k)"
    and "\<forall>(v, p)\<in>set props. layer_path nb a (Suc k) v p"
  using assms by (auto simp: proposed_def layer_Suc)

section \<open>The neighborhood of an anchor\<close>

definition traversed :: "neighbors \<Rightarrow> string \<Rightarrow> nat \<Rightarrow> (string \<times> graph_path) list \<Rightarrow> bool" where
  "traversed nb a k paths \<longleftrightarrow> dict_ok paths \<and> fst ` set paths = ball (step_rel nb) a k
     \<and> (\<forall>(v, p)\<in>set paths. \<exists>j\<le>k. layer_path nb a j v p)"

lemma traversed_path_at:
  assumes "traversed nb a k paths" and "v \<in> ball (step_rel nb) a k"
  shows "(v, path_at paths v) \<in> set paths" and "\<exists>j\<le>k. layer_path nb a j v (path_at paths v)"
proof -
  have "v \<in> fst ` set paths" using assms by (simp add: traversed_def)
  then obtain p where "map_of paths v = Some p" by (metis map_of_eq_None_iff not_None_eq)
  then show "(v, path_at paths v) \<in> set paths" by (simp add: path_at_def map_of_SomeD)
  with assms(1) show "\<exists>j\<le>k. layer_path nb a j v (path_at paths v)" by (auto simp: traversed_def)
qed

lemma traversed_merge:
  assumes "traversed nb a k paths" and "dict_ok props" and keys: "fst ` set props = layer (step_rel nb) a (Suc k)"
    and good: "\<forall>(v, p)\<in>set props. layer_path nb a (Suc k) v p"
  shows "traversed nb a (Suc k) (merge_paths props paths)" and "length (merge_paths props paths) = length paths + length props"
proof -
  have t: "dict_ok paths" "fst ` set paths = ball (step_rel nb) a k" using assms(1) by (simp_all add: traversed_def)
  have "fst ` set props \<inter> fst ` set paths = {}" unfolding keys t(2) by (auto simp: layer_Suc)
  note m = merge_paths_facts [OF t(1) assms(2) this]
  have "fst ` set (merge_paths props paths) = ball (step_rel nb) a (Suc k)" unfolding m(2) image_Un keys t(2) ball_Suc ..
  moreover have "\<exists>j\<le>Suc k. layer_path nb a j v p" if "(v, p) \<in> set (merge_paths props paths)" for v p
  proof -
    from that consider "(v, p) \<in> set paths" | "(v, p) \<in> set props" unfolding m(2) by blast
    then show ?thesis
    proof cases
      case 1
      with assms(1) obtain j where "j \<le> k" "layer_path nb a j v p" by (auto simp: traversed_def)
      then show ?thesis by (auto intro!: exI [of _ j])
    qed (use good in auto)
  qed
  ultimately show "traversed nb a (Suc k) (merge_paths props paths)" using m(1) unfolding traversed_def by blast
  show "length (merge_paths props paths) = length paths + length props" by (rule m(3))
qed

lemma traversed_stop:
  assumes "traversed nb a k paths" and "layer (step_rel nb) a (Suc k) = {}" and "k \<le> j"
  shows "traversed nb a j paths"
proof -
  have "\<exists>i\<le>j. layer_path nb a i v p" if "(v, p) \<in> set paths" for v p
  proof -
    from assms(1) that obtain i where "i \<le> k" "layer_path nb a i v p" by (auto simp: traversed_def)
    with assms(3) show ?thesis by (auto intro!: exI [of _ i])
  qed
  then show ?thesis using assms(1) layer_empty_ball [OF assms(2,3)] by (auto simp: traversed_def)
qed

lemma reads_reachable_loop:
  assumes st: "stores d ns es"
    and overflow: "limit < card (ball (step_rel (neighbors_of (map snd es))) a last_depth) \<Longrightarrow>
      E (KnowledgeGraphError ''graph traversal expansion exceeds the supported limit'')"
  shows "traversed (neighbors_of (map snd es)) a k paths \<Longrightarrow> set frontier = layer (step_rel (neighbors_of (map snd es))) a k
     \<Longrightarrow> length paths \<le> limit \<Longrightarrow> k + rounds \<le> last_depth \<Longrightarrow>
     reads d rv E (reachable_loop rounds limit (int k + 1) paths frontier)
       (\<lambda>ps. traversed (neighbors_of (map snd es)) a (k + rounds) ps \<and> length ps \<le> limit)"
proof (induction rounds arbitrary: k paths frontier)
  case 0
  then show ?case by (simp add: reads_returnR)
next
  case (Suc rounds)
  let ?nb = "neighbors_of (map snd es)" and ?seen = "\<lambda>v. v \<in> fst ` set paths" and ?budget = "limit - length paths"
  let ?front = "map (\<lambda>u. (u, path_at paths u)) (sort_key (\<lambda>v. deterministic_key (path_at paths v)) frontier)"
  have seen: "?seen v \<longleftrightarrow> v \<in> ball (step_rel ?nb) a k" for v using Suc.prems(1) by (simp add: traversed_def)
  have "layer_path ?nb a k u (path_at paths u)" if "u \<in> set frontier" for u
  proof -
    have u: "u \<in> layer (step_rel ?nb) a k" using that Suc.prems(2) by simp
    then have "u \<in> ball (step_rel ?nb) a k" by (rule subsetD [OF layer_ball])
    from traversed_path_at(2) [OF Suc.prems(1) this] obtain j where "layer_path ?nb a j u (path_at paths u)" by blast
    moreover from this u have "j = k" by (intro layer_unique) (auto simp: layer_path_def)
    ultimately show ?thesis by simp
  qed
  then have front: "fst ` set ?front = layer (step_rel ?nb) a k" "\<forall>(u, p)\<in>set ?front. layer_path ?nb a k u p"
    using Suc.prems(2) by (auto simp: image_image)
  have over: "E (KnowledgeGraphError ''graph traversal expansion exceeds the supported limit'')" if "?budget < card (layer (step_rel ?nb) a (Suc k))"
  proof (rule overflow)
    have "length paths = card (ball (step_rel ?nb) a k)" using Suc.prems(1) by (intro dict_card) (simp_all add: traversed_def)
    with that have "limit < card (ball (step_rel ?nb) a (Suc k))" by (simp add: ball_card_Suc)
    also have "\<dots> \<le> card (ball (step_rel ?nb) a last_depth)" using Suc.prems(4) by (intro ball_card_mono) simp
    finally show "limit < card (ball (step_rel ?nb) a last_depth)" .
  qed
  note round = reads_round [where nb = ?nb and nbR = neighbor_steps and E = E and seen = ?seen and a = a and k = k and rv = rv and budget = ?budget,
      OF reads_neighbor_steps [OF st] over seen front, unfolded foldR_map prod.case]
  show ?case
    unfolding reachable_loop.simps
  proof (rule reads_bindR [OF round])
    fix props assume "proposed ?seen ?budget (layer_path ?nb a (Suc k)) (step_rel ?nb `` layer (step_rel ?nb) a k) props"
    note p = proposed_layer [OF seen this]
    show "reads d rv E (if props = [] then returnR paths
        else reachable_loop rounds limit (int k + 1 + 1) (merge_paths props paths) (map fst props))
        (\<lambda>ps. traversed ?nb a (k + Suc rounds) ps \<and> length ps \<le> limit)"
    proof (cases "props = []")
      case True
      with p(3) Suc.prems(1,3) show ?thesis by (auto intro!: reads_returnR traversed_stop [of _ _ k])
    next
      case False
      note m = traversed_merge [OF Suc.prems(1) p(1,3,4)]
      have "reads d rv E (reachable_loop rounds limit (int (Suc k) + 1) (merge_paths props paths) (map fst props))
          (\<lambda>ps. traversed ?nb a (Suc k + rounds) ps \<and> length ps \<le> limit)"
        by (rule Suc.IH [OF m(1)]) (use p(2,3) m(2) Suc.prems(3,4) in auto)
      with False show ?thesis by (simp add: add.commute [of 1])
    qed
  qed
qed

text \<open>The paths of a traversal are exactly the nodes within \<open>max_depth\<close> steps of the anchor.\<close>

lemma reads_reachable_paths:
  assumes st: "stores d ns es" and "0 < limit"
    and overflow: "limit < card (ball (step_rel (neighbors_of (map snd es))) a (nat max_depth)) \<Longrightarrow>
      E (KnowledgeGraphError ''graph traversal expansion exceeds the supported limit'')"
  shows "reads d rv E (reachable_paths limit a max_depth) (traversed (neighbors_of (map snd es)) a (nat max_depth))"
proof -
  have root: "traversed (neighbors_of (map snd es)) a 0 [(a, root_path a)]"
    by (simp add: traversed_def layer_path_root dict_ok_def)
  have "reads d rv E (reachable_paths limit a max_depth) (\<lambda>ps. traversed (neighbors_of (map snd es)) a (0 + nat max_depth) ps \<and> length ps \<le> limit)"
    unfolding reachable_paths_def using reads_reachable_loop [where k = 0 and E = E and limit = limit, OF st overflow root, where frontier = "[a]"] assms(2) by (simp add: root_path_def Suc_le_eq)
  then show ?thesis by (rule reads_weaken) auto
qed

section \<open>The dependencies of a task\<close>

definition collected :: "neighbors \<Rightarrow> string \<Rightarrow> nat \<Rightarrow> (string \<times> graph_path) list \<Rightarrow> bool" where
  "collected nb a k found \<longleftrightarrow> dict_ok found \<and> fst ` set found = ball (step_rel nb) a k - {a}
     \<and> (\<forall>(v, p)\<in>set found. \<exists>j. 1 \<le> j \<and> j \<le> k \<and> layer_path nb a j v p)"

lemma root_in_ball: "a \<in> ball R a k"
  using ball_mono [of 0 k R a] by simp

lemma ball_card_pos: "0 < card (ball (step_rel nb) a k)"
  using root_in_ball step_ball_finite by (metis card_gt_0_iff empty_iff)

lemma collected_merge:
  assumes "collected nb a k found" and "dict_ok props" and keys: "fst ` set props = layer (step_rel nb) a (Suc k)"
    and good: "\<forall>(v, p)\<in>set props. layer_path nb a (Suc k) v p"
  shows "collected nb a (Suc k) (merge_paths props found)" and "length (merge_paths props found) = length found + length props"
proof -
  have t: "dict_ok found" "fst ` set found = ball (step_rel nb) a k - {a}" using assms(1) by (simp_all add: collected_def)
  have "fst ` set props \<inter> fst ` set found = {}" unfolding keys t(2) by (auto simp: layer_Suc)
  note m = merge_paths_facts [OF t(1) assms(2) this]
  have "a \<notin> layer (step_rel nb) a (Suc k)" by (simp add: layer_Suc root_in_ball)
  then have "fst ` set (merge_paths props found) = ball (step_rel nb) a (Suc k) - {a}" unfolding m(2) image_Un keys t(2) ball_Suc by blast
  moreover have "\<exists>j. 1 \<le> j \<and> j \<le> Suc k \<and> layer_path nb a j v p" if "(v, p) \<in> set (merge_paths props found)" for v p
  proof -
    from that consider "(v, p) \<in> set found" | "(v, p) \<in> set props" unfolding m(2) by blast
    then show ?thesis
    proof cases
      case 1
      with assms(1) obtain j where "1 \<le> j" "j \<le> k" "layer_path nb a j v p" by (auto simp: collected_def)
      then show ?thesis by (auto intro!: exI [of _ j])
    qed (use good in auto)
  qed
  ultimately show "collected nb a (Suc k) (merge_paths props found)" using m(1) unfolding collected_def by blast
  show "length (merge_paths props found) = length found + length props" by (rule m(3))
qed

lemma collected_stop:
  assumes "collected nb a k found" and "layer (step_rel nb) a (Suc k) = {}" and "k \<le> j"
  shows "collected nb a j found"
proof -
  have "\<exists>i. 1 \<le> i \<and> i \<le> j \<and> layer_path nb a i v p" if "(v, p) \<in> set found" for v p
  proof -
    from assms(1) that obtain i where "1 \<le> i" "i \<le> k" "layer_path nb a i v p" by (auto simp: collected_def)
    with assms(3) show ?thesis by (auto intro!: exI [of _ i])
  qed
  then show ?thesis using assms(1) layer_empty_ball [OF assms(2,3)] by (auto simp: collected_def)
qed

lemma reads_dependency_loop:
  fixes es defines "nb \<equiv> dependencies_of (map snd es)"
  assumes st: "stores d ns es"
    and overflow: "limit < card (ball (step_rel nb) a last_depth - {a}) \<Longrightarrow> E (KnowledgeGraphError ''dependency expansion exceeds the supported limit'')"
  shows "collected nb a k found \<Longrightarrow> set visited = ball (step_rel nb) a k
     \<Longrightarrow> fst ` set frontier = layer (step_rel nb) a k \<Longrightarrow> \<forall>(u, p)\<in>set frontier. layer_path nb a k u p \<Longrightarrow> length found \<le> limit \<Longrightarrow> k + rounds \<le> last_depth \<Longrightarrow>
     reads d rv E (dependency_loop rounds limit (int k + 1) visited found frontier)
       (\<lambda>(vs, fs, fr). collected nb a (k + rounds) fs \<and> length fs \<le> limit \<and> set vs = ball (step_rel nb) a (k + rounds)
          \<and> fst ` set fr = layer (step_rel nb) a (k + rounds))"
proof (induction rounds arbitrary: k visited found frontier)
  case 0
  then show ?case by (simp add: reads_returnR)
next
  case (Suc rounds)
  let ?seen = "\<lambda>v. v \<in> set visited" and ?budget = "limit - length found"
  let ?Q = "\<lambda>(vs, fs, fr). collected nb a (k + Suc rounds) fs \<and> length fs \<le> limit \<and> set vs = ball (step_rel nb) a (k + Suc rounds)
          \<and> fst ` set fr = layer (step_rel nb) a (k + Suc rounds)"
  have seen: "?seen v \<longleftrightarrow> v \<in> ball (step_rel nb) a k" for v using Suc.prems(2) by simp
  have over: "E (KnowledgeGraphError ''dependency expansion exceeds the supported limit'')" if "?budget < card (layer (step_rel nb) a (Suc k))"
  proof (rule overflow)
    have "length found = card (ball (step_rel nb) a k - {a})" using Suc.prems(1) by (intro dict_card) (simp_all add: collected_def)
    with that have "limit < card (ball (step_rel nb) a (Suc k)) - 1" using ball_card_pos [of nb a k] by (simp add: ball_card_Suc root_in_ball)
    also have "\<dots> \<le> card (ball (step_rel nb) a last_depth) - 1" using Suc.prems(6) by (intro diff_le_mono ball_card_mono) simp
    finally show "limit < card (ball (step_rel nb) a last_depth - {a})" by (simp add: root_in_ball)
  qed
  note round = reads_round [where nb = nb and nbR = outgoing_dependency_steps and E = E and seen = ?seen and a = a and k = k and rv = rv and budget = ?budget,
      OF reads_dependency_steps [OF st, folded nb_def] over seen Suc.prems(3,4)]
  show ?case
    unfolding dependency_loop.simps
  proof (rule reads_bindR [OF round])
    fix props assume "proposed ?seen ?budget (layer_path nb a (Suc k)) (step_rel nb `` layer (step_rel nb) a k) props"
    note p = proposed_layer [OF seen this]
    show "reads d rv E (if props = [] then returnR (visited, found, [])
        else dependency_loop rounds limit (int k + 1 + 1) (visited @ map fst props) (merge_paths props found) props) ?Q"
    proof (cases "props = []")
      case True
      with p(3) have empty: "layer (step_rel nb) a (Suc k) = {}" by auto
      have "layer (step_rel nb) a (k + Suc rounds) \<subseteq> {}"
        using layer_empty_ball [OF empty, of "k + rounds"] layer_empty_ball [OF empty, of "k + Suc rounds"]
          layer_ball [of "step_rel nb" a "k + Suc rounds"] layer_Suc [of "step_rel nb" a "k + rounds"] by auto
      with True Suc.prems(2,5) collected_stop [OF Suc.prems(1) empty, of "k + Suc rounds"] layer_empty_ball [OF empty, of "k + Suc rounds"]
      show ?thesis by (auto intro!: reads_returnR)
    next
      case False
      note m = collected_merge [OF Suc.prems(1) p(1,3,4)]
      have "reads d rv E (dependency_loop rounds limit (int (Suc k) + 1) (visited @ map fst props) (merge_paths props found) props)
          (\<lambda>(vs, fs, fr). collected nb a (Suc k + rounds) fs \<and> length fs \<le> limit \<and> set vs = ball (step_rel nb) a (Suc k + rounds)
          \<and> fst ` set fr = layer (step_rel nb) a (Suc k + rounds))"
        by (rule Suc.IH [OF m(1)]) (use p(2,3,4) m(2) Suc.prems(2,5,6) in \<open>auto simp: ball_Suc\<close>)
      with False show ?thesis by (simp add: add.commute [of 1])
    qed
  qed
qed

text \<open>The dependencies found are those within the limit, and the traversal is truncated exactly when there are more.\<close>

lemma reads_dependency_paths:
  fixes es defines "nb \<equiv> dependencies_of (map snd es)"
  assumes st: "stores d ns es"
    and overflow: "limit < card (ball (step_rel nb) a (nat max_depth) - {a}) \<Longrightarrow>
      E (KnowledgeGraphError ''dependency expansion exceeds the supported limit'')"
  shows "reads d rv E (dependency_paths limit a max_depth)
     (\<lambda>(found, truncated). collected nb a (nat max_depth) found \<and> length found \<le> limit
        \<and> truncated = (layer (step_rel nb) a (Suc (nat max_depth)) \<noteq> {}))"
proof -
  have root: "collected nb a 0 []" by (simp add: collected_def)
  have loop: "reads d rv E (dependency_loop (nat max_depth) limit 1 [a] [] [(a, root_path a)])
     (\<lambda>(vs, fs, fr). collected nb a (nat max_depth) fs \<and> length fs \<le> limit \<and> set vs = ball (step_rel nb) a (nat max_depth)
          \<and> fst ` set fr = layer (step_rel nb) a (nat max_depth))"
    using reads_dependency_loop [where k = 0 and E = E and visited = "[a]" and frontier = "[(a, root_path a)]" and limit = limit and rv = rv
      and rounds = "nat max_depth", OF st overflow [unfolded nb_def] root [unfolded nb_def], folded nb_def]
    by (simp add: layer_path_root)
  have any: "reads d rv E (anyR (\<lambda>(u, p). bindR (outgoing_dependency_steps u) (\<lambda>targets.
       returnR (\<exists>(target, step)\<in>set targets. target \<notin> set vs))) fr) (\<lambda>b. b = (\<exists>x\<in>set fr. \<exists>(v, s)\<in>set (nb (fst x)). v \<notin> set vs))" for vs fr
  proof (rule reads_anyR)
    fix x assume "x \<in> set fr"
    show "reads d rv E ((case x of (u, p) \<Rightarrow> bindR (outgoing_dependency_steps u) (\<lambda>targets.
       returnR (\<exists>(target, step)\<in>set targets. target \<notin> set vs)))) (\<lambda>b. b = (\<exists>(v, s)\<in>set (nb (fst x)). v \<notin> set vs))"
      by (cases x, simp only: prod.case fst_conv, rule reads_bind_eq [OF reads_dependency_steps [OF st]]) (simp add: nb_def reads_returnR)
  qed
  show ?thesis
    unfolding dependency_paths_def root_path_def [symmetric]
  proof (rule reads_bindR [OF loop], clarify)
    fix vs fs fr assume c: "collected nb a (nat max_depth) fs" "length fs \<le> limit" and vs: "set vs = ball (step_rel nb) a (nat max_depth)"
      and fr: "fst ` set fr = layer (step_rel nb) a (nat max_depth)"
    have "(\<exists>x\<in>set fr. \<exists>(v, s)\<in>set (nb (fst x)). v \<notin> set vs) \<longleftrightarrow> (\<exists>u\<in>fst ` set fr. \<exists>v\<in>fst ` set (nb u). v \<notin> set vs)" by force
    also have "\<dots> \<longleftrightarrow> layer (step_rel nb) a (Suc (nat max_depth)) \<noteq> {}" unfolding fr vs layer_Suc step_rel_image by blast
    finally have more: "(\<exists>x\<in>set fr. \<exists>(v, s)\<in>set (nb (fst x)). v \<notin> set vs) \<longleftrightarrow> layer (step_rel nb) a (Suc (nat max_depth)) \<noteq> {}" .
    show "reads d rv E (bindR (anyR (\<lambda>(u, p). bindR (outgoing_dependency_steps u) (\<lambda>targets.
       returnR (\<exists>(target, step)\<in>set targets. target \<notin> set vs))) fr) (\<lambda>truncated. returnR (fs, truncated)))
       (\<lambda>(found, truncated). collected nb a (nat max_depth) found \<and> length found \<le> limit
        \<and> truncated = (layer (step_rel nb) a (Suc (nat max_depth)) \<noteq> {}))"
      by (rule reads_bind_eq [OF any]) (simp add: reads_returnR c more)
  qed
qed

section \<open>The relations\<close>

definition adjacent :: "knowledge_edge list \<Rightarrow> (string \<times> string) set" where
  "adjacent es = (\<Union>e\<in>set es. {(ke_source_node_id e, ke_target_node_id e), (ke_target_node_id e, ke_source_node_id e)})"

lemma step_rel_neighbors: "step_rel (neighbors_of es) = adjacent es"
  by (force simp: step_rel_def neighbors_of_def edges_at_def step_across_def adjacent_def)

lemma step_rel_dependencies: "step_rel (dependencies_of es) = dependency_rel es"
  by (auto simp: step_rel_def dependencies_of_def dependency_rel_def dependency_pairs_def image_iff)

end
