(* ===== verification/Knowledge_Services.thy ===== *)
theory Knowledge_Services
  imports Knowledge_Traversal
begin

text \<open>
  The three graph services on a stable, well-formed index: what a dependency inspection, a search and a next-step context
  contain, in terms of the stored nodes and edges. None of the checks their own result constructors make can fail; the
  only errors left are the documented limits.
\<close>

section \<open>Nodes and paths of a well-formed index\<close>

lemma stores_node:
  assumes "stores d ns es" and "map_of ns i = Some n"
  shows "kn_node_id n = i" and "wf_node n" and "is_identifier i"
proof -
  have "(i, n) \<in> set ns" using assms(2) by (rule map_of_SomeD)
  with assms(1) show "kn_node_id n = i" "wf_node n" by (auto simp: stores_def graph_ok_def)
  then show "is_identifier i" by (simp add: wf_node_def)
qed

lemma stores_known: "i \<in> fst ` set ns \<Longrightarrow> \<exists>n. map_of ns i = Some n"
  by (metis map_of_eq_None_iff not_None_eq)

lemma known_identifier: "stores d ns es \<Longrightarrow> i \<in> fst ` set ns \<Longrightarrow> is_identifier i"
  using stores_known [of i ns] stores_node(3) [of d ns es i] by blast

lemma adjacent_known: "stores d ns es \<Longrightarrow> (u, v) \<in> adjacent (map snd es) \<Longrightarrow> v \<in> fst ` set ns"
  by (auto simp: adjacent_def stores_def graph_ok_def edge_grounded_def)

lemma dependency_adjacent: "dependency_rel es \<subseteq> adjacent es"
  by (auto simp: dependency_rel_def dependency_pairs_def adjacent_def)

lemma ball_known:
  assumes st: "stores d ns es" and a: "a \<in> fst ` set ns" and R: "R \<subseteq> adjacent (map snd es)" and v: "v \<in> ball R a k"
  shows "v \<in> fst ` set ns"
proof -
  have "(a, v) \<in> R\<^sup>*" using v ball_rtrancl [of R a k] by blast
  then show ?thesis by (induction) (use a R adjacent_known [OF st] in auto)
qed

lemma dependency_task:
  assumes st: "stores d ns es" and "(u, v) \<in> dependency_rel (map snd es)"
  shows "\<exists>n status. map_of ns v = Some n \<and> kn_task_status n = Some status"
proof -
  have "is_task (map_of ns v)" using assms by (auto simp: dependency_rel_def dependency_pairs_def stores_def graph_ok_def edge_grounded_def)
  then obtain n where n: "map_of ns v = Some n" "kn_node_type n = TASK" by (auto simp: is_task_def split: option.splits)
  with stores_node(2) [OF st n(1)] show ?thesis by (auto simp: wf_node_def)
qed

lemma validate_layer_path:
  assumes p: "layer_path nb a k v p" and k: "1 \<le> k" "k \<le> 3" and ids: "\<And>i. i \<in> ball (step_rel nb) a k \<Longrightarrow> is_identifier i"
    and links: "\<And>u w s. (w, s) \<in> set (nb u) \<Longrightarrow> validate_path_step dep label (u, w, s) = Inr ()"
    and start: "start = None \<or> start = Some a"
  shows "validate_graph_path start v (gp_depth p) (gp_node_ids p) (gp_steps p) label dep = Inr ()"
proof -
  have ok: "path_ok nb a v p" "gp_depth p = int k" "set (gp_node_ids p) \<subseteq> ball (step_rel nb) a k" using p by (simp_all add: layer_path_def)
  have "checkE (\<lambda>i. validate_identifier i (label @ '' node ID'')) (gp_node_ids p) = Inr ()" using ok(3) ids by auto
  moreover have "checkE (validate_path_step dep label) (zip (butlast (gp_node_ids p)) (zip (tl (gp_node_ids p)) (gp_steps p))) = Inr ()"
    unfolding checkE_eq_Inr using ok(1) links by (fastforce simp: path_ok_def path_links_def)
  ultimately show ?thesis
    using ok(1,2) k start by (auto simp: validate_graph_path_def path_ok_def MAX_GRAPH_TRAVERSAL_DEPTH_def bindE_eq_Inr)
qed

lemma neighbor_links: "(w, s) \<in> set (neighbors_of es u) \<Longrightarrow> validate_path_step False label (u, w, s) = Inr ()"
  by (auto simp: neighbors_of_def edges_at_def step_across_def step_of_def validate_path_step_def split: if_splits)

lemma dependency_links: "(w, s) \<in> set (dependencies_of es u) \<Longrightarrow> validate_path_step True label (u, w, s) = Inr ()"
  by (auto simp: dependencies_of_def step_of_def validate_path_step_def is_dependency_def)

section \<open>Dependency inspection\<close>

text \<open>
  What an inspection says of a task: its dependencies are exactly the tasks reachable over at most \<open>k\<close> dependency edges,
  each with its stored status and its distance; it is truncated exactly when some lie further away; and it is satisfied
  exactly when it lists no reason.
\<close>

definition inspects :: "(string \<times> knowledge_node) list \<Rightarrow> knowledge_edge list \<Rightarrow> string \<Rightarrow> string \<Rightarrow> int \<Rightarrow> dependency_inspection \<Rightarrow> bool" where
  "inspects ns es rv t k i \<longleftrightarrow> di_task_id i = t \<and> di_max_depth i = k \<and> di_index_revision_digest i = rv
     \<and> ds_node_id ` set (di_dependencies i) = ball (dependency_rel es) t (nat k) - {t}
     \<and> (\<forall>s\<in>set (di_dependencies i). (\<exists>n. map_of ns (ds_node_id s) = Some n \<and> kn_task_status n = Some (ds_task_status s))
          \<and> ds_node_id s \<in> layer (dependency_rel es) t (nat (ds_depth s)) \<and> ds_satisfied s = (ds_task_status s = STATUS_COMPLETED))
     \<and> di_truncated i = (layer (dependency_rel es) t (Suc (nat k)) \<noteq> {})
     \<and> di_unmet_reasons i = unmet_dependency_reasons (di_dependencies i) (di_truncated i) k
     \<and> di_all_satisfied i = (di_unmet_reasons i = [])"

definition state_for :: "(string \<times> knowledge_node) list \<Rightarrow> string \<times> graph_path \<Rightarrow> dependency_state" where
  "state_for ns = (\<lambda>(v, p). let status = the (kn_task_status (the (map_of ns v))) in
     \<lparr>ds_node_id = v, ds_task_status = status, ds_depth = gp_depth p, ds_path_node_ids = gp_node_ids p, ds_path_steps = gp_steps p,
      ds_satisfied = (status = STATUS_COMPLETED)\<rparr>)"

lemma identifier_text: "is_identifier i \<Longrightarrow> CHR 0x00 \<notin> set i \<and> length i \<le> 256"
proof (cases i)
  case (Cons c cs)
  assume "is_identifier i"
  with Cons have c: "is_ascii_alnum c" "length cs \<le> 255" "\<forall>x\<in>set cs. is_ascii_alnum x \<or> x \<in> set ''._:/-''"
    by (simp_all add: is_identifier_def list_all_iff)
  have "\<not> is_ascii_alnum (CHR 0x00)" "CHR 0x00 \<notin> set ''._:/-''" by code_simp+
  with c Cons show ?thesis by auto
qed (simp add: is_identifier_def)

lemma status_value_text: "CHR 0x00 \<notin> set (task_status_value s) \<and> length (task_status_value s) \<le> 9"
  by (cases s) simp_all

lemma depth_text: "0 \<le> k \<Longrightarrow> k \<le> 3 \<Longrightarrow> CHR 0x00 \<notin> set (show_int k) \<and> length (show_int k) \<le> 1"
proof -
  assume "0 \<le> k" "k \<le> 3"
  then consider "k = 0" | "k = 1" | "k = 2" | "k = 3" by linarith
  then show ?thesis by cases (simp; code_simp)+
qed

lemma reasons_bounded:
  assumes "\<And>s. s \<in> set deps \<Longrightarrow> is_identifier (ds_node_id s)" and "0 \<le> k" "k \<le> 3" and "length deps \<le> 1000"
  shows "strict_bounded_strings (unmet_dependency_reasons deps truncated k) label 1001 = Inr (unmet_dependency_reasons deps truncated k)"
proof -
  have "length (filter (\<lambda>s. \<not> ds_satisfied s) deps) \<le> 1000" by (rule order_trans [OF length_filter_le assms(4)])
  then have "length (unmet_dependency_reasons deps truncated k) \<le> 1001" by (simp add: unmet_dependency_reasons_def)
  moreover have "v \<noteq> [] \<and> CHR 0x00 \<notin> set v \<and> length v \<le> 1024" if "v \<in> set (unmet_dependency_reasons deps truncated k)" for v
  proof -
    from that consider (dep) s where "s \<in> set deps" "v = ''dependency '' @ ds_node_id s @ '' is '' @ task_status_value (ds_task_status s)"
      | (cut) "v = ''dependency traversal truncated at depth '' @ show_int k"
      by (auto simp: unmet_dependency_reasons_def split: if_splits)
    then show ?thesis
    proof cases
      case dep
      with identifier_text [OF assms(1) [OF dep(1)]] status_value_text [of "ds_task_status s"] show ?thesis by auto
    next
      case cut
      with depth_text [OF assms(2,3)] show ?thesis by auto
    qed
  qed
  ultimately show ?thesis by (force simp: strict_bounded_strings_def)
qed

lemma reads_inspect_dependency:
  assumes st: "stores d ns es" and t: "t \<in> fst ` set ns" and p: "layer_path (dependencies_of (map snd es)) t j v p" and j: "1 \<le> j" "j \<le> 3"
  shows "reads d rv E (inspect_dependency (v, p)) (\<lambda>s. s = state_for ns (v, p))"
proof -
  let ?nb = "dependencies_of (map snd es)"
  have v: "v \<in> layer (dependency_rel (map snd es)) t j" using p by (simp add: layer_path_def step_rel_dependencies)
  with j(1) obtain u where "(u, v) \<in> dependency_rel (map snd es)" by (cases j) (auto simp: layer_Suc)
  from dependency_task [OF st this] obtain n status where n: "map_of ns v = Some n" "kn_task_status n = Some status" by blast
  note node = stores_node [OF st n(1)]
  have known: "is_identifier i" if "i \<in> ball (step_rel ?nb) t j" for i
  proof -
    have "i \<in> fst ` set ns" using that by (intro ball_known [OF st t dependency_adjacent]) (simp add: step_rel_dependencies)
    then show ?thesis by (rule known_identifier [OF st])
  qed
  have path: "validate_graph_path None v (gp_depth p) (gp_node_ids p) (gp_steps p) ''dependency path'' True = Inr ()"
    by (rule validate_layer_path [OF p j known dependency_links]) simp_all
  have "mk_dependency_state (state_for ns (v, p)) = Inr (state_for ns (v, p))"
    using path node by (simp add: mk_dependency_state_def state_for_def Let_def)
  then show ?thesis
    unfolding inspect_dependency_def prod.case
    by (intro reads_bind_eq [OF reads_required_node [OF st n(1)]]) (simp add: n node state_for_def reads_liftR)
qed

lemma reads_mapR_eq:
  assumes "\<And>x. x \<in> set xs \<Longrightarrow> reads d rv E (f x) (\<lambda>y. y = g x)"
  shows "reads d rv E (mapR f xs) (\<lambda>ys. ys = map g xs)"
proof -
  have "ys = map g xs" if "list_all2 (\<lambda>x y. y = g x) xs ys" for ys using that by induction auto
  then show ?thesis using reads_mapR [of xs d rv E f "\<lambda>x y. y = g x", OF assms] by (auto elim: reads_weaken)
qed

definition inspection_for ::
  "(string \<times> knowledge_node) list \<Rightarrow> string \<Rightarrow> string \<Rightarrow> int \<Rightarrow> (string \<times> graph_path) list \<Rightarrow> bool \<Rightarrow> dependency_inspection" where
  "inspection_for ns rv t k found truncated =
     (let deps = map (state_for ns) (sort_key (\<lambda>(v, p). (gp_depth p, v)) found);
          reasons = unmet_dependency_reasons deps truncated k in
      \<lparr>di_task_id = t, di_max_depth = k, di_index_revision_digest = rv, di_dependencies = deps, di_all_satisfied = (reasons = []),
       di_truncated = truncated, di_unmet_reasons = reasons, di_authority = DERIVED_CANDIDATE_AUTHORITY\<rparr>)"

lemma state_for_id: "ds_node_id (state_for ns x) = fst x" "ds_depth (state_for ns x) = gp_depth (snd x)"
    "ds_path_node_ids (state_for ns x) = gp_node_ids (snd x)"
  by (simp_all add: state_for_def case_prod_unfold Let_def)

lemma collected_path: "collected nb t k found \<Longrightarrow> x \<in> set found \<Longrightarrow> \<exists>j. 1 \<le> j \<and> j \<le> k \<and> layer_path nb t j (fst x) (snd x)"
  by (cases x) (auto simp: collected_def)

lemma inspection_for_mk:
  assumes st: "stores d ns es" and t: "t \<in> fst ` set ns" and k: "0 \<le> k" "k \<le> 3" and rv: "is_sha256 rv"
    and c: "collected (dependencies_of (map snd es)) t (nat k) found" and len: "length found \<le> 1000"
  shows "mk_dependency_inspection (inspection_for ns rv t k found truncated) = Inr (inspection_for ns rv t k found truncated)"
proof -
  let ?deps = "map (state_for ns) (sort_key (\<lambda>(v, p). (gp_depth p, v)) found)"
  have ids: "is_identifier (ds_node_id s)" if "s \<in> set ?deps" for s
  proof -
    from that have "ds_node_id s \<in> fst ` set found" by (force simp: state_for_id)
    with c have "ds_node_id s \<in> ball (step_rel (dependencies_of (map snd es))) t (nat k)" by (simp add: collected_def)
    then have "ds_node_id s \<in> fst ` set ns" by (intro ball_known [OF st t dependency_adjacent]) (simp add: step_rel_dependencies)
    then show ?thesis by (rule known_identifier [OF st])
  qed
  have starts: "hd (ds_path_node_ids s) = t \<and> \<not> k < ds_depth s" if "s \<in> set ?deps" for s
  proof -
    from that obtain x where "x \<in> set found" "s = state_for ns x" by auto
    moreover from collected_path [OF c this(1)] obtain j where "j \<le> nat k" "layer_path (dependencies_of (map snd es)) t j (fst x) (snd x)" by blast
    moreover from this k(1) have "gp_depth (snd x) \<le> k" "hd (gp_node_ids (snd x)) = t" by (simp_all add: layer_path_def path_ok_def le_nat_iff)
    ultimately show ?thesis by (simp add: state_for_id)
  qed
  have "sorted (map (\<lambda>s. (ds_depth s, ds_node_id s)) ?deps)"
    using sorted_sort_key [of "\<lambda>(v, p). (gp_depth p, v)" found] by (simp add: comp_def state_for_id case_prod_unfold)
  then have order: "sort_key (\<lambda>s. (ds_depth s, ds_node_id s)) ?deps = ?deps" by (rule sort_key_id_if_sorted)
  have unique: "distinct (map ds_node_id ?deps)"
  proof -
    have "mset (map fst (sort_key (\<lambda>(v, p). (gp_depth p, v)) found)) = mset (map fst found)" by simp
    then have "distinct (map fst (sort_key (\<lambda>(v, p). (gp_depth p, v)) found))"
      using c dict_ok_distinct unfolding collected_def by (metis mset_eq_imp_distinct_iff)
    then show ?thesis by (simp add: comp_def state_for_id)
  qed
  have reasons: "strict_bounded_strings (unmet_dependency_reasons ?deps truncated k) label 1001 = Inr (unmet_dependency_reasons ?deps truncated k)" for label
    by (rule reasons_bounded) (use ids k len in simp_all)
  show ?thesis
    using known_identifier [OF st t] k rv len starts order unique reasons
    by (simp add: inspection_for_def mk_dependency_inspection_def Let_def validate_max_depth_def MAX_GRAPH_TRAVERSAL_DEPTH_def
      validate_candidate_authority_def)
qed

lemma inspection_for_inspects:
  assumes st: "stores d ns es" and c: "collected (dependencies_of (map snd es)) t (nat k) found"
    and trunc: "truncated = (layer (dependency_rel (map snd es)) t (Suc (nat k)) \<noteq> {})"
  shows "inspects ns (map snd es) rv t k (inspection_for ns rv t k found truncated)"
proof -
  have ids: "ds_node_id ` set (di_dependencies (inspection_for ns rv t k found truncated)) = ball (dependency_rel (map snd es)) t (nat k) - {t}"
    using c by (simp add: inspection_for_def Let_def image_image state_for_id collected_def step_rel_dependencies)
  have "(\<exists>n. map_of ns (ds_node_id s) = Some n \<and> kn_task_status n = Some (ds_task_status s))
      \<and> ds_node_id s \<in> layer (dependency_rel (map snd es)) t (nat (ds_depth s)) \<and> ds_satisfied s = (ds_task_status s = STATUS_COMPLETED)"
    if "s \<in> set (di_dependencies (inspection_for ns rv t k found truncated))" for s
  proof -
    from that obtain v p where x: "(v, p) \<in> set found" "s = state_for ns (v, p)" by (auto simp: inspection_for_def Let_def)
    from collected_path [OF c x(1)] obtain j where j: "1 \<le> j" "v \<in> layer (dependency_rel (map snd es)) t j" "gp_depth p = int j"
      by (auto simp: layer_path_def step_rel_dependencies)
    then obtain u where "(u, v) \<in> dependency_rel (map snd es)" by (cases j) (auto simp: layer_Suc)
    from dependency_task [OF st this] obtain n status where "map_of ns v = Some n" "kn_task_status n = Some status" by blast
    with x(2) j show ?thesis by (simp add: state_for_def Let_def)
  qed
  with ids show ?thesis unfolding inspects_def trunc by (simp add: inspection_for_def Let_def)
qed

lemma reads_inspect:
  assumes st: "stores d ns es" and t: "map_of ns t = Some n" "kn_node_type n = TASK" and k: "0 \<le> k" "k \<le> 3"
    and rv: "is_sha256 rv" and limit: "limit \<le> 1000"
    and overflow: "limit < card (ball (dependency_rel (map snd es)) t (nat k) - {t}) \<Longrightarrow>
      E (KnowledgeGraphError ''dependency expansion exceeds the supported limit'')"
  shows "reads d rv E (inspect_in_context limit t k) (\<lambda>i. inspects ns (map snd es) rv t k i \<and> mk_dependency_inspection i = Inr i)"
proof -
  let ?nb = "dependencies_of (map snd es)" and ?R = "dependency_rel (map snd es)"
  let ?key = "\<lambda>(v, p). (gp_depth p, v)"
  have known: "t \<in> fst ` set ns" using map_of_SomeD [OF t(1)] by force
  have over: "E (KnowledgeGraphError ''dependency expansion exceeds the supported limit'')"
    if "limit < card (ball (step_rel ?nb) t (nat k) - {t})" using that overflow by (simp add: step_rel_dependencies)
  note paths = reads_dependency_paths [where rv = rv and E = E and limit = limit and a = t and max_depth = k, OF st over]
  show ?thesis
    unfolding inspect_in_context_def
  proof (rule reads_bind_eq [OF reads_required_node [OF st t(1)]], simp only: t(2) simp_thms if_False, rule reads_bindR [OF paths])
    fix x assume "case x of (found, truncated) \<Rightarrow> collected ?nb t (nat k) found \<and> length found \<le> limit
        \<and> truncated = (layer (step_rel ?nb) t (Suc (nat k)) \<noteq> {})"
    then obtain found truncated where x: "x = (found, truncated)" and c: "collected ?nb t (nat k) found" and len: "length found \<le> limit"
      and trunc: "truncated = (layer ?R t (Suc (nat k)) \<noteq> {})" by (auto simp: step_rel_dependencies)
    have each: "reads d rv E (inspect_dependency x) (\<lambda>s. s = state_for ns x)" if x: "x \<in> set (sort_key ?key found)" for x
    proof -
      from x have "x \<in> set found" by simp
      from collected_path [OF c this] obtain j where "1 \<le> j" "j \<le> nat k" "layer_path ?nb t j (fst x) (snd x)" by blast
      with k(2) reads_inspect_dependency [OF st known, of j "fst x" "snd x"] show ?thesis by simp
    qed
    have mk: "mk_dependency_inspection (inspection_for ns rv t k found truncated) = Inr (inspection_for ns rv t k found truncated)"
      using len limit by (intro inspection_for_mk [OF st known k rv c]) simp
    have "inspects ns (map snd es) rv t k (inspection_for ns rv t k found truncated)"
      by (rule inspection_for_inspects [OF st c trunc])
    then show "reads d rv E (case x of (found, truncated) \<Rightarrow> bindR (mapR inspect_dependency (sort_key ?key found)) (\<lambda>dependencies.
       let unmet_reasons = unmet_dependency_reasons dependencies truncated k in
       bindR revisionR (\<lambda>revision. liftR (mk_dependency_inspection \<lparr>di_task_id = t, di_max_depth = k, di_index_revision_digest = revision,
         di_dependencies = dependencies, di_all_satisfied = (unmet_reasons = []), di_truncated = truncated,
         di_unmet_reasons = unmet_reasons, di_authority = DERIVED_CANDIDATE_AUTHORITY\<rparr>)))) (\<lambda>i. inspects ns (map snd es) rv t k i \<and> mk_dependency_inspection i = Inr i)"
      using mk unfolding x prod.case Let_def
      by (intro reads_bind_eq [OF reads_mapR_eq [OF each]] reads_bind_eq [OF reads_revisionR [OF refl]] reads_liftR)
        (simp_all add: inspection_for_def Let_def)
  qed
qed

text \<open>A computation that succeeds inside a reader.\<close>

lemma reads_lift_eq: "m = Inr x \<Longrightarrow> reads d rv E (f x) P \<Longrightarrow> reads d rv E (bindR (liftR m) f) P"
  by (rule reads_bind_eq [OF reads_liftR]) simp_all

end
