(* ===== verification/Knowledge_Searches.thy ===== *)
theory Knowledge_Searches
  imports Knowledge_Services
begin

text \<open>Search on a stable, well-formed index: the hits are exactly the matching nodes of the neighborhood, in order.\<close>

section \<open>Scores\<close>

lemma term_scores_any:
  assumes st: "stores d ns es" and terms: "\<forall>t\<in>set terms. normal_term t"
  shows "term_scores terms ids d = (if terms \<noteq> [] \<and> ids \<noteq> [] \<and> 128 < length terms
     then Inl (ValueError ''knowledge search supports at most 128 unique terms'')
     else Inr (scored terms (filter (\<lambda>(i, n). i \<in> set ids) ns)))"
proof (cases "128 < length terms")
  case True
  then show ?thesis by (auto simp: term_scores_def scored_def term_matches_def)
next
  case False
  with term_scores_stores [OF st _ terms, of ids] show ?thesis by simp
qed

lemma term_matches_ok: "dict_ok (term_matches terms n)" "set (term_matches terms n) \<subseteq> set (weighted_node_terms n)"
proof -
  have "dict_ok (weighted_node_terms n)" using weighted_node_terms_ok by (simp add: weights_ok_def)
  then show "dict_ok (term_matches terms n)" by (auto simp: dict_ok_def term_matches_def sorted_wrt_map sorted_wrt_filter)
  show "set (term_matches terms n) \<subseteq> set (weighted_node_terms n)" by (auto simp: term_matches_def)
qed

lemma validate_terms_ok:
  "length ts \<le> 128 \<Longrightarrow> allow_empty \<or> ts \<noteq> [] \<Longrightarrow> \<forall>t\<in>set ts. normal_term t \<Longrightarrow> sorted ts \<Longrightarrow> distinct ts \<Longrightarrow>
     validate_terms ts allow_empty label = Inr ts"
  by (auto simp: validate_terms_def normal_term_eq distinct_remdups_id sort_key_id_if_sorted)

lemma matched_terms_ok:
  assumes "length terms \<le> 128" and "allow_empty \<or> term_matches terms n \<noteq> []"
  shows "validate_terms (map fst (term_matches terms n)) allow_empty label = Inr (map fst (term_matches terms n))"
proof -
  let ?ts = "map fst (term_matches terms n)"
  have s: "sorted_wrt (<) ?ts" using term_matches_ok(1) by (simp add: dict_ok_def)
  then have d: "distinct ?ts" and "sorted ?ts" by (simp_all add: strict_sorted_iff)
  have "set ?ts \<subseteq> set terms" by (auto simp: term_matches_def)
  then have "length ?ts \<le> card (set terms)" using d by (metis card_mono distinct_card finite_set)
  then have "length ?ts \<le> 128" using assms(1) card_length [of terms] by linarith
  moreover have "\<forall>t\<in>set ?ts. normal_term t"
    using weighted_node_terms_ok [of n] term_matches_ok(2) [of terms n] by (fastforce simp: weights_ok_def)
  ultimately show ?thesis using assms(2) d \<open>sorted ?ts\<close> by (intro validate_terms_ok) auto
qed

lemma matched_weights:
  "(\<forall>t\<in>set (map fst (term_matches terms n)). map_of (weighted_node_terms n) t \<noteq> None)
     \<and> sum_list (map (\<lambda>t. the (map_of (weighted_node_terms n) t)) (map fst (term_matches terms n))) = sum_list (map snd (term_matches terms n))
     \<and> 0 \<le> sum_list (map snd (term_matches terms n))"
proof -
  have w: "map_of (weighted_node_terms n) (fst x) = Some (snd x)" "0 < snd x" if "x \<in> set (term_matches terms n)" for x
  proof -
    have x: "x \<in> set (weighted_node_terms n)" using that term_matches_ok(2) by blast
    have "distinct (map fst (weighted_node_terms n))" using weighted_node_terms_ok [of n] by (simp add: weights_ok_def dict_ok_distinct)
    with x show "map_of (weighted_node_terms n) (fst x) = Some (snd x)" by simp
    show "0 < snd x" using x weighted_node_terms_ok [of n] by (auto simp: weights_ok_def)
  qed
  have "map (\<lambda>t. the (map_of (weighted_node_terms n) t)) (map fst (term_matches terms n)) = map snd (term_matches terms n)" by (simp add: w)
  moreover have "0 \<le> sum_list (map snd (term_matches terms n))" using w(2) by (intro sum_list_nonneg) (auto intro: less_imp_le)
  ultimately show ?thesis using w(1) by (simp del: map_map)
qed

definition graph_score_at :: "nat \<Rightarrow> int" where
  "graph_score_at j = (4 - int j) * 10"

lemma knowledge_graph_score_at: "1 \<le> j \<Longrightarrow> j \<le> 3 \<Longrightarrow> knowledge_graph_score (int j) = Inr (graph_score_at j)"
  by (simp add: knowledge_graph_score_def graph_score_at_def MAX_GRAPH_TRAVERSAL_DEPTH_def)

lemma scored_projection_ok:
  assumes "length terms \<le> 128" and "allow_empty \<or> term_matches terms n \<noteq> []" and j: "1 \<le> j" "j \<le> 3"
  shows "validate_scored_projection n (int j) (map fst (term_matches terms n)) (sum_list (map snd (term_matches terms n))) (graph_score_at j)
     (sum_list (map snd (term_matches terms n)) * 100 + graph_score_at j) allow_empty label = Inr ()"
  using matched_terms_ok [OF assms(1,2)] matched_weights [of terms n] j
  by (auto simp: validate_scored_projection_def knowledge_graph_score_at Let_def graph_score_at_def)

section \<open>Hits\<close>

text \<open>What a hit says: a node of the neighborhood that matches, with a shortest path to it and the score of both.\<close>

definition path_to :: "knowledge_edge list \<Rightarrow> string \<Rightarrow> int \<Rightarrow> string \<Rightarrow> int \<Rightarrow> string list \<Rightarrow> graph_path_step list \<Rightarrow> bool" where
  "path_to es a k v depth ids steps \<longleftrightarrow> v \<noteq> a \<and> 1 \<le> depth \<and> depth \<le> k \<and> v \<in> layer (adjacent es) a (nat depth)
     \<and> path_ok (neighbors_of es) a v \<lparr>gp_depth = depth, gp_node_ids = ids, gp_steps = steps\<rparr>"

definition hit_for :: "(string \<times> knowledge_node) list \<Rightarrow> knowledge_edge list \<Rightarrow> string \<Rightarrow> string \<Rightarrow> string list \<Rightarrow> int \<Rightarrow> string \<Rightarrow> knowledge_search_hit \<Rightarrow> bool" where
  "hit_for ns es rv a terms k i h \<longleftrightarrow> map_of ns i = Some (sh_node h) \<and> sh_anchor_id h = a \<and> sh_index_revision_digest h = rv
     \<and> path_to es a k i (sh_depth h) (sh_path_node_ids h) (sh_path_steps h)
     \<and> sh_matched_terms h = map fst (term_matches terms (sh_node h)) \<and> sh_matched_terms h \<noteq> []
     \<and> sh_lexical_score h = sum_list (map snd (term_matches terms (sh_node h)))
     \<and> sh_total_score h = sh_lexical_score h * 100 + (4 - sh_depth h) * 10"

lemma traversed_path_to:
  assumes t: "traversed (neighbors_of es) a (nat k) paths" and v: "v \<in> ball (adjacent es) a (nat k)" "v \<noteq> a"
  shows "\<exists>j. 1 \<le> j \<and> j \<le> nat k \<and> layer_path (neighbors_of es) a j v (path_at paths v)
     \<and> path_to es a k v (gp_depth (path_at paths v)) (gp_node_ids (path_at paths v)) (gp_steps (path_at paths v))"
proof -
  from traversed_path_at(2) [OF t] v(1) obtain j where j: "j \<le> nat k" "layer_path (neighbors_of es) a j v (path_at paths v)"
    by (auto simp: step_rel_neighbors)
  have "j \<noteq> 0"
  proof
    assume "j = 0"
    with j(2) v(2) show False by (simp add: layer_path_def)
  qed
  then have "1 \<le> j" by simp
  moreover from this j have "path_to es a k v (gp_depth (path_at paths v)) (gp_node_ids (path_at paths v)) (gp_steps (path_at paths v))"
    using v(2) by (auto simp: path_to_def layer_path_def step_rel_neighbors path_ok_def)
  ultimately show ?thesis using j by blast
qed

lemma neighborhood_path_valid:
  assumes st: "stores d ns es" and a: "a \<in> fst ` set ns" and p: "layer_path (neighbors_of (map snd es)) a j v p" and j: "1 \<le> j" "j \<le> 3"
  shows "validate_graph_path (Some a) v (gp_depth p) (gp_node_ids p) (gp_steps p) label False = Inr ()"
proof (rule validate_layer_path [OF p j _ neighbor_links])
  fix i assume "i \<in> ball (step_rel (neighbors_of (map snd es))) a j"
  then have "i \<in> fst ` set ns" by (intro ball_known [OF st a subset_refl]) (simp add: step_rel_neighbors)
  then show "is_identifier i" by (rule known_identifier [OF st])
qed simp_all

lemma reads_build_hit:
  assumes st: "stores d ns es" and a: "a \<in> fst ` set ns" and k: "k \<le> 3" and rv: "is_sha256 rv" and len: "length terms \<le> 128"
    and t: "traversed (neighbors_of (map snd es)) a (nat k) paths" and v: "v \<in> ball (adjacent (map snd es)) a (nat k)" "v \<noteq> a"
    and n: "map_of ns v = Some n" "term_matches terms n \<noteq> []"
  shows "reads d rv E (build_hit a paths (v, term_matches terms n)) (hit_for ns (map snd es) rv a terms k v)"
proof -
  let ?p = "path_at paths v" and ?ms = "term_matches terms n"
  obtain j where j: "1 \<le> j" "j \<le> 3" "layer_path (neighbors_of (map snd es)) a j v ?p"
      "path_to (map snd es) a k v (gp_depth ?p) (gp_node_ids ?p) (gp_steps ?p)"
    using traversed_path_to [OF t v] k by auto
  then have depth: "gp_depth ?p = int j" by (simp add: layer_path_def)
  let ?total = "sum_list (map snd ?ms) * 100 + graph_score_at j"
  let ?h = "\<lparr>sh_anchor_id = a, sh_index_revision_digest = rv, sh_node = n, sh_depth = gp_depth ?p, sh_path_node_ids = gp_node_ids ?p,
      sh_path_steps = gp_steps ?p, sh_matched_terms = map fst ?ms, sh_lexical_score = sum_list (map snd ?ms), sh_graph_score = graph_score_at j,
      sh_total_score = ?total, sh_explanation = knowledge_score_explanation (gp_depth ?p) (gp_steps ?p) (map fst ?ms)
        (sum_list (map snd ?ms)) (graph_score_at j) ?total, sh_authority = DERIVED_CANDIDATE_AUTHORITY\<rparr>"
  have "mk_search_hit ?h = Inr ?h"
    using known_identifier [OF st a] rv neighborhood_path_valid [OF st a j(3,1,2)] stores_node(1) [OF st n(1)]
      scored_projection_ok [OF len _ j(1,2), of False n] n(2)
    by (simp add: mk_search_hit_def depth validate_candidate_authority_def)
  moreover have "hit_for ns (map snd es) rv a terms k v ?h" using n j(4) by (simp add: hit_for_def depth graph_score_at_def)
  ultimately show ?thesis
    unfolding build_hit_def prod.case Let_def
    by (intro reads_bind_eq [OF reads_required_node [OF st n(1)]] reads_lift_eq [OF knowledge_graph_score_at [OF j(1,2), folded depth]] reads_bind_eq [OF reads_revisionR [OF refl]] reads_liftR)
      simp
qed

section \<open>The search\<close>

abbreviation hit_id :: "knowledge_search_hit \<Rightarrow> string" where
  "hit_id h \<equiv> kn_node_id (sh_node h)"

definition searches ::
  "(string \<times> knowledge_node) list \<Rightarrow> knowledge_edge list \<Rightarrow> string \<Rightarrow> string \<Rightarrow> string list \<Rightarrow> int \<Rightarrow> int \<Rightarrow> knowledge_search_hit list \<Rightarrow> bool" where
  "searches ns es rv a terms k l r \<longleftrightarrow> (\<exists>hits. r = take (nat l) hits \<and> sorted (map search_hit_key hits) \<and> distinct (map hit_id hits)
     \<and> hit_id ` set hits = {i \<in> ball (adjacent es) a (nat k) - {a}. \<exists>n. map_of ns i = Some n \<and> term_matches terms n \<noteq> []}
     \<and> (\<forall>h\<in>set hits. hit_for ns es rv a terms k (hit_id h) h))"

definition search_body :: "nat \<Rightarrow> string \<Rightarrow> string \<Rightarrow> int \<Rightarrow> int \<Rightarrow> knowledge_search_hit list reader" where
  "search_body max_graph_expansion_nodes anchor_id query max_depth limit =
     bindR (required_node anchor_id) (\<lambda>_.
     let query_terms = normalized_terms query in
     if query_terms = [] then liftR (Inl (ValueError ''knowledge search query must contain at least one term''))
     else bindR (reachable_paths max_graph_expansion_nodes anchor_id max_depth) (\<lambda>paths.
     bindR (queryR (term_scores query_terms (candidate_ids anchor_id paths))) (\<lambda>scores.
     bindR (mapR (build_hit anchor_id paths) scores) (\<lambda>hits.
     returnR (take (nat limit) (sort_key search_hit_key hits))))))"

lemma search_fenced:
  "search n a q k l = bindR (liftR (validate_max_depth k)) (\<lambda>_. bindR (liftR (validate_result_limit l)) (\<lambda>_. fenced ''search'' (search_body n a q k l)))"
  by (simp add: search_def search_body_def fenced_def bindR_assoc bindR_if Let_def)

lemma local_search_body: "local_read (search_body n a q k l)"
  unfolding search_body_def Let_def by (intro local_intros)

lemma set_candidate_ids: "traversed (neighbors_of es) a k paths \<Longrightarrow> set (candidate_ids a paths) = ball (adjacent es) a k - {a}"
  by (auto simp: candidate_ids_def traversed_def step_rel_neighbors)

lemma hits_of_scores:
  assumes st: "stores d ns es"
    and "list_all2 (\<lambda>x. hit_for ns (map snd es) rv a terms k (fst x)) (scored terms (filter (\<lambda>(i, n). i \<in> A) ns)) hits"
  shows "map hit_id hits = map fst (scored terms (filter (\<lambda>(i, n). i \<in> A) ns))"
    and "\<forall>h\<in>set hits. hit_for ns (map snd es) rv a terms k (hit_id h) h"
proof -
  have id: "hit_id h = i" if "hit_for ns (map snd es) rv a terms k i h" for i h using that by (auto simp: hit_for_def dest: stores_node(1) [OF st])
  show "map hit_id hits = map fst (scored terms (filter (\<lambda>(i, n). i \<in> A) ns))" using assms(2) by (induction rule: list_all2_induct) (auto simp: id)
  show "\<forall>h\<in>set hits. hit_for ns (map snd es) rv a terms k (hit_id h) h" using assms(2) by (induction rule: list_all2_induct) (auto simp: id)
qed

lemma scored_ids:
  assumes "dict_ok ns"
  shows "distinct (map fst (scored terms (filter (\<lambda>(i, n). i \<in> A) ns)))"
    and "fst ` set (scored terms (filter (\<lambda>(i, n). i \<in> A) ns)) = {i \<in> A. \<exists>n. map_of ns i = Some n \<and> term_matches terms n \<noteq> []}"
proof -
  have m: "map fst (scored terms (filter (\<lambda>(i, n). i \<in> A) ns)) = map fst (filter (\<lambda>(i, n). i \<in> A \<and> term_matches terms n \<noteq> []) ns)"
    by (simp add: scored_def filter_filter comp_def case_prod_unfold conj_commute)
  show "distinct (map fst (scored terms (filter (\<lambda>(i, n). i \<in> A) ns)))" unfolding m by (rule distinct_map_filter [OF dict_ok_distinct [OF assms]])
  have "map_of ns i = Some n \<longleftrightarrow> (i, n) \<in> set ns" for i n using dict_ok_distinct [OF assms] by simp
  then show "fst ` set (scored terms (filter (\<lambda>(i, n). i \<in> A) ns)) = {i \<in> A. \<exists>n. map_of ns i = Some n \<and> term_matches terms n \<noteq> []}"
    unfolding set_map [symmetric] m by force
qed

lemma reads_search_body:
  assumes st: "stores d ns es" and a: "map_of ns a = Some m" and q: "normalized_terms q \<noteq> []" and k: "0 \<le> k" "k \<le> 3"
    and rv: "is_sha256 rv" and n: "0 < n"
    and overflow: "n < card (ball (adjacent (map snd es)) a (nat k)) \<Longrightarrow> E (KnowledgeGraphError ''graph traversal expansion exceeds the supported limit'')"
    and many: "128 < length (normalized_terms q) \<Longrightarrow> E (ValueError ''knowledge search supports at most 128 unique terms'')"
  shows "reads d rv E (search_body n a q k l) (searches ns (map snd es) rv a (normalized_terms q) k l)"
proof -
  let ?nb = "neighbors_of (map snd es)" and ?terms = "normalized_terms q"
  have known: "a \<in> fst ` set ns" using map_of_SomeD [OF a] by force
  have ok: "dict_ok ns" using st by (simp add: stores_def graph_ok_def)
  have over: "E (KnowledgeGraphError ''graph traversal expansion exceeds the supported limit'')"
    if "n < card (ball (step_rel ?nb) a (nat k))" using that overflow by (simp add: step_rel_neighbors)
  note paths = reads_reachable_paths [where rv = rv and E = E and limit = n and a = a and max_depth = k, OF st n over]
  show ?thesis
    unfolding search_body_def Let_def
  proof (rule reads_bind_eq [OF reads_required_node [OF st a]], simp only: q if_False, rule reads_bindR [OF paths])
    fix ps assume t: "traversed ?nb a (nat k) ps"
    let ?ids = "candidate_ids a ps"
    note ids = set_candidate_ids [OF t]
    let ?scores = "scored ?terms (filter (\<lambda>(i, n). i \<in> set ?ids) ns)"
    have scores: "reads d rv E (queryR (term_scores ?terms ?ids)) (\<lambda>x. x = ?scores \<and> (x \<noteq> [] \<longrightarrow> length ?terms \<le> 128))"
    proof (rule reads_queryR)
      have "\<forall>t\<in>set ?terms. normal_term t" using normalized_terms_normal by blast
      from term_scores_any [OF st this, of ?ids] many q show "case term_scores ?terms ?ids d of Inl e \<Rightarrow> E e
          | Inr x \<Rightarrow> x = ?scores \<and> (x \<noteq> [] \<longrightarrow> length ?terms \<le> 128)" by (auto simp: scored_def)
    qed
    show "reads d rv E (bindR (queryR (term_scores ?terms ?ids)) (\<lambda>scores. bindR (mapR (build_hit a ps) scores) (\<lambda>hits.
        returnR (take (nat l) (sort_key search_hit_key hits))))) (searches ns (map snd es) rv a ?terms k l)"
    proof (rule reads_bindR [OF scores], rule reads_bindR [OF reads_mapR])
      fix x y assume x: "x = ?scores \<and> (x \<noteq> [] \<longrightarrow> length ?terms \<le> 128)" and y: "y \<in> set x"
      then obtain v w where v: "(v, w) \<in> set ns" "v \<in> set ?ids" "term_matches ?terms w \<noteq> []" "y = (v, term_matches ?terms w)"
        by (auto simp: scored_def)
      then have w: "map_of ns v = Some w" using dict_ok_distinct [OF ok] by simp
      have "length ?terms \<le> 128" using x y by (cases x) auto
      then have "reads d rv E (build_hit a ps (v, term_matches ?terms w)) (hit_for ns (map snd es) rv a ?terms k v)"
        using v(2) ids by (intro reads_build_hit [OF st known k(2) rv _ t _ _ w v(3)]) auto
      then show "reads d rv E (build_hit a ps y) (hit_for ns (map snd es) rv a ?terms k (fst y))" by (simp add: v(4))
    next
      fix x hits assume x: "x = ?scores \<and> (x \<noteq> [] \<longrightarrow> length ?terms \<le> 128)"
        and "list_all2 (\<lambda>y. hit_for ns (map snd es) rv a ?terms k (fst y)) x hits"
      then have "list_all2 (\<lambda>y. hit_for ns (map snd es) rv a ?terms k (fst y)) ?scores hits" by blast
      note h = hits_of_scores [OF st this] and s = scored_ids [OF ok, of ?terms "set ?ids"]
      have "distinct (map hit_id hits)" unfolding h(1) by (rule s(1))
      then have "distinct (map hit_id (sort_key search_hit_key hits))"
        by (metis mset_eq_imp_distinct_iff mset_map mset_sort)
      moreover have "hit_id ` set hits = {i \<in> set ?ids. \<exists>n. map_of ns i = Some n \<and> term_matches ?terms n \<noteq> []}"
        using h(1) s(2) by (metis set_map)
      ultimately have "searches ns (map snd es) rv a ?terms k l (take (nat l) (sort_key search_hit_key hits))"
        unfolding searches_def using h(2) ids by (intro exI [of _ "sort_key search_hit_key hits"]) simp
      then show "reads d rv E (returnR (take (nat l) (sort_key search_hit_key hits))) (searches ns (map snd es) rv a ?terms k l)"
        by (rule reads_returnR)
    qed
  qed
qed

end
