(* ===== verification/Knowledge_Plans.thy ===== *)
theory Knowledge_Plans
  imports Knowledge_Searches
begin

text \<open>
  Next-step planning on a stable, well-formed index: the candidates are exactly the tasks of the neighborhood, ranked, and
  a candidate is eligible exactly when it is ready and every task it depends on, directly or not, is completed.
\<close>

section \<open>Eligibility\<close>

text \<open>An inspection is satisfied exactly when all the transitive dependencies of its task are completed and within its depth.\<close>

definition status_in :: "(string \<times> knowledge_node) list \<Rightarrow> string \<Rightarrow> candidate_task_status option" where
  "status_in ns v = Option.bind (map_of ns v) kn_task_status"

lemma unmet_reasons_Nil: "unmet_dependency_reasons deps truncated k = [] \<longleftrightarrow> \<not> truncated \<and> (\<forall>s\<in>set deps. ds_satisfied s)"
  by (auto simp: unmet_dependency_reasons_def filter_empty_conv)

lemma ball_all_trancl:
  assumes "acyclic R" and "layer R t (Suc k) = {}"
  shows "ball R t k - {t} = R\<^sup>+ `` {t}"
proof -
  have "t \<in> ball R t k" using ball_mono [of 0 k R t] by simp
  then have "R\<^sup>* `` {t} \<subseteq> ball R t k" by (rule closed_rtrancl [OF _ layer_empty_stop [OF assms(2)]])
  then have "ball R t k = R\<^sup>* `` {t}" using ball_rtrancl [of R t k] by blast
  moreover have "(t, t) \<notin> R\<^sup>+" using assms(1) by (simp add: acyclic_def)
  moreover have "(t, v) \<in> R\<^sup>* \<longleftrightarrow> v = t \<or> (t, v) \<in> R\<^sup>+" for v unfolding rtrancl_eq_or_trancl by blast
  ultimately show ?thesis by blast
qed

lemma inspects_satisfied:
  assumes i: "inspects ns es rv t k i" and acyclic: "acyclic (dependency_rel es)"
  shows "di_unmet_reasons i = [] \<longleftrightarrow> layer (dependency_rel es) t (Suc (nat k)) = {}
     \<and> (\<forall>v. (t, v) \<in> (dependency_rel es)\<^sup>+ \<longrightarrow> status_in ns v = Some STATUS_COMPLETED)"
proof -
  let ?R = "dependency_rel es"
  have ids: "ds_node_id ` set (di_dependencies i) = ball ?R t (nat k) - {t}" using i by (simp add: inspects_def)
  have each: "ds_satisfied s \<longleftrightarrow> status_in ns (ds_node_id s) = Some STATUS_COMPLETED" if "s \<in> set (di_dependencies i)" for s
    using i that by (auto simp: inspects_def status_in_def)
  have "(\<forall>s\<in>set (di_dependencies i). ds_satisfied s) \<longleftrightarrow> (\<forall>v\<in>ds_node_id ` set (di_dependencies i). status_in ns v = Some STATUS_COMPLETED)"
    using each by simp
  moreover have "di_unmet_reasons i = [] \<longleftrightarrow> \<not> di_truncated i \<and> (\<forall>s\<in>set (di_dependencies i). ds_satisfied s)"
    using i by (simp add: inspects_def unmet_reasons_Nil)
  moreover have "di_truncated i \<longleftrightarrow> layer ?R t (Suc (nat k)) \<noteq> {}" using i by (simp add: inspects_def)
  ultimately have "di_unmet_reasons i = [] \<longleftrightarrow> layer ?R t (Suc (nat k)) = {} \<and> (\<forall>v\<in>ball ?R t (nat k) - {t}. status_in ns v = Some STATUS_COMPLETED)"
    unfolding ids by blast
  then show ?thesis using ball_all_trancl [OF acyclic, of t "nat k"] by (cases "layer ?R t (Suc (nat k)) = {}") auto
qed

section \<open>Candidates\<close>

definition candidate_for ::
  "(string \<times> knowledge_node) list \<Rightarrow> knowledge_edge list \<Rightarrow> string \<Rightarrow> string \<Rightarrow> string list \<Rightarrow> int \<Rightarrow> int \<Rightarrow> string \<Rightarrow> next_step_candidate \<Rightarrow> bool" where
  "candidate_for ns es rv a terms k dk i c \<longleftrightarrow> map_of ns i = Some (nc_task c) \<and> kn_node_type (nc_task c) = TASK \<and> nc_anchor_id c = a
     \<and> path_to es a k i (nc_depth c) (nc_path_node_ids c) (nc_path_steps c)
     \<and> nc_matched_terms c = map fst (term_matches terms (nc_task c))
     \<and> nc_lexical_score c = sum_list (map snd (term_matches terms (nc_task c)))
     \<and> nc_total_score c = nc_lexical_score c * 100 + (4 - nc_depth c) * 10
     \<and> inspects ns es rv i dk (nc_dependency_inspection c)
     \<and> nc_unmet_dependency_reasons c = status_reasons (nc_task c) @ di_unmet_reasons (nc_dependency_inspection c)
     \<and> nc_eligible c = (nc_unmet_dependency_reasons c = [])"

abbreviation candidate_id :: "next_step_candidate \<Rightarrow> string" where
  "candidate_id c \<equiv> kn_node_id (nc_task c)"

text \<open>A candidate is eligible exactly when it is ready and all it depends on, however indirectly, is completed within the depth.\<close>

lemma candidate_eligible:
  assumes "candidate_for ns es rv a terms k dk i c" and "acyclic (dependency_rel es)"
  shows "nc_eligible c \<longleftrightarrow> status_in ns i = Some STATUS_READY \<and> layer (dependency_rel es) i (Suc (nat dk)) = {}
     \<and> (\<forall>v. (i, v) \<in> (dependency_rel es)\<^sup>+ \<longrightarrow> status_in ns v = Some STATUS_COMPLETED)"
proof -
  have "inspects ns es rv i dk (nc_dependency_inspection c)" using assms(1) by (simp add: candidate_for_def)
  from inspects_satisfied [OF this assms(2)] assms(1) show ?thesis
    by (auto simp: candidate_for_def status_in_def status_reasons_def)
qed

text \<open>The draft of a candidate passes the checks of \<open>NextStepCandidate\<close> under every rank.\<close>

definition ranked :: "nat \<times> next_step_candidate \<Rightarrow> next_step_candidate" where
  "ranked = (\<lambda>(rank, c). c\<lparr>nc_rank := int rank\<rparr>)"

definition rankable :: "next_step_candidate \<Rightarrow> bool" where
  "rankable c \<longleftrightarrow> (\<forall>rank. 1 \<le> rank \<longrightarrow> rank \<le> 1000 \<longrightarrow> mk_next_step_candidate (ranked (rank, c)) = Inr (ranked (rank, c)))"

lemma candidate_reasons_bounded:
  assumes "mk_dependency_inspection i = Inr i"
  shows "strict_bounded_strings (status_reasons task @ di_unmet_reasons i) label 1002 = Inr (status_reasons task @ di_unmet_reasons i)"
proof -
  have i: "length (di_unmet_reasons i) \<le> 1001" "\<forall>v\<in>set (di_unmet_reasons i). v \<noteq> [] \<and> CHR 0x00 \<notin> set v \<and> length v \<le> 1024"
    using assms by (auto simp: mk_dependency_inspection_def bindE_eq_Inr strict_bounded_strings_def Let_def not_less split: if_splits)
  have "\<forall>v\<in>set (status_reasons task). v \<noteq> [] \<and> CHR 0x00 \<notin> set v \<and> length v \<le> 1024"
    using status_value_text [of "the (kn_task_status task)"] by (auto simp: status_reasons_def status_text_def split: option.splits)
  moreover have "length (status_reasons task) \<le> 1" by (simp add: status_reasons_def)
  ultimately show ?thesis using i by (auto simp: strict_bounded_strings_def)
qed

lemma reads_draft_candidate:
  assumes st: "stores d ns es" and a: "a \<in> fst ` set ns" and k: "k \<le> 3" and dk: "0 \<le> dk" "dk \<le> 3" and rv: "is_sha256 rv"
    and len: "length terms \<le> 128" and limit: "limit \<le> 1000"
    and t: "traversed (neighbors_of (map snd es)) a (nat k) paths" and v: "v \<in> ball (adjacent (map snd es)) a (nat k)" "v \<noteq> a"
    and n: "map_of ns v = Some n" "kn_node_type n = TASK"
    and scores: "(case map_of scores v of Some ws \<Rightarrow> ws | None \<Rightarrow> []) = term_matches terms n"
    and overflow: "limit < card (ball (dependency_rel (map snd es)) v (nat dk) - {v}) \<Longrightarrow>
      E (KnowledgeGraphError ''dependency expansion exceeds the supported limit'')"
  shows "reads d rv E (draft_candidate limit a dk paths scores v)
     (\<lambda>c. candidate_for ns (map snd es) rv a terms k dk v c \<and> rankable c)"
proof -
  let ?p = "path_at paths v" and ?ms = "term_matches terms n"
  obtain j where j: "1 \<le> j" "j \<le> 3" "layer_path (neighbors_of (map snd es)) a j v ?p"
      "path_to (map snd es) a k v (gp_depth ?p) (gp_node_ids ?p) (gp_steps ?p)"
    using traversed_path_to [OF t v] k by auto
  then have depth: "gp_depth ?p = int j" by (simp add: layer_path_def)
  let ?total = "sum_list (map snd ?ms) * 100 + graph_score_at j"
  let ?c = "\<lambda>i. \<lparr>nc_rank = 0, nc_anchor_id = a, nc_task = n, nc_depth = gp_depth ?p, nc_path_node_ids = gp_node_ids ?p,
       nc_path_steps = gp_steps ?p, nc_matched_terms = map fst ?ms, nc_lexical_score = sum_list (map snd ?ms), nc_graph_score = graph_score_at j,
       nc_total_score = ?total, nc_dependency_inspection = i, nc_eligible = (status_reasons n @ di_unmet_reasons i = []),
       nc_unmet_dependency_reasons = status_reasons n @ di_unmet_reasons i,
       nc_explanation = next_step_candidate_explanation n (gp_depth ?p) (gp_steps ?p) (map fst ?ms) (sum_list (map snd ?ms)) (graph_score_at j)
         ?total (status_reasons n @ di_unmet_reasons i = []) (status_reasons n @ di_unmet_reasons i),
       nc_authority = DERIVED_CANDIDATE_AUTHORITY\<rparr>"
  have good: "candidate_for ns (map snd es) rv a terms k dk v (?c i) \<and> rankable (?c i)"
    if i: "inspects ns (map snd es) rv v dk i" "mk_dependency_inspection i = Inr i" for i
  proof
    show "candidate_for ns (map snd es) rv a terms k dk v (?c i)" using n j(4) i(1) by (simp add: candidate_for_def depth graph_score_at_def)
    have "di_task_id i = kn_node_id n" using i(1) stores_node(1) [OF st n(1)] by (simp add: inspects_def)
    then show "rankable (?c i)"
      using known_identifier [OF st a] n neighborhood_path_valid [OF st a j(3,1,2)] stores_node(1) [OF st n(1)]
        scored_projection_ok [OF len _ j(1,2), of True n] candidate_reasons_bounded [OF i(2)]
      by (simp add: rankable_def ranked_def mk_next_step_candidate_def validate_positive_rank_def depth validate_candidate_authority_def Let_def)
  qed
  note inspect = reads_inspect [where rv = rv and E = E and limit = limit, OF st n dk rv limit overflow]
  show ?thesis
    unfolding draft_candidate_def Let_def
    by (intro reads_bind_eq [OF reads_required_node [OF st n(1)]] reads_lift_eq [OF knowledge_graph_score_at [OF j(1,2), folded depth]]
        reads_bindR [OF inspect] reads_returnR) (use good in \<open>simp_all add: scores\<close>)
qed

section \<open>The plan\<close>

lemma reads_collect_tasks:
  assumes st: "stores d ns es" and known: "\<forall>i\<in>set ids. i \<in> fst ` set ns" and distinct: "distinct ids"
    and overflow: "limit < card {i \<in> set ids. is_task (map_of ns i)} \<Longrightarrow>
      E (KnowledgeGraphError ''next-step candidate expansion exceeds the supported limit'')"
  shows "reads d rv E (foldR (collect_task limit) ids []) (\<lambda>ts. ts = filter (\<lambda>i. is_task (map_of ns i)) ids)"
proof (rule reads_weaken [OF reads_foldR [where I = "\<lambda>pre ts. ts = filter (\<lambda>i. is_task (map_of ns i)) pre"]])
  fix pre i rest ts assume ids: "ids = pre @ i # rest" and ts: "ts = filter (\<lambda>i. is_task (map_of ns i)) pre"
  from known ids obtain n where n: "map_of ns i = Some n" using stores_known [of i ns] by auto
  have over: "E (KnowledgeGraphError ''next-step candidate expansion exceeds the supported limit'')" if "is_task (map_of ns i)" "limit \<le> length ts"
  proof (rule overflow)
    have d: "distinct (filter (\<lambda>i. is_task (map_of ns i)) (pre @ [i]))" using distinct by (simp add: ids)
    have "limit < length (filter (\<lambda>i. is_task (map_of ns i)) (pre @ [i]))" using that ts by simp
    also have "\<dots> = card (set (filter (\<lambda>i. is_task (map_of ns i)) (pre @ [i])))" by (rule distinct_card [OF d, symmetric])
    also have "\<dots> \<le> card {i \<in> set ids. is_task (map_of ns i)}" by (rule card_mono) (auto simp: ids)
    finally show "limit < card {i \<in> set ids. is_task (map_of ns i)}" .
  qed
  show "reads d rv E (collect_task limit i ts) (\<lambda>ts. ts = filter (\<lambda>i. is_task (map_of ns i)) (pre @ [i]))"
    unfolding collect_task_def
  proof (rule reads_bind_eq [OF reads_required_node [OF st n]])
    show "reads d rv E (if kn_node_type n \<noteq> TASK then returnR ts else if limit \<le> length ts
        then liftR (Inl (KnowledgeGraphError ''next-step candidate expansion exceeds the supported limit'')) else returnR (ts @ [i]))
        (\<lambda>ts. ts = filter (\<lambda>i. is_task (map_of ns i)) (pre @ [i]))"
      using over by (auto intro!: reads_returnR reads_liftR simp: is_task_def n ts)
  qed
qed simp_all

lemma map_of_scored:
  assumes "dict_ok ns" and "map_of ns v = Some n" and "v \<in> A"
  shows "(case map_of (scored terms (filter (\<lambda>(i, n). i \<in> A) ns)) v of Some ws \<Rightarrow> ws | None \<Rightarrow> []) = term_matches terms n"
proof -
  let ?s = "scored terms (filter (\<lambda>(i, n). i \<in> A) ns)"
  have d: "distinct (map fst ?s)" by (rule scored_ids(1) [OF assms(1)])
  show ?thesis
  proof (cases "term_matches terms n = []")
    case True
    then have "v \<notin> fst ` set ?s" unfolding scored_ids(2) [OF assms(1)] using assms(2) by auto
    with True show ?thesis by (simp add: map_of_eq_None_iff [THEN iffD2])
  next
    case False
    have "(v, term_matches terms n) \<in> set ?s" using False assms(3) map_of_SomeD [OF assms(2)] by (force simp: scored_def)
    with d show ?thesis by simp
  qed
qed

definition plans ::
  "(string \<times> knowledge_node) list \<Rightarrow> knowledge_edge list \<Rightarrow> string \<Rightarrow> string \<Rightarrow> string list \<Rightarrow> int \<Rightarrow> int \<Rightarrow> int \<Rightarrow> next_step_context \<Rightarrow> bool" where
  "plans ns es rv a terms k dk l x \<longleftrightarrow> nx_anchor_id x = a \<and> nx_query_terms x = terms \<and> nx_index_revision_digest x = rv
     \<and> (\<exists>cs. nx_candidates x = map ranked (enumerate 1 (take (nat l) cs)) \<and> sorted (map candidate_key cs) \<and> distinct (map candidate_id cs)
        \<and> candidate_id ` set cs = {i \<in> ball (adjacent es) a (nat k) - {a}. is_task (map_of ns i)}
        \<and> (\<forall>c\<in>set cs. candidate_for ns es rv a terms k dk (candidate_id c) c))"

lemma ranked_sel [simp]:
  "nc_rank (ranked p) = int (fst p)" "nc_task (ranked p) = nc_task (snd p)" "nc_anchor_id (ranked p) = nc_anchor_id (snd p)"
  "nc_depth (ranked p) = nc_depth (snd p)" "nc_matched_terms (ranked p) = nc_matched_terms (snd p)" "nc_eligible (ranked p) = nc_eligible (snd p)"
  "nc_dependency_inspection (ranked p) = nc_dependency_inspection (snd p)" "candidate_key (ranked p) = candidate_key (snd p)"
  by (simp_all add: ranked_def case_prod_unfold candidate_key_def)

lemma enumerate_mem: "(r, c) \<in> set (enumerate n xs) \<Longrightarrow> n \<le> r \<and> r < n + length xs \<and> c \<in> set xs"
  by (auto simp: in_set_enumerate_eq)

lemma rank_drafts_ok:
  assumes l: "l \<le> 1000" and ok: "\<forall>c\<in>set drafts. rankable c"
  shows "rank_drafts l drafts = Inr (map ranked (enumerate 1 (take (nat l) (sort_key candidate_key drafts))))"
  unfolding rank_drafts_def
proof (rule mapE_all)
  fix x assume x: "x \<in> set (enumerate 1 (take (nat l) (sort_key candidate_key drafts)))"
  obtain r c where rc: "x = (r, c)" by (cases x)
  from enumerate_mem [OF x [unfolded rc]]
  have "1 \<le> r" "r < 1 + length (take (nat l) (sort_key candidate_key drafts))" "c \<in> set (take (nat l) (sort_key candidate_key drafts))" by blast+
  then have "1 \<le> r" "r \<le> 1000" "c \<in> set drafts" using l by (auto dest: in_set_takeD)
  with ok show "(case x of (rank, c) \<Rightarrow> mk_next_step_candidate (c\<lparr>nc_rank := int rank\<rparr>)) = Inr (ranked x)"
    by (simp add: rc rankable_def ranked_def)
qed

lemma normalized_take_ok: "validate_terms (take 128 (normalized_terms s)) True label = Inr (take 128 (normalized_terms s))"
  using normalized_terms_sorted [of s] by (intro validate_terms_ok) (auto simp: sorted_wrt_take normalized_terms_normal dest: in_set_takeD)

lemma context_ok:
  fixes cs :: "next_step_candidate list"
  assumes a: "is_identifier a" and k: "0 \<le> k" "k \<le> 3" "0 \<le> dk" "dk \<le> 3" and rv: "is_sha256 rv" and l: "1 \<le> l" "l \<le> 1000"
    and terms: "terms = take 128 (normalized_terms s)"
    and cs: "sorted (map candidate_key cs)" "distinct (map candidate_id cs)" "\<forall>c\<in>set cs. candidate_for ns es rv a terms k dk (candidate_id c) c"
  defines "x \<equiv> \<lparr>nx_anchor_id = a, nx_query_terms = terms, nx_candidate_max_depth = k, nx_dependency_max_depth = dk, nx_index_revision_digest = rv,
       nx_candidates = map ranked (enumerate 1 (take (nat l) cs)),
       nx_authority = DERIVED_CANDIDATE_AUTHORITY, nx_schema_version = ''sisyphus_harness.next_step_context.v2''\<rparr>"
  shows "mk_next_step_context x = Inr x"
proof -
  let ?cs = "map ranked (enumerate 1 (take (nat l) cs))"
  have len: "length ?cs \<le> 1000" using l by simp
  have ranks: "map nc_rank ?cs = map int [1..<length ?cs + 1]" 
  proof -
    have "map nc_rank ?cs = map int (map fst (enumerate 1 (take (nat l) cs)))" unfolding map_map by (rule map_cong) simp_all
    then show ?thesis by (simp only: map_fst_enumerate length_map length_enumerate add.commute)
  qed
  have snds: "map f (map ranked (enumerate 1 (take (nat l) cs))) = map f (take (nat l) cs)" if "\<And>p. f (ranked p) = f (snd p)" for f :: "next_step_candidate \<Rightarrow> 'b"

  proof -
    have "map f (map ranked (enumerate 1 (take (nat l) cs))) = map f (map snd (enumerate 1 (take (nat l) cs)))"
      unfolding map_map by (rule map_cong) (simp_all add: that)
    then show ?thesis by (simp only: map_snd_enumerate)
  qed
  have unique: "distinct (map candidate_id ?cs)" using cs(2) by (subst snds) (simp_all add: take_map [symmetric])
  have "sorted (map candidate_key ?cs)" using cs(1) by (subst snds) (simp_all add: take_map [symmetric] sorted_wrt_take)
  then have order: "sort_key candidate_key ?cs = ?cs" by (rule sort_key_id_if_sorted)
  have each: "nc_anchor_id c = a \<and> \<not> k < nc_depth c \<and> set (nc_matched_terms c) \<subseteq> set terms \<and> di_max_depth (nc_dependency_inspection c) = dk
      \<and> di_index_revision_digest (nc_dependency_inspection c) = rv" if c: "c \<in> set ?cs" for c
  proof -
    from c obtain r y where ry: "c = ranked (r, y)" "(r, y) \<in> set (enumerate 1 (take (nat l) cs))" by auto
    define p where "p = (r, y)"
    have p: "c = ranked p" "snd p \<in> set (take (nat l) cs)" using ry(1) enumerate_mem [OF ry(2)] by (simp_all add: p_def)
    with cs(3) have "candidate_for ns es rv a terms k dk (candidate_id (snd p)) (snd p)" by (auto dest: in_set_takeD)
    then show ?thesis by (auto simp: p(1) candidate_for_def path_to_def inspects_def term_matches_def)
  qed
  show ?thesis
    using a k rv len ranks unique order each normalized_take_ok [of s]
    by (auto simp: x_def mk_next_step_context_def validate_max_depth_def MAX_GRAPH_TRAVERSAL_DEPTH_def validate_candidate_authority_def terms)
qed

definition query_source :: "string option \<Rightarrow> knowledge_node \<Rightarrow> string" where
  "query_source query anchor = (case query of Some q \<Rightarrow> if py_strip q \<noteq> [] then q else kn_title anchor @ '' '' @ kn_content anchor
     | None \<Rightarrow> kn_title anchor @ '' '' @ kn_content anchor)"

definition plan_body ::
  "nat \<Rightarrow> nat \<Rightarrow> nat \<Rightarrow> string \<Rightarrow> string option \<Rightarrow> int \<Rightarrow> int \<Rightarrow> int \<Rightarrow> next_step_context reader" where
  "plan_body expansion candidates states anchor_id query max_depth dependency_max_depth limit =
     bindR (required_node anchor_id) (\<lambda>anchor.
     let query_terms = take 128 (normalized_terms (query_source query anchor)) in
     bindR (reachable_paths expansion anchor_id max_depth) (\<lambda>paths.
     bindR (foldR (collect_task candidates) (candidate_ids anchor_id paths) []) (\<lambda>task_ids.
     bindR (queryR (term_scores query_terms task_ids)) (\<lambda>scores.
     bindR (mapR (draft_candidate states anchor_id dependency_max_depth paths scores) task_ids) (\<lambda>drafts.
     bindR (liftR (rank_drafts limit drafts)) (\<lambda>ranked.
     bindR revisionR (\<lambda>revision.
     liftR (mk_next_step_context \<lparr>nx_anchor_id = anchor_id, nx_query_terms = query_terms, nx_candidate_max_depth = max_depth,
       nx_dependency_max_depth = dependency_max_depth, nx_index_revision_digest = revision, nx_candidates = ranked,
       nx_authority = DERIVED_CANDIDATE_AUTHORITY, nx_schema_version = ''sisyphus_harness.next_step_context.v2''\<rparr>))))))))"

lemma plan_fenced:
  "next_step_context_of n c m a q k dk l = bindR (liftR (validate_max_depth k)) (\<lambda>_. bindR (liftR (validate_max_depth dk)) (\<lambda>_.
     bindR (liftR (validate_result_limit l)) (\<lambda>_. fenced ''next-step planning'' (plan_body n c m a q k dk l))))"
  by (simp add: next_step_context_of_def plan_body_def query_source_def fenced_def bindR_assoc Let_def)

lemma local_plan_body: "local_read (plan_body n c m a q k dk l)"
  unfolding plan_body_def Let_def by (intro local_intros)

lemma drafts_facts:
  assumes st: "stores d ns es" and "list_all2 (\<lambda>i c. candidate_for ns (map snd es) rv a terms k dk i c \<and> rankable c) ids drafts"
  shows "map candidate_id drafts = ids" and "\<forall>c\<in>set drafts. candidate_for ns (map snd es) rv a terms k dk (candidate_id c) c"
    and "\<forall>c\<in>set drafts. rankable c"
proof -
  have id: "candidate_id c = i" if "candidate_for ns (map snd es) rv a terms k dk i c" for i c
    using that by (auto simp: candidate_for_def dest: stores_node(1) [OF st])
  show "map candidate_id drafts = ids" using assms(2) by (induction rule: list_all2_induct) (auto simp: id)
  show "\<forall>c\<in>set drafts. candidate_for ns (map snd es) rv a terms k dk (candidate_id c) c" using assms(2) by (induction rule: list_all2_induct) (auto simp: id)
  show "\<forall>c\<in>set drafts. rankable c" using assms(2) by (induction rule: list_all2_induct) auto
qed

lemma candidate_ids_facts:
  assumes "traversed (neighbors_of es) a k paths"
  shows "set (candidate_ids a paths) = ball (adjacent es) a k - {a}" and "distinct (candidate_ids a paths)"
  using assms set_candidate_ids [OF assms] by (auto simp: candidate_ids_def traversed_def dict_ok_distinct)

text \<open>The last stage: the drafts of all tasks, ranked and put into a context.\<close>

lemma reads_ranking:
  assumes st: "stores d ns es" and a: "is_identifier a" and k: "0 \<le> k" "k \<le> 3" "0 \<le> dk" "dk \<le> 3" and rv: "is_sha256 rv" and l: "1 \<le> l" "l \<le> 1000"
    and terms: "terms = take 128 (normalized_terms s)" and ids: "distinct ids" "set ids = {i \<in> ball (adjacent (map snd es)) a (nat k) - {a}. is_task (map_of ns i)}"
    and drafts: "list_all2 (\<lambda>i c. candidate_for ns (map snd es) rv a terms k dk i c \<and> rankable c) ids drafts"
  shows "reads d rv E (bindR (liftR (rank_drafts l drafts)) (\<lambda>ranked. bindR revisionR (\<lambda>revision.
     liftR (mk_next_step_context \<lparr>nx_anchor_id = a, nx_query_terms = terms, nx_candidate_max_depth = k,
       nx_dependency_max_depth = dk, nx_index_revision_digest = revision, nx_candidates = ranked,
       nx_authority = DERIVED_CANDIDATE_AUTHORITY, nx_schema_version = ''sisyphus_harness.next_step_context.v2''\<rparr>))))
     (plans ns (map snd es) rv a terms k dk l)"
proof -
  note dr = drafts_facts [OF st drafts]
  let ?cs = "sort_key candidate_key drafts"
  have unique: "distinct (map candidate_id ?cs)" using ids(1) dr(1) by (metis mset_eq_imp_distinct_iff mset_map mset_sort)
  have all: "\<forall>c\<in>set ?cs. candidate_for ns (map snd es) rv a terms k dk (candidate_id c) c" using dr(2) by simp
  have names: "candidate_id ` set ?cs = {i \<in> ball (adjacent (map snd es)) a (nat k) - {a}. is_task (map_of ns i)}"
    using dr(1) ids(2) by (metis set_map set_sort)
  note ctx = context_ok [OF a k rv l terms sorted_sort_key unique all]
  show ?thesis
    by (intro reads_lift_eq [OF rank_drafts_ok [OF l(2) dr(3)]] reads_bind_eq [OF reads_revisionR [OF refl]] reads_liftR, simp only: ctx sum.case)
      (use unique all names in \<open>auto simp: plans_def intro!: exI [of _ ?cs]\<close>)
qed

lemma reads_plan_body:
  assumes st: "stores d ns es" and a: "map_of ns a = Some m" and k: "0 \<le> k" "k \<le> 3" "0 \<le> dk" "dk \<le> 3" and l: "1 \<le> l" "l \<le> 1000"
    and rv: "is_sha256 rv" and n: "0 < n" "states \<le> 1000"
    and overflow: "n < card (ball (adjacent (map snd es)) a (nat k)) \<Longrightarrow> E (KnowledgeGraphError ''graph traversal expansion exceeds the supported limit'')"
    and too_many: "candidates < card {i \<in> ball (adjacent (map snd es)) a (nat k) - {a}. is_task (map_of ns i)} \<Longrightarrow>
      E (KnowledgeGraphError ''next-step candidate expansion exceeds the supported limit'')"
    and too_deep: "\<And>v. v \<in> ball (adjacent (map snd es)) a (nat k) \<Longrightarrow> states < card (ball (dependency_rel (map snd es)) v (nat dk) - {v}) \<Longrightarrow>
      E (KnowledgeGraphError ''dependency expansion exceeds the supported limit'')"
  shows "reads d rv E (plan_body n candidates states a q k dk l)
     (plans ns (map snd es) rv a (take 128 (normalized_terms (query_source q m))) k dk l)"
proof -
  let ?nb = "neighbors_of (map snd es)" and ?terms = "take 128 (normalized_terms (query_source q m))"
  have known: "a \<in> fst ` set ns" using map_of_SomeD [OF a] by force
  have ok: "dict_ok ns" using st by (simp add: stores_def graph_ok_def)
  have over: "E (KnowledgeGraphError ''graph traversal expansion exceeds the supported limit'')"
    if "n < card (ball (step_rel ?nb) a (nat k))" using that overflow by (simp add: step_rel_neighbors)
  note paths = reads_reachable_paths [where rv = rv and E = E and limit = n and a = a and max_depth = k, OF st n(1) over]
  show ?thesis
    unfolding plan_body_def Let_def
  proof (rule reads_bind_eq [OF reads_required_node [OF st a]], rule reads_bindR [OF paths])
    fix ps assume t: "traversed ?nb a (nat k) ps"
    note ids = candidate_ids_facts [OF t]
    let ?ids = "filter (\<lambda>i. is_task (map_of ns i)) (candidate_ids a ps)"
    have mem: "\<forall>i\<in>set (candidate_ids a ps). i \<in> fst ` set ns" using ids(1) ball_known [OF st known subset_refl] by blast
    have many: "E (KnowledgeGraphError ''next-step candidate expansion exceeds the supported limit'')"
      if "candidates < card {i \<in> set (candidate_ids a ps). is_task (map_of ns i)}" using that too_many by (simp add: ids(1))
    have collect: "reads d rv E (foldR (collect_task candidates) (candidate_ids a ps) []) (\<lambda>ts. ts = ?ids)"
      by (rule reads_collect_tasks [OF st mem ids(2)]) (rule many)
    let ?scores = "scored ?terms (filter (\<lambda>(i, n). i \<in> set ?ids) ns)"
    have normal: "\<forall>t\<in>set ?terms. normal_term t" by (auto simp: normalized_terms_normal dest: in_set_takeD)
    have scores: "reads d rv E (queryR (term_scores ?terms ?ids)) (\<lambda>x. x = ?scores)"
      by (rule reads_queryR) (simp add: term_scores_any [OF st normal])
    have draft: "reads d rv E (draft_candidate states a dk ps ?scores i) (\<lambda>c. candidate_for ns (map snd es) rv a ?terms k dk i c \<and> rankable c)"
      if i: "i \<in> set ?ids" for i
    proof -
      from i obtain w where w: "map_of ns i = Some w" "kn_node_type w = TASK" by (auto simp: is_task_def split: option.splits)
      have "i \<in> ball (adjacent (map snd es)) a (nat k)" "i \<noteq> a" using i ids(1) by auto
      then show ?thesis
        by (intro reads_draft_candidate [OF st known k(2-4) rv _ n(2) t _ _ w map_of_scored [OF ok w(1) i]] too_deep) simp_all
    qed
    have "distinct ?ids" "set ?ids = {i \<in> ball (adjacent (map snd es)) a (nat k) - {a}. is_task (map_of ns i)}" using ids by auto
    note rank = reads_ranking [where E = E, OF st known_identifier [OF st known] k rv l refl this]
    show "reads d rv E (bindR (foldR (collect_task candidates) (candidate_ids a ps) []) (\<lambda>task_ids.
     bindR (queryR (term_scores ?terms task_ids)) (\<lambda>scores.
     bindR (mapR (draft_candidate states a dk ps scores) task_ids) (\<lambda>drafts.
     bindR (liftR (rank_drafts l drafts)) (\<lambda>ranked.
     bindR revisionR (\<lambda>revision.
     liftR (mk_next_step_context \<lparr>nx_anchor_id = a, nx_query_terms = ?terms, nx_candidate_max_depth = k,
       nx_dependency_max_depth = dk, nx_index_revision_digest = revision, nx_candidates = ranked,
       nx_authority = DERIVED_CANDIDATE_AUTHORITY, nx_schema_version = ''sisyphus_harness.next_step_context.v2''\<rparr>)))))))
       (plans ns (map snd es) rv a ?terms k dk l)"
      by (intro reads_bind_eq [OF collect] reads_bind_eq [OF scores] reads_bindR [OF reads_mapR [OF draft]]) (assumption, rule rank)
  qed
qed

end
