(* ===== verification/Knowledge_Guarantees.thy ===== *)
theory Knowledge_Guarantees
  imports Knowledge_Plans
begin

text \<open>
  What the knowledge graph promises its callers: the writes keep the index a well-formed acyclic graph, and the reads
  answer from one revision of it although others may write at the same time.
\<close>

section \<open>Reads that pass the fence\<close>

definition index_revision :: "kdb \<Rightarrow> string" where
  "index_revision d = ''sha256:'' @ sha256_hexdigest (revision_text d)"

lemma index_revision_digest: "stores d ns es \<Longrightarrow> is_sha256 (index_revision d)"
proof -
  assume st: "stores d ns es"
  have "index_revision d = wire_digest (revision_value (kd_metadata d) (map snd ns) (map snd es) (kd_terms d))"
    by (simp add: index_revision_def wire_digest_def revision_text_stores [OF st])
  then show ?thesis by simp
qed

lemma fenced_reads:
  assumes st: "stores d ns es" and body: "reads d (index_revision d) E body P"
  shows "case fenced operation body (\<lambda>_. d) c of Inl e \<Rightarrow> E e | Inr (x, c') \<Rightarrow> P x"
proof -
  let ?c = "c\<lparr>rc_clock := Suc (rc_clock c), rc_revision := index_revision d, rc_node_cache := (\<lambda>_. None), rc_edge_cache := (\<lambda>_. None)\<rparr>"
  have rv: "revision_digest d = Inr (index_revision d)" by (simp add: revision_digest_stores [OF st] index_revision_def)
  have "ctx_ok d (index_revision d) ?c" by (simp add: ctx_ok_def)
  with body have b: "case body (\<lambda>_. d) ?c of Inl e \<Rightarrow> E e | Inr (x, c') \<Rightarrow> P x \<and> ctx_ok d (index_revision d) c'" by (simp add: reads_def)
  have eq: "fenced operation body (\<lambda>_. d) c = bindE (body (\<lambda>_. d) ?c) (\<lambda>(x, c1).
      bindE (require_stable_revision operation (\<lambda>_. d) c1) (\<lambda>(u, c2). Inr (x, c2)))"
    by (simp add: fenced_def open_context_def bindR_def queryR_def Let_def rv returnR_def case_prod_unfold)
  show ?thesis
  proof (cases "body (\<lambda>_. d) ?c")
    case (Inl e)
    with b show ?thesis by (simp add: eq)
  next
    case (Inr xc)
    obtain x c1 where xc: "xc = (x, c1)" by (cases xc)
    with b Inr have "P x" "rc_revision c1 = index_revision d" by (simp_all add: ctx_ok_def)
    then show ?thesis
      by (simp add: eq Inr xc require_stable_revision_def bindR_def queryR_def revisionR_def returnR_def rv)
  qed
qed

text \<open>A fenced read that returns under concurrent writes returns what the body promises of the first database it saw.\<close>

lemma fenced_concurrent:
  assumes body: "local_read body" and h: "history_ok h" and inj: "inj_on sha256_hexdigest (range (\<lambda>i. revision_text (h i)))"
    and run: "fenced operation body h c = Inr (x, c')" and st: "stores (h (rc_clock c)) ns es"
    and reads: "reads (h (rc_clock c)) (index_revision (h (rc_clock c))) (\<lambda>_. True) body P"
  shows "P x"
  using fenced_reads [OF st reads, of operation c] fenced_snapshot [OF body h inj run] by simp

lemma validate_max_depth_eq: "validate_max_depth k = Inr u \<longleftrightarrow> 0 \<le> k \<and> k \<le> 3"
  by (auto simp: validate_max_depth_def MAX_GRAPH_TRAVERSAL_DEPTH_def)

lemma validate_result_limit_eq: "validate_result_limit l = Inr u \<longleftrightarrow> 1 \<le> l \<and> l \<le> 1000"
  by (auto simp: validate_result_limit_def)

lemma bindR_lift_run: "bindR (liftR m) f h c = Inr y \<longleftrightarrow> (\<exists>x. m = Inr x \<and> f x h c = Inr y)"
  by (cases m) (auto simp: bindR_def liftR_def)

lemma fresh_clock [simp]: "rc_clock fresh_context = 0"
  by (simp add: fresh_context_def)

section \<open>The services with any arguments\<close>

lemma reads_error: "E e \<Longrightarrow> reads d rv E (liftR (Inl e)) P"
  by (rule reads_liftR) simp

lemma search_body_any:
  assumes st: "stores d ns es" and k: "0 \<le> k" "k \<le> 3" and rv: "is_sha256 rv" and n: "0 < n"
  shows "reads d rv (\<lambda>_. True) (search_body n a q k l)
     (\<lambda>r. (\<exists>m. map_of ns a = Some m) \<and> searches ns (map snd es) rv a (normalized_terms q) k l r)"
proof (cases "map_of ns a")
  case None
  have "reads d rv (\<lambda>_. True) (required_node a) (\<lambda>_. False)" by (rule reads_missing_node [OF st None]) simp
  then show ?thesis unfolding search_body_def by (rule reads_bindR) simp
next
  case (Some m)
  show ?thesis
  proof (cases "normalized_terms q = []")
    case True
    then show ?thesis unfolding search_body_def Let_def
      by (intro reads_bind_eq [OF reads_required_node [OF st Some]]) (simp add: reads_error)
  next
    case False
    have "reads d rv (\<lambda>_. True) (search_body n a q k l) (searches ns (map snd es) rv a (normalized_terms q) k l)"
      by (rule reads_search_body [OF st Some False k rv n]) simp_all
    then show ?thesis using Some by (simp add: reads_weaken)
  qed
qed

lemma plan_body_any:
  assumes st: "stores d ns es" and k: "0 \<le> k" "k \<le> 3" "0 \<le> dk" "dk \<le> 3" and l: "1 \<le> l" "l \<le> 1000" and rv: "is_sha256 rv"
    and n: "0 < n" "states \<le> 1000"
  shows "reads d rv (\<lambda>_. True) (plan_body n candidates states a q k dk l)
     (\<lambda>x. \<exists>m. map_of ns a = Some m \<and> plans ns (map snd es) rv a (take 128 (normalized_terms (query_source q m))) k dk l x)"
proof (cases "map_of ns a")
  case None
  have "reads d rv (\<lambda>_. True) (required_node a) (\<lambda>_. False)" by (rule reads_missing_node [OF st None]) simp
  then show ?thesis unfolding plan_body_def by (rule reads_bindR) simp
next
  case (Some m)
  have "reads d rv (\<lambda>_. True) (plan_body n candidates states a q k dk l)
     (plans ns (map snd es) rv a (take 128 (normalized_terms (query_source q m))) k dk l)"
    by (rule reads_plan_body [OF st Some k l rv n]) simp_all
  then show ?thesis using Some by (auto elim: reads_weaken)
qed

lemma plans_candidate:
  assumes "plans ns es rv a terms k dk l x" and "c \<in> set (nx_candidates x)"
  shows "\<exists>c'. candidate_for ns es rv a terms k dk (candidate_id c') c' \<and> nc_task c = nc_task c' \<and> nc_eligible c = nc_eligible c'"
proof -
  from assms(1) obtain cs where cs: "nx_candidates x = map ranked (enumerate 1 (take (nat l) cs))"
      "\<forall>c\<in>set cs. candidate_for ns es rv a terms k dk (candidate_id c) c" by (auto simp: plans_def)
  from assms(2) cs(1) obtain r y where y: "c = ranked (r, y)" "(r, y) \<in> set (enumerate 1 (take (nat l) cs))" by auto
  then have "y \<in> set cs" using enumerate_mem [OF y(2)] by (auto dest: in_set_takeD)
  with cs(2) y(1) show ?thesis by auto
qed

section \<open>An index of a given graph\<close>

definition index_of :: "(string \<times> knowledge_node) list \<Rightarrow> ((string \<times> string \<times> string) \<times> knowledge_edge) list \<Rightarrow> kdb" where
  "index_of ns es = \<lparr>kd_tables = KNOWLEDGE_TABLES, kd_metadata = expected_metadata KNOWLEDGE_INDEX_SCHEMA_VERSION,
     kd_nodes = map (\<lambda>(k, n). (k, node_row_of n (json_dumps (node_to_dict n)))) ns, kd_terms = expected_terms (map snd ns),
     kd_edges = map (\<lambda>(k, e). (k, edge_row_of e (json_dumps (edge_to_dict e)))) es\<rparr>"

lemma dict_rel_map: "(\<And>k w. (k, w) \<in> set e \<Longrightarrow> P (f w) w) \<Longrightarrow> dict_rel P (map (\<lambda>(k, w). (k, f w)) e) e"
  unfolding dict_rel_def by (induction e) auto

lemma stores_index_of:
  assumes "graph_ok ns es"
  shows "stores (index_of ns es) ns es"
proof -
  have g: "dict_ok ns" "dict_ok es" "\<And>k n. (k, n) \<in> set ns \<Longrightarrow> k = kn_node_id n \<and> wf_node n"
    "\<And>k e. (k, e) \<in> set es \<Longrightarrow> k = edge_ident e \<and> wf_edge e" using assms by (auto simp: graph_ok_def)
  have nodes: "dict_rel (\<lambda>r n. node_from_row r = Inr n) (kd_nodes (index_of ns es)) ns"
    using g(3) by (simp add: index_of_def dict_rel_map node_from_row_of)
  have edges: "dict_rel (\<lambda>r e. edge_from_row r = Inr e) (kd_edges (index_of ns es)) es"
    using g(4) by (simp add: index_of_def dict_rel_map edge_from_row_of)
  have "dict_ok (kd_nodes (index_of ns es))" "dict_ok (kd_edges (index_of ns es))"
    using dict_rel_dict_ok [OF nodes] dict_rel_dict_ok [OF edges] g(1,2) by simp_all
  moreover have "dict_ok (kd_terms (index_of ns es))" using g(1,3) by (auto simp: index_of_def intro: expected_terms_ok)
  moreover have "\<forall>(k, r)\<in>set (kd_nodes (index_of ns es)). nr_node_id r = k" using g(3) by (auto simp: index_of_def node_row_of_def)
  moreover have "\<forall>(k, r)\<in>set (kd_edges (index_of ns es)). edge_key r = k" using g(4) by (auto simp: index_of_def)
  ultimately show ?thesis
    using nodes edges assms unfolding stores_def rows_ok_def by (simp add: index_of_def)
qed

text \<open>Two tasks: one is ready and depends on the other, which is completed.\<close>

definition demo_provenance :: knowledge_provenance where
  "demo_provenance = \<lparr>kp_source_id = ''repo'', kp_source_kind = ''file'', kp_source_digest = ''sha256:'' @ replicate 64 (CHR ''0''),
     kp_producer = ''team'', kp_revision = ''1'', kp_schema_version = ''sisyphus_harness.knowledge_provenance.v1''\<rparr>"

definition demo_task :: "string \<Rightarrow> candidate_task_status \<Rightarrow> knowledge_node" where
  "demo_task i status = \<lparr>kn_node_id = i, kn_node_type = TASK, kn_title = ''parser task'', kn_content = ''write it'', kn_provenance = demo_provenance,
     kn_task_status = Some status, kn_metadata = [], kn_authority = DERIVED_CANDIDATE_AUTHORITY,
     kn_schema_version = ''sisyphus_harness.knowledge_node.v1''\<rparr>"

definition demo_edge :: "string \<Rightarrow> string \<Rightarrow> knowledge_edge" where
  "demo_edge i j = \<lparr>ke_source_node_id = i, ke_target_node_id = j, ke_edge_type = DEPENDS_ON, ke_provenance = demo_provenance,
     ke_metadata = [], ke_authority = DERIVED_CANDIDATE_AUTHORITY, ke_schema_version = ''sisyphus_harness.knowledge_edge.v1''\<rparr>"

definition demo_nodes :: "(string \<times> knowledge_node) list" where
  "demo_nodes = [(''a'', demo_task ''a'' STATUS_READY), (''b'', demo_task ''b'' STATUS_COMPLETED)]"

definition demo_edges :: "((string \<times> string \<times> string) \<times> knowledge_edge) list" where
  "demo_edges = [((''a'', ''b'', ''depends_on''), demo_edge ''a'' ''b'')]"

lemma demo_wf: "wf_node (demo_task ''a'' STATUS_READY)" "wf_node (demo_task ''b'' STATUS_COMPLETED)"
    "wf_edge (demo_edge ''a'' ''b'')" "wf_edge (demo_edge ''b'' ''a'')"
proof -
  have "is_identifier ''a''" "is_identifier ''b''" "is_identifier ''repo''" "is_identifier ''file''" by code_simp+
  moreover have "text_present ''team''" "text_present ''1''" "text_present ''parser task''" "text_present ''write it''" by code_simp+
  moreover have "is_sha256 (''sha256:'' @ replicate 64 (CHR ''0''))" by code_simp
  ultimately show "wf_node (demo_task ''a'' STATUS_READY)" "wf_node (demo_task ''b'' STATUS_COMPLETED)"
    "wf_edge (demo_edge ''a'' ''b'')" "wf_edge (demo_edge ''b'' ''a'')"
    by (simp_all add: wf_node_def wf_edge_def demo_task_def demo_edge_def wf_provenance_def demo_provenance_def wf_metadata_def)
qed

lemma demo_rel: "dependency_rel (map snd demo_edges) = {(''a'', ''b'')}" "dependency_rel [] = {}"
    "adjacent (map snd demo_edges) = {(''a'', ''b''), (''b'', ''a'')}"
  by (auto simp: dependency_rel_def dependency_pairs_def demo_edges_def demo_edge_def is_dependency_def DEPENDENCY_EDGE_TYPES_def adjacent_def)

lemma demo_grounded: "edge_grounded demo_nodes (demo_edge ''a'' ''b'')" "edge_grounded demo_nodes (demo_edge ''b'' ''a'')"
  by (simp_all add: edge_grounded_def demo_nodes_def demo_edge_def is_task_def demo_task_def)

lemma demo_graph: "graph_ok demo_nodes demo_edges" "graph_ok demo_nodes []"
proof -
  have keys: "dict_ok demo_nodes" "dict_ok demo_edges" by code_simp+
  have nodes: "\<forall>(k, n)\<in>set demo_nodes. k = kn_node_id n \<and> wf_node n" using demo_wf by (simp add: demo_nodes_def) (simp add: demo_task_def)
  have edges: "\<forall>(k, e)\<in>set demo_edges. k = edge_ident e \<and> wf_edge e \<and> edge_grounded demo_nodes e"
    using demo_wf demo_grounded by (simp add: demo_edges_def) (simp add: demo_edge_def edge_ident_def)
  have "acyclic ({} :: (string \<times> string) set)" "acyclic {(''a'', ''b'')}" by (auto simp: acyclic_insert) (simp_all add: acyclic_def)
  then show "graph_ok demo_nodes demo_edges" "graph_ok demo_nodes []" using keys nodes edges by (simp_all add: graph_ok_def demo_rel)
qed

lemma demo_stores: "stores (index_of demo_nodes demo_edges) demo_nodes demo_edges" "stores (index_of demo_nodes []) demo_nodes []"
  by (rule stores_index_of [OF demo_graph(1)], rule stores_index_of [OF demo_graph(2)])

lemma demo_ball: "ball (adjacent (map snd demo_edges)) ''a'' k \<subseteq> {''a'', ''b''}" "ball (dependency_rel (map snd demo_edges)) v k - {v} \<subseteq> {''b''}"
proof -
  have "R\<^sup>* `` {x} \<subseteq> insert x (Range R)" for R :: "(string \<times> string) set" and x by (auto elim: rtranclE)
  then have b: "ball R x k \<subseteq> insert x (Range R)" for R :: "(string \<times> string) set" and x using ball_rtrancl [of R x k] by blast
  show "ball (adjacent (map snd demo_edges)) ''a'' k \<subseteq> {''a'', ''b''}" using b [of "adjacent (map snd demo_edges)" "''a''"] by (auto simp: demo_rel)
  show "ball (dependency_rel (map snd demo_edges)) v k - {v} \<subseteq> {''b''}" using b [of "dependency_rel (map snd demo_edges)" v] by (auto simp: demo_rel)
qed

section \<open>Writes\<close>

text \<open>
  C5. Kahn's algorithm, as the integrity check runs it on the stored edges, reports a cycle exactly when the relation of the
  dependency edges is not acyclic.
\<close>

theorem cycle_check_exact: "dependency_edges_contain_cycle edges \<longleftrightarrow> \<not> acyclic (dependency_rel edges)"
  by (rule dependency_cycle_iff)

text \<open>
  C9. Writing a new, well-formed dependency edge between two stored tasks into a well-formed index is decided by
  acyclicity alone: if the dependencies stay acyclic the edge is stored and nothing else changes, otherwise the answer is
  CYCLE and the file is unchanged. The edge must not share its digest with a stored one.
\<close>

theorem dependency_write_exact:
  assumes "stores d ns es" and "wf_edge e" and "is_dependency e" and "map_of es (edge_ident e) = None"
    and "edge_digest e \<notin> edge_digest ` snd ` set es" and "edge_grounded ns e"
  shows "if acyclic (insert (ke_source_node_id e, ke_target_node_id e) (dependency_rel (map snd es)))
     then \<exists>d'. put_dependency_edge e d = (Inr INSERTED, d') \<and> stores d' ns (dict_set (edge_ident e) e es)
     else put_dependency_edge e d = (Inr CYCLE, d)"
  using assms by (rule put_dependency_edge_new)

lemma acyclic_empty: "acyclic {}"
  by (simp add: acyclic_def)

theorem dependency_write_exact_witness:
  "\<exists>d'. put_dependency_edge (demo_edge ''a'' ''b'') (index_of demo_nodes []) = (Inr INSERTED, d')
     \<and> stores d' demo_nodes [((''a'', ''b'', ''depends_on''), demo_edge ''a'' ''b'')]"
proof -
  have e: "ke_source_node_id (demo_edge ''a'' ''b'') = ''a''" "ke_target_node_id (demo_edge ''a'' ''b'') = ''b''"
      "is_dependency (demo_edge ''a'' ''b'')" "edge_ident (demo_edge ''a'' ''b'') = (''a'', ''b'', ''depends_on'')"
    by (simp_all add: demo_edge_def is_dependency_def DEPENDENCY_EDGE_TYPES_def edge_ident_def)
  show ?thesis
    using dependency_write_exact [OF demo_stores(2) demo_wf(3) e(3) _ _ demo_grounded(1)] by (simp add: e demo_rel acyclic_empty)
qed

lemma initialize_empty: "stores (snd (initialize_index empty_kdb)) [] [] \<and> fst (initialize_index empty_kdb) = Inr ()"
proof -
  let ?d = "\<lparr>kd_tables = [''knowledge_index_metadata'', ''knowledge_nodes'', ''knowledge_terms'', ''knowledge_edges''],
      kd_metadata = expected_metadata KNOWLEDGE_INDEX_SCHEMA_VERSION, kd_nodes = [], kd_terms = [], kd_edges = []\<rparr>"
  have st: "stores ?d [] []"
    by (simp add: stores_def rows_ok_def KNOWLEDGE_TABLES_def graph_ok_def expected_terms_def demo_rel(2)) (simp add: acyclic_def)
  from stores_integrity [OF this] obtain r where "revision_digest_from_connection ?d KNOWLEDGE_INDEX_SCHEMA_VERSION = Inr r"
    by (auto simp: require_integrity_def)
  moreover have "py_dict [(''authority'', DERIVED_CANDIDATE_AUTHORITY), (''schema_version'', show_int KNOWLEDGE_INDEX_SCHEMA_VERSION)]
      = expected_metadata KNOWLEDGE_INDEX_SCHEMA_VERSION"
    unfolding expected_metadata_def by (rule py_dict_ordered) code_simp
  ultimately have "initialize_index empty_kdb = (Inr (), ?d)"
    by (simp add: initialize_index_def transaction_def empty_kdb_def create_table_def create_schema_def Let_def KNOWLEDGE_INDEX_SCHEMA_VERSION_def)
  with st show ?thesis by simp
qed

text \<open>
  C10. Every file reached from a new index by any sequence of openings and writes, successful or not and by any callers,
  stores a well-formed graph: rows that match their payloads, endpoints that exist, dependencies between tasks that are
  acyclic, and the search terms of exactly the stored nodes; it passes the integrity check. What was stored before stays
  stored.
\<close>

theorem index_invariant:
  assumes "index_step\<^sup>*\<^sup>* (snd (initialize_index empty_kdb)) d" and "index_step\<^sup>*\<^sup>* d d'"
  shows "\<exists>ns es. stores d' ns es \<and> acyclic (dependency_rel (map snd es)) \<and> (\<exists>r. require_integrity d' = Inr r) \<and> grows d d'"
proof -
  have "index_ok (snd (initialize_index empty_kdb))" using initialize_empty by (auto simp: index_ok_def)
  from kix.inv_run [OF assms(1) this] have d: "index_ok d" .
  from kix.inv_run [OF assms(2) d] kix.le_run [OF assms(2) d] have "index_ok d'" "grows d d'" by simp_all
  then show ?thesis using stores_integrity by (fastforce simp: index_ok_def stores_def graph_ok_def)
qed

theorem index_invariant_witness:
  "\<exists>ns es. stores (snd (put_node (demo_task ''a'' STATUS_READY) (snd (initialize_index empty_kdb)))) ns es
     \<and> acyclic (dependency_rel (map snd es))
     \<and> (\<exists>r. require_integrity (snd (put_node (demo_task ''a'' STATUS_READY) (snd (initialize_index empty_kdb)))) = Inr r)
     \<and> grows (snd (initialize_index empty_kdb)) (snd (put_node (demo_task ''a'' STATUS_READY) (snd (initialize_index empty_kdb))))"
proof (rule index_invariant)
  let ?d = "snd (initialize_index empty_kdb)" and ?n = "demo_task ''a'' STATUS_READY"
  show "index_step\<^sup>*\<^sup>* ?d ?d" by simp
  have "put_node ?n ?d = (fst (put_node ?n ?d), snd (put_node ?n ?d))" by simp
  then have "index_step ?d (snd (put_node ?n ?d))" by (rule index_step.node)
  then show "index_step\<^sup>*\<^sup>* ?d (snd (put_node ?n ?d))" by simp
qed

text \<open>
  C12. The integrity check is exact: on tables that keep their primary keys it succeeds precisely when the file stores a
  well-formed graph, and then it returns the digest of that graph.
\<close>

theorem integrity_exact:
  assumes "rows_ok d"
  shows "require_integrity d = Inr r \<longleftrightarrow> (\<exists>ns es. stores d ns es \<and>
     r = wire_digest (revision_value (kd_metadata d) (map snd ns) (map snd es) (kd_terms d)))"
  using assms by (rule require_integrity_iff)

theorem integrity_exact_witness:
  "rows_ok (index_of demo_nodes demo_edges) \<and> (\<exists>r. require_integrity (index_of demo_nodes demo_edges) = Inr r)"
proof -
  have rows: "rows_ok (index_of demo_nodes demo_edges)" using demo_stores(1) by (simp add: stores_def)
  show ?thesis using rows demo_stores(1) integrity_exact [OF rows] by blast
qed

section \<open>Reads\<close>


lemma demo_sizes:
  "card (ball (adjacent (map snd demo_edges)) ''a'' k) \<le> 2" "card {i \<in> ball (adjacent (map snd demo_edges)) ''a'' k - {''a''}. P i} \<le> 2"
  "card (ball (dependency_rel (map snd demo_edges)) v k - {v}) \<le> 1"
proof -
  have "card (ball (adjacent (map snd demo_edges)) ''a'' k) \<le> card {''a'', ''b''}" by (rule card_mono [OF _ demo_ball(1)]) simp
  then show "card (ball (adjacent (map snd demo_edges)) ''a'' k) \<le> 2" by simp
  have "card {i \<in> ball (adjacent (map snd demo_edges)) ''a'' k - {''a''}. P i} \<le> card {''a'', ''b''}" using demo_ball(1) by (intro card_mono) auto
  then show "card {i \<in> ball (adjacent (map snd demo_edges)) ''a'' k - {''a''}. P i} \<le> 2" by simp
  have "card (ball (dependency_rel (map snd demo_edges)) v k - {v}) \<le> card {''b''}" by (rule card_mono [OF _ demo_ball(2)]) simp
  then show "card (ball (dependency_rel (map snd demo_edges)) v k - {v}) \<le> 1" by simp
qed

lemma demo_anchor: "map_of demo_nodes ''a'' = Some (demo_task ''a'' STATUS_READY)"
  by (simp add: demo_nodes_def)

lemma demo_terms: "normalized_terms ''Parser'' = [''parser'']"
  by code_simp


text \<open>
  C23. A search that returns while others open and write the index answers from one state of it: the hits are those of a
  search of the graph stored when the search began, unless SHA-256 collides on the revision texts of the history.
\<close>

theorem search_snapshot:
  assumes h: "history_ok h" and inj: "inj_on sha256_hexdigest (range (\<lambda>i. revision_text (h i)))"
    and run: "graph_search a q k l h = Inr (hits, c)"
  shows "\<exists>ns es m. stores (h 0) ns es \<and> map_of ns a = Some m
     \<and> searches ns (map snd es) (index_revision (h 0)) a (normalized_terms q) k l hits"
proof -
  from run have k: "0 \<le> k" "k \<le> 3" and f: "fenced ''search'' (search_body MAX_GRAPH_EXPANSION_NODES a q k l) h fresh_context = Inr (hits, c)"
    by (auto simp: graph_search_def search_fenced bindR_lift_run validate_max_depth_eq)
  obtain ns es where st: "stores (h 0) ns es" using history_index_ok [OF h] unfolding index_ok_def by blast
  have "reads (h 0) (index_revision (h 0)) (\<lambda>_. True) (search_body MAX_GRAPH_EXPANSION_NODES a q k l)
      (\<lambda>r. (\<exists>m. map_of ns a = Some m) \<and> searches ns (map snd es) (index_revision (h 0)) a (normalized_terms q) k l r)"
    by (rule search_body_any [OF st k index_revision_digest [OF st]]) (simp add: MAX_GRAPH_EXPANSION_NODES_def)
  from fenced_concurrent [OF local_search_body h inj f, unfolded fresh_clock, OF st this] st show ?thesis by blast
qed

lemma demo_history: "history_ok (\<lambda>_. index_of demo_nodes demo_edges)" "inj_on sha256_hexdigest (range (\<lambda>i::nat. revision_text (index_of demo_nodes demo_edges)))"
  using demo_stores(1) by (auto simp: history_ok_def index_ok_def)

text \<open>The demonstration index answers a search.\<close>

lemma demo_search: "\<exists>hits c. graph_search ''a'' ''Parser'' 2 10 (\<lambda>_. index_of demo_nodes demo_edges) = Inr (hits, c)"
proof -
  have "reads (index_of demo_nodes demo_edges) (index_revision (index_of demo_nodes demo_edges)) (\<lambda>_. False)
      (search_body MAX_GRAPH_EXPANSION_NODES ''a'' ''Parser'' 2 10) (\<lambda>_. True)"
    by (rule reads_weaken [OF reads_search_body [OF demo_stores(1) demo_anchor _ _ _ index_revision_digest [OF demo_stores(1)], where E = "\<lambda>_. False"]])
      (use demo_sizes(1) [of 2] in \<open>simp_all add: demo_terms MAX_GRAPH_EXPANSION_NODES_def\<close>)
  from fenced_reads [OF demo_stores(1) this, of "''search''" fresh_context] show ?thesis
    by (auto simp: graph_search_def search_fenced bindR_lift_run validate_max_depth_eq validate_result_limit_eq split: sum.splits)
qed

theorem search_snapshot_witness:
  "\<exists>h hits c ns es m. history_ok h \<and> graph_search ''a'' ''Parser'' 2 10 h = Inr (hits, c) \<and> stores (h 0) ns es \<and> map_of ns ''a'' = Some m
     \<and> searches ns (map snd es) (index_revision (h 0)) ''a'' (normalized_terms ''Parser'') 2 10 hits"
proof -
  from demo_search obtain hits c where run: "graph_search ''a'' ''Parser'' 2 10 (\<lambda>_. index_of demo_nodes demo_edges) = Inr (hits, c)" by blast
  from search_snapshot [OF demo_history run] run demo_history(1) show ?thesis by blast
qed



text \<open>
  C32. Eligibility can be trusted although the index is written meanwhile. In a plan that is returned, a candidate is
  marked eligible exactly when, in the graph stored when the planning began, it is a ready task, everything it depends on,
  directly or through others, is completed, and none of that lies beyond the dependency depth; unless SHA-256 collides on
  the revision texts of the history.
\<close>

theorem eligible_exact:
  assumes h: "history_ok h" and inj: "inj_on sha256_hexdigest (range (\<lambda>i. revision_text (h i)))"
    and run: "graph_next_step_context a q k dk l h = Inr (x, c)"
  shows "\<exists>ns es. stores (h 0) ns es \<and> (\<forall>n\<in>set (nx_candidates x). map_of ns (candidate_id n) = Some (nc_task n)
     \<and> (nc_eligible n \<longleftrightarrow> status_in ns (candidate_id n) = Some STATUS_READY
          \<and> (\<forall>v. (candidate_id n, v) \<in> (dependency_rel (map snd es))\<^sup>+ \<longrightarrow> status_in ns v = Some STATUS_COMPLETED)
          \<and> layer (dependency_rel (map snd es)) (candidate_id n) (Suc (nat dk)) = {}))"
proof -
  let ?body = "plan_body MAX_GRAPH_EXPANSION_NODES MAX_NEXT_STEP_CANDIDATES MAX_DEPENDENCY_STATES a q k dk l"
  from run have k: "0 \<le> k" "k \<le> 3" "0 \<le> dk" "dk \<le> 3" "1 \<le> l" "l \<le> 1000"
    and f: "fenced ''next-step planning'' ?body h fresh_context = Inr (x, c)"
    by (auto simp: graph_next_step_context_def plan_fenced bindR_lift_run validate_max_depth_eq validate_result_limit_eq)
  obtain ns es where st: "stores (h 0) ns es" using history_index_ok [OF h] unfolding index_ok_def by blast
  then have acyclic: "acyclic (dependency_rel (map snd es))" by (simp add: stores_def graph_ok_def)
  have "reads (h 0) (index_revision (h 0)) (\<lambda>_. True) ?body
     (\<lambda>x. \<exists>m. map_of ns a = Some m \<and> plans ns (map snd es) (index_revision (h 0)) a (take 128 (normalized_terms (query_source q m))) k dk l x)"
    by (rule plan_body_any [OF st k index_revision_digest [OF st]]) (simp_all add: MAX_GRAPH_EXPANSION_NODES_def MAX_DEPENDENCY_STATES_def)
  from fenced_concurrent [OF local_plan_body h inj f, unfolded fresh_clock, OF st this]
  obtain m where plan: "plans ns (map snd es) (index_revision (h 0)) a (take 128 (normalized_terms (query_source q m))) k dk l x" by blast
  have "map_of ns (candidate_id n) = Some (nc_task n) \<and> (nc_eligible n \<longleftrightarrow> status_in ns (candidate_id n) = Some STATUS_READY
      \<and> (\<forall>v. (candidate_id n, v) \<in> (dependency_rel (map snd es))\<^sup>+ \<longrightarrow> status_in ns v = Some STATUS_COMPLETED)
      \<and> layer (dependency_rel (map snd es)) (candidate_id n) (Suc (nat dk)) = {})" if "n \<in> set (nx_candidates x)" for n
  proof -
    from plans_candidate [OF plan that] obtain n' where n': "candidate_for ns (map snd es) (index_revision (h 0)) a
        (take 128 (normalized_terms (query_source q m))) k dk (candidate_id n') n'" "nc_task n = nc_task n'" "nc_eligible n = nc_eligible n'" by blast
    from candidate_eligible [OF n'(1) acyclic] n' show ?thesis by (auto simp: candidate_for_def)
  qed
  with st show ?thesis by blast
qed

lemma demo_plan: "\<exists>x c. graph_next_step_context ''a'' None 1 3 5 (\<lambda>_. index_of demo_nodes demo_edges) = Inr (x, c)"
proof -
  have deep: "\<not> 1000 < card (ball (dependency_rel (map snd demo_edges)) v 3 - {v})" for v using demo_sizes(3) [of v 3] by simp
  have "reads (index_of demo_nodes demo_edges) (index_revision (index_of demo_nodes demo_edges)) (\<lambda>_. False)
      (plan_body MAX_GRAPH_EXPANSION_NODES MAX_NEXT_STEP_CANDIDATES MAX_DEPENDENCY_STATES ''a'' None 1 3 5) (\<lambda>_. True)"
    by (rule reads_weaken [OF reads_plan_body [OF demo_stores(1) demo_anchor _ _ _ _ _ _ index_revision_digest [OF demo_stores(1)], where E = "\<lambda>_. False"]])
      (use demo_sizes(1) [of 1] demo_sizes(2) [of 1 "\<lambda>i. is_task (map_of demo_nodes i)"] in
       \<open>simp_all add: deep MAX_GRAPH_EXPANSION_NODES_def MAX_NEXT_STEP_CANDIDATES_def MAX_DEPENDENCY_STATES_def\<close>)
  from fenced_reads [OF demo_stores(1) this, of "''next-step planning''" fresh_context] show ?thesis
    by (auto simp: graph_next_step_context_def plan_fenced bindR_lift_run validate_max_depth_eq validate_result_limit_eq split: sum.splits)
qed

theorem eligible_exact_witness:
  "\<exists>h x c ns es. history_ok h \<and> graph_next_step_context ''a'' None 1 3 5 h = Inr (x, c) \<and> stores (h 0) ns es
     \<and> (\<forall>n\<in>set (nx_candidates x). map_of ns (candidate_id n) = Some (nc_task n)
     \<and> (nc_eligible n \<longleftrightarrow> status_in ns (candidate_id n) = Some STATUS_READY
          \<and> (\<forall>v. (candidate_id n, v) \<in> (dependency_rel (map snd es))\<^sup>+ \<longrightarrow> status_in ns v = Some STATUS_COMPLETED)
          \<and> layer (dependency_rel (map snd es)) (candidate_id n) (Suc (nat 3)) = {}))"
proof -
  from demo_plan obtain x c where run: "graph_next_step_context ''a'' None 1 3 5 (\<lambda>_. index_of demo_nodes demo_edges) = Inr (x, c)" by blast
  from eligible_exact [OF demo_history run] run demo_history(1) show ?thesis by blast
qed

end
