(* ===== verification/Spec2Isabelle.thy ===== *)
theory Spec2Isabelle
  imports Queue_Liveness Control_Adjudication Agent_Loop Knowledge_Guarantees
begin

text \<open>
  Verification of the Sisyphus Harness (\<^verbatim>\<open>src/src/sisyphus_harness/\<close>): its agent loop, its control plane and its knowledge graph.

  The program. A coding job is submitted to a queue in a SQLite database, leased to a worker, run by an agent and finished with an attempt
  record. Control then decides what the attempt is worth: it has a verifier run the commands of a verification profile on the
  workspace bundle the attempt produced, turns the verifier's receipt into observations, evaluates the job's evidence contract on them,
  and publishes one immutable outcome. All data between the parts is frozen dataclasses with checks in their
  constructors, written as canonical JSON and named by SHA-256 digests. This development models that path from the text of a job to its outcome, and the loop of the agent in between.
  Beside it stands the knowledge graph: an index of tasks and notes in a SQLite file of its own, whose services search the neighborhood of a node,
  inspect the dependencies of a task and rank the tasks that could come next. Its answers are candidates only and admit nothing.

  The parts, their theories and their sources.
  \<^item> Shared vocabulary: \<open>Harness_Prelude\<close> (exceptions as values of a sum type, Python strings and dicts), \<open>Py_Float\<close> and \<open>Float_Rounding\<close>
    (binary64 values, their rounding, sums and text), \<open>Sha256\<close> (FIPS 180-4 over words), \<open>Step_Systems\<close> (the interface of a
    stateful component: invariant, monotone and refining step systems as locales).
  \<^item> \<open>Wire_Codec\<close>: \<^verbatim>\<open>contracts/codec.py\<close>. Wire values, canonical text, strict reader, digests; the locales
    \<open>wire_class\<close>, \<open>digest_class\<close> and \<open>digest_contract\<close> state what a dataclass promises of its codec.
  \<^item> \<open>Evidence_Contracts\<close>, \<open>Evidence_Wire\<close>: \<^verbatim>\<open>contracts/evidence_contract.py\<close>. Every evidence class with constructor, encoder,
    decoder and digest; the second theory interprets the codec locales on them.
  \<^item> \<open>Evidence_Evaluator\<close>: \<^verbatim>\<open>evidence_contract.py\<close>. The linter and the three-valued evaluator.
  \<^item> \<open>Run_Contracts\<close>: \<^verbatim>\<open>contracts/artifacts.py\<close>, \<^verbatim>\<open>workspace.py\<close>, \<^verbatim>\<open>agent.py\<close>, \<^verbatim>\<open>control/attempts.py\<close>, \<^verbatim>\<open>control/legacy.py\<close>.
  \<^item> \<open>Job_Store\<close>: \<^verbatim>\<open>database.py\<close>. Tables with their constraints, transactions that roll back, migrations.
  \<^item> \<open>Job_Queue\<close>: \<^verbatim>\<open>queue.py\<close>. Every method, as a function from clock, time stamp, arguments and database to a result and a database.
    \<open>Queue_Protocol\<close> has the step relation of its callers, the invariant of the database and the refinement of an
    abstract lease machine; \<open>Queue_Properties\<close> and \<open>Queue_Liveness\<close> what follows.
  \<^item> \<open>Verification_Contracts\<close>, \<open>Verification_Service\<close>: \<^verbatim>\<open>contracts/verification.py\<close>, \<^verbatim>\<open>contracts/verification_service.py\<close>,
    \<^verbatim>\<open>contracts/verifier_assets.py\<close>. Commands, receipts, profiles, requests and results of a verification.
  \<^item> \<open>Task_Outcomes\<close>, \<open>Outcome_Authority\<close>: \<^verbatim>\<open>contracts/control/outcomes.py\<close>, \<^verbatim>\<open>infra/control_outcomes.py\<close>. The outcome of a job and its
    store; the locale \<open>outcome_authority\<close> is the contract of \<open>TaskOutcomeAuthorityPort\<close>, interpreted on the SQLite store.
  \<^item> \<open>Receipt_Observations\<close>: \<^verbatim>\<open>adapters/receipt_observations.py\<close>. Binding checks, the adapter from receipts to observations, Control's check on
    observations.
  \<^item> \<open>Control_Adjudication\<close>: \<^verbatim>\<open>services/evidence_contract.py\<close>, \<^verbatim>\<open>services/control_outcomes.py\<close> and their ports. The locale
    \<open>outcome_history\<close> extends the authority with the steps of its callers.
  \<^item> \<open>Agent_Protocol\<close>, \<open>Agent_State\<close>, \<open>Agent_Loop\<close>: \<^verbatim>\<open>protocol.py\<close>, \<^verbatim>\<open>compaction.py\<close>, \<^verbatim>\<open>agent_state.py\<close>, \<^verbatim>\<open>agent_transitions.py\<close>,
    \<^verbatim>\<open>agent_loop.py\<close>, \<^verbatim>\<open>deadline.py\<close>, \<^verbatim>\<open>agent.py\<close>, the limits and the cadence of a run. What a response may say, what a run remembers, its two
    transition handlers, its loop and its result; provider, tools, verifier, clock and workspace are an environment that answers each call.
  \<^item> \<open>Knowledge_Contracts\<close>, \<open>Knowledge_Results\<close>: \<^verbatim>\<open>contracts/knowledge.py\<close>. Nodes, edges and provenance with their codecs and digests, search terms, and
    the results of a read with all their constructors recheck.
  \<^item> \<open>Dependency_Graphs\<close>, \<open>Knowledge_Index\<close>: \<^verbatim>\<open>infra/knowledge_database.py\<close>, \<^verbatim>\<open>infra/knowledge_integrity.py\<close>, \<^verbatim>\<open>infra/knowledge_projection.py\<close>,
    \<^verbatim>\<open>infra/knowledge_queries.py\<close>, \<^verbatim>\<open>knowledge_mutations.py\<close>. The cycle tests; the tables, the integrity check, the writes and the queries. \<open>stores d ns es\<close>
    is the abstraction of a file to its nodes and edges; the interpretation \<open>kix\<close> shows that all writers together form a monotone step system.
  \<^item> \<open>Knowledge_Reads\<close>: \<^verbatim>\<open>knowledge_read_context.py\<close>, \<^verbatim>\<open>knowledge_search.py\<close>, \<^verbatim>\<open>knowledge_dependencies.py\<close>, \<^verbatim>\<open>knowledge_planning.py\<close>, \<^verbatim>\<open>knowledge_graph.py\<close>.
    A read is a state-passing computation over the sequence of databases its queries meet. \<open>Graph_Layers\<close> (layers of a relation), \<open>Snapshot_Reads\<close> (rules
    for reads of an unchanging index), \<open>Knowledge_Traversal\<close>, \<open>Knowledge_Services\<close>, \<open>Knowledge_Searches\<close> and \<open>Knowledge_Plans\<close> prove what each stage
    returns, \<open>Knowledge_Guarantees\<close> what a caller can rely on.
  \<^item> This theory has the property that spans the control plane.

  How code and model correspond. A dataclass is a record whose fields carry a short prefix, \<open>mk_\<close> is its \<open>__post_init__\<close>, \<open>_items\<close> the pairs of its
  \<open>to_dict\<close>, \<open>_digest\<close> its digest property, \<open>_to_dict\<close> and \<open>_from_dict\<close> its codec, \<open>wf_\<close> the values its constructor accepts. An exception is
  a value \<open>Inl e\<close>, with the class and message of the source, and \<open>bindE\<close> sequences statements. A method on the database takes and
  returns it; a transaction that raises returns the database it started from. A port is a record of functions. A Python \<open>dict\<close> is an
  association list in the order of its keys (insertion order is not observed by the modelled code). Exact-type checks (\<open>type(x) is C\<close>) of values that have a HOL
  type are discharged by it; checks on raw JSON values are modelled, on the type \<open>pyobj\<close>.

  What the lemmas show.
  \<^item> C1 to C3: canonical text reads back, a contract is decoded exactly when it is the encoding of a well-formed one, and hard
    limits bound every accepted expression.
  \<^item> C6 to C8 and C11: the linter is exact and makes evaluation complete; the evaluator gives the strongest verdict that every
    completion of the evidence agrees on.
  \<^item> C14: which agent results cannot be stored.
  \<^item> C5, C9, C10 and C12: the knowledge index. Both cycle tests decide acyclicity, a dependency is written exactly when it closes no cycle, every
    file the writers reach is a well-formed graph that only grows, and the integrity check accepts nothing else.
  \<^item> C21, C23, C28 and C32: the knowledge reads. Within their limits search and planning answer, exactly; a read that returns under concurrent writes
    answers from one state; a candidate is eligible exactly when it is ready and everything it depends on is completed.
  \<^item> C4, C13, C26, C34 and C40: the agent. Responses are typed and can all be said, compaction in parts is compaction at once, a run ends within
    its budgets, and it reports success only after a passing final verification.
  \<^item> C15 to C20, C22, C24 and C25: invariants and refinement of the queue under every interleaving of its callers, exclusion of lease holders,
    fencing of stale workers, progress of claims, the limits of lease rounding, idempotent submission, migrations.
  \<^item> C27: a decoded receipt that claims success shows it.
  \<^item> C29 to C31: publication is fenced by the recorded attempt, happens once and is permanent, in every reachable database.
  \<^item> C33: Control's check on observations accepts exactly the facts of the receipt, so no adapter decides a verdict.
  \<^item> C35 to C39: what an adjudication rests on, that the agent's claims have no part in it, that it is published as found, once, under any
    interleaving, and that a published verdict is the contract's verdict on the verifier's receipt.

  Bounds and fuel. The JSON reader recurses with fuel \<open>2 * length + 2\<close> of the text, which C1 shows to be enough for every
  canonical text; all other functions are total by structural recursion or a termination proof. Integers are unbounded as in Python; where
  SQLite stores one, \<open>bind_integer\<close> has its 64-bit bound, and evidence values have the bound of the source.

  Conventions and hypotheses. A \<open>str\<close> is a list of code points up to 255: escapes beyond \<^verbatim>\<open>\u00FF\<close> are refused by the model's reader. Float
  text is the shortest decimal that reads back; that it does for a given float is the hypothesis \<open>float_ok\<close>, shown for the concrete values used.
  \<open>RecursionError\<close> and the limit on the digits of an \<open>int\<close> are not modelled, nor the position a JSON error reports. The clock, UTC time and fresh
  identifiers are arguments. SQLite is taken as documented: statements are atomic and \<^verbatim>\<open>BEGIN IMMEDIATE\<close> serialises transactions, so a run of
  steps in any order stands for concurrent callers. The verifier is a parameter of the services: \<open>verifier_values\<close> says that the objects it returns have
  passed their constructors, and nothing is assumed of its verdicts. A knowledge read makes each of its queries on the state the file has then, and any writes may
  fall between two of them; the statements of one call of \<open>term_scores\<close> count as one query. That no two states of the history share a revision digest unless they
  share the text under it is a hypothesis of C23 and C32.

  Not modelled. The text of the prompts and the provider's transport (\<^verbatim>\<open>provider.py\<close>, the renderer of \<^verbatim>\<open>agent_context.py\<close>), on whose answers nothing is assumed;
  the workspace tools (\<^verbatim>\<open>tools.py\<close>, \<^verbatim>\<open>workspace*.py\<close>) and the verifier with its Docker adapters (\<^verbatim>\<open>verifier.py\<close>, \<^verbatim>\<open>adapters/docker_*.py\<close>), which work on files and
  processes and are environments here; the worker process (\<^verbatim>\<open>worker.py\<close>); bundle and asset archives on disk (\<^verbatim>\<open>infra/workspace_bundle.py\<close>,
  \<^verbatim>\<open>infra/verifier_assets.py\<close>); candidate policies, benchmarks, evolution, configuration files and the command line.
\<close>

section \<open>The whole path\<close>

text \<open>An outcome that was not there when the service looked was built from the answer of its adjudicator.\<close>

lemma fresh_outcome:
  assumes "outcome_source (sqlite_authority utc) adjudicator request s attempt t" "get_task_outcome (oq_job_id request) s = Inr None"
  obtains adj where "adjudicator (adjudication_request_of request attempt) = Inr adj" "build_outcome request attempt adj = Inr t"
  using assms by (auto simp: outcome_source_def)

lemma decision_result:
  "from_evaluation ev = Inr d \<Longrightarrow> d \<noteq> INDETERMINATE_DECISION \<Longrightarrow>
     ce_lifecycle ev = COMPLETED \<and> ce_logical_result ev = Some (if d = PASSED then PASS else FAIL)"
  by (cases "ce_lifecycle ev") (auto simp: from_evaluation_def split: option.splits logical_result.splits if_splits)

lemma latest_attempt_job:
  assumes "queue_ok d" "get_attempt_finished k d = Inr (Some a)"
  shows "\<exists>r\<in>set (db_jobs d). j_job_id r = k \<and> j_kind r = ''coding-agent'' \<and> j_status r = Completed"
proof -
  have a: "fa_job_id a = k" "storable_attempt a" using latest_attempt_lineage [OF assms] by simp_all
  with assms(2) have "recorded a d" using get_attempt_iff [OF assms(1) a(2)] by simp
  then obtain s where "s \<in> set (db_attempts d)" "t_job_id s = k" using a(1) by (auto simp: recorded_def)
  with queue_okD(5) [OF assms(1)] show ?thesis unfolding lineage_ok_def by metis
qed

lemma adjudication_verdict:
  assumes "evidence_adjudicate v adapter q = Inr adj" "verifier_values v" "wf_attempt (jq_job_result q)" "wf_profile (jq_profile q)"
    and "ce_lifecycle (jr_evaluation adj) = COMPLETED" "ce_logical_result (jr_evaluation adj) = Some verdict"
  obtains x res where "vf_execution_identity v = Inr x" "vf_execute v (final_request_of q x) = Inr res"
    "vf_read_receipt v (sv_receipt_artifact res) = Inr (sv_receipt res)"
    "validate_final_verification_bindings (final_request_of q x) res True = Inr ()"
    "evaluate_expression (ec_task_success (jq_contract q))
       (fact_valuation (jq_contract q) (receipt_facts (jq_producer_authority q) (vr_commands (sv_receipt res)))) = Inr verdict"
  using assms(1)
proof (rule evidence_adjudicate_Inr)
  fix x res
  assume facts: "vf_execution_identity v = Inr x" "vf_execute v (final_request_of q x) = Inr res"
      "vf_read_receipt v (sv_receipt_artifact res) = Inr (sv_receipt res)"
    and bound: "validate_final_verification_bindings (final_request_of q x) res True = Inr ()"
    and obs: "validate_final_command_observations (final_request_of q x) res (jr_observations adj) (jq_producer_authority q) = Inr ()"
    and ev: "evaluate_evidence_contract (jq_contract q) (jr_observations adj) DEFAULT_LIMITS = Inr (jr_evaluation adj)"
    and mk: "mk_bundle_request (final_request_of q x) = Inr (final_request_of q x)"
  have "wf_bundle_request (final_request_of q x)" by (rule final_request_of_wf [OF assms(2-4) facts(1) mk])
  from verdict_of_facts [OF bindings_names [OF bound this] obs ev assms(5)] assms(6) show thesis
    using facts bound by (intro that [of x res]) auto
qed

text \<open>
  C39. A published verdict means what it says. Start from a fresh database and let workers, producers and other services make
  any calls; then let the service adjudicate a job that had no outcome when it looked. If the outcome it publishes is PASSED (FAILED), then the job is a
  completed coding job, and the verifier, asked to verify exactly the output bundle recorded with the job's attempt, under the request's
  profile and run and its own identity, answered with a receipt which it also stores, and on the facts of that receipt the
  contract's success condition evaluates to PASS (FAIL). Nothing the agent reported, and no observation adapter, has a part in it.
\<close>

theorem passed_means_verified:
  assumes "control_step\<^sup>*\<^sup>* (snd (initialize empty_db)) s1" and "control_step\<^sup>*\<^sup>* s1 s2" and "control_step\<^sup>*\<^sup>* s2 s3"
    and "request_ok request" and "verifier_values v"
    and "adjudicate (sqlite_authority utc) (evidence_adjudicate v adapter) request s1 s2 s3 = (Inr t, s)"
    and "get_task_outcome (oq_job_id request) s2 = Inr None" and "to_decision t \<noteq> INDETERMINATE_DECISION"
  shows "\<exists>attempt x res. get_attempt_finished (oq_job_id request) s = Inr (Some attempt) \<and> to_attempt_digest t = attempt_digest attempt \<and>
     (\<exists>r\<in>set (db_jobs s). j_job_id r = oq_job_id request \<and> j_kind r = ''coding-agent'' \<and> j_status r = Completed) \<and>
     vf_execution_identity v = Inr x \<and>
     vf_execute v \<lparr>bq_run_id = oq_run_id request, bq_workspace_bundle = fa_output_bundle attempt, bq_profile = oq_profile request,
       bq_execution_identity = Some x, bq_schema_version = BUNDLE_REQUEST_V2\<rparr> = Inr res \<and>
     vf_read_receipt v (sv_receipt_artifact res) = Inr (sv_receipt res) \<and>
     evaluate_expression (ec_task_success (oq_contract request)) (fact_valuation (oq_contract request)
       (receipt_facts (oq_producer_authority request) (vr_commands (sv_receipt res)))) = Inr (if to_decision t = PASSED then PASS else FAIL)"
proof -
  have ok: "control_ok s1" using control.inv_run [OF assms(1)] start_control_ok by (simp add: start_db_def)
  have adj: "adjudicator_values (evidence_adjudicate v adapter)" by (rule evidence_adjudicate_values [OF assms(5)])
  obtain attempt where s: "control_ok s" and att: "get_attempt_finished (oq_job_id request) s = Inr (Some attempt)"
    and bound: "outcome_for request attempt t" and src: "outcome_source (sqlite_authority utc) (evidence_adjudicate v adapter) request s2 attempt t"
    using history.adjudicate_sound [OF ok assms(2,3,4) adj assms(6)] by auto
  have a: "fa_job_id attempt = oq_job_id request" "wf_attempt attempt"
    using latest_attempt_lineage [OF control_okD(1) [OF s] att] by (simp_all add: storable_attempt_def)
  obtain r where r: "evidence_adjudicate v adapter (adjudication_request_of request attempt) = Inr r" "build_outcome request attempt r = Inr t"
    using fresh_outcome [OF src assms(7)] .
  note built = build_outcome_ok [OF r(2) assms(4) adjudication_values [OF assms(4) a(2) adj r(1)]]
  then have res: "ce_lifecycle (jr_evaluation r) = COMPLETED" "ce_logical_result (jr_evaluation r) = Some (if to_decision t = PASSED then PASS else FAIL)"
    using decision_result [OF _ assms(8)] by blast+
  have q: "wf_attempt (jq_job_result (adjudication_request_of request attempt))" "wf_profile (jq_profile (adjudication_request_of request attempt))"
    using a assms(4) by (simp_all add: adjudication_request_of_def request_ok_def)
  have job: "\<exists>r\<in>set (db_jobs s). j_job_id r = oq_job_id request \<and> j_kind r = ''coding-agent'' \<and> j_status r = Completed"
    using latest_attempt_job [OF control_okD(1) [OF s] att] .
  have digest: "to_attempt_digest t = attempt_digest attempt" using bound by (auto simp: outcome_for_def dest: bound_fields(3))
  obtain x res where "vf_execution_identity v = Inr x" "vf_execute v (final_request_of (adjudication_request_of request attempt) x) = Inr res"
    "vf_read_receipt v (sv_receipt_artifact res) = Inr (sv_receipt res)"
    "evaluate_expression (ec_task_success (oq_contract request)) (fact_valuation (oq_contract request)
       (receipt_facts (oq_producer_authority request) (vr_commands (sv_receipt res)))) = Inr (if to_decision t = PASSED then PASS else FAIL)"
    using adjudication_verdict [OF r(1) assms(5) q res] unfolding adjudication_request_of_def evidence_adjudication_request.simps by metis
  with att digest job show ?thesis
    by (intro exI [of _ attempt] exI [of _ x] exI [of _ res] conjI) (simp_all add: final_request_of_def adjudication_request_of_def)
qed

theorem passed_means_verified_witness:
  "\<exists>t s res. adjudicate (sqlite_authority noon) (evidence_adjudicate sample_verifier ReceiptObservationAdapter) sample_outcome_request
       finished_db finished_db finished_db = (Inr t, s) \<and> to_decision t = PASSED \<and>
     vf_execute sample_verifier final_request = Inr res \<and>
     evaluate_expression (ec_task_success final_contract) (fact_valuation final_contract (receipt_facts ''harness'' (vr_commands (sv_receipt res)))) = Inr PASS"
proof -
  obtain t s where run: "adjudicate (sqlite_authority noon) sample_service sample_outcome_request finished_db finished_db finished_db = (Inr t, s)"
    "to_decision t = PASSED" by (rule sample_adjudicated)
  have start: "control_step\<^sup>*\<^sup>* (snd (initialize empty_db)) finished_db" using finished_control_run by (simp add: start_db_def)
  have "get_task_outcome (oq_job_id sample_outcome_request) finished_db = Inr None"
    by (simp add: get_task_outcome_def select_outcome_def finished_rows)
  from passed_means_verified [OF start rtranclp.rtrancl_refl rtranclp.rtrancl_refl sample_request_ok sample_verifier_values run(1) this] run
  show ?thesis by (auto simp: sample_outcome_request_def sample_verifier_def)
qed

end
